(* ===== verification/Prelude.thy ===== *)
theory Prelude
  imports Main "HOL-Library.Word"
begin

text \<open>
  Shared vocabulary of the development: the machine types of the Win32 build (BYTE, WORD,
  DWORD), little-endian loads and stores on byte lists, the result type for code that can
  read outside a buffer or dereference NULL, and the rewrite rules for bytes of a 32-bit
  register that the component theories use.
\<close>

unbundle bit_operations_syntax

named_theorems byte_simps
  \<open>bytes of a 32-bit word: projections of assembled words and of bitwise combinations\<close>

named_theorems bus_values
  \<open>the numeric ranges of event, message and service values\<close>

section \<open>Machine types\<close>

type_synonym u8 = "8 word"
type_synonym u16 = "16 word"
type_synonym u32 = "32 word"
type_synonym i32 = "32 word"
type_synonym wchar = "16 word"
type_synonym wstring = "wchar list"
type_synonym bytes = "u8 list"

text \<open>
  What the C++ does not define.  \<open>OutOfRange\<close>: an index outside a vector or an array;
  \<open>NullDeref\<close>: a member access through NULL; \<open>BadPointer\<close>: through a pointer to nothing;
  \<open>NoReturn\<close>: the call does not come back (the recursion or loop never ends).
\<close>

datatype fault = OutOfRange | NullDeref | BadPointer | NoReturn

type_synonym 'a outcome = "fault + 'a"

abbreviation ok :: "'a \<Rightarrow> 'a outcome" where
  "ok x \<equiv> Inr x"

definition obind :: "'a outcome \<Rightarrow> ('a \<Rightarrow> 'b outcome) \<Rightarrow> 'b outcome" where
  "obind m f = (case m of Inl e \<Rightarrow> Inl e | Inr x \<Rightarrow> f x)"

lemma obind_simps [simp]: "obind (Inl e) f = Inl e" "obind (Inr x) f = f x"
  by (simp_all add: obind_def)

lemma obind_eq_Inr_iff: "obind m f = Inr y \<longleftrightarrow> (\<exists>x. m = Inr x \<and> f x = Inr y)"
  by (cases m) auto

lemma obind_assoc: "obind (obind m f) g = obind m (\<lambda>x. obind (f x) g)"
  by (cases m) auto

text \<open>A loop over a list that stops at the first fault.\<close>

fun ofold :: "('a \<Rightarrow> 's \<Rightarrow> 's outcome) \<Rightarrow> 'a list \<Rightarrow> 's \<Rightarrow> 's outcome" where
  "ofold f [] s = Inr s"
| "ofold f (x # xs) s = obind (f x s) (ofold f xs)"

lemma ofold_append: "ofold f (xs @ ys) s = obind (ofold f xs s) (ofold f ys)"
proof (induction xs arbitrary: s)
  case (Cons x xs)
  then show ?case by (cases "f x s") auto
qed simp

lemma ofold_invariant:
  assumes "ofold f xs s = Inr t" and "P s"
    and step: "\<And>x s t. x \<in> set xs \<Longrightarrow> P s \<Longrightarrow> f x s = Inr t \<Longrightarrow> P t"
  shows "P t"
  using assms
proof (induction xs arbitrary: s)
  case Nil
  then show ?case by simp
next
  case (Cons x xs)
  from Cons.prems(1) obtain u where u: "f x s = Inr u" and rest: "ofold f xs u = Inr t"
    by (auto simp: obind_eq_Inr_iff)
  have "P u" using Cons.prems(3) [of x s u] Cons.prems(2) u by simp
  moreover have "\<And>y s t. y \<in> set xs \<Longrightarrow> P s \<Longrightarrow> f y s = Inr t \<Longrightarrow> P t"
    using Cons.prems(3) by (meson list.set_intros(2))
  ultimately show ?case using Cons.IH rest by blast
qed

section \<open>Signed 32-bit results\<close>

text \<open>Quantities the code keeps in an \<open>int\<close> are modelled as \<open>int\<close>; where a sum or shift can leave the
  range, the result is wrapped as the compiled code does.\<close>

definition wrap32 :: "int \<Rightarrow> int" where
  "wrap32 x = (x + 2 ^ 31) mod 2 ^ 32 - 2 ^ 31"

lemma wrap32_id: "- (2 ^ 31) \<le> x \<Longrightarrow> x < 2 ^ 31 \<Longrightarrow> wrap32 x = x"
  by (simp add: wrap32_def)

section \<open>Bytes of a 32-bit word\<close>

definition byte_at :: "nat \<Rightarrow> u32 \<Rightarrow> u8" where
  "byte_at k w = ucast (drop_bit (8 * k) w)"

definition mk32 :: "u8 \<Rightarrow> u8 \<Rightarrow> u8 \<Rightarrow> u8 \<Rightarrow> u32" where
  "mk32 b0 b1 b2 b3 =
     ucast b0 OR push_bit 8 (ucast b1) OR push_bit 16 (ucast b2) OR push_bit 24 (ucast b3)"

text \<open>A DWORD load at byte offset \<open>i\<close> and a DWORD store, little-endian as on x86.\<close>

definition ld32 :: "bytes \<Rightarrow> nat \<Rightarrow> u32" where
  "ld32 bs i = mk32 (bs ! i) (bs ! (i + 1)) (bs ! (i + 2)) (bs ! (i + 3))"

definition st32 :: "u32 \<Rightarrow> bytes" where
  "st32 w = [byte_at 0 w, byte_at 1 w, byte_at 2 w, byte_at 3 w]"

lemma word32_eqI: "(\<forall>n\<in>{..<32}. bit a n = bit b n) \<Longrightarrow> (a :: u32) = b"
  by (rule bit_word_eqI) simp

lemma byte_no_high_bit: "8 \<le> n \<Longrightarrow> \<not> bit (b :: u8) n"
  using bit_imp_le_length [of b n] by auto

lemma bit_byte_at: "bit (byte_at k w) n \<longleftrightarrow> n < 8 \<and> bit w (8 * k + n)"
  by (auto simp: byte_at_def bit_simps)

lemma bit_mk32:
  "bit (mk32 b0 b1 b2 b3) n \<longleftrightarrow>
     (if n < 8 then bit b0 n else if n < 16 then bit b1 (n - 8)
      else if n < 24 then bit b2 (n - 16) else n < 32 \<and> bit b3 (n - 24))"
proof (cases "n < 32")
  case True
  then have "n - 8 < 32" "n - 16 < 32" "n - 24 < 32" by auto
  with True show ?thesis
    by (simp add: mk32_def bit_simps byte_no_high_bit not_less)
next
  case False
  then show ?thesis by (simp add: mk32_def bit_simps)
qed

lemma byte_at_mk32 [byte_simps]:
  "byte_at 0 (mk32 b0 b1 b2 b3) = b0" "byte_at (Suc 0) (mk32 b0 b1 b2 b3) = b1"
  "byte_at 2 (mk32 b0 b1 b2 b3) = b2" "byte_at 3 (mk32 b0 b1 b2 b3) = b3"
  by (rule bit_word_eqI; simp add: bit_byte_at bit_mk32)+

lemma byte_at_xor [byte_simps]: "byte_at k (v XOR w) = byte_at k v XOR byte_at k w"
  by (rule bit_word_eqI) (auto simp add: bit_byte_at bit_simps)

lemma mk32_xor: "mk32 a b c d XOR mk32 e f g h = mk32 (a XOR e) (b XOR f) (c XOR g) (d XOR h)"
  by (rule bit_word_eqI) (simp add: bit_mk32 bit_simps)

lemma mk32_bytes [simp]: "mk32 (byte_at 0 w) (byte_at (Suc 0) w) (byte_at 2 w) (byte_at 3 w) = w"
  by (rule bit_word_eqI) (auto simp add: bit_byte_at bit_mk32)

lemma mk32_inject [simp]:
  "mk32 a b c d = mk32 a' b' c' d' \<longleftrightarrow> a = a' \<and> b = b' \<and> c = c' \<and> d = d'"
  by (metis byte_at_mk32)

lemma length_st32 [simp]: "length (st32 w) = 4"
  by (simp add: st32_def)

lemma ld32_st32 [simp]: "ld32 (st32 w @ bs) 0 = w"
  by (simp add: ld32_def st32_def)

lemma st32_ld32: "length bs = 4 \<Longrightarrow> st32 (ld32 bs 0) = bs"
proof -
  assume "length bs = 4"
  then obtain a b c d where "bs = [a, b, c, d]"
    by (auto simp: numeral_eq_Suc length_Suc_conv)
  then show ?thesis by (simp add: ld32_def st32_def byte_at_mk32)
qed

lemma st32_inject [simp]: "st32 v = st32 w \<longleftrightarrow> v = w"
  by (metis append_Nil2 ld32_st32)

text \<open>Register idioms of the compiler: shifts and masks that isolate one byte, and the
  rotate-and-mask sequence that reverses the byte order.\<close>

lemma and_FF: "w AND 0xFF = take_bit 8 (w :: u32)"
  by (simp add: take_bit_eq_mask mask_numeral)

lemma isolate_byte [byte_simps]:
  "w AND 0xFF = ucast (byte_at 0 w)"
  "drop_bit 8 w AND 0xFF = ucast (byte_at (Suc 0) w)"
  "drop_bit 0x10 w AND 0xFF = ucast (byte_at 2 w)"
  "drop_bit 0x18 w = ucast (byte_at 3 w)"
  unfolding and_FF
  by (rule bit_word_eqI; auto simp add: bit_byte_at bit_simps dest: bit_imp_le_length)+

lemma byte_at_drop_bit [byte_simps]:
  "byte_at 0 (drop_bit 8 w) = byte_at (Suc 0) w" "byte_at 0 (drop_bit 0x10 w) = byte_at 2 w"
  by (simp_all add: byte_at_def)

lemmas isolate = isolate_byte byte_at_drop_bit

lemma byte_swap:
  "(word_rotr 8 w AND 0xFF00FF00) OR (word_rotl 8 w AND 0xFF00FF) =
     mk32 (byte_at 3 w) (byte_at 2 w) (byte_at (Suc 0) w) (byte_at 0 w)"
  by (rule word32_eqI)
    (simp add: bit_byte_at bit_mk32 bit_simps lessThan_nat_numeral lessThan_Suc,
      simp add: numeral_2_eq_2)

lemma mk32_mask:
  "mk32 a b c d AND 0xFF0000 = mk32 0 0 c 0"
  "mk32 a b c d AND 0xFF00 = mk32 0 b 0 0"
  "mk32 a b c d AND 0xFF000000 = mk32 0 0 0 d"
  by (rule word32_eqI; simp add: bit_mk32 bit_simps lessThan_nat_numeral lessThan_Suc)+

lemma byte_at_ucast [byte_simps]:
  "byte_at 0 (ucast b) = b" "byte_at (Suc 0) (ucast b) = 0"
  "byte_at 2 (ucast b) = 0" "byte_at 3 (ucast b) = 0"
  for b :: u8
  by (rule bit_word_eqI; auto simp add: bit_byte_at bit_simps byte_no_high_bit)+

lemma unat_ucast_byte [simp]: "unat (ucast (b :: u8) :: u32) = unat b"
  by (simp add: unsigned_ucast_eq take_bit_nat_eq_self order_less_le_trans [OF unsigned_less])

lemma unat_byte_less [simp]: "unat (b :: u8) < 256"
  using unsigned_less [of b] by simp

section \<open>Lists of bytes\<close>

definition xor_bytes :: "bytes \<Rightarrow> bytes \<Rightarrow> bytes" where
  "xor_bytes xs ys = map2 (XOR) xs ys"

lemma length_xor_bytes [simp]: "length (xor_bytes xs ys) = min (length xs) (length ys)"
  by (simp add: xor_bytes_def)

lemma nth_xor_bytes:
  "i < length xs \<Longrightarrow> i < length ys \<Longrightarrow> xor_bytes xs ys ! i = xs ! i XOR ys ! i"
  by (simp add: xor_bytes_def)

lemma xor_bytes_twice: "length xs \<le> length ks \<Longrightarrow> xor_bytes (xor_bytes xs ks) ks = xs"
  by (rule nth_equalityI) (simp_all add: nth_xor_bytes xor.assoc)

lemma concat_quads_nth:
  assumes "i < length xs" and "\<And>x. length (f x) = 4" and "k < 4"
  shows "concat (map f xs) ! (4 * i + k) = f (xs ! i) ! k"
  using assms(1)
proof (induction xs arbitrary: i)
  case Nil
  then show ?case by simp
next
  case (Cons x xs)
  show ?case
  proof (cases i)
    case 0
    with assms show ?thesis by (simp add: nth_append)
  next
    case (Suc j)
    with Cons have "concat (map f xs) ! (4 * j + k) = f (xs ! j) ! k" by simp
    with Suc assms(2) show ?thesis by (simp add: nth_append)
  qed
qed

lemma ld32_concat:
  assumes "i < length xs" and "\<And>x. length (f x) = 4"
  shows "ld32 (concat (map f xs)) (4 * i) = ld32 (f (xs ! i)) 0"
  using concat_quads_nth [of i xs f 0] concat_quads_nth [of i xs f 1]
    concat_quads_nth [of i xs f 2] concat_quads_nth [of i xs f 3] assms
  by (simp add: ld32_def numeral_2_eq_2)

end
