(* ===== verification/Sogou_Asm.thy ===== *)
theory Sogou_Asm
  imports Sogou_Tables AES_Reference
begin

text \<open>
  The Sogou favourites file is a page-encrypted SQLite database;
  \<open>src/src/PlugIn/SogouPlugIn/Decoder.cpp\<close> decrypts and encrypts it.  The page key stream comes
  from hand-lifted x86 code, modelled here instruction by instruction: registers and the
  stack slots \<open>[esp+0x10]\<close> to \<open>[esp+0x24]\<close> are the fields of \<open>cpu\<close>, each instruction is one
  binding, and the segments between the labels are one definition each.  \<open>eax\<close> walks over the
  round keys and is kept as a byte offset into them; the frame instructions (\<open>push\<close>, \<open>pop\<close>,
  \<open>sub esp\<close>, the move of the two pointer arguments into \<open>ebx\<close> and \<open>ebp\<close>) only place the
  arguments and the slots.
\<close>

section \<open>The assembly of gen\_encode\_page\<close>

record cpu =
  eax :: nat
  ebx :: u32
  ecx :: u32
  edx :: u32
  esi :: u32
  edi :: u32
  s10 :: u32
  s14 :: u32
  s18 :: u32
  s1C :: u32
  s24 :: u32

text \<open>From the entry point to the first label inside the function: byte-swap the four input
  words, add the first round key, and run the first round.\<close>

definition asm_entry :: "bytes \<Rightarrow> bytes \<Rightarrow> cpu" where
  "asm_entry key inp =
     (let a = 0;
          c = ld32 inp 0; d = c; d = word_rotr 8 d; d = d AND 0xFF00FF00; c = word_rotl 8 c;
          c = c AND 0xFF00FF; d = d OR c; d = d XOR ld32 key a; c = ld32 inp 4; di = ld32 inp 8;
          b = ld32 inp 0xC; si = c; si = word_rotr 8 si; si = si AND 0xFF00FF00; c = word_rotl 8 c;
          c = c AND 0xFF00FF; si = si OR c; si = si XOR ld32 key (a + 4); c = di;
          c = word_rotr 8 c; c = c AND 0xFF00FF00; di = word_rotl 8 di; di = di AND 0xFF00FF;
          c = c OR di; c = c XOR ld32 key (a + 8); x10 = si; si = drop_bit 0x10 si;
          si = si AND 0xFF; x14 = c; di = b; di = word_rotr 8 di; di = di AND 0xFF00FF00;
          c = drop_bit 8 c AND 0xFF; c = ld32 tab_5B4618 (4 * unat c);
          c = c XOR ld32 tab_5B4218 (4 * unat si); b = word_rotl 8 b; b = b AND 0xFF00FF;
          di = di OR b; di = di XOR ld32 key (a + 0xC); x1C = di; di = di AND 0xFF; si = d;
          si = drop_bit 0x18 si; c = c XOR ld32 tab_5B3E18 (4 * unat si);
          si = drop_bit 8 x1C AND 0xFF; c = c XOR ld32 tab_5B4A18 (4 * unat di);
          si = ld32 tab_5B4618 (4 * unat si); di = x14; di = drop_bit 0x10 di; di = di AND 0xFF;
          si = si XOR ld32 tab_5B4218 (4 * unat di); di = x10; di = drop_bit 0x18 di;
          si = si XOR ld32 tab_5B3E18 (4 * unat di); c = c XOR ld32 key (a + 0x10); di = d;
          di = di AND 0xFF; si = si XOR ld32 tab_5B4A18 (4 * unat di); di = drop_bit 8 d AND 0xFF;
          si = si XOR ld32 key (a + 0x14); x24 = si; si = x1C; si = drop_bit 0x10 si;
          si = si AND 0xFF; si = ld32 tab_5B4218 (4 * unat si);
          si = si XOR ld32 tab_5B4618 (4 * unat di); di = x14; di = drop_bit 0x18 di;
          si = si XOR ld32 tab_5B3E18 (4 * unat di); di = x10; di = di AND 0xFF;
          si = si XOR ld32 tab_5B4A18 (4 * unat di); si = si XOR ld32 key (a + 0x18); x18 = si;
          si = drop_bit 8 x10 AND 0xFF; b = ld32 tab_5B4618 (4 * unat si); d = drop_bit 0x10 d;
          d = d AND 0xFF; b = b XOR ld32 tab_5B4218 (4 * unat d); d = x1C; d = drop_bit 0x18 d;
          b = b XOR ld32 tab_5B3E18 (4 * unat d); d = x14; d = d AND 0xFF;
          b = b XOR ld32 tab_5B4A18 (4 * unat d); di = 4; b = b XOR ld32 key (a + 0x1C);
          a = a + 0x20; x1C = b
      in \<lparr>eax = a, ebx = b, ecx = c, edx = d, esi = si, edi = di,
           s10 = x10, s14 = x14, s18 = x18, s1C = x1C, s24 = x24\<rparr>)"

text \<open>The loop body between \<open>sogouexp_004C1D20\<close> and the \<open>jnz\<close>: two rounds.\<close>

definition asm_body :: "bytes \<Rightarrow> cpu \<Rightarrow> cpu" where
  "asm_body key m =
     (let a = eax m; b = ebx m; c = ecx m; d = edx m; si = esi m; di = edi m;
          x10 = s10 m; x14 = s14 m; x18 = s18 m; x1C = s1C m; x24 = s24 m;
          d = drop_bit 8 x18 AND 0xFF; si = x24; d = ld32 tab_5B4618 (4 * unat d);
          si = drop_bit 0x10 si; si = si AND 0xFF; d = d XOR ld32 tab_5B4218 (4 * unat si);
          b = b AND 0xFF; si = c; si = drop_bit 0x18 si; d = d XOR ld32 tab_5B3E18 (4 * unat si);
          si = drop_bit 8 x1C AND 0xFF; d = d XOR ld32 tab_5B4A18 (4 * unat b);
          si = ld32 tab_5B4618 (4 * unat si); b = x18; b = drop_bit 0x10 b; b = b AND 0xFF;
          si = si XOR ld32 tab_5B4218 (4 * unat b); b = x24; b = drop_bit 0x18 b;
          si = si XOR ld32 tab_5B3E18 (4 * unat b); b = c; b = b AND 0xFF;
          si = si XOR ld32 tab_5B4A18 (4 * unat b); b = drop_bit 8 c AND 0xFF;
          si = si XOR ld32 key (a + 4); d = d XOR ld32 key a; x10 = si; si = x1C;
          si = drop_bit 0x10 si; si = si AND 0xFF; si = ld32 tab_5B4218 (4 * unat si);
          si = si XOR ld32 tab_5B4618 (4 * unat b); b = x24; x14 = si; si = x18;
          si = drop_bit 0x18 si; si = ld32 tab_5B3E18 (4 * unat si); x14 = x14 XOR si; si = x14;
          b = b AND 0xFF; si = si XOR ld32 tab_5B4A18 (4 * unat b); c = drop_bit 0x10 c;
          si = si XOR ld32 key (a + 8); c = c AND 0xFF; x14 = si; si = drop_bit 8 x24 AND 0xFF;
          b = ld32 tab_5B4618 (4 * unat si); b = b XOR ld32 tab_5B4218 (4 * unat c); c = x1C;
          si = x10; c = drop_bit 0x18 c; b = b XOR ld32 tab_5B3E18 (4 * unat c); c = x18;
          c = c AND 0xFF; b = b XOR ld32 tab_5B4A18 (4 * unat c); c = drop_bit 8 x14 AND 0xFF;
          b = b XOR ld32 key (a + 0xC); c = ld32 tab_5B4618 (4 * unat c); si = drop_bit 0x10 si;
          si = si AND 0xFF; c = c XOR ld32 tab_5B4218 (4 * unat si); si = d; si = drop_bit 0x18 si;
          c = c XOR ld32 tab_5B3E18 (4 * unat si); si = b; si = si AND 0xFF;
          c = c XOR ld32 tab_5B4A18 (4 * unat si); si = drop_bit 8 b AND 0xFF;
          si = ld32 tab_5B4618 (4 * unat si); c = c XOR ld32 key (a + 0x10); x1C = b; b = x14;
          b = drop_bit 0x10 b; b = b AND 0xFF; si = si XOR ld32 tab_5B4218 (4 * unat b); b = x10;
          b = drop_bit 0x18 b; si = si XOR ld32 tab_5B3E18 (4 * unat b); b = d; b = b AND 0xFF;
          si = si XOR ld32 tab_5B4A18 (4 * unat b); si = si XOR ld32 key (a + 0x14);
          b = drop_bit 8 d AND 0xFF; x24 = si; si = x1C; si = drop_bit 0x10 si; si = si AND 0xFF;
          si = ld32 tab_5B4218 (4 * unat si); si = si XOR ld32 tab_5B4618 (4 * unat b); b = x14;
          b = drop_bit 0x18 b; si = si XOR ld32 tab_5B3E18 (4 * unat b); b = x10; b = b AND 0xFF;
          si = si XOR ld32 tab_5B4A18 (4 * unat b); d = drop_bit 0x10 d;
          si = si XOR ld32 key (a + 0x18); d = d AND 0xFF; x18 = si; si = drop_bit 8 x10 AND 0xFF;
          b = ld32 tab_5B4618 (4 * unat si); b = b XOR ld32 tab_5B4218 (4 * unat d); d = x1C;
          d = drop_bit 0x18 d; b = b XOR ld32 tab_5B3E18 (4 * unat d); d = x14; d = d AND 0xFF;
          b = b XOR ld32 tab_5B4A18 (4 * unat d); a = a + 0x20; b = b XOR ld32 key (a - 4);
          di = di - 1; x1C = b
      in \<lparr>eax = a, ebx = b, ecx = c, edx = d, esi = si, edi = di,
           s10 = x10, s14 = x14, s18 = x18, s1C = x1C, s24 = x24\<rparr>)"

text \<open>The \<open>jnz\<close> looks at the result of \<open>sub edi, 1\<close>: the body runs until \<open>edi\<close> is 0.\<close>

function asm_loop :: "bytes \<Rightarrow> cpu \<Rightarrow> cpu" where
  "asm_loop key m =
     (let m' = asm_body key m in if edi m' = 0 then m' else asm_loop key m')"
  by pat_completeness auto

lemma asm_body_edi [simp]: "edi (asm_body key m) = edi m - 1"
  by (simp add: asm_body_def Let_def)

lemma word_pred_less: "(w :: u32) \<noteq> 0 \<Longrightarrow> unat (w - 1) < unat w"
  by (simp add: unat_minus_one unat_gt_0)

termination asm_loop
proof (relation "measure (\<lambda>(key, m). unat (edi m - 1))")
  fix key m m'
  assume "m' = asm_body key m" and "edi m' \<noteq> 0"
  then show "((key, m'), (key, m)) \<in> measure (\<lambda>(key, m). unat (edi m - 1))"
    using word_pred_less [of "edi m'"] by simp
qed simp

declare asm_loop.simps [simp del]

text \<open>After the loop: the last round, without MixColumns, byte-swapped into the four words
  stored through \<open>ebp\<close>.\<close>

definition asm_final :: "bytes \<Rightarrow> cpu \<Rightarrow> u32 \<times> u32 \<times> u32 \<times> u32" where
  "asm_final key m =
     (let a = eax m; b = ebx m; c = ecx m; d = edx m; si = esi m; di = edi m;
          x10 = s10 m; x14 = s14 m; x18 = s18 m; x1C = s1C m; x24 = s24 m;
          d = x24; d = drop_bit 0x10 d; d = d AND 0xFF; si = ld32 tab_5B4E18 (4 * unat d); d = x18;
          di = drop_bit 8 d AND 0xFF; di = ld32 tab_5B4E18 (4 * unat di); si = si AND 0xFF0000;
          di = di AND 0xFF00; si = si XOR di; d = drop_bit 0x10 d; di = c; di = drop_bit 0x18 di;
          di = ld32 tab_5B4E18 (4 * unat di); di = di AND 0xFF000000; si = si XOR di;
          d = d AND 0xFF; di = b; di = di AND 0xFF; di = ucast (tab_5B4E18 ! (4 * unat di));
          si = si XOR di; si = si XOR ld32 key a; di = si; di = word_rotr 8 di;
          di = di AND 0xFF00FF00; si = word_rotl 8 si; si = si AND 0xFF00FF; di = di OR si;
          o0 = di; si = ld32 tab_5B4E18 (4 * unat d); si = si AND 0xFF0000;
          d = drop_bit 8 b AND 0xFF; d = ld32 tab_5B4E18 (4 * unat d); d = d AND 0xFF00;
          si = si XOR d; d = x24; d = drop_bit 0x18 d; d = ld32 tab_5B4E18 (4 * unat d);
          d = d AND 0xFF000000; si = si XOR d; d = c; d = d AND 0xFF;
          d = ucast (tab_5B4E18 ! (4 * unat d)); si = si XOR d; si = si XOR ld32 key (a + 4);
          d = si; d = word_rotr 8 d; d = d AND 0xFF00FF00; si = word_rotl 8 si;
          si = si AND 0xFF00FF; d = d OR si; o1 = d; d = b; d = drop_bit 0x10 d; d = d AND 0xFF;
          si = ld32 tab_5B4E18 (4 * unat d); d = drop_bit 8 c AND 0xFF;
          d = ld32 tab_5B4E18 (4 * unat d); d = d AND 0xFF00; si = si AND 0xFF0000; si = si XOR d;
          d = x18; d = drop_bit 0x18 d; d = ld32 tab_5B4E18 (4 * unat d); d = d AND 0xFF000000;
          si = si XOR d; d = x24; d = d AND 0xFF; d = ucast (tab_5B4E18 ! (4 * unat d));
          si = si XOR d; si = si XOR ld32 key (a + 8); c = drop_bit 0x10 c; d = si;
          d = word_rotr 8 d; d = d AND 0xFF00FF00; si = word_rotl 8 si; si = si AND 0xFF00FF;
          d = d OR si; c = c AND 0xFF; o2 = d; c = ld32 tab_5B4E18 (4 * unat c);
          d = drop_bit 8 x24 AND 0xFF; d = ld32 tab_5B4E18 (4 * unat d); d = d AND 0xFF00;
          c = c AND 0xFF0000; c = c XOR d; b = drop_bit 0x18 b; d = ld32 tab_5B4E18 (4 * unat b);
          d = d AND 0xFF000000; c = c XOR d; d = x18; d = d AND 0xFF;
          d = ucast (tab_5B4E18 ! (4 * unat d)); c = c XOR d; c = c XOR ld32 key (a + 0xC); a = c;
          a = word_rotr 8 a; a = a AND 0xFF00FF00; c = word_rotl 8 c; c = c AND 0xFF00FF;
          a = a OR c; o3 = a
      in (o0, o1, o2, o3))"

definition gen_encode_page :: "bytes \<Rightarrow> bytes \<Rightarrow> bytes" where
  "gen_encode_page key inp =
     (let (o0, o1, o2, o3) = asm_final key (asm_loop key (asm_entry key inp))
      in st32 o0 @ st32 o1 @ st32 o2 @ st32 o3)"

section \<open>The assembly computes table rounds\<close>

text \<open>The four columns of the cipher state between rounds live in \<open>ecx\<close>, \<open>[esp+0x24]\<close>,
  \<open>[esp+0x18]\<close> and \<open>[esp+0x1C]\<close>.\<close>

type_synonym columns = "u32 \<times> u32 \<times> u32 \<times> u32"

definition cols :: "cpu \<Rightarrow> columns" where
  "cols m = (ecx m, s24 m, s18 m, s1C m)"

definition tcol :: "u32 \<Rightarrow> u32 \<Rightarrow> u32 \<Rightarrow> u32 \<Rightarrow> u32 \<Rightarrow> u32" where
  "tcol w0 w1 w2 w3 k =
     ld32 tab_5B3E18 (4 * unat (byte_at 3 w0)) XOR ld32 tab_5B4218 (4 * unat (byte_at 2 w1)) XOR
     ld32 tab_5B4618 (4 * unat (byte_at 1 w2)) XOR ld32 tab_5B4A18 (4 * unat (byte_at 0 w3)) XOR k"

definition tround :: "bytes \<Rightarrow> nat \<Rightarrow> columns \<Rightarrow> columns" where
  "tround key off ws =
     (case ws of (w0, w1, w2, w3) \<Rightarrow>
       (tcol w0 w1 w2 w3 (ld32 key off), tcol w1 w2 w3 w0 (ld32 key (off + 4)),
        tcol w2 w3 w0 w1 (ld32 key (off + 8)), tcol w3 w0 w1 w2 (ld32 key (off + 12))))"

lemma asm_body_rounds:
  assumes "ebx m = s1C m"
  shows "cols (asm_body key m) = tround key (eax m + 16) (tround key (eax m) (cols m))"
  unfolding asm_body_def Let_def isolate
  by (simp add: assms cols_def tround_def tcol_def ac_simps)

lemma asm_body_frame:
  "eax (asm_body key m) = eax m + 32" "ebx (asm_body key m) = s1C (asm_body key m)"
  by (simp_all add: asm_body_def Let_def)

definition swap_in :: "bytes \<Rightarrow> nat \<Rightarrow> u32" where
  "swap_in inp i = mk32 (inp ! (i + 3)) (inp ! (i + 2)) (inp ! (i + 1)) (inp ! i)"

lemma ld32_swap:
  "(word_rotr 8 (ld32 inp i) AND 0xFF00FF00) OR (word_rotl 8 (ld32 inp i) AND 0xFF00FF) = swap_in inp i"
  unfolding byte_swap by (simp add: ld32_def byte_at_mk32 swap_in_def)

definition tstart :: "bytes \<Rightarrow> bytes \<Rightarrow> columns" where
  "tstart key inp =
     (swap_in inp 0 XOR ld32 key 0, swap_in inp 4 XOR ld32 key 4,
      swap_in inp 8 XOR ld32 key 8, swap_in inp 12 XOR ld32 key 12)"

lemma asm_entry_rounds: "cols (asm_entry key inp) = tround key 16 (tstart key inp)"
  unfolding asm_entry_def Let_def ld32_swap isolate
  by (simp add: cols_def tround_def tcol_def tstart_def ac_simps)

lemma asm_entry_frame:
  "eax (asm_entry key inp) = 32" "edi (asm_entry key inp) = 4"
  "ebx (asm_entry key inp) = s1C (asm_entry key inp)"
  by (simp_all add: asm_entry_def Let_def)

lemma asm_loop_last: "edi m = 1 \<Longrightarrow> asm_loop key m = asm_body key m"
  by (simp add: asm_loop.simps [of key m] Let_def)

lemma asm_loop_next: "edi m \<noteq> 1 \<Longrightarrow> asm_loop key m = asm_loop key (asm_body key m)"
  by (simp add: asm_loop.simps [of key m] Let_def)

lemma asm_loop_4:
  assumes "edi m = 4"
  shows "asm_loop key m = asm_body key (asm_body key (asm_body key (asm_body key m)))"
  using assms by (simp add: asm_loop_next asm_loop_last)

text \<open>The whole assembly as rounds: one at entry, eight in the loop.\<close>

lemma asm_loop_rounds:
  "cols (asm_loop key (asm_entry key inp)) =
     fold (\<lambda>i. tround key (16 * i)) [1..<10] (tstart key inp)"
  "eax (asm_loop key (asm_entry key inp)) = 160"
  "ebx (asm_loop key (asm_entry key inp)) = s1C (asm_loop key (asm_entry key inp))"
  by (simp_all add: asm_loop_4 asm_entry_frame asm_body_frame asm_body_rounds asm_entry_rounds
      upt_rec numeral_eq_Suc)

section \<open>The tables are the S-box and its multiples\<close>

lemma tab_5B4E18_sbox: "tab_5B4E18 = concat (map (\<lambda>s. [s, s, s, s]) sbox_table)"
  by (simp add: tab_5B4E18_def sbox_table_def)

lemma tab_5B4618_sbox:
  "tab_5B4618 = concat (map (\<lambda>s. [s, xtime s, xtime s XOR s, s]) sbox_table)"
  by code_simp

lemma tab_5B4218_sbox:
  "tab_5B4218 = concat (map (\<lambda>s. [s, s, xtime s, xtime s XOR s]) sbox_table)"
  by code_simp

lemma tab_5B4A18_sbox:
  "tab_5B4A18 = concat (map (\<lambda>s. [xtime s, xtime s XOR s, s, s]) sbox_table)"
  by code_simp

lemma tab_5B3E18_sbox:
  "tab_5B3E18 = concat (map (\<lambda>s. [xtime s XOR s, s, s, xtime s]) sbox_table)"
  by code_simp

lemma table_lookup:
  "ld32 tab_5B4618 (4 * unat b) =
     mk32 (sub_byte b) (xtime (sub_byte b)) (xtime (sub_byte b) XOR sub_byte b) (sub_byte b)"
  "ld32 tab_5B4218 (4 * unat b) =
     mk32 (sub_byte b) (sub_byte b) (xtime (sub_byte b)) (xtime (sub_byte b) XOR sub_byte b)"
  "ld32 tab_5B4A18 (4 * unat b) =
     mk32 (xtime (sub_byte b)) (xtime (sub_byte b) XOR sub_byte b) (sub_byte b) (sub_byte b)"
  "ld32 tab_5B3E18 (4 * unat b) =
     mk32 (xtime (sub_byte b) XOR sub_byte b) (sub_byte b) (sub_byte b) (xtime (sub_byte b))"
  "ld32 tab_5B4E18 (4 * unat b) = mk32 (sub_byte b) (sub_byte b) (sub_byte b) (sub_byte b)"
  unfolding tab_5B4618_sbox tab_5B4218_sbox tab_5B4A18_sbox tab_5B3E18_sbox tab_5B4E18_sbox
  by (simp_all add: ld32_concat sub_byte_def) (simp_all add: ld32_def sub_byte_def)

lemma table_byte: "tab_5B4E18 ! (4 * unat b) = sub_byte b"
  using concat_quads_nth [of "unat b" sbox_table "\<lambda>s. [s, s, s, s]" 0]
  by (simp add: tab_5B4E18_sbox sub_byte_def)

section \<open>Table rounds are AES rounds\<close>

definition be_bytes :: "u32 \<Rightarrow> bytes" where
  "be_bytes w = [byte_at 3 w, byte_at 2 w, byte_at (Suc 0) w, byte_at 0 w]"

definition state_of :: "columns \<Rightarrow> bytes" where
  "state_of ws = (case ws of (w0, w1, w2, w3) \<Rightarrow> be_bytes w0 @ be_bytes w1 @ be_bytes w2 @ be_bytes w3)"

definition round_key :: "bytes \<Rightarrow> nat \<Rightarrow> bytes" where
  "round_key key i =
     state_of (ld32 key (16 * i), ld32 key (16 * i + 4), ld32 key (16 * i + 8), ld32 key (16 * i + 12))"

lemma be_bytes_tcol:
  "be_bytes (tcol w0 w1 w2 w3 k) =
     xor_bytes (mix_column (sub_byte (byte_at 3 w0)) (sub_byte (byte_at 2 w1))
       (sub_byte (byte_at (Suc 0) w2)) (sub_byte (byte_at 0 w3))) (be_bytes k)"
  by (simp add: be_bytes_def tcol_def table_lookup byte_at_xor byte_at_mk32 mix_column_def
      xor_bytes_def ac_simps)

lemma xor_bytes_append:
  "length xs = length ks \<Longrightarrow> xor_bytes (xs @ ys) (ks @ ls) = xor_bytes xs ks @ xor_bytes ys ls"
  by (simp add: xor_bytes_def)

lemma length_mix_column [simp]: "length (mix_column a b c d) = 4"
  by (simp add: mix_column_def)

lemma length_be_bytes [simp]: "length (be_bytes w) = 4"
  by (simp add: be_bytes_def)

lemma tround_aes: "state_of (tround key (16 * i) ws) = aes_round (round_key key i) (state_of ws)"
proof -
  obtain w0 w1 w2 w3 where ws: "ws = (w0, w1, w2, w3)" by (cases ws) auto
  have "mix_columns (shift_rows (sub_bytes (state_of ws))) =
      mix_column (sub_byte (byte_at 3 w0)) (sub_byte (byte_at 2 w1))
        (sub_byte (byte_at (Suc 0) w2)) (sub_byte (byte_at 0 w3)) @
      mix_column (sub_byte (byte_at 3 w1)) (sub_byte (byte_at 2 w2))
        (sub_byte (byte_at (Suc 0) w3)) (sub_byte (byte_at 0 w0)) @
      mix_column (sub_byte (byte_at 3 w2)) (sub_byte (byte_at 2 w3))
        (sub_byte (byte_at (Suc 0) w0)) (sub_byte (byte_at 0 w1)) @
      mix_column (sub_byte (byte_at 3 w3)) (sub_byte (byte_at 2 w0))
        (sub_byte (byte_at (Suc 0) w1)) (sub_byte (byte_at 0 w2))"
    by (simp add: ws state_of_def be_bytes_def sub_bytes_def shift_rows_def mix_columns_def)
  then show ?thesis
    by (simp add: ws aes_round_def tround_def state_of_def round_key_def be_bytes_tcol
        xor_bytes_append)
qed

lemma fold_tround_aes:
  "state_of (fold (\<lambda>i. tround key (16 * i)) is ws) =
     fold (\<lambda>i. aes_round (round_key key i)) is (state_of ws)"
  by (induction "is" arbitrary: ws) (simp_all add: tround_aes)

lemma length16E:
  assumes "length xs = 16"
  obtains a b c d e f g h i j k l m n p q where "xs = [a,b,c,d,e,f,g,h,i,j,k,l,m,n,p,q]"
  using assms by (auto simp: numeral_eq_Suc length_Suc_conv)

lemma tstart_aes:
  assumes "length inp = 16"
  shows "state_of (tstart key inp) = xor_bytes inp (round_key key 0)"
  using assms
  by (elim length16E)
    (simp add: state_of_def tstart_def be_bytes_def swap_in_def byte_at_xor byte_at_mk32
      round_key_def xor_bytes_def)

text \<open>The last round, and the byte swap on the way out.\<close>

definition fcol :: "u32 \<Rightarrow> u32 \<Rightarrow> u32 \<Rightarrow> u32 \<Rightarrow> u32 \<Rightarrow> u32" where
  "fcol w0 w1 w2 w3 k =
     mk32 (sub_byte (byte_at 3 w0) XOR byte_at 3 k) (sub_byte (byte_at 2 w1) XOR byte_at 2 k)
       (sub_byte (byte_at (Suc 0) w2) XOR byte_at (Suc 0) k) (sub_byte (byte_at 0 w3) XOR byte_at 0 k)"

lemma asm_final_cols:
  assumes "ebx m = s1C m" and "cols m = (w0, w1, w2, w3)"
  shows "asm_final key m =
    (fcol w0 w1 w2 w3 (ld32 key (eax m)), fcol w1 w2 w3 w0 (ld32 key (eax m + 4)),
     fcol w2 w3 w0 w1 (ld32 key (eax m + 8)), fcol w3 w0 w1 w2 (ld32 key (eax m + 12)))"
proof -
  from assms(2) have w: "ecx m = w0" "s24 m = w1" "s18 m = w2" "s1C m = w3"
    by (simp_all add: cols_def)
  show ?thesis
    unfolding asm_final_def Let_def isolate byte_swap unat_ucast_byte assms(1) w
      table_byte table_lookup mk32_mask byte_at_xor byte_at_mk32 byte_at_ucast fcol_def
    by simp
qed

lemma st32_fcol:
  "st32 (fcol w0 w1 w2 w3 k) =
     xor_bytes [sub_byte (byte_at 3 w0), sub_byte (byte_at 2 w1), sub_byte (byte_at (Suc 0) w2),
       sub_byte (byte_at 0 w3)] (be_bytes k)"
  by (simp add: st32_def fcol_def byte_at_mk32 be_bytes_def xor_bytes_def)

lemma gen_encode_page_final:
  assumes "ebx m = s1C m" and "eax m = 160"
  shows "(let (o0, o1, o2, o3) = asm_final key m in st32 o0 @ st32 o1 @ st32 o2 @ st32 o3) =
    aes_final (round_key key 10) (state_of (cols m))"
proof -
  obtain w0 w1 w2 w3 where w: "cols m = (w0, w1, w2, w3)" by (cases "cols m") auto
  show ?thesis
    by (simp add: asm_final_cols [OF assms(1) w] assms(2) st32_fcol w aes_final_def state_of_def
        be_bytes_def sub_bytes_def shift_rows_def round_key_def xor_bytes_def)
qed

text \<open>For any 16 input bytes and any 176 key bytes the assembly is AES encryption with the
  round keys stored there, every word of them in reversed byte order.\<close>

lemma gen_encode_page_aes:
  assumes "length inp = 16"
  shows "gen_encode_page key inp = aes_encrypt (round_key key) inp"
  unfolding gen_encode_page_def
  by (subst gen_encode_page_final)
    (simp_all add: asm_loop_rounds fold_tround_aes tstart_aes [OF assms] aes_encrypt_def)

end
