(* ===== verification/Sogou_Decoder.thy ===== *)
theory Sogou_Decoder
  imports Sogou_Asm
begin

text \<open>
  The page cipher of \<open>src/src/PlugIn/SogouPlugIn/Decoder.cpp\<close> on top of the assembly:
  \<open>calc_encode_page\<close> with its baked-in round keys, the per-page key stream, and the file level
  \<open>decode\<close> and \<open>encode\<close>.  Shown here: the key stream is AES-128 in output feedback mode, the
  two directions are the same involution page by page, and decoding an encoded file gives the
  content back.
\<close>

section \<open>calc\_encode\_page: the fixed key\<close>

definition calc_encode_page :: "bytes \<Rightarrow> bytes" where
  "calc_encode_page Array1 = gen_encode_page InitArray2 Array1"

text \<open>The AES key hidden in \<open>InitArray2\<close>.\<close>

definition sogou_key :: bytes where
  "sogou_key = [0x14, 0x00, 0x00, 0x00, 0x38, 0x5F, 0xDD, 0xE8,
                0x8F, 0xAB, 0x5B, 0xC0, 0xBC, 0x59, 0x25, 0xB0]"

lemma key_schedule_list: "map (round_key InitArray2) [0..<11] = key_expansion 10 1 sogou_key"
  by code_simp

lemma key_schedule: "i < 11 \<Longrightarrow> round_key InitArray2 i = key_expansion 10 1 sogou_key ! i"
  using arg_cong [OF key_schedule_list, of "\<lambda>xs. xs ! i"] by simp

lemma aes_encrypt_cong:
  assumes "\<And>i. i < 11 \<Longrightarrow> rk i = rk' i"
  shows "aes_encrypt rk b = aes_encrypt rk' b"
  unfolding aes_encrypt_def using assms
  by (intro arg_cong2 [where f = aes_final] fold_cong arg_cong2 [where f = xor_bytes]) auto

lemma length_aes_encrypt:
  assumes "length (rk 10) = 16"
  shows "length (aes_encrypt rk b) = 16"
  using assms by (simp add: aes_encrypt_def aes_final_def shift_rows_def)

lemma length_round_key [simp]: "length (round_key key i) = 16"
  by (simp add: round_key_def state_of_def)

lemma length_calc_encode_page [simp]:
  "length iv = 16 \<Longrightarrow> length (calc_encode_page iv) = 16"
  by (simp add: calc_encode_page_def gen_encode_page_aes length_aes_encrypt)

lemma calc_encode_page_aes128:
  assumes "length iv = 16"
  shows "calc_encode_page iv = aes128 sogou_key iv"
  unfolding calc_encode_page_def aes128_def gen_encode_page_aes [OF assms]
  by (rule aes_encrypt_cong) (rule key_schedule)

text \<open>C1: The x86 code behind \<open>calc_encode_page\<close> (five lookup tables, ten unrolled rounds, an
  expanded key baked into the program) is AES-128 encryption of the 16-byte input under the
  key \<open>sogou_key\<close>, as FIPS 197 defines it.\<close>

theorem calc_encode_page_is_aes128:
  assumes "length iv = 16"
  shows "calc_encode_page iv = aes128 sogou_key iv"
  using assms by (rule calc_encode_page_aes128)

theorem calc_encode_page_is_aes128_witness:
  "calc_encode_page (replicate 16 0) = aes128 sogou_key (replicate 16 0)"
  by (rule calc_encode_page_is_aes128) simp

section \<open>Pages\<close>

text \<open>The first \<open>n\<close> 16-byte blocks written to \<open>encode_page\<close>: each block is computed from the
  one before, the first from \<open>init_array\<close>.\<close>

fun key_stream :: "nat \<Rightarrow> bytes \<Rightarrow> bytes" where
  "key_stream 0 init_array = []"
| "key_stream (Suc n) init_array =
     (let pt = calc_encode_page init_array in pt @ key_stream n pt)"

text \<open>\<open>init_array\<close> for a page: the page number in the first DWORD, then the last \<open>key_size\<close>
  bytes of the page, then zeros.\<close>

definition PAGE_SIZE :: nat where
  "PAGE_SIZE = 1024"

lemma PAGE_SIZE_pos [simp]: "0 < PAGE_SIZE"
  by (simp add: PAGE_SIZE_def)

definition page_init :: "nat \<Rightarrow> nat \<Rightarrow> bytes \<Rightarrow> bytes" where
  "page_init page_index key_size page_content =
     st32 (of_nat (page_index + 1)) @
     (if key_size = 0 then replicate 12 0
      else take key_size (drop (PAGE_SIZE - key_size) page_content) @
        (if key_size < 12 then replicate (12 - key_size) 0 else []))"

definition crypt_page :: "nat \<Rightarrow> nat \<Rightarrow> bytes \<Rightarrow> bytes" where
  "crypt_page page_index key_size page_content =
     (let encode_page = key_stream 64 (page_init page_index key_size page_content);
          page = xor_bytes (take (PAGE_SIZE - key_size) page_content) encode_page @
                 drop (PAGE_SIZE - key_size) page_content
      in if page_index = 0
         then take 16 page @ xor_bytes (take 8 (drop 16 page)) (take 8 (drop 16 encode_page)) @
              drop 24 page
         else page)"

text \<open>The page loop.  A rest shorter than a page is left alone; more than 12 key bytes would be
  copied past the end of the 16-byte \<open>init_array\<close>.\<close>

function crypt_pages :: "nat \<Rightarrow> nat \<Rightarrow> bytes \<Rightarrow> bytes outcome" where
  "crypt_pages page_index key_size buf =
     (if length buf < PAGE_SIZE then Inr buf
      else if 12 < key_size then Inl OutOfRange
      else obind (crypt_pages (page_index + 1) key_size (drop PAGE_SIZE buf))
             (\<lambda>rest. Inr (crypt_page page_index key_size (take PAGE_SIZE buf) @ rest)))"
  by pat_completeness auto
termination
proof (relation "measure (\<lambda>(page_index, key_size, buf). length buf)")
  fix page_index key_size :: nat and buf :: bytes
  assume "\<not> length buf < PAGE_SIZE"
  moreover have "0 < PAGE_SIZE" by simp
  ultimately have "length buf - PAGE_SIZE < length buf" by linarith
  then show "((page_index + 1, key_size, drop PAGE_SIZE buf), page_index, key_size, buf)
      \<in> measure (\<lambda>(page_index, key_size, buf). length buf)" by simp
qed simp

declare crypt_pages.simps [simp del]

text \<open>Files: a map from paths to contents, and which paths can be opened for writing.  Byte 20
  of the buffer is read without a length check; \<open>fwrite\<close> to a file that could not be opened
  goes through a NULL handle.\<close>

type_synonym filesystem = "string \<Rightarrow> bytes option"

definition decode :: "(string \<Rightarrow> bool) \<Rightarrow> filesystem \<Rightarrow> string \<Rightarrow> (int \<times> bytes \<times> filesystem) outcome"
where
  "decode can_write fs file_path =
     (case fs file_path of
        None \<Rightarrow> Inr (-1, [], fs)
      | Some file_buffer \<Rightarrow>
          if length file_buffer \<le> 20 then Inl OutOfRange
          else obind (crypt_pages 0 (unat (file_buffer ! 20)) file_buffer) (\<lambda>buf.
            if \<not> can_write ''a.db'' then Inl NullDeref
            else Inr (0, buf, fs(''a.db'' \<mapsto> buf))))"

definition encode :: "(string \<Rightarrow> bool) \<Rightarrow> filesystem \<Rightarrow> bytes \<Rightarrow> string \<Rightarrow> (int \<times> filesystem) outcome"
where
  "encode can_write fs encode_content save_path =
     (if length encode_content = 0 then Inr (-1, fs)
      else if length encode_content \<le> 20 then Inl OutOfRange
      else obind (crypt_pages 0 (unat (encode_content ! 20)) encode_content) (\<lambda>buf.
        if \<not> can_write save_path then Inl NullDeref
        else Inr (0, fs(save_path \<mapsto> buf))))"

section \<open>The page transformation is an involution\<close>

text \<open>What the page code needs of a block generator: 16 bytes in, 16 bytes out.  The locale
  carries the argument for any generator; the program's own is the interpretation below.\<close>

locale block_generator =
  fixes gen :: "bytes \<Rightarrow> bytes"
  assumes length_gen: "length iv = 16 \<Longrightarrow> length (gen iv) = 16"
begin

primrec blocks :: "nat \<Rightarrow> bytes \<Rightarrow> bytes" where
  "blocks 0 iv = []"
| "blocks (Suc n) iv = gen iv @ blocks n (gen iv)"

lemma length_funpow_gen: "length iv = 16 \<Longrightarrow> length ((gen ^^ n) iv) = 16"
  by (induction n) (auto simp: length_gen)

lemma length_blocks: "length iv = 16 \<Longrightarrow> length (blocks n iv) = 16 * n"
  by (induction n arbitrary: iv) (auto simp: length_gen)

lemma blocks_ofb: "blocks n iv = concat (map (\<lambda>i. (gen ^^ Suc i) iv) [0..<n])"
proof (induction n arbitrary: iv)
  case 0
  then show ?case by simp
next
  case (Suc n)
  have "[0..<Suc n] = 0 # map Suc [0..<n]"
    by (simp add: map_Suc_upt upt_conv_Cons)
  then show ?case
    by (simp add: Suc comp_def funpow_swap1)
qed

end

interpretation sogou: block_generator calc_encode_page
  by unfold_locales simp

lemma key_stream_blocks: "key_stream n iv = sogou.blocks n iv"
  by (induction n arbitrary: iv) (simp_all add: Let_def)

lemma length_key_stream [simp]: "length iv = 16 \<Longrightarrow> length (key_stream n iv) = 16 * n"
  by (simp add: key_stream_blocks sogou.length_blocks)


lemma length_page_init [simp]:
  "length page = PAGE_SIZE \<Longrightarrow> ks \<le> 12 \<Longrightarrow> length (page_init i ks page) = 16"
  by (simp add: page_init_def PAGE_SIZE_def)

lemma length_crypt_page [simp]:
  "length page = PAGE_SIZE \<Longrightarrow> ks \<le> 12 \<Longrightarrow> length (crypt_page i ks page) = PAGE_SIZE"
  by (simp add: crypt_page_def Let_def PAGE_SIZE_def)

text \<open>Bytes 16 to 23 of the first page are exclusive-ored twice, so they stay as they are; so do
  the last \<open>key_size\<close> bytes of every page.\<close>

definition kept :: "nat \<Rightarrow> nat \<Rightarrow> nat \<Rightarrow> bool" where
  "kept i ks j \<longleftrightarrow> PAGE_SIZE - ks \<le> j \<or> (i = 0 \<and> 16 \<le> j \<and> j < 24)"

lemma crypt_page_nth:
  assumes len: "length page = PAGE_SIZE" and ks: "ks \<le> 12" and j: "j < PAGE_SIZE"
  shows "crypt_page i ks page ! j =
    (if kept i ks j then page ! j else page ! j XOR key_stream 64 (page_init i ks page) ! j)"
proof -
  define K where "K = key_stream 64 (page_init i ks page)"
  have lenK: "length K = 1024" using len ks by (simp add: K_def)
  define q where "q = xor_bytes (take (PAGE_SIZE - ks) page) K @ drop (PAGE_SIZE - ks) page"
  have lenq: "length q = 1024" using len ks lenK by (simp add: q_def PAGE_SIZE_def)
  have q: "q ! j = (if PAGE_SIZE - ks \<le> j then page ! j else page ! j XOR K ! j)" if "j < 1024" for j
    using that len ks lenK by (auto simp: q_def nth_append nth_xor_bytes PAGE_SIZE_def)
  have x: "xor_bytes (take 8 (drop 16 q)) (take 8 (drop 16 K)) ! (j - 16) = q ! j XOR K ! j"
    if "16 \<le> j" "j < 24"
    using that lenq lenK by (simp add: nth_xor_bytes)
  have "(take 16 q @ xor_bytes (take 8 (drop 16 q)) (take 8 (drop 16 K)) @ drop 24 q) ! j =
      (if 16 \<le> j \<and> j < 24 then q ! j XOR K ! j else q ! j)"
    using x lenq lenK j by (auto simp: nth_append PAGE_SIZE_def)
  then have "crypt_page i ks page ! j =
      (if i = 0 \<and> 16 \<le> j \<and> j < 24 then q ! j XOR K ! j else q ! j)"
    by (simp add: crypt_page_def Let_def K_def [symmetric] q_def [symmetric])
  with q [of j] j ks show ?thesis
    by (auto simp: kept_def PAGE_SIZE_def K_def xor.assoc)
qed

lemma page_init_crypt:
  assumes "length page = PAGE_SIZE" "ks \<le> 12"
  shows "page_init i ks (crypt_page i ks page) = page_init i ks page"
proof -
  have "drop (PAGE_SIZE - ks) (crypt_page i ks page) = drop (PAGE_SIZE - ks) page"
    by (rule nth_equalityI) (use assms in \<open>auto simp: crypt_page_nth kept_def PAGE_SIZE_def\<close>)
  then show ?thesis by (simp add: page_init_def)
qed

lemma crypt_page_involution:
  assumes "length page = PAGE_SIZE" "ks \<le> 12"
  shows "crypt_page i ks (crypt_page i ks page) = page"
  by (rule nth_equalityI)
    (use assms in \<open>auto simp: crypt_page_nth page_init_crypt xor.assoc\<close>)

lemma crypt_pages_short: "length buf < PAGE_SIZE \<Longrightarrow> crypt_pages i ks buf = Inr buf"
  by (simp add: crypt_pages.simps)

lemma crypt_pages_total:
  assumes "ks \<le> 12 \<or> length buf < PAGE_SIZE"
  shows "\<exists>out. crypt_pages i ks buf = Inr out \<and> length out = length buf \<and>
    crypt_pages i ks out = Inr buf \<and> (i = 0 \<longrightarrow> 20 < length buf \<longrightarrow> out ! 20 = buf ! 20)"
  using assms
proof (induction i ks buf rule: crypt_pages.induct)
  case (1 i ks buf)
  show ?case
  proof (cases "length buf < PAGE_SIZE")
    case True
    then show ?thesis by (simp add: crypt_pages_short)
  next
    case False
    with "1.prems" have ks: "ks \<le> 12" by simp
    let ?p = "take PAGE_SIZE buf"
    have lp: "length ?p = PAGE_SIZE" using False by simp
    obtain rest where rest: "crypt_pages (i + 1) ks (drop PAGE_SIZE buf) = Inr rest"
      and lrest: "length rest = length (drop PAGE_SIZE buf)"
      and undo: "crypt_pages (i + 1) ks rest = Inr (drop PAGE_SIZE buf)"
      using "1.IH" False ks by (auto simp: PAGE_SIZE_def)
    let ?q = "crypt_page i ks ?p"
    have lq: "length ?q = PAGE_SIZE" using lp ks by simp
    have out: "crypt_pages i ks buf = Inr (?q @ rest)"
      using False ks rest by (simp add: crypt_pages.simps [of i ks buf] PAGE_SIZE_def)
    have "crypt_pages i ks (?q @ rest) = Inr (crypt_page i ks ?q @ drop PAGE_SIZE buf)"
      using lq ks undo by (simp add: crypt_pages.simps [of i ks "?q @ rest"])
    then have inv: "crypt_pages i ks (?q @ rest) = Inr buf"
      by (simp add: crypt_page_involution [OF lp ks])
    have "i = 0 \<longrightarrow> (?q @ rest) ! 20 = buf ! 20"
      using crypt_page_nth [OF lp ks, of 20 i] lq False
      by (auto simp: nth_append kept_def PAGE_SIZE_def)
    with out inv lq lrest False show ?thesis by auto
  qed
qed

text \<open>C5: Encoding a favourites database of at least 21 bytes whose reserved-space byte (byte 20)
  is at most 12, and decoding the file that was written, returns the content unchanged: both
  calls succeed and the decrypted copy is also left in \<open>a.db\<close>.\<close>

theorem decode_encode_roundtrip:
  assumes "20 < length content" and "unat (content ! 20) \<le> 12"
    and "can_write path" and "can_write ''a.db''"
  shows "\<exists>fs'. encode can_write fs content path = Inr (0, fs') \<and>
    decode can_write fs' path = Inr (0, content, fs'(''a.db'' \<mapsto> content))"
proof -
  obtain out where out: "crypt_pages 0 (unat (content ! 20)) content = Inr out"
    and len: "length out = length content" and b: "out ! 20 = content ! 20"
    and undo: "crypt_pages 0 (unat (content ! 20)) out = Inr content"
    using crypt_pages_total [of "unat (content ! 20)" content 0] assms by auto
  have "encode can_write fs content path = Inr (0, fs(path \<mapsto> out))"
    using assms out by (auto simp: encode_def)
  moreover have "decode can_write (fs(path \<mapsto> out)) path =
      Inr (0, content, (fs(path \<mapsto> out))(''a.db'' \<mapsto> content))"
    using assms len b undo by (simp add: decode_def)
  ultimately show ?thesis by blast
qed

theorem decode_encode_roundtrip_witness:
  "\<exists>fs'. encode (\<lambda>_. True) (\<lambda>_. None) (replicate 3000 7) ''fav.dat'' = Inr (0, fs') \<and>
    decode (\<lambda>_. True) fs' ''fav.dat'' =
      Inr (0, replicate 3000 7, fs'(''a.db'' \<mapsto> replicate 3000 7))"
  by (rule decode_encode_roundtrip) simp_all

text \<open>Note: One page of the cipher: with at most 12 key bytes, every byte outside the key bytes (and
  outside bytes 16 to 23 of the first page) is exclusive-ored with AES-128 in output feedback
  mode, started from the page number, the page's key bytes and zeros.\<close>

theorem crypt_page_is_aes_ofb:
  assumes "length page = PAGE_SIZE" and "ks \<le> 12" and "j < PAGE_SIZE"
  shows "crypt_page i ks page ! j =
    (if kept i ks j then page ! j
     else page ! j XOR
       concat (map (\<lambda>n. (aes128 sogou_key ^^ Suc n) (page_init i ks page)) [0..<64]) ! j)"
proof -
  let ?iv = "page_init i ks page"
  have iv: "length ?iv = 16" using assms by simp
  have step: "(calc_encode_page ^^ n) ?iv = (aes128 sogou_key ^^ n) ?iv" for n
  proof (induction n)
    case (Suc n)
    have "calc_encode_page ((calc_encode_page ^^ n) ?iv) = aes128 sogou_key ((calc_encode_page ^^ n) ?iv)"
      by (rule calc_encode_page_aes128) (rule sogou.length_funpow_gen [OF iv])
    with Suc show ?case by simp
  qed simp
  have "key_stream 64 ?iv = concat (map (\<lambda>n. (aes128 sogou_key ^^ Suc n) ?iv) [0..<64])"
    unfolding key_stream_blocks sogou.blocks_ofb step ..
  then show ?thesis by (simp add: crypt_page_nth [OF assms])
qed

theorem crypt_page_is_aes_ofb_witness:
  "crypt_page 1 12 (replicate 1024 0) ! 100 =
    0 XOR concat (map (\<lambda>n. (aes128 sogou_key ^^ Suc n) (page_init 1 12 (replicate 1024 0))) [0..<64]) ! 100"
  using crypt_page_is_aes_ofb [of "replicate 1024 0" 12 100 1] by (simp add: PAGE_SIZE_def kept_def)

text \<open>Note: What goes wrong in \<open>decode\<close>: a file shorter than 21 bytes makes it read outside the
  buffer, and a file of at least one page whose byte 20 exceeds 12 makes it copy key bytes past
  the end of \<open>init_array\<close>; a missing file is reported by \<open>-1\<close>; on every other file it returns.\<close>

theorem decode_outcomes:
  "decode can_write fs path =
    (case fs path of
       None \<Rightarrow> Inr (-1, [], fs)
     | Some buf \<Rightarrow>
         if length buf \<le> 20 \<or> (PAGE_SIZE \<le> length buf \<and> 12 < unat (buf ! 20)) then Inl OutOfRange
         else if can_write ''a.db''
         then Inr (0, projr (crypt_pages 0 (unat (buf ! 20)) buf),
                   fs(''a.db'' \<mapsto> projr (crypt_pages 0 (unat (buf ! 20)) buf)))
         else Inl NullDeref)"
proof (cases "fs path")
  case (Some buf)
  have bad: "crypt_pages 0 ks buf = Inl OutOfRange" if "PAGE_SIZE \<le> length buf" "12 < ks" for ks
    using that by (simp add: crypt_pages.simps [of 0 ks buf] PAGE_SIZE_def)
  show ?thesis
    using Some bad [of "unat (buf ! 20)"] crypt_pages_total [of "unat (buf ! 20)" buf 0]
    by (auto simp: decode_def not_le not_less)
qed (simp add: decode_def)

end
