(* ===== verification/Sogou_Sbox.thy ===== *)
theory Sogou_Sbox
  imports Sogou_Asm
begin

text \<open>
  The last-round table of the Sogou cipher tied to the algebra behind AES: every entry is the
  affine image of the multiplicative inverse of its index in GF(2^8).  The list of inverses
  below is a certificate; the kernel multiplies each pair out.
\<close>

definition gf_inverses :: bytes where
  "gf_inverses = [
   0x00, 0x01, 0x8D, 0xF6, 0xCB, 0x52, 0x7B, 0xD1, 0xE8, 0x4F, 0x29, 0xC0, 0xB0, 0xE1, 0xE5, 0xC7,
   0x74, 0xB4, 0xAA, 0x4B, 0x99, 0x2B, 0x60, 0x5F, 0x58, 0x3F, 0xFD, 0xCC, 0xFF, 0x40, 0xEE, 0xB2,
   0x3A, 0x6E, 0x5A, 0xF1, 0x55, 0x4D, 0xA8, 0xC9, 0xC1, 0x0A, 0x98, 0x15, 0x30, 0x44, 0xA2, 0xC2,
   0x2C, 0x45, 0x92, 0x6C, 0xF3, 0x39, 0x66, 0x42, 0xF2, 0x35, 0x20, 0x6F, 0x77, 0xBB, 0x59, 0x19,
   0x1D, 0xFE, 0x37, 0x67, 0x2D, 0x31, 0xF5, 0x69, 0xA7, 0x64, 0xAB, 0x13, 0x54, 0x25, 0xE9, 0x09,
   0xED, 0x5C, 0x05, 0xCA, 0x4C, 0x24, 0x87, 0xBF, 0x18, 0x3E, 0x22, 0xF0, 0x51, 0xEC, 0x61, 0x17,
   0x16, 0x5E, 0xAF, 0xD3, 0x49, 0xA6, 0x36, 0x43, 0xF4, 0x47, 0x91, 0xDF, 0x33, 0x93, 0x21, 0x3B,
   0x79, 0xB7, 0x97, 0x85, 0x10, 0xB5, 0xBA, 0x3C, 0xB6, 0x70, 0xD0, 0x06, 0xA1, 0xFA, 0x81, 0x82,
   0x83, 0x7E, 0x7F, 0x80, 0x96, 0x73, 0xBE, 0x56, 0x9B, 0x9E, 0x95, 0xD9, 0xF7, 0x02, 0xB9, 0xA4,
   0xDE, 0x6A, 0x32, 0x6D, 0xD8, 0x8A, 0x84, 0x72, 0x2A, 0x14, 0x9F, 0x88, 0xF9, 0xDC, 0x89, 0x9A,
   0xFB, 0x7C, 0x2E, 0xC3, 0x8F, 0xB8, 0x65, 0x48, 0x26, 0xC8, 0x12, 0x4A, 0xCE, 0xE7, 0xD2, 0x62,
   0x0C, 0xE0, 0x1F, 0xEF, 0x11, 0x75, 0x78, 0x71, 0xA5, 0x8E, 0x76, 0x3D, 0xBD, 0xBC, 0x86, 0x57,
   0x0B, 0x28, 0x2F, 0xA3, 0xDA, 0xD4, 0xE4, 0x0F, 0xA9, 0x27, 0x53, 0x04, 0x1B, 0xFC, 0xAC, 0xE6,
   0x7A, 0x07, 0xAE, 0x63, 0xC5, 0xDB, 0xE2, 0xEA, 0x94, 0x8B, 0xC4, 0xD5, 0x9D, 0xF8, 0x90, 0x6B,
   0xB1, 0x0D, 0xD6, 0xEB, 0xC6, 0x0E, 0xCF, 0xAD, 0x08, 0x4E, 0xD7, 0xE3, 0x5D, 0x50, 0x1E, 0xB3,
   0x5B, 0x23, 0x38, 0x34, 0x68, 0x46, 0x03, 0x8C, 0xDD, 0x9C, 0x7D, 0xA0, 0xCD, 0x1A, 0x41, 0x1C]"

lemma gf_inverses_affine: "map affine gf_inverses = sbox_table"
  by code_simp

lemma gf_inverses_mult:
  "map2 gmul (map of_nat [0..<256]) gf_inverses = 0 # replicate 255 1"
  by code_simp

lemma sbox_entry:
  assumes "x < 256"
  shows "gmul (of_nat x) (gf_inverses ! x) = (if x = 0 then 0 else 1)"
    and "sbox_table ! x = affine (gf_inverses ! x)"
proof -
  have len: "length gf_inverses = 256" by (simp add: gf_inverses_def)
  have "map2 gmul (map of_nat [0..<256]) gf_inverses ! x = (0 # replicate 255 1) ! x"
    by (simp add: gf_inverses_mult)
  then show "gmul (of_nat x) (gf_inverses ! x) = (if x = 0 then 0 else 1)"
    using assms len by (cases x) simp_all
  show "sbox_table ! x = affine (gf_inverses ! x)"
    unfolding gf_inverses_affine [symmetric] using assms len by (rule_tac nth_map) simp
qed

text \<open>Note: Entry \<open>x\<close> of the table the last round indexes, in each of its four bytes, is the AES
  S-box value: the affine image of some \<open>y\<close> with \<open>x * y = 1\<close> in GF(2^8), and of 0 for
  \<open>x = 0\<close>.\<close>

theorem tab_5B4E18_algebraic:
  assumes "x < 256" and "k < 4"
  shows "\<exists>y. gmul (of_nat x) y = (if x = 0 then 0 else 1) \<and> (x = 0 \<longrightarrow> y = 0) \<and>
    tab_5B4E18 ! (4 * x + k) = affine y"
proof (intro exI conjI)
  show "gmul (of_nat x) (gf_inverses ! x) = (if x = 0 then 0 else 1)"
    by (rule sbox_entry(1) [OF assms(1)])
  show "x = 0 \<longrightarrow> gf_inverses ! x = 0" by (simp add: gf_inverses_def)
  have "tab_5B4E18 ! (4 * x + k) = [sbox_table ! x, sbox_table ! x, sbox_table ! x, sbox_table ! x] ! k"
    unfolding tab_5B4E18_sbox using assms by (subst concat_quads_nth) simp_all
  also have "\<dots> = sbox_table ! x"
    using assms(2) by (auto simp: numeral_eq_Suc less_Suc_eq)
  finally show "tab_5B4E18 ! (4 * x + k) = affine (gf_inverses ! x)"
    by (simp add: sbox_entry(2) [OF assms(1)])
qed

theorem tab_5B4E18_algebraic_witness:
  "\<exists>y. gmul (of_nat 83) y = (if (83 :: nat) = 0 then 0 else 1) \<and> ((83 :: nat) = 0 \<longrightarrow> y = 0) \<and>
    tab_5B4E18 ! (4 * 83 + 1) = affine y"
  by (rule tab_5B4E18_algebraic) simp_all

end
