(* ===== verification/Bus_Values.thy ===== *)
theory Bus_Values
  imports Prelude
begin

text \<open>
  The numbering scheme of \<open>src/include/UrlTravelerHeader.h\<close> and the dispatch macros of
  \<open>src/include/Module.h\<close>: module ids, the value ranges of events, broadcast messages and
  services, the predicates that classify a value by its top four bits, the recovery of a module
  id from a value, the \<open>Event\<close> and \<open>Message\<close> structures, and the table walk behind
  \<open>PROCESS_EVENT\<close>, \<open>PROCESS_MESSAGE\<close> and \<open>CALL_DIRECT\<close>.
\<close>

section \<open>Module ids and value ranges\<close>

datatype ModuleId =
    MODULE_ID_INVALID | MODULE_ID_CORE | MODULE_ID_MAINFRAME | MODULE_ID_SETTING
  | MODULE_ID_TRAYICON | MODULE_ID_DATACENTER | MODULE_ID_LOGIN | MODULE_ID_PLUGIN
  | MODULE_ID_DATABASE | MODULE_ID_WEB | MODULE_ID_UPDATE | MODULE_ID_FAVMONITOR | MODULE_ID_END

fun module_value :: "ModuleId \<Rightarrow> u32" where
  "module_value MODULE_ID_INVALID = -1"
| "module_value MODULE_ID_CORE = 0x01"
| "module_value MODULE_ID_MAINFRAME = 0x02"
| "module_value MODULE_ID_SETTING = 0x03"
| "module_value MODULE_ID_TRAYICON = 0x04"
| "module_value MODULE_ID_DATACENTER = 0x05"
| "module_value MODULE_ID_LOGIN = 0x06"
| "module_value MODULE_ID_PLUGIN = 0x07"
| "module_value MODULE_ID_DATABASE = 0x08"
| "module_value MODULE_ID_WEB = 0x09"
| "module_value MODULE_ID_UPDATE = 0x0A"
| "module_value MODULE_ID_FAVMONITOR = 0x0B"
| "module_value MODULE_ID_END = 0x0C"

definition EVENT_VALUE_BASE :: u32 where "EVENT_VALUE_BASE = 0x10001000"
definition MESSAGE_VALUE_BASE :: u32 where "MESSAGE_VALUE_BASE = 0x20001000"
definition SERVICE_VALUE_BASE :: u32 where "SERVICE_VALUE_BASE = 0x30001000"

text \<open>The three families of macros differ in the base only; the range of a module is \<open>0xFFF\<close>.\<close>

definition VALUE_BEGIN :: "u32 \<Rightarrow> u32 \<Rightarrow> u32" where
  "VALUE_BEGIN base X = X * 0x1000 + base + 0x01"

definition VALUE_END :: "u32 \<Rightarrow> u32 \<Rightarrow> u32" where
  "VALUE_END base X = X * 0x1000 + base + 0xFFF"

definition MODULIE_ID_FROM_VALUE :: "u32 \<Rightarrow> u32 \<Rightarrow> u32" where
  "MODULIE_ID_FROM_VALUE base X = (X - base - 0x01) div 0x1000"

definition IsEventValue :: "u32 \<Rightarrow> bool" where
  "IsEventValue x \<longleftrightarrow> x AND 0xF0000000 = 0x10000000"

definition IsMessageValue :: "u32 \<Rightarrow> bool" where
  "IsMessageValue x \<longleftrightarrow> x AND 0xF0000000 = 0x20000000"

definition IsServiceValue :: "u32 \<Rightarrow> bool" where
  "IsServiceValue x \<longleftrightarrow> x AND 0xF0000000 = 0x30000000"

lemmas value_bases [bus_values] =
  EVENT_VALUE_BASE_def MESSAGE_VALUE_BASE_def SERVICE_VALUE_BASE_def

definition EVENT_VALUE_CORE_MAIN_LOOP_EXIT :: u32 where
  "EVENT_VALUE_CORE_MAIN_LOOP_EXIT =
     VALUE_BEGIN EVENT_VALUE_BASE (module_value MODULE_ID_CORE) + 1"

definition MESSAGE_VALUE_CORE_CYCLE_TRIGGER :: u32 where
  "MESSAGE_VALUE_CORE_CYCLE_TRIGGER =
     VALUE_BEGIN MESSAGE_VALUE_BASE (module_value MODULE_ID_CORE) + 1"

definition MESSAGE_VALUE_CORE_BEGIN_SHOW :: u32 where
  "MESSAGE_VALUE_CORE_BEGIN_SHOW =
     VALUE_BEGIN MESSAGE_VALUE_BASE (module_value MODULE_ID_CORE) + 2"

section \<open>Event and Message\<close>

text \<open>\<open>'x\<close> is what \<open>m_pstExtraInfo\<close> points to; \<open>None\<close> is NULL.\<close>

record 'x Event =
  eventValue :: u32
  srcMId :: u16
  desMId :: u16
  param0 :: u32
  param1 :: u32
  param2 :: u32
  param3 :: u32
  m_pstExtraInfo :: "'x option"

record 'x Message =
  messageValue :: u32
  msg_srcMId :: u16
  reserved :: u16
  msg_param0 :: u32
  msg_param1 :: u32
  msg_param2 :: u32
  msg_param3 :: u32
  msg_pstExtraInfo :: "'x option"

definition MakeEvent ::
  "u16 \<Rightarrow> u32 \<Rightarrow> u16 \<Rightarrow> u32 \<Rightarrow> u32 \<Rightarrow> u32 \<Rightarrow> u32 \<Rightarrow> 'x option \<Rightarrow> 'x Event" where
  "MakeEvent srcId v des p0 p1 p2 p3 extraInfo =
     \<lparr>eventValue = v, srcMId = srcId, desMId = des, param0 = p0, param1 = p1, param2 = p2,
      param3 = p3, m_pstExtraInfo = extraInfo\<rparr>"

definition MakeMessage ::
  "u16 \<Rightarrow> u32 \<Rightarrow> u32 \<Rightarrow> u32 \<Rightarrow> u32 \<Rightarrow> u32 \<Rightarrow> 'x option \<Rightarrow> 'x Message" where
  "MakeMessage mid v p0 p1 p2 p3 extraInfo =
     \<lparr>messageValue = v, msg_srcMId = mid, reserved = 0, msg_param0 = p0, msg_param1 = p1,
      msg_param2 = p2, msg_param3 = p3, msg_pstExtraInfo = extraInfo\<rparr>"

section \<open>Handler tables\<close>

text \<open>A table is a list of value and handler, closed by an entry with value 0; the walk also
  stops at an entry with the invalid value \<open>-1\<close>, and steps over NULL handlers.\<close>

fun find_handler :: "(u32 \<times> 'h option) list \<Rightarrow> u32 \<Rightarrow> 'h option" where
  "find_handler [] v = None"
| "find_handler ((n, h) # entries) v =
     (if n = -1 \<or> n = 0 then None
      else if n = v \<and> h \<noteq> None then h
      else find_handler entries v)"

definition handler_table :: "(u32 \<times> 'h) list \<Rightarrow> (u32 \<times> 'h option) list" where
  "handler_table es = map (\<lambda>(v, h). (v, Some h)) es @ [(0, None)]"

text \<open>\<open>CALL_DIRECT\<close> answers \<open>-1\<close> for an invalid value and for one with no handler.\<close>

definition CALL_DIRECT :: "(u32 \<times> ('s \<Rightarrow> int \<times> 's) option) list \<Rightarrow> u32 \<Rightarrow> 's \<Rightarrow> int \<times> 's" where
  "CALL_DIRECT tab v s =
     (if v = -1 \<or> v = 0 then (-1, s)
      else case find_handler tab v of None \<Rightarrow> (-1, s) | Some h \<Rightarrow> h s)"

section \<open>Properties\<close>

lemma high_nibble: "x AND 0xF0000000 = push_bit 28 (drop_bit 28 (x :: u32))"
  by (rule word32_eqI) (simp add: bit_simps lessThan_nat_numeral lessThan_Suc)

lemma unat_high_nibble: "unat (x AND 0xF0000000 :: u32) = unat x div 2 ^ 28 * 2 ^ 28"
proof -
  have "unat x div 2 ^ 28 * 2 ^ 28 \<le> unat x" by (rule div_times_less_eq_dividend)
  also have "unat x < 2 ^ 32" using unsigned_less [of x] by simp
  finally have "unat x div 2 ^ 28 * 2 ^ 28 < 2 ^ 32" .
  then show ?thesis
    unfolding high_nibble
    by (simp add: push_bit_eq_mult drop_bit_eq_div unat_word_ariths unat_div)
qed

lemma kind_iff:
  "IsEventValue x \<longleftrightarrow> unat x div 2 ^ 28 = 1"
  "IsMessageValue x \<longleftrightarrow> unat x div 2 ^ 28 = 2"
  "IsServiceValue x \<longleftrightarrow> unat x div 2 ^ 28 = 3"
  using unat_high_nibble [of x]
  by (simp_all add: IsEventValue_def IsMessageValue_def IsServiceValue_def word_unat_eq_iff)

lemma value_bounds:
  assumes "X \<le> 0x1000" and "VALUE_BEGIN base X \<le> v" and "v \<le> VALUE_END base X"
    and "base \<in> {EVENT_VALUE_BASE, MESSAGE_VALUE_BASE, SERVICE_VALUE_BASE}"
  obtains k where "unat v = unat base + unat X * 0x1000 + k" and "1 \<le> k" and "k \<le> 0xFFF"
    and "unat X \<le> 0x1000"
proof -
  have X: "unat X \<le> 0x1000" using assms(1) by (simp add: word_le_nat_alt)
  have b: "unat base \<le> 0x30001000" using assms(4) by (auto simp: value_bases)
  have "unat (VALUE_BEGIN base X) = unat X * 0x1000 + unat base + 1"
    and "unat (VALUE_END base X) = unat X * 0x1000 + unat base + 0xFFF"
    using X b by (simp_all add: VALUE_BEGIN_def VALUE_END_def unat_word_ariths)
  then have "unat X * 0x1000 + unat base + 1 \<le> unat v" "unat v \<le> unat X * 0x1000 + unat base + 0xFFF"
    using assms(2,3) by (simp_all add: word_le_nat_alt)
  then show ?thesis by (intro that [of "unat v - unat X * 0x1000 - unat base"] X) auto
qed

lemma kinds_exclusive:
  "IsEventValue x \<Longrightarrow> \<not> IsMessageValue x" "IsEventValue x \<Longrightarrow> \<not> IsServiceValue x"
  "IsMessageValue x \<Longrightarrow> \<not> IsEventValue x" "IsMessageValue x \<Longrightarrow> \<not> IsServiceValue x"
  by (simp_all add: kind_iff)

lemma module_of_value:
  assumes "X \<le> 0x1000" and "VALUE_BEGIN base X \<le> v" and "v \<le> VALUE_END base X"
    and "base \<in> {EVENT_VALUE_BASE, MESSAGE_VALUE_BASE, SERVICE_VALUE_BASE}"
  shows "MODULIE_ID_FROM_VALUE base v = X"
proof -
  obtain k where v: "unat v = unat base + unat X * 0x1000 + k" and k: "1 \<le> k" "k \<le> 0xFFF"
    using value_bounds [OF assms] by metis
  have "base + 1 \<le> v"
    using v k assms(4) by (auto simp: value_bases word_le_nat_alt)
  then have "unat (v - (base + 1)) = unat X * 0x1000 + (k - 1)"
    using v k assms(4) by (auto simp: unat_sub value_bases)
  then have "unat (v - base - 1) = unat X * 0x1000 + (k - 1)" by (simp add: algebra_simps)
  then have "unat (MODULIE_ID_FROM_VALUE base v) = unat X"
    using k by (simp add: MODULIE_ID_FROM_VALUE_def unat_div)
  then show ?thesis by (simp add: word_unat_eq_iff)
qed

lemma kind_of_value:
  assumes "X \<le> 0x1000" and "VALUE_BEGIN base X \<le> v" and "v \<le> VALUE_END base X"
    and "base \<in> {EVENT_VALUE_BASE, MESSAGE_VALUE_BASE, SERVICE_VALUE_BASE}"
  shows "unat v div 2 ^ 28 = unat base div 2 ^ 28"
proof -
  obtain k where "unat v = unat base + unat X * 0x1000 + k" "k \<le> 0xFFF" "unat X \<le> 0x1000"
    using value_bounds [OF assms] by metis
  then show ?thesis using assms(4) by (auto simp: value_bases)
qed

lemma module_value_small: "m \<noteq> MODULE_ID_INVALID \<Longrightarrow> module_value m \<le> 0x1000"
  by (cases m) simp_all

lemma module_value_inject: "module_value m = module_value n \<longleftrightarrow> m = n"
  by (cases m; cases n) simp_all

lemma find_handler_table:
  assumes "\<forall>e \<in> set es. fst e \<noteq> 0 \<and> fst e \<noteq> -1"
  shows "find_handler (handler_table es) v = map_of es v"
  using assms by (induction es) (auto simp: handler_table_def)

text \<open>The three ranges, one kind each.\<close>

lemma kind_in_range:
  assumes "m \<noteq> MODULE_ID_INVALID"
  shows "VALUE_BEGIN EVENT_VALUE_BASE (module_value m) \<le> v \<Longrightarrow>
           v \<le> VALUE_END EVENT_VALUE_BASE (module_value m) \<Longrightarrow>
           IsEventValue v \<and> \<not> IsMessageValue v \<and> \<not> IsServiceValue v \<and>
           MODULIE_ID_FROM_VALUE EVENT_VALUE_BASE v = module_value m"
    and "VALUE_BEGIN MESSAGE_VALUE_BASE (module_value m) \<le> v \<Longrightarrow>
           v \<le> VALUE_END MESSAGE_VALUE_BASE (module_value m) \<Longrightarrow>
           \<not> IsEventValue v \<and> IsMessageValue v \<and> \<not> IsServiceValue v \<and>
           MODULIE_ID_FROM_VALUE MESSAGE_VALUE_BASE v = module_value m"
    and "VALUE_BEGIN SERVICE_VALUE_BASE (module_value m) \<le> v \<Longrightarrow>
           v \<le> VALUE_END SERVICE_VALUE_BASE (module_value m) \<Longrightarrow>
           \<not> IsEventValue v \<and> \<not> IsMessageValue v \<and> IsServiceValue v \<and>
           MODULIE_ID_FROM_VALUE SERVICE_VALUE_BASE v = module_value m"
  using module_value_small [OF assms] module_of_value [of "module_value m" _ v]
    kind_of_value [of "module_value m" _ v]
  by (simp_all add: kind_iff value_bases)

text \<open>
  Note: The numbering scheme is sound: a value between \<open>BEGIN\<close> and \<open>END\<close> of a module's event
  range is an event value and nothing else, and \<open>MODULIE_ID_FROM_EVENT_VALUE\<close> recovers exactly
  that module; the same for message and service values.  So the dispatcher can tell the three
  kinds and the owner apart by the number alone.
\<close>

theorem value_ranges_sound:
  assumes "m \<noteq> MODULE_ID_INVALID"
  shows "(VALUE_BEGIN EVENT_VALUE_BASE (module_value m) \<le> v \<and>
          v \<le> VALUE_END EVENT_VALUE_BASE (module_value m) \<longrightarrow>
            IsEventValue v \<and> \<not> IsMessageValue v \<and> \<not> IsServiceValue v \<and>
            (MODULIE_ID_FROM_VALUE EVENT_VALUE_BASE v = module_value n \<longleftrightarrow> n = m)) \<and>
         (VALUE_BEGIN MESSAGE_VALUE_BASE (module_value m) \<le> v \<and>
          v \<le> VALUE_END MESSAGE_VALUE_BASE (module_value m) \<longrightarrow>
            \<not> IsEventValue v \<and> IsMessageValue v \<and> \<not> IsServiceValue v \<and>
            (MODULIE_ID_FROM_VALUE MESSAGE_VALUE_BASE v = module_value n \<longleftrightarrow> n = m)) \<and>
         (VALUE_BEGIN SERVICE_VALUE_BASE (module_value m) \<le> v \<and>
          v \<le> VALUE_END SERVICE_VALUE_BASE (module_value m) \<longrightarrow>
            \<not> IsEventValue v \<and> \<not> IsMessageValue v \<and> IsServiceValue v \<and>
            (MODULIE_ID_FROM_VALUE SERVICE_VALUE_BASE v = module_value n \<longleftrightarrow> n = m))"
  using kind_in_range [OF assms, of v] module_value_inject [of m n] module_value_inject [of n m]
  by metis

theorem value_ranges_sound_witness:
  "IsEventValue EVENT_VALUE_CORE_MAIN_LOOP_EXIT \<and> \<not> IsMessageValue EVENT_VALUE_CORE_MAIN_LOOP_EXIT \<and>
   IsMessageValue MESSAGE_VALUE_CORE_CYCLE_TRIGGER \<and>
   MODULIE_ID_FROM_VALUE EVENT_VALUE_BASE EVENT_VALUE_CORE_MAIN_LOOP_EXIT \<noteq> module_value MODULE_ID_WEB"
  using value_ranges_sound [of MODULE_ID_CORE EVENT_VALUE_CORE_MAIN_LOOP_EXIT MODULE_ID_WEB]
    value_ranges_sound [of MODULE_ID_CORE MESSAGE_VALUE_CORE_CYCLE_TRIGGER]
  by (simp add: EVENT_VALUE_CORE_MAIN_LOOP_EXIT_def MESSAGE_VALUE_CORE_CYCLE_TRIGGER_def
      VALUE_BEGIN_def VALUE_END_def value_bases)

end
