(* ===== verification/Module_Bus.thy ===== *)
theory Module_Bus
  imports Bus_Values "HOL-Library.Multiset"
begin

text \<open>
  The module manager, \<open>src/src/ModuleManager/ModuleManagerImpl.cpp\<close>: the bounded buffer of events
  and messages, the queue other threads push into, the service calls, and the dispatch loop run
  by the cycle timer.  The modules are not part of this theory: their handlers are parameters,
  functions on the state of the manager, and what the manager needs from them is the locale
  \<open>bus_clients\<close>.
\<close>

section \<open>BufUnit\<close>

text \<open>A \<open>BufUnit\<close> is raw memory; \<open>Event\<close> and \<open>Message\<close> have the same layout, with \<open>reserved\<close>
  of a message where an event has \<open>desMId\<close>.  The casts read the fields at their offsets.\<close>

record 'x BufUnit =
  buf_value :: u32
  buf_srcMId :: u16
  buf_word6 :: u16
  buf_param0 :: u32
  buf_param1 :: u32
  buf_param2 :: u32
  buf_param3 :: u32
  buf_extra :: "'x option"

definition unit_of_event :: "'x Event \<Rightarrow> 'x BufUnit" where
  "unit_of_event e =
     \<lparr>buf_value = eventValue e, buf_srcMId = srcMId e, buf_word6 = desMId e,
      buf_param0 = param0 e, buf_param1 = param1 e, buf_param2 = param2 e,
      buf_param3 = param3 e, buf_extra = m_pstExtraInfo e\<rparr>"

definition unit_of_message :: "'x Message \<Rightarrow> 'x BufUnit" where
  "unit_of_message m =
     \<lparr>buf_value = messageValue m, buf_srcMId = msg_srcMId m, buf_word6 = reserved m,
      buf_param0 = msg_param0 m, buf_param1 = msg_param1 m, buf_param2 = msg_param2 m,
      buf_param3 = msg_param3 m, buf_extra = msg_pstExtraInfo m\<rparr>"

definition as_event :: "'x BufUnit \<Rightarrow> 'x Event" where
  "as_event u =
     \<lparr>eventValue = buf_value u, srcMId = buf_srcMId u, desMId = buf_word6 u,
      param0 = buf_param0 u, param1 = buf_param1 u, param2 = buf_param2 u,
      param3 = buf_param3 u, m_pstExtraInfo = buf_extra u\<rparr>"

definition as_message :: "'x BufUnit \<Rightarrow> 'x Message" where
  "as_message u =
     \<lparr>messageValue = buf_value u, msg_srcMId = buf_srcMId u, reserved = buf_word6 u,
      msg_param0 = buf_param0 u, msg_param1 = buf_param1 u, msg_param2 = buf_param2 u,
      msg_param3 = buf_param3 u, msg_pstExtraInfo = buf_extra u\<rparr>"

lemma cast_roundtrip [simp]:
  "as_event (unit_of_event e) = e" "as_message (unit_of_message m) = m"
  "unit_of_event (as_event u) = u" "unit_of_message (as_message u) = u"
  by (simp_all add: as_event_def unit_of_event_def as_message_def unit_of_message_def)

lemma buf_value_cast [simp]:
  "buf_value (unit_of_event e) = eventValue e" "buf_value (unit_of_message m) = messageValue m"
  "eventValue (as_event u) = buf_value u" "messageValue (as_message u) = buf_value u"
  "buf_extra (unit_of_event e) = m_pstExtraInfo e" "buf_extra (unit_of_message m) = msg_pstExtraInfo m"
  "buf_srcMId (unit_of_event e) = srcMId e" "buf_srcMId (unit_of_message m) = msg_srcMId m"
  by (simp_all add: as_event_def unit_of_event_def as_message_def unit_of_message_def)

section \<open>State and queue operations\<close>

text \<open>\<open>'m\<close> stands for \<open>IModule*\<close>, \<open>'w\<close> for everything the modules own.  \<open>iFactor\<close> is the static
  counter of the loop and \<open>trims\<close> counts the calls of \<open>SetProcessWorkingSetSize\<close>.\<close>

record ('x, 'm, 'w) manager =
  m_eventMsgBuf :: "'x BufUnit list"
  m_vectorOut :: "'x BufUnit list"
  m_vectorIn :: "'x BufUnit list"
  m_bRun :: bool
  m_mapModulePoint :: "(u32 \<times> 'm) list"
  iFactor :: u32
  trims :: nat
  world :: 'w

text \<open>What the manager calls through an \<open>IModule*\<close>: \<open>ProcessEvent\<close>, \<open>ProcessMessage\<close>,
  \<open>PaybackExtraInfo\<close> and \<open>CallDirect\<close>, as functions on the state.\<close>

type_synonym ('x, 'm, 'w) event_proc = "'m \<Rightarrow> 'x Event \<Rightarrow> ('x, 'm, 'w) manager \<Rightarrow> ('x, 'm, 'w) manager"
type_synonym ('x, 'm, 'w) message_proc = "'m \<Rightarrow> 'x Message \<Rightarrow> ('x, 'm, 'w) manager \<Rightarrow> ('x, 'm, 'w) manager"
type_synonym ('x, 'm, 'w) payback_proc =
  "'m \<Rightarrow> u32 \<Rightarrow> 'x BufUnit \<Rightarrow> ('x, 'm, 'w) manager \<Rightarrow> ('x, 'm, 'w) manager"
type_synonym ('x, 'm, 'w, 'p) service_proc =
  "'m \<Rightarrow> u32 \<Rightarrow> 'p \<Rightarrow> ('x, 'm, 'w) manager \<Rightarrow> int \<times> ('x, 'm, 'w) manager"

definition BUF_CAPACITY :: nat where "BUF_CAPACITY = 10240"

text \<open>\<open>boost::circular_buffer::push_back\<close>: on a full buffer the oldest element is overwritten.\<close>

definition circular_push_back :: "nat \<Rightarrow> 'a \<Rightarrow> 'a list \<Rightarrow> 'a list" where
  "circular_push_back cap x xs =
     (if length xs = cap then (if cap = 0 then xs else tl xs @ [x]) else xs @ [x])"

definition buf_push_back :: "'x BufUnit \<Rightarrow> ('x, 'm, 'w) manager \<Rightarrow> ('x, 'm, 'w) manager" where
  "buf_push_back u s = s\<lparr>m_eventMsgBuf := circular_push_back BUF_CAPACITY u (m_eventMsgBuf s)\<rparr>"

definition ModuleManagerImpl :: "'w \<Rightarrow> ('x, 'm, 'w) manager" where
  "ModuleManagerImpl w =
     \<lparr>m_eventMsgBuf = [], m_vectorOut = [], m_vectorIn = [], m_bRun = False,
      m_mapModulePoint = [], iFactor = 0, trims = 0, world = w\<rparr>"

definition PushEvent :: "'x Event \<Rightarrow> ('x, 'm, 'w) manager \<Rightarrow> bool \<times> ('x, 'm, 'w) manager" where
  "PushEvent evt s =
     (if length (m_eventMsgBuf s) > 10000 then (False, s)
      else if IsEventValue (eventValue evt) then (True, buf_push_back (unit_of_event evt) s)
      else (True, s))"

definition PushAnsycEvent :: "'x Event \<Rightarrow> ('x, 'm, 'w) manager \<Rightarrow> bool \<times> ('x, 'm, 'w) manager" where
  "PushAnsycEvent evt s =
     (if IsEventValue (eventValue evt)
      then (True, s\<lparr>m_vectorOut := m_vectorOut s @ [unit_of_event evt]\<rparr>)
      else (False, s))"

definition PushMessage :: "'x Message \<Rightarrow> ('x, 'm, 'w) manager \<Rightarrow> bool \<times> ('x, 'm, 'w) manager" where
  "PushMessage msg s =
     (if length (m_eventMsgBuf s) > 10000 then (False, s)
      else if IsMessageValue (messageValue msg) then (True, buf_push_back (unit_of_message msg) s)
      else (True, s))"

definition PushAnsycMessage :: "'x Message \<Rightarrow> ('x, 'm, 'w) manager \<Rightarrow> bool \<times> ('x, 'm, 'w) manager" where
  "PushAnsycMessage msg s =
     (if IsMessageValue (messageValue msg)
      then (True, s\<lparr>m_vectorOut := m_vectorOut s @ [unit_of_message msg]\<rparr>)
      else (False, s))"

definition EXIST_MODULE :: "u32 \<Rightarrow> ('x, 'm, 'w) manager \<Rightarrow> 'm option" where
  "EXIST_MODULE k s = map_of (m_mapModulePoint s) k"

text \<open>\<open>cd\<close> is \<open>IModule::CallDirect\<close>; \<open>'p\<close> is what \<open>rparam\<close> points to.\<close>

definition CallService ::
  "('x, 'm, 'w, 'p) service_proc \<Rightarrow>
   u32 \<Rightarrow> 'p \<Rightarrow> ('x, 'm, 'w) manager \<Rightarrow> int \<times> ('x, 'm, 'w) manager" where
  "CallService cd lServiceValue rparam s =
     (if IsServiceValue lServiceValue then
        (case EXIST_MODULE (MODULIE_ID_FROM_VALUE SERVICE_VALUE_BASE lServiceValue) s of
           None \<Rightarrow> (-1, s)
         | Some m \<Rightarrow> cd m lServiceValue rparam s)
      else if IsEventValue lServiceValue then
        (case EXIST_MODULE (MODULIE_ID_FROM_VALUE EVENT_VALUE_BASE lServiceValue) s of
           None \<Rightarrow> (-1, s)
         | Some m \<Rightarrow> cd m lServiceValue rparam s)
      else (0, s))"

definition Exit :: "('x, 'm, 'w) manager \<Rightarrow> ('x, 'm, 'w) manager" where
  "Exit s = s\<lparr>m_bRun := False\<rparr>"

section \<open>The dispatch loop\<close>

definition SetProcessWorkingSetSize :: "('x, 'm, 'w) manager \<Rightarrow> ('x, 'm, 'w) manager" where
  "SetProcessWorkingSetSize s = s\<lparr>trims := trims s + 1\<rparr>"

definition trim_memory :: "('x, 'm, 'w) manager \<Rightarrow> ('x, 'm, 'w) manager" where
  "trim_memory s =
     (let s' = (if iFactor s < 10 * 60
                then (if iFactor s mod (10 * 10) = 0 then SetProcessWorkingSetSize s else s)
                else (if iFactor s mod (10 * 60 * 5) = 0 then SetProcessWorkingSetSize s else s))
      in s'\<lparr>iFactor := iFactor s + 1\<rparr>)"

definition pop_front :: "('x, 'm, 'w) manager \<Rightarrow> ('x, 'm, 'w) manager" where
  "pop_front s = s\<lparr>m_eventMsgBuf := tl (m_eventMsgBuf s)\<rparr>"

text \<open>One turn of the \<open>while\<close>.  \<open>pe\<close>, \<open>pm\<close> and \<open>pay\<close> are \<open>ProcessEvent\<close>, \<open>ProcessMessage\<close> and
  \<open>PaybackExtraInfo\<close> of a module; the last gets the address of the local copy.  A unit of
  neither kind is left at the head.  The exit event jumps over the memory trimming.\<close>

definition payback ::
  "('x, 'm, 'w) payback_proc \<Rightarrow>
   'x BufUnit \<Rightarrow> ('x, 'm, 'w) manager \<Rightarrow> ('x, 'm, 'w) manager" where
  "payback pay u s =
     (if buf_extra u \<noteq> None then
        (case EXIST_MODULE (ucast (buf_srcMId u)) s of
           Some m \<Rightarrow> pay m (buf_value u) u s
         | None \<Rightarrow> s)
      else s)"

definition dispatch_event ::
  "('x, 'm, 'w) event_proc \<Rightarrow>
   ('x, 'm, 'w) payback_proc \<Rightarrow>
   'x Event \<Rightarrow> ('x, 'm, 'w) manager \<Rightarrow> ('x, 'm, 'w) manager" where
  "dispatch_event pe pay evt s =
     (case EXIST_MODULE (ucast (desMId evt)) s of
        Some m \<Rightarrow> payback pay (unit_of_event evt) (pe m evt s)
      | None \<Rightarrow> s)"

definition dispatch_message ::
  "('x, 'm, 'w) message_proc \<Rightarrow>
   ('x, 'm, 'w) payback_proc \<Rightarrow>
   'x Message \<Rightarrow> ('x, 'm, 'w) manager \<Rightarrow> ('x, 'm, 'w) manager" where
  "dispatch_message pm pay msg s =
     payback pay (unit_of_message msg)
       (fold (\<lambda>(k, m) t. pm m msg t) (m_mapModulePoint s) s)"

definition dispatch_one ::
  "('x, 'm, 'w) event_proc \<Rightarrow>
   ('x, 'm, 'w) message_proc \<Rightarrow>
   ('x, 'm, 'w) payback_proc \<Rightarrow>
   ('x, 'm, 'w) manager \<Rightarrow> ('x, 'm, 'w) manager" where
  "dispatch_one pe pm pay s =
     (let u = hd (m_eventMsgBuf s) in
      if IsEventValue (eventValue (as_event u)) then
        (let evt = as_event u; s1 = pop_front s in
         if eventValue evt = EVENT_VALUE_CORE_MAIN_LOOP_EXIT then Exit s1
         else trim_memory (dispatch_event pe pay evt s1))
      else if IsMessageValue (messageValue (as_message u)) then
        trim_memory (dispatch_message pm pay (as_message u) (pop_front s))
      else trim_memory s)"

text \<open>The loop ends when the buffer is empty; it need not, so it takes fuel and \<open>None\<close> says
  that the fuel did not suffice.\<close>

fun dispatch_loop ::
  "('x, 'm, 'w) event_proc \<Rightarrow>
   ('x, 'm, 'w) message_proc \<Rightarrow>
   ('x, 'm, 'w) payback_proc \<Rightarrow>
   nat \<Rightarrow> ('x, 'm, 'w) manager \<Rightarrow> ('x, 'm, 'w) manager option" where
  "dispatch_loop pe pm pay fuel s =
     (if m_eventMsgBuf s = [] then Some s
      else case fuel of
             0 \<Rightarrow> None
           | Suc n \<Rightarrow> dispatch_loop pe pm pay n (dispatch_one pe pm pay s))"

declare dispatch_loop.simps [simp del]

lemma dispatch_loop_empty [simp]: "m_eventMsgBuf s = [] \<Longrightarrow> dispatch_loop pe pm pay n s = Some s"
  by (simp add: dispatch_loop.simps)

lemma dispatch_loop_step:
  "m_eventMsgBuf s \<noteq> [] \<Longrightarrow>
     dispatch_loop pe pm pay (Suc n) s = dispatch_loop pe pm pay n (dispatch_one pe pm pay s)"
  "m_eventMsgBuf s \<noteq> [] \<Longrightarrow> dispatch_loop pe pm pay 0 s = None"
  by (simp_all add: dispatch_loop.simps [of _ _ _ "Suc n"] dispatch_loop.simps [of _ _ _ 0])

definition swap_vectors :: "('x, 'm, 'w) manager \<Rightarrow> ('x, 'm, 'w) manager" where
  "swap_vectors s =
     (if m_vectorOut s \<noteq> [] then s\<lparr>m_vectorOut := m_vectorIn s, m_vectorIn := m_vectorOut s\<rparr> else s)"

definition drain_in :: "('x, 'm, 'w) manager \<Rightarrow> ('x, 'm, 'w) manager" where
  "drain_in s = (fold buf_push_back (m_vectorIn s) s)\<lparr>m_vectorIn := []\<rparr>"

definition cycle_message :: "'x Message" where
  "cycle_message = MakeMessage (ucast (module_value MODULE_ID_CORE)) MESSAGE_VALUE_CORE_CYCLE_TRIGGER 0 0 0 0 None"

definition begin_show_message :: "'x Message" where
  "begin_show_message = MakeMessage (ucast (module_value MODULE_ID_CORE)) MESSAGE_VALUE_CORE_BEGIN_SHOW 0 0 0 0 None"

definition OnCycleTrigger ::
  "('x, 'm, 'w) event_proc \<Rightarrow>
   ('x, 'm, 'w) message_proc \<Rightarrow>
   ('x, 'm, 'w) payback_proc \<Rightarrow>
   nat \<Rightarrow> ('x, 'm, 'w) manager \<Rightarrow> ('x, 'm, 'w) manager option" where
  "OnCycleTrigger pe pm pay fuel s =
     dispatch_loop pe pm pay fuel (drain_in (swap_vectors (snd (PushMessage cycle_message s))))"

text \<open>The message pump of \<open>Run\<close> works on the Windows messages that arrive: \<open>WmTimer\<close> is the cycle timer of the
  inner window, \<open>WmQuit\<close> makes \<open>GetMessage\<close> answer 0, any other message goes to the window procedure \<open>wnd\<close> of
  its target.  A message fetched after \<open>m_bRun\<close> was cleared is dropped.  \<open>GetMessage\<close> waits when there is no
  message: \<open>None\<close> says that the pump does not return.  The result has the messages that are left.\<close>

datatype 'q win_message = WmTimer | WmQuit | WmOther 'q

fun DispatchMessage ::
  "('x, 'm, 'w) event_proc \<Rightarrow> ('x, 'm, 'w) message_proc \<Rightarrow> ('x, 'm, 'w) payback_proc \<Rightarrow>
   ('q \<Rightarrow> ('x, 'm, 'w) manager \<Rightarrow> ('x, 'm, 'w) manager) \<Rightarrow> nat \<Rightarrow> 'q win_message \<Rightarrow>
   ('x, 'm, 'w) manager \<Rightarrow> ('x, 'm, 'w) manager option" where
  "DispatchMessage pe pm pay wnd fuel WmTimer s = OnCycleTrigger pe pm pay fuel s"
| "DispatchMessage pe pm pay wnd fuel WmQuit s = Some s"
| "DispatchMessage pe pm pay wnd fuel (WmOther q) s = Some (wnd q s)"

fun message_pump ::
  "('x, 'm, 'w) event_proc \<Rightarrow> ('x, 'm, 'w) message_proc \<Rightarrow> ('x, 'm, 'w) payback_proc \<Rightarrow>
   ('q \<Rightarrow> ('x, 'm, 'w) manager \<Rightarrow> ('x, 'm, 'w) manager) \<Rightarrow> nat \<Rightarrow> 'q win_message list \<Rightarrow>
   ('x, 'm, 'w) manager \<Rightarrow> ('q win_message list \<times> ('x, 'm, 'w) manager) option" where
  "message_pump pe pm pay wnd fuel [] s = None"
| "message_pump pe pm pay wnd fuel (q # qs) s =
     (if q = WmQuit \<or> \<not> m_bRun s then Some (qs, s)
      else case DispatchMessage pe pm pay wnd fuel q s of
             None \<Rightarrow> None
           | Some s' \<Rightarrow> message_pump pe pm pay wnd fuel qs s')"

text \<open>The second loop takes the messages that are still there while the buffer is not empty;
  \<open>PeekMessage\<close> does not wait.\<close>

fun drain_pump ::
  "('x, 'm, 'w) event_proc \<Rightarrow> ('x, 'm, 'w) message_proc \<Rightarrow> ('x, 'm, 'w) payback_proc \<Rightarrow>
   ('q \<Rightarrow> ('x, 'm, 'w) manager \<Rightarrow> ('x, 'm, 'w) manager) \<Rightarrow> nat \<Rightarrow> 'q win_message list \<Rightarrow>
   ('x, 'm, 'w) manager \<Rightarrow> ('x, 'm, 'w) manager option" where
  "drain_pump pe pm pay wnd fuel [] s = Some s"
| "drain_pump pe pm pay wnd fuel (q # qs) s =
     (if m_eventMsgBuf s = [] then Some s
      else case DispatchMessage pe pm pay wnd fuel q s of
             None \<Rightarrow> None
           | Some s' \<Rightarrow> drain_pump pe pm pay wnd fuel qs s')"

definition Run ::
  "('x, 'm, 'w) event_proc \<Rightarrow> ('x, 'm, 'w) message_proc \<Rightarrow> ('x, 'm, 'w) payback_proc \<Rightarrow>
   ('q \<Rightarrow> ('x, 'm, 'w) manager \<Rightarrow> ('x, 'm, 'w) manager) \<Rightarrow> nat \<Rightarrow> 'q win_message list \<Rightarrow>
   ('x, 'm, 'w) manager \<Rightarrow> ('x, 'm, 'w) manager option" where
  "Run pe pm pay wnd fuel qs s =
     (case OnCycleTrigger pe pm pay fuel (snd (PushMessage begin_show_message (s\<lparr>m_bRun := True\<rparr>))) of
        None \<Rightarrow> None
      | Some s1 \<Rightarrow>
          (case message_pump pe pm pay wnd fuel qs s1 of
             None \<Rightarrow> None
           | Some (rest, s2) \<Rightarrow> drain_pump pe pm pay wnd fuel rest s2))"

section \<open>What a module may do to the manager\<close>

text \<open>A module reaches the manager through \<open>IModuleManager\<close>: it pushes, and it changes its own
  data.\<close>

inductive pushes :: "('x, 'm, 'w) manager \<Rightarrow> ('x, 'm, 'w) manager \<Rightarrow> bool" for s where
  pushes_refl: "pushes s s"
| pushes_event: "pushes s t \<Longrightarrow> pushes s (snd (PushEvent e t))"
| pushes_message: "pushes s t \<Longrightarrow> pushes s (snd (PushMessage m t))"
| pushes_ansyc_event: "pushes s t \<Longrightarrow> pushes s (snd (PushAnsycEvent e t))"
| pushes_ansyc_message: "pushes s t \<Longrightarrow> pushes s (snd (PushAnsycMessage m t))"
| pushes_world: "pushes s t \<Longrightarrow> pushes s (t\<lparr>world := w\<rparr>)"

lemma pushes_trans: "pushes s t \<Longrightarrow> pushes t u \<Longrightarrow> pushes s u"
  by (rotate_tac, induction rule: pushes.induct) (auto intro: pushes.intros)

definition dispatchable :: "'x BufUnit \<Rightarrow> bool" where
  "dispatchable u \<longleftrightarrow> IsEventValue (buf_value u) \<or> IsMessageValue (buf_value u)"

definition manager_wf :: "('x, 'm, 'w) manager \<Rightarrow> bool" where
  "manager_wf s \<longleftrightarrow>
     length (m_eventMsgBuf s) \<le> BUF_CAPACITY \<and>
     list_all dispatchable (m_eventMsgBuf s) \<and> list_all dispatchable (m_vectorOut s) \<and>
     m_vectorIn s = []"

lemma circular_push_back_length:
  "0 < cap \<Longrightarrow> length xs \<le> cap \<Longrightarrow> length (circular_push_back cap x xs) \<le> cap"
  by (auto simp: circular_push_back_def)

lemma circular_push_back_room: "length xs < cap \<Longrightarrow> circular_push_back cap x xs = xs @ [x]"
  by (simp add: circular_push_back_def)

lemma set_circular_push_back: "set (circular_push_back cap x xs) \<subseteq> insert x (set xs)"
  by (auto simp: circular_push_back_def dest: list.set_sel(2) [rotated])

text \<open>Whatever a module pushes is appended: \<open>PushEvent\<close> and \<open>PushMessage\<close> refuse long before the
  buffer would overwrite its oldest element.\<close>

lemma pushes_appends:
  assumes "pushes s t"
  shows "\<exists>us vs. m_eventMsgBuf t = m_eventMsgBuf s @ us \<and> m_vectorOut t = m_vectorOut s @ vs \<and>
           list_all dispatchable us \<and> list_all dispatchable vs \<and>
           (us = [] \<or> length (m_eventMsgBuf t) \<le> 10001) \<and>
           m_vectorIn t = m_vectorIn s \<and> m_bRun t = m_bRun s \<and>
           m_mapModulePoint t = m_mapModulePoint s \<and> iFactor t = iFactor s \<and> trims t = trims s"
  using assms
  by (induction rule: pushes.induct)
    (auto simp: PushEvent_def PushMessage_def PushAnsycEvent_def PushAnsycMessage_def
      buf_push_back_def circular_push_back_room BUF_CAPACITY_def dispatchable_def)

lemma pushesE:
  assumes "pushes s t"
  obtains us vs where "m_eventMsgBuf t = m_eventMsgBuf s @ us" "m_vectorOut t = m_vectorOut s @ vs"
    "list_all dispatchable us" "list_all dispatchable vs"
    "us = [] \<or> length (m_eventMsgBuf t) \<le> 10001"
    "m_vectorIn t = m_vectorIn s" "m_bRun t = m_bRun s" "m_mapModulePoint t = m_mapModulePoint s"
    "iFactor t = iFactor s" "trims t = trims s"
  using pushes_appends [OF assms] by blast

lemma pushes_wf: "pushes s t \<Longrightarrow> manager_wf s \<Longrightarrow> manager_wf t"
  by (elim pushesE) (auto simp: manager_wf_def BUF_CAPACITY_def)

lemma trim_memory_simps [simp]:
  "m_eventMsgBuf (trim_memory s) = m_eventMsgBuf s" "m_vectorOut (trim_memory s) = m_vectorOut s"
  "m_vectorIn (trim_memory s) = m_vectorIn s" "m_bRun (trim_memory s) = m_bRun s"
  "m_mapModulePoint (trim_memory s) = m_mapModulePoint s" "world (trim_memory s) = world s"
  "iFactor (trim_memory s) = iFactor s + 1"
  by (simp_all add: trim_memory_def SetProcessWorkingSetSize_def Let_def)

lemma pop_front_simps [simp]:
  "m_eventMsgBuf (pop_front s) = tl (m_eventMsgBuf s)" "m_vectorOut (pop_front s) = m_vectorOut s"
  "m_vectorIn (pop_front s) = m_vectorIn s" "m_bRun (pop_front s) = m_bRun s"
  "m_mapModulePoint (pop_front s) = m_mapModulePoint s" "world (pop_front s) = world s"
  by (simp_all add: pop_front_def)

lemma pop_front_wf: "manager_wf s \<Longrightarrow> manager_wf (pop_front s)"
  by (cases "m_eventMsgBuf s") (auto simp: manager_wf_def)

lemma trim_memory_wf [simp]: "manager_wf (trim_memory s) = manager_wf s"
  by (simp add: manager_wf_def)

lemma Exit_wf [simp]: "manager_wf (Exit s) = manager_wf s"
  by (simp add: manager_wf_def Exit_def)

text \<open>The circular buffer keeps the newest elements, as many as its capacity.\<close>

lemma fold_circular_push_back:
  "length xs \<le> cap \<Longrightarrow>
     fold (circular_push_back cap) us xs = drop (length xs + length us - cap) (xs @ us)"
proof (induction us arbitrary: xs)
  case (Cons u us)
  show ?case
  proof (cases "length xs < cap")
    case True
    then show ?thesis
      using Cons.IH [of "xs @ [u]"] by (simp add: circular_push_back_room del: drop_append)
  next
    case False
    with Cons.prems have len: "length xs = cap" by simp
    show ?thesis
    proof (cases xs)
      case Nil
      with len Cons.IH [of "[]"] show ?thesis by (simp add: circular_push_back_def)
    next
      case (Cons y ys)
      with len Cons.IH [of "ys @ [u]"] show ?thesis by (simp add: circular_push_back_def)
    qed
  qed
qed simp

lemma fold_buf_push_back:
  "fold buf_push_back us s =
     s\<lparr>m_eventMsgBuf := fold (circular_push_back BUF_CAPACITY) us (m_eventMsgBuf s)\<rparr>"
  by (induction us arbitrary: s) (simp_all add: buf_push_back_def)

text \<open>What a cycle starts with: the buffer, the cycle message if there is room for it, and all that
  other threads have pushed, cut to the newest \<open>BUF_CAPACITY\<close>.\<close>

definition cycle_start :: "('x, 'm, 'w) manager \<Rightarrow> ('x, 'm, 'w) manager" where
  "cycle_start s = drain_in (swap_vectors (snd (PushMessage cycle_message s)))"

definition cycle_units :: "('x, 'm, 'w) manager \<Rightarrow> 'x BufUnit list" where
  "cycle_units s =
     m_eventMsgBuf s @ (if length (m_eventMsgBuf s) > 10000 then [] else [unit_of_message cycle_message])
       @ m_vectorOut s"

lemma cycle_message_value [simp]:
  "messageValue cycle_message = MESSAGE_VALUE_CORE_CYCLE_TRIGGER"
  "IsMessageValue MESSAGE_VALUE_CORE_CYCLE_TRIGGER"
  by (simp_all add: cycle_message_def MakeMessage_def IsMessageValue_def
      MESSAGE_VALUE_CORE_CYCLE_TRIGGER_def VALUE_BEGIN_def value_bases)

lemma cycle_start_eq:
  assumes "manager_wf s"
  shows "cycle_start s =
    s\<lparr>m_eventMsgBuf := drop (length (cycle_units s) - BUF_CAPACITY) (cycle_units s), m_vectorOut := []\<rparr>"
proof -
  have "length (m_eventMsgBuf (snd (PushMessage cycle_message s))) \<le> BUF_CAPACITY"
    using assms by (auto simp: PushMessage_def manager_wf_def buf_push_back_def BUF_CAPACITY_def
        circular_push_back_def)
  then show ?thesis
    using assms
    by (auto simp: cycle_start_def drain_in_def swap_vectors_def fold_buf_push_back cycle_units_def
        fold_circular_push_back PushMessage_def manager_wf_def buf_push_back_def
        circular_push_back_room BUF_CAPACITY_def)
qed

lemma cycle_units_dispatchable: "manager_wf s \<Longrightarrow> list_all dispatchable (cycle_units s)"
  by (auto simp: cycle_units_def manager_wf_def dispatchable_def)

lemma cycle_start_wf: "manager_wf s \<Longrightarrow> manager_wf (cycle_start s)"
  using cycle_units_dispatchable [of s] set_drop_subset [of _ "cycle_units s"]
  by (auto simp: cycle_start_eq manager_wf_def list_all_iff)

text \<open>The branches of a turn.\<close>

lemma exit_is_event: "IsEventValue EVENT_VALUE_CORE_MAIN_LOOP_EXIT"
  by (simp add: IsEventValue_def EVENT_VALUE_CORE_MAIN_LOOP_EXIT_def VALUE_BEGIN_def value_bases)

lemma dispatch_one_exit:
  "buf_value (hd (m_eventMsgBuf s)) = EVENT_VALUE_CORE_MAIN_LOOP_EXIT \<Longrightarrow>
     dispatch_one pe pm pay s = Exit (pop_front s)"
  by (simp add: dispatch_one_def Let_def exit_is_event)

lemma dispatch_one_event:
  "IsEventValue (buf_value (hd (m_eventMsgBuf s))) \<Longrightarrow>
   buf_value (hd (m_eventMsgBuf s)) \<noteq> EVENT_VALUE_CORE_MAIN_LOOP_EXIT \<Longrightarrow>
     dispatch_one pe pm pay s =
       trim_memory (dispatch_event pe pay (as_event (hd (m_eventMsgBuf s))) (pop_front s))"
  by (simp add: dispatch_one_def Let_def)

lemma dispatch_one_message:
  "IsMessageValue (buf_value (hd (m_eventMsgBuf s))) \<Longrightarrow>
     dispatch_one pe pm pay s =
       trim_memory (dispatch_message pm pay (as_message (hd (m_eventMsgBuf s))) (pop_front s))"
  by (simp add: dispatch_one_def Let_def kinds_exclusive)

text \<open>The contract between the manager and the modules it calls.\<close>

locale bus_clients =
  fixes pe :: "('x, 'm, 'w) event_proc"
    and pm :: "('x, 'm, 'w) message_proc"
    and pay :: "('x, 'm, 'w) payback_proc"
  assumes pe_pushes: "pushes s (pe m e s)"
    and pm_pushes: "pushes s (pm m msg s)"
    and pay_pushes: "pushes s (pay m v u s)"
begin

lemma payback_pushes: "pushes s (payback pay u s)"
  by (auto simp: payback_def intro: pay_pushes pushes_refl split: option.split)

lemma dispatch_event_pushes: "pushes s (dispatch_event pe pay e s)"
  by (auto simp: dispatch_event_def intro: pushes_trans pe_pushes payback_pushes pushes_refl
      split: option.split)

lemma broadcast_pushes: "pushes s (fold (\<lambda>(k, m) t. pm m msg t) ms s)"
proof (induction ms arbitrary: s)
  case (Cons km ms)
  then show ?case by (cases km) (auto intro: pushes_trans pm_pushes)
qed (simp add: pushes_refl)

lemma dispatch_message_pushes: "pushes s (dispatch_message pm pay msg s)"
  unfolding dispatch_message_def by (rule pushes_trans [OF broadcast_pushes payback_pushes])

text \<open>One turn takes the head off and appends what the handlers pushed.\<close>

lemma dispatch_one_shape:
  assumes "manager_wf s" and "m_eventMsgBuf s \<noteq> []"
  shows "if buf_value (hd (m_eventMsgBuf s)) = EVENT_VALUE_CORE_MAIN_LOOP_EXIT
         then dispatch_one pe pm pay s = Exit (pop_front s)
         else (\<exists>t. dispatch_one pe pm pay s = trim_memory t \<and> pushes (pop_front s) t)"
proof -
  have "dispatchable (hd (m_eventMsgBuf s))"
    using assms by (cases "m_eventMsgBuf s") (auto simp: manager_wf_def)
  then show ?thesis
    unfolding dispatchable_def
    by (auto simp: dispatch_one_exit dispatch_one_message
        intro: dispatch_event_pushes dispatch_message_pushes dispatch_one_event)
qed

lemma dispatch_one_advances:
  assumes "manager_wf s" and "m_eventMsgBuf s \<noteq> []"
  shows "\<exists>us. m_eventMsgBuf (dispatch_one pe pm pay s) = tl (m_eventMsgBuf s) @ us"
    and "manager_wf (dispatch_one pe pm pay s)"
    and "m_mapModulePoint (dispatch_one pe pm pay s) = m_mapModulePoint s"
    and "m_bRun (dispatch_one pe pm pay s) \<longleftrightarrow>
           m_bRun s \<and> buf_value (hd (m_eventMsgBuf s)) \<noteq> EVENT_VALUE_CORE_MAIN_LOOP_EXIT"
proof -
  note shape = dispatch_one_shape [OF assms] and wf = pop_front_wf [OF assms(1)]
  show "\<exists>us. m_eventMsgBuf (dispatch_one pe pm pay s) = tl (m_eventMsgBuf s) @ us"
    using shape by (auto simp: Exit_def elim!: pushesE split: if_splits)
  show "manager_wf (dispatch_one pe pm pay s)"
    using shape wf pushes_wf by (auto split: if_splits)
  show "m_mapModulePoint (dispatch_one pe pm pay s) = m_mapModulePoint s"
    using shape by (auto simp: Exit_def elim!: pushesE split: if_splits)
  show "m_bRun (dispatch_one pe pm pay s) \<longleftrightarrow>
          m_bRun s \<and> buf_value (hd (m_eventMsgBuf s)) \<noteq> EVENT_VALUE_CORE_MAIN_LOOP_EXIT"
    using shape by (auto simp: Exit_def elim!: pushesE split: if_splits)
qed

lemma dispatch_loop_result:
  assumes "dispatch_loop pe pm pay n s = Some t" and "manager_wf s"
  shows "m_eventMsgBuf t = [] \<and> manager_wf t \<and> m_mapModulePoint t = m_mapModulePoint s"
  using assms
proof (induction n arbitrary: s)
  case 0
  then show ?case by (auto simp: dispatch_loop.simps [of _ _ _ 0] split: if_splits)
next
  case (Suc n)
  then show ?case
    using dispatch_one_advances [of s]
    by (cases "m_eventMsgBuf s = []") (auto simp: dispatch_loop.simps [of _ _ _ "Suc n"])
qed

lemma dispatch_loop_mono:
  "dispatch_loop pe pm pay n s = Some t \<Longrightarrow> n \<le> k \<Longrightarrow> dispatch_loop pe pm pay k s = Some t"
proof (induction n arbitrary: s k)
  case 0
  then show ?case
    by (auto simp: dispatch_loop.simps [of _ _ _ 0] dispatch_loop.simps [of _ _ _ k] split: if_splits)
next
  case (Suc n)
  then obtain k' where "k = Suc k'" "n \<le> k'" by (cases k) auto
  with Suc show ?case
    by (auto simp: dispatch_loop.simps [of _ _ _ "Suc n"] dispatch_loop.simps [of _ _ _ "Suc k'"]
        split: if_splits)
qed

lemma dispatch_fifo:
  assumes "manager_wf s" and "n \<le> length (m_eventMsgBuf s)"
  shows "\<exists>us. m_eventMsgBuf ((dispatch_one pe pm pay ^^ n) s) = drop n (m_eventMsgBuf s) @ us \<and>
           manager_wf ((dispatch_one pe pm pay ^^ n) s)"
  using assms(2)
proof (induction n)
  case 0
  then show ?case using assms(1) by simp
next
  case (Suc n)
  then obtain us where us: "m_eventMsgBuf ((dispatch_one pe pm pay ^^ n) s) = drop n (m_eventMsgBuf s) @ us"
    and wf: "manager_wf ((dispatch_one pe pm pay ^^ n) s)" by auto
  have "drop n (m_eventMsgBuf s) \<noteq> []" using Suc.prems by simp
  with dispatch_one_advances(1,2) [OF wf] us show ?case
    by (fastforce simp: tl_append2 drop_Suc drop_tl [symmetric])
qed

lemma OnCycleTrigger_result:
  assumes "OnCycleTrigger pe pm pay n s = Some t" and "manager_wf s"
  shows "m_eventMsgBuf t = [] \<and> manager_wf t \<and> m_mapModulePoint t = m_mapModulePoint s"
  using dispatch_loop_result [of n "cycle_start s" t] cycle_start_wf [OF assms(2)] assms
  by (simp add: OnCycleTrigger_def cycle_start_def [symmetric]) (simp add: cycle_start_eq)

text \<open>Once cleared, \<open>m_bRun\<close> stays cleared.\<close>

lemma dispatch_loop_bRun:
  "dispatch_loop pe pm pay n s = Some t \<Longrightarrow> manager_wf s \<Longrightarrow> \<not> m_bRun s \<Longrightarrow> \<not> m_bRun t"
proof (induction n arbitrary: s)
  case 0
  then show ?case by (auto simp: dispatch_loop.simps [of _ _ _ 0] split: if_splits)
next
  case (Suc n)
  then show ?case
    using dispatch_one_advances [of s]
    by (cases "m_eventMsgBuf s = []") (auto simp: dispatch_loop.simps [of _ _ _ "Suc n"])
qed

text \<open>An exit event in the buffer stops the program by the end of the cycle.\<close>

lemma dispatch_loop_exit:
  assumes "dispatch_loop pe pm pay n s = Some t" and "manager_wf s"
    and "\<exists>u \<in> set (m_eventMsgBuf s). buf_value u = EVENT_VALUE_CORE_MAIN_LOOP_EXIT"
  shows "\<not> m_bRun t"
  using assms
proof (induction n arbitrary: s)
  case 0
  then show ?case by (auto simp: dispatch_loop.simps [of _ _ _ 0] split: if_splits)
next
  case (Suc n)
  let ?s = "dispatch_one pe pm pay s"
  obtain u us where buf: "m_eventMsgBuf s = u # us" using Suc.prems(3) by (cases "m_eventMsgBuf s") auto
  then have step: "dispatch_loop pe pm pay n ?s = Some t"
    using Suc.prems(1) by (simp add: dispatch_loop.simps [of _ _ _ "Suc n"])
  note adv = dispatch_one_advances [OF Suc.prems(2)]
  show ?case
  proof (cases "buf_value u = EVENT_VALUE_CORE_MAIN_LOOP_EXIT")
    case True
    then show ?thesis using adv(2,4) buf step dispatch_loop_bRun [of n ?s t] by simp
  next
    case False
    then have "\<exists>u \<in> set (m_eventMsgBuf ?s). buf_value u = EVENT_VALUE_CORE_MAIN_LOOP_EXIT"
      using adv(1) buf Suc.prems(3) by fastforce
    then show ?thesis using Suc.IH [OF step] adv(2) buf by simp
  qed
qed

end

end
