(* ===== verification/Module_Impl.thy ===== *)
theory Module_Impl
  imports Module_Bus
begin

text \<open>
  What every module has in common: the dispatch macros \<open>PROCESS_EVENT\<close> and \<open>PROCESS_MESSAGE\<close> of
  \<open>src/include/Module.h\<close> over the tables of a module, and \<open>PaybackExtraInfo\<close> of
  \<open>src/include/ModuleImpl.h\<close>.  A handler changes the data of the modules and issues pushes; no
  caller in the program looks at the result of a push.  These modules satisfy the contract the
  manager relies on, so its lemmas hold for them.
\<close>

section \<open>Modules with handler tables\<close>

datatype 'x request =
    ReqEvent "'x Event" | ReqMessage "'x Message"
  | ReqAnsycEvent "'x Event" | ReqAnsycMessage "'x Message"

fun perform :: "'x request \<Rightarrow> ('x, 'm, 'w) manager \<Rightarrow> ('x, 'm, 'w) manager" where
  "perform (ReqEvent e) s = snd (PushEvent e s)"
| "perform (ReqMessage m) s = snd (PushMessage m s)"
| "perform (ReqAnsycEvent e) s = snd (PushAnsycEvent e s)"
| "perform (ReqAnsycMessage m) s = snd (PushAnsycMessage m s)"

record ('x, 'w) module_maps =
  m_eventMap :: "(u32 \<times> ('x Event \<Rightarrow> 'w \<Rightarrow> 'w \<times> 'x request list) option) list"
  m_messageMap :: "(u32 \<times> ('x Message \<Rightarrow> 'w \<Rightarrow> 'w \<times> 'x request list) option) list"

definition run_handler ::
  "('a \<Rightarrow> 'w \<Rightarrow> 'w \<times> 'x request list) \<Rightarrow> 'a \<Rightarrow> ('x, 'm, 'w) manager \<Rightarrow> ('x, 'm, 'w) manager" where
  "run_handler h a s =
     (case h a (world s) of (w, rs) \<Rightarrow> fold perform rs (s\<lparr>world := w\<rparr>))"

definition PROCESS_EVENT :: "('m \<Rightarrow> ('x, 'w) module_maps) \<Rightarrow> ('x, 'm, 'w) event_proc" where
  "PROCESS_EVENT maps m evt s =
     (case find_handler (m_eventMap (maps m)) (eventValue evt) of
        None \<Rightarrow> s
      | Some h \<Rightarrow> run_handler h evt s)"

definition PROCESS_MESSAGE :: "('m \<Rightarrow> ('x, 'w) module_maps) \<Rightarrow> ('x, 'm, 'w) message_proc" where
  "PROCESS_MESSAGE maps m msg s =
     (case find_handler (m_messageMap (maps m)) (messageValue msg) of
        None \<Rightarrow> s
      | Some h \<Rightarrow> run_handler h msg s)"

text \<open>\<open>del\<close> is the \<open>delete\<close> of the extra information.\<close>

definition PaybackExtraInfo :: "('x \<Rightarrow> 'w \<Rightarrow> 'w) \<Rightarrow> ('x, 'm, 'w) payback_proc" where
  "PaybackExtraInfo del m valueId pExtraInfo s =
     (if IsEventValue valueId then
        (case m_pstExtraInfo (as_event pExtraInfo) of
           Some x \<Rightarrow> s\<lparr>world := del x (world s)\<rparr>
         | None \<Rightarrow> s)
      else if IsMessageValue valueId then
        (case msg_pstExtraInfo (as_message pExtraInfo) of
           Some x \<Rightarrow> s\<lparr>world := del x (world s)\<rparr>
         | None \<Rightarrow> s)
      else s)"

lemma pushes_perform: "pushes s t \<Longrightarrow> pushes s (perform r t)"
  by (cases r) (auto intro: pushes.intros)

lemma pushes_performs: "pushes s t \<Longrightarrow> pushes s (fold perform rs t)"
  by (induction rs arbitrary: t) (auto intro: pushes_perform)

lemma pushes_run_handler: "pushes s (run_handler h a s)"
  by (auto simp: run_handler_def intro: pushes_performs pushes.intros split: prod.split)

interpretation table_modules:
  bus_clients "PROCESS_EVENT maps" "PROCESS_MESSAGE maps" "PaybackExtraInfo del"
  for maps :: "'m \<Rightarrow> ('x, 'w) module_maps" and del
  by unfold_locales
    (auto simp: PROCESS_EVENT_def PROCESS_MESSAGE_def PaybackExtraInfo_def
      intro: pushes_run_handler pushes.intros split: option.split)

section \<open>Handlers that push strictly lower events end the loop\<close>

fun request_value :: "'x request \<Rightarrow> u32 option" where
  "request_value (ReqEvent e) = Some (eventValue e)"
| "request_value (ReqMessage m) = Some (messageValue m)"
| "request_value (ReqAnsycEvent e) = None"
| "request_value (ReqAnsycMessage m) = None"

text \<open>\<open>rank\<close> orders the values; a handler for \<open>v\<close> puts into the buffer only values of lower
  rank.  Pushes for other threads' queue wait for the next cycle and are not restricted.\<close>

definition ranked_maps :: "(u32 \<Rightarrow> nat) \<Rightarrow> ('m \<Rightarrow> ('x, 'w) module_maps) \<Rightarrow> bool" where
  "ranked_maps rank maps \<longleftrightarrow>
     (\<forall>m e w h r v. find_handler (m_eventMap (maps m)) (eventValue e) = Some h \<longrightarrow>
        r \<in> set (snd (h e w)) \<longrightarrow> request_value r = Some v \<longrightarrow> rank v < rank (eventValue e)) \<and>
     (\<forall>m msg w h r v. find_handler (m_messageMap (maps m)) (messageValue msg) = Some h \<longrightarrow>
        r \<in> set (snd (h msg w)) \<longrightarrow> request_value r = Some v \<longrightarrow> rank v < rank (messageValue msg))"

definition adds_below :: "(u32 \<Rightarrow> nat) \<Rightarrow> nat \<Rightarrow> ('x, 'm, 'w) manager \<Rightarrow> ('x, 'm, 'w) manager \<Rightarrow> bool" where
  "adds_below rank r s t \<longleftrightarrow>
     m_mapModulePoint t = m_mapModulePoint s \<and>
     (\<exists>us. m_eventMsgBuf t = m_eventMsgBuf s @ us \<and> (\<forall>u \<in> set us. rank (buf_value u) < r))"

lemma adds_below_refl [simp]: "adds_below rank r s s"
  by (simp add: adds_below_def)

lemma adds_below_trans: "adds_below rank r s t \<Longrightarrow> adds_below rank r t u \<Longrightarrow> adds_below rank r s u"
  by (fastforce simp: adds_below_def)

lemma adds_below_world [simp]: "adds_below rank r s (t\<lparr>world := w\<rparr>) = adds_below rank r s t"
  by (simp add: adds_below_def)

lemma adds_below_perform:
  assumes "\<And>v. request_value q = Some v \<Longrightarrow> rank v < r"
  shows "adds_below rank r s (perform q s)"
  using assms
  by (cases q) (auto simp: adds_below_def PushEvent_def PushMessage_def PushAnsycEvent_def
      PushAnsycMessage_def buf_push_back_def circular_push_back_room BUF_CAPACITY_def)

lemma adds_below_performs:
  assumes "\<And>q v. q \<in> set qs \<Longrightarrow> request_value q = Some v \<Longrightarrow> rank v < r"
  shows "adds_below rank r s (fold perform qs s)"
  using assms
proof (induction qs arbitrary: s)
  case (Cons q qs)
  have "adds_below rank r s (perform q s)" using Cons.prems by (auto intro: adds_below_perform)
  with Cons show ?case by (auto intro: adds_below_trans)
qed simp

lemma adds_below_handler:
  assumes "\<And>q v. q \<in> set (snd (h a (world s))) \<Longrightarrow> request_value q = Some v \<Longrightarrow> rank v < r"
  shows "adds_below rank r s (run_handler h a s)"
proof -
  obtain w qs where w: "h a (world s) = (w, qs)" by (cases "h a (world s)")
  have "adds_below rank r (s\<lparr>world := w\<rparr>) (fold perform qs (s\<lparr>world := w\<rparr>))"
    using assms w by (auto intro: adds_below_performs)
  then show ?thesis using w by (simp add: run_handler_def adds_below_def)
qed

lemma adds_below_payback: "adds_below rank r s (payback (PaybackExtraInfo del) u s)"
  by (auto simp: payback_def PaybackExtraInfo_def split: option.split)

lemma adds_below_dispatch_event:
  assumes "ranked_maps rank maps"
  shows "adds_below rank (rank (eventValue e)) s
           (dispatch_event (PROCESS_EVENT maps) (PaybackExtraInfo del) e s)"
proof -
  have "adds_below rank (rank (eventValue e)) t (PROCESS_EVENT maps m e t)" for m t
    using assms unfolding PROCESS_EVENT_def ranked_maps_def
    by (auto split: option.split intro!: adds_below_handler)
  then show ?thesis
    by (auto simp: dispatch_event_def split: option.split
        intro: adds_below_trans [OF _ adds_below_payback])
qed

lemma adds_below_dispatch_message:
  assumes "ranked_maps rank maps"
  shows "adds_below rank (rank (messageValue msg)) s
           (dispatch_message (PROCESS_MESSAGE maps) (PaybackExtraInfo del) msg s)"
proof -
  have step: "adds_below rank (rank (messageValue msg)) t (PROCESS_MESSAGE maps m msg t)" for m t
    using assms unfolding PROCESS_MESSAGE_def ranked_maps_def
    by (auto split: option.split intro!: adds_below_handler)
  have "adds_below rank (rank (messageValue msg)) t
          (fold (\<lambda>(k, m). PROCESS_MESSAGE maps m msg) ms t)" for ms t
    by (induction ms arbitrary: t) (auto intro: adds_below_trans step)
  then show ?thesis
    unfolding dispatch_message_def by (blast intro: adds_below_trans adds_below_payback)
qed

abbreviation buf_ranks :: "(u32 \<Rightarrow> nat) \<Rightarrow> ('x, 'm, 'w) manager \<Rightarrow> nat multiset" where
  "buf_ranks rank s \<equiv> mset (map (\<lambda>u. rank (buf_value u)) (m_eventMsgBuf s))"

lemma adds_below_decreases:
  assumes "adds_below rank (rank (buf_value u)) (pop_front s) t" and "m_eventMsgBuf s = u # us"
  shows "(buf_ranks rank t, buf_ranks rank s) \<in> mult less_than"
proof -
  obtain vs where vs: "m_eventMsgBuf t = us @ vs" "\<forall>v \<in> set vs. rank (buf_value v) < rank (buf_value u)"
    using assms by (auto simp: adds_below_def)
  let ?I = "mset (map (\<lambda>u. rank (buf_value u)) us)"
  have "(?I + mset (map (\<lambda>u. rank (buf_value u)) vs), ?I + {#rank (buf_value u)#}) \<in> mult less_than"
    using vs(2) by (intro one_step_implies_mult) auto
  then show ?thesis using vs(1) assms(2) by (simp add: add.commute)
qed

lemma dispatch_one_decreases:
  assumes "ranked_maps rank maps" and "manager_wf s" and "m_eventMsgBuf s \<noteq> []"
  shows "(buf_ranks rank (dispatch_one (PROCESS_EVENT maps) (PROCESS_MESSAGE maps) (PaybackExtraInfo del) s),
          buf_ranks rank s) \<in> mult less_than"
proof -
  obtain u us where buf: "m_eventMsgBuf s = u # us" using assms(3) by (cases "m_eventMsgBuf s") auto
  then have d: "dispatchable u" using assms(2) by (simp add: manager_wf_def)
  note dec = adds_below_decreases [OF _ buf]
  have "adds_below rank (rank (buf_value u)) (pop_front s)
          (dispatch_one (PROCESS_EVENT maps) (PROCESS_MESSAGE maps) (PaybackExtraInfo del) s)"
    using d adds_below_dispatch_event [OF assms(1), of "as_event u" "pop_front s" del]
      adds_below_dispatch_message [OF assms(1), of "as_message u" "pop_front s" del] buf
    unfolding dispatchable_def
    by (cases "buf_value u = EVENT_VALUE_CORE_MAIN_LOOP_EXIT")
      (auto simp: dispatch_one_exit dispatch_one_event dispatch_one_message Exit_def adds_below_def)
  then show ?thesis by (rule dec)
qed

lemma dispatch_loop_terminates:
  assumes "ranked_maps rank maps" and "manager_wf s"
  shows "\<exists>n t. dispatch_loop (PROCESS_EVENT maps) (PROCESS_MESSAGE maps) (PaybackExtraInfo del) n s = Some t"
  using assms(2)
proof (induction s rule: wf_induct_rule [OF wf_inv_image [OF wf_mult [OF wf_less_than], of "buf_ranks rank"]])
  case (1 s)
  let ?d = "dispatch_one (PROCESS_EVENT maps) (PROCESS_MESSAGE maps) (PaybackExtraInfo del)"
  show ?case
  proof (cases "m_eventMsgBuf s = []")
    case True
    then show ?thesis using dispatch_loop_empty by blast
  next
    case False
    then obtain n t where
      "dispatch_loop (PROCESS_EVENT maps) (PROCESS_MESSAGE maps) (PaybackExtraInfo del) n (?d s) = Some t"
      using 1(1) [of "?d s"] dispatch_one_decreases [OF assms(1) 1(2) False, of del]
        table_modules.dispatch_one_advances(2) [OF 1(2) False, of maps del] by (auto simp: in_inv_image)
    with False show ?thesis using dispatch_loop_step(1) [OF False] by metis
  qed
qed

section \<open>Properties of the manager with such modules\<close>

text \<open>
  C6: If every handler pushes only events and messages of a lower rank than the one it handles,
  one run of \<open>OnCycleTrigger\<close> returns: the buffer is empty, the invariant of the manager holds and
  the loaded modules are the same.
\<close>

theorem cycle_terminates:
  assumes "ranked_maps rank maps" and "manager_wf s"
  shows "\<exists>n t. OnCycleTrigger (PROCESS_EVENT maps) (PROCESS_MESSAGE maps) (PaybackExtraInfo del) n s = Some t \<and>
           m_eventMsgBuf t = [] \<and> manager_wf t \<and> m_mapModulePoint t = m_mapModulePoint s"
proof -
  obtain n t where "dispatch_loop (PROCESS_EVENT maps) (PROCESS_MESSAGE maps) (PaybackExtraInfo del) n
      (cycle_start s) = Some t"
    using dispatch_loop_terminates [OF assms(1) cycle_start_wf [OF assms(2)]] by blast
  then have "OnCycleTrigger (PROCESS_EVENT maps) (PROCESS_MESSAGE maps) (PaybackExtraInfo del) n s = Some t"
    by (simp add: OnCycleTrigger_def cycle_start_def)
  then show ?thesis using table_modules.OnCycleTrigger_result assms(2) by blast
qed

definition demo_maps :: "nat \<Rightarrow> (unit, nat) module_maps" where
  "demo_maps m =
     \<lparr>m_eventMap = handler_table [(0x10003002, \<lambda>e w. (w + 1, [ReqMessage (MakeMessage 2 0x20003002 0 0 0 0 None)]))],
      m_messageMap = handler_table [(0x20003002, \<lambda>e w. (w + 10, []))]\<rparr>"

definition demo_manager :: "(unit, nat, nat) manager" where
  "demo_manager = (ModuleManagerImpl 0)
     \<lparr>m_mapModulePoint := [(2, 0)], m_vectorOut := [unit_of_event (MakeEvent 2 0x10003002 2 0 0 0 0 None)]\<rparr>"

lemma demo_ranked: "ranked_maps (\<lambda>v. if IsEventValue v then 1 else 0) demo_maps"
  by (auto simp: ranked_maps_def demo_maps_def handler_table_def IsEventValue_def MakeMessage_def
      split: if_splits)

lemma demo_wf: "manager_wf demo_manager"
  by (simp add: manager_wf_def demo_manager_def ModuleManagerImpl_def dispatchable_def MakeEvent_def
      IsEventValue_def)

theorem cycle_terminates_witness:
  "\<exists>n t. OnCycleTrigger (PROCESS_EVENT demo_maps) (PROCESS_MESSAGE demo_maps) (PaybackExtraInfo (\<lambda>_ w. w)) n
       demo_manager = Some t \<and> m_eventMsgBuf t = [] \<and> manager_wf t \<and> m_mapModulePoint t = [(2, 0)]"
  using cycle_terminates [OF demo_ranked demo_wf, of "\<lambda>_ w. w"]
  by (simp add: demo_manager_def)

text \<open>
  C27: The loop handles what was waiting in the order in which it arrived: with \<open>us\<close> the units a
  cycle starts with (the buffer, the cycle message, then what other threads pushed, cut to the newest
  10240), the \<open>n\<close>-th turn finds \<open>us ! n\<close> at the head, whatever the handlers push in between.
\<close>

theorem cycle_delivers_in_order:
  assumes "manager_wf s"
    and "us = drop (length (cycle_units s) - BUF_CAPACITY) (cycle_units s)" and "n < length us"
  shows "hd (m_eventMsgBuf ((dispatch_one (PROCESS_EVENT maps) (PROCESS_MESSAGE maps)
           (PaybackExtraInfo del) ^^ n) (cycle_start s))) = us ! n"
proof -
  have "m_eventMsgBuf (cycle_start s) = us" using assms(1,2) by (simp add: cycle_start_eq)
  then obtain vs where "m_eventMsgBuf ((dispatch_one (PROCESS_EVENT maps) (PROCESS_MESSAGE maps)
      (PaybackExtraInfo del) ^^ n) (cycle_start s)) = drop n us @ vs"
    using table_modules.dispatch_fifo [OF cycle_start_wf [OF assms(1)], of n maps del] assms(3) by auto
  then show ?thesis using assms(3) by (simp add: hd_append hd_drop_conv_nth)
qed

theorem cycle_delivers_in_order_witness:
  "hd (m_eventMsgBuf ((dispatch_one (PROCESS_EVENT demo_maps) (PROCESS_MESSAGE demo_maps)
     (PaybackExtraInfo (\<lambda>_ w. w)) ^^ 1) (cycle_start demo_manager))) =
     unit_of_event (MakeEvent 2 0x10003002 2 0 0 0 0 None)"
  using cycle_delivers_in_order [OF demo_wf refl, of 1 demo_maps "\<lambda>_ w. w"]
  by (simp add: demo_manager_def ModuleManagerImpl_def cycle_units_def BUF_CAPACITY_def)


definition demo_exit :: "(unit, nat, nat) manager" where
  "demo_exit = (ModuleManagerImpl 0)
     \<lparr>m_bRun := True, m_vectorOut := [unit_of_event (MakeEvent 2 0x10002002 1 0 0 0 0 None)]\<rparr>"

lemma demo_exit_returns:
  "OnCycleTrigger (PROCESS_EVENT demo_maps) (PROCESS_MESSAGE demo_maps) (PaybackExtraInfo (\<lambda>_ w. w)) 2
     demo_exit = Some ((ModuleManagerImpl 0)\<lparr>iFactor := 1, trims := 1\<rparr>)"
  by code_simp



text \<open>One extra block, numbered by its address; deleting it logs the address.\<close>

definition extra_manager :: "(nat, nat, nat list) manager" where
  "extra_manager = (ModuleManagerImpl [])
     \<lparr>m_mapModulePoint := [(2, 0), (5, 1)],
      m_eventMsgBuf := [unit_of_event (MakeEvent 2 0x10003002 5 0 0 0 0 (Some 77))]\<rparr>"

definition extra_maps :: "nat \<Rightarrow> (nat, nat list) module_maps" where
  "extra_maps m = \<lparr>m_eventMap = handler_table [(0x10003002, \<lambda>e w. (w @ [m], []))], m_messageMap = [(0, None)]\<rparr>"


lemma push_wf:
  assumes "manager_wf s"
  shows "manager_wf (snd (PushEvent e s))" and "manager_wf (snd (PushMessage m s))"
    and "manager_wf (snd (PushAnsycEvent e s))" and "manager_wf (snd (PushAnsycMessage m s))"
  by (rule pushes_wf [OF _ assms], intro pushes.intros)+

lemma push_main:
  "PushEvent e s =
     (if length (m_eventMsgBuf s) > 10000 then (False, s)
      else (True, s\<lparr>m_eventMsgBuf := m_eventMsgBuf s @ filter (\<lambda>u. IsEventValue (buf_value u)) [unit_of_event e]\<rparr>))"
  "PushMessage m s =
     (if length (m_eventMsgBuf s) > 10000 then (False, s)
      else (True, s\<lparr>m_eventMsgBuf := m_eventMsgBuf s @ filter (\<lambda>u. IsMessageValue (buf_value u)) [unit_of_message m]\<rparr>))"
  by (simp_all add: PushEvent_def PushMessage_def buf_push_back_def BUF_CAPACITY_def
      circular_push_back_room)

text \<open>
  Note: A push from the main thread never loses what is already waiting: it appends the unit at the end,
  or leaves the buffer alone when the value is not of the right kind or more than 10000 units wait,
  and only the last case answers FALSE.  The invariant of the manager is kept.
\<close>

theorem push_outcomes:
  assumes "manager_wf s"
  shows "PushEvent e s =
           (if length (m_eventMsgBuf s) > 10000 then (False, s)
            else (True, s\<lparr>m_eventMsgBuf := m_eventMsgBuf s @ filter (\<lambda>u. IsEventValue (buf_value u)) [unit_of_event e]\<rparr>)) \<and>
         PushMessage m s =
           (if length (m_eventMsgBuf s) > 10000 then (False, s)
            else (True, s\<lparr>m_eventMsgBuf := m_eventMsgBuf s @ filter (\<lambda>u. IsMessageValue (buf_value u)) [unit_of_message m]\<rparr>)) \<and>
         manager_wf (snd (PushEvent e s)) \<and> manager_wf (snd (PushMessage m s)) \<and>
         manager_wf (snd (PushAnsycEvent e s)) \<and> manager_wf (snd (PushAnsycMessage m s))"
  using push_wf [OF assms] push_main(1) [of e s] push_main(2) [of m s] by blast

theorem push_outcomes_witness:
  "PushEvent (MakeEvent 2 0x10003002 2 0 0 0 0 None) demo_manager =
     (True, demo_manager\<lparr>m_eventMsgBuf := [unit_of_event (MakeEvent 2 0x10003002 2 0 0 0 0 None)]\<rparr>)"
  using push_outcomes [OF demo_wf, of "MakeEvent 2 0x10003002 2 0 0 0 0 None"]
  by (simp add: demo_manager_def ModuleManagerImpl_def MakeEvent_def IsEventValue_def)

text \<open>
  Note: \<open>CallService\<close> reaches exactly the module that owns the value: for a value in the service range
  of a module it calls that module's \<open>CallDirect\<close>, or answers -1 when the module is not loaded; an
  event value is accepted and routed by the event ranges; a message value is answered 0 and calls nobody.
\<close>

theorem CallService_routes:
  assumes "m \<noteq> MODULE_ID_INVALID"
  shows "(VALUE_BEGIN SERVICE_VALUE_BASE (module_value m) \<le> v \<and>
          v \<le> VALUE_END SERVICE_VALUE_BASE (module_value m) \<or>
          VALUE_BEGIN EVENT_VALUE_BASE (module_value m) \<le> v \<and>
          v \<le> VALUE_END EVENT_VALUE_BASE (module_value m) \<longrightarrow>
            CallService cd v p s =
              (case map_of (m_mapModulePoint s) (module_value m) of None \<Rightarrow> (-1, s) | Some i \<Rightarrow> cd i v p s)) \<and>
         (VALUE_BEGIN MESSAGE_VALUE_BASE (module_value m) \<le> v \<and>
          v \<le> VALUE_END MESSAGE_VALUE_BASE (module_value m) \<longrightarrow> CallService cd v p s = (0, s))"
  using kind_in_range [OF assms, of v] unfolding CallService_def EXIST_MODULE_def by auto

theorem CallService_routes_witness:
  "CallService (\<lambda>i v p s. (int i + p, s)) 0x30006003 4 extra_manager = (5, extra_manager)"
  using CallService_routes [of MODULE_ID_DATACENTER "0x30006003" "\<lambda>i v p s. (int i + p, s)" 4 extra_manager]
  by (simp add: VALUE_BEGIN_def VALUE_END_def value_bases extra_manager_def)

end
