(* ===== verification/Bus_Threads.thy ===== *)
theory Bus_Threads
  imports Module_Impl
begin

text \<open>
  The module manager under threads.  Worker threads call \<open>PushAnsycEvent\<close> and \<open>PushAnsycMessage\<close> of
  \<open>src/src/ModuleManager/ModuleManagerImpl.cpp\<close> at any time; the main thread runs \<open>OnCycleTrigger\<close>, whose
  handlers may call them too.  Every step of the relations below is one access to shared data or one call of the lock
  \<open>m_Lock\<close>.  The two vectors and the lock together refine one first-in first-out queue.
\<close>

section \<open>Refinement of a specification\<close>

text \<open>A concrete step relation simulates an abstract one, up to steps the specification does not see.\<close>

locale simulation =
  fixes cstep :: "'c \<Rightarrow> 'c \<Rightarrow> bool" and astep :: "'a \<Rightarrow> 'a \<Rightarrow> bool"
    and inv :: "'c \<Rightarrow> bool" and abs :: "'c \<Rightarrow> 'a"
  assumes inv_step: "inv s \<Longrightarrow> cstep s t \<Longrightarrow> inv t"
    and simulates: "inv s \<Longrightarrow> cstep s t \<Longrightarrow> abs s = abs t \<or> astep (abs s) (abs t)"
begin

lemma reach_inv: "cstep\<^sup>*\<^sup>* s t \<Longrightarrow> inv s \<Longrightarrow> inv t"
  by (induction rule: rtranclp_induct) (auto intro: inv_step)

lemma reach_abs: "cstep\<^sup>*\<^sup>* s t \<Longrightarrow> inv s \<Longrightarrow> astep\<^sup>*\<^sup>* (abs s) (abs t)"
proof (induction rule: rtranclp_induct)
  case (step t u)
  then have "inv t" by (auto intro: reach_inv)
  then have "abs t = abs u \<or> astep (abs t) (abs u)" using simulates step.hyps(2) by blast
  then show ?case using step.IH [OF step.prems] by (auto intro: rtranclp.rtrancl_into_rtrancl)
qed simp

end

section \<open>The specification: one queue\<close>

text \<open>All that was put in, all that was taken out, and the queue.\<close>

type_synonym 'u fifo = "'u list \<times> 'u list \<times> 'u list"

inductive fifo_step :: "'u fifo \<Rightarrow> 'u fifo \<Rightarrow> bool" where
  fifo_put: "fifo_step (p, k, q) (p @ [u], k, q @ [u])"
| fifo_take: "fifo_step (p, k, u # q) (p, k @ [u], q)"

inductive_cases fifo_stepE: "fifo_step x y"

lemma fifo_order: "fifo_step\<^sup>*\<^sup>* ([], [], []) (p, k, q) \<Longrightarrow> p = k @ q"
proof -
  have "fifo_step\<^sup>*\<^sup>* x y \<Longrightarrow> fst x = fst (snd x) @ snd (snd x) \<Longrightarrow> fst y = fst (snd y) @ snd (snd y)" for x y :: "'u fifo"
    by (induction rule: rtranclp_induct) (auto elim!: fifo_stepE)
  then show "fifo_step\<^sup>*\<^sup>* ([], [], []) (p, k, q) \<Longrightarrow> p = k @ q" by fastforce
qed

section \<open>Threads\<close>

datatype thread = Main | Worker nat

text \<open>Where a thread is in an asynchronous push, and where the main thread is in \<open>OnCycleTrigger\<close>; \<open>MDrain i\<close> is the
  loop over \<open>m_vectorIn\<close> before its turn \<open>i\<close>, \<open>MHandle\<close> the call of a handler.\<close>

datatype 'x push_pc = Away | Wants "'x request" | Holds "'x request" | Leaving

datatype main_pc = MIdle | MTest | MLock | MSwap | MUnlock | MDrain nat | MLoop | MHandle

text \<open>\<open>pushed\<close> and \<open>taken\<close> record what went into \<open>m_vectorOut\<close> and what came out of \<open>m_vectorIn\<close>.\<close>

record ('x, 'm, 'w) bus =
  mgr :: "('x, 'm, 'w) manager"
  m_Lock :: "thread option"
  push_pc :: "thread \<Rightarrow> 'x push_pc"
  main_pc :: main_pc
  pushed :: "'x BufUnit list"
  taken :: "'x BufUnit list"

fun is_ansyc :: "'x request \<Rightarrow> bool" where
  "is_ansyc (ReqAnsycEvent e) = True"
| "is_ansyc (ReqAnsycMessage m) = True"
| "is_ansyc _ = False"

fun ansyc_units :: "'x request \<Rightarrow> 'x BufUnit list" where
  "ansyc_units (ReqAnsycEvent e) = (if IsEventValue (eventValue e) then [unit_of_event e] else [])"
| "ansyc_units (ReqAnsycMessage m) = (if IsMessageValue (messageValue m) then [unit_of_message m] else [])"
| "ansyc_units _ = []"

definition set_push :: "thread \<Rightarrow> 'x push_pc \<Rightarrow> ('x, 'm, 'w) bus \<Rightarrow> ('x, 'm, 'w) bus" where
  "set_push t c s = s\<lparr>push_pc := (push_pc s)(t := c)\<rparr>"

inductive push_step :: "thread \<Rightarrow> ('x, 'm, 'w) bus \<Rightarrow> ('x, 'm, 'w) bus \<Rightarrow> bool" where
  push_call: "push_pc s t = Away \<Longrightarrow> t \<noteq> Main \<or> main_pc s = MHandle \<Longrightarrow> is_ansyc r \<Longrightarrow> push_step t s (set_push t (Wants r) s)"
| push_lock: "push_pc s t = Wants r \<Longrightarrow> m_Lock s = None \<Longrightarrow> push_step t s (set_push t (Holds r) (s\<lparr>m_Lock := Some t\<rparr>))"
| push_back: "push_pc s t = Holds r \<Longrightarrow>
    push_step t s (set_push t Leaving (s\<lparr>mgr := perform r (mgr s), pushed := pushed s @ ansyc_units r\<rparr>))"
| push_unlock: "push_pc s t = Leaving \<Longrightarrow> push_step t s (set_push t Away (s\<lparr>m_Lock := None\<rparr>))"

inductive cycle_step :: "('x, 'm, 'w) bus \<Rightarrow> ('x, 'm, 'w) bus \<Rightarrow> bool" where
  cycle_begin: "main_pc s = MIdle \<Longrightarrow> cycle_step s (s\<lparr>mgr := snd (PushMessage cycle_message (mgr s)), main_pc := MTest\<rparr>)"
| cycle_skip: "main_pc s = MTest \<Longrightarrow> m_vectorOut (mgr s) = [] \<Longrightarrow> cycle_step s (s\<lparr>main_pc := MDrain 0\<rparr>)"
| cycle_test: "main_pc s = MTest \<Longrightarrow> m_vectorOut (mgr s) \<noteq> [] \<Longrightarrow> cycle_step s (s\<lparr>main_pc := MLock\<rparr>)"
| cycle_lock: "main_pc s = MLock \<Longrightarrow> m_Lock s = None \<Longrightarrow> cycle_step s (s\<lparr>m_Lock := Some Main, main_pc := MSwap\<rparr>)"
| cycle_swap: "main_pc s = MSwap \<Longrightarrow>
    cycle_step s (s\<lparr>mgr := (mgr s)\<lparr>m_vectorOut := m_vectorIn (mgr s), m_vectorIn := m_vectorOut (mgr s)\<rparr>, main_pc := MUnlock\<rparr>)"
| cycle_unlock: "main_pc s = MUnlock \<Longrightarrow> cycle_step s (s\<lparr>m_Lock := None, main_pc := MDrain 0\<rparr>)"
| cycle_drain: "main_pc s = MDrain i \<Longrightarrow> i < length (m_vectorIn (mgr s)) \<Longrightarrow> u = m_vectorIn (mgr s) ! i \<Longrightarrow>
    cycle_step s (s\<lparr>mgr := buf_push_back u (mgr s), main_pc := MDrain (Suc i), taken := taken s @ [u]\<rparr>)"
| cycle_clear: "main_pc s = MDrain i \<Longrightarrow> i = length (m_vectorIn (mgr s)) \<Longrightarrow>
    cycle_step s (s\<lparr>mgr := (mgr s)\<lparr>m_vectorIn := []\<rparr>, main_pc := MLoop\<rparr>)"
| cycle_exit: "main_pc s = MLoop \<Longrightarrow> m_eventMsgBuf (mgr s) = u # us \<Longrightarrow> buf_value u = EVENT_VALUE_CORE_MAIN_LOOP_EXIT \<Longrightarrow>
    cycle_step s (s\<lparr>mgr := Exit (pop_front (mgr s))\<rparr>)"
| cycle_pop: "main_pc s = MLoop \<Longrightarrow> m_eventMsgBuf (mgr s) = u # us \<Longrightarrow> dispatchable u \<Longrightarrow>
    buf_value u \<noteq> EVENT_VALUE_CORE_MAIN_LOOP_EXIT \<Longrightarrow> cycle_step s (s\<lparr>mgr := pop_front (mgr s), main_pc := MHandle\<rparr>)"
| cycle_push: "main_pc s = MHandle \<Longrightarrow> push_pc s Main = Away \<Longrightarrow> \<not> is_ansyc r \<Longrightarrow> cycle_step s (s\<lparr>mgr := perform r (mgr s)\<rparr>)"
| cycle_world: "main_pc s = MHandle \<Longrightarrow> push_pc s Main = Away \<Longrightarrow> cycle_step s (s\<lparr>mgr := (mgr s)\<lparr>world := w\<rparr>\<rparr>)"
| cycle_return: "main_pc s = MHandle \<Longrightarrow> push_pc s Main = Away \<Longrightarrow>
    cycle_step s (s\<lparr>mgr := trim_memory (mgr s), main_pc := MLoop\<rparr>)"
| cycle_end: "main_pc s = MLoop \<Longrightarrow> m_eventMsgBuf (mgr s) = [] \<Longrightarrow> cycle_step s (s\<lparr>main_pc := MIdle\<rparr>)"

definition thread_step :: "thread \<Rightarrow> ('x, 'm, 'w) bus \<Rightarrow> ('x, 'm, 'w) bus \<Rightarrow> bool" where
  "thread_step t s s' \<longleftrightarrow> push_step t s s' \<or> t = Main \<and> cycle_step s s'"

definition bus_step :: "('x, 'm, 'w) bus \<Rightarrow> ('x, 'm, 'w) bus \<Rightarrow> bool" where
  "bus_step s s' \<longleftrightarrow> (\<exists>t. thread_step t s s')"

definition bus_init :: "'w \<Rightarrow> ('x, 'm, 'w) bus" where
  "bus_init w = \<lparr>mgr = ModuleManagerImpl w, m_Lock = None, push_pc = (\<lambda>_. Away), main_pc = MIdle, pushed = [], taken = []\<rparr>"

section \<open>Invariant\<close>

fun holding :: "'x push_pc \<Rightarrow> bool" where
  "holding (Holds r) = True"
| "holding Leaving = True"
| "holding _ = False"

fun drained :: "main_pc \<Rightarrow> nat" where
  "drained (MDrain i) = i"
| "drained _ = 0"

fun in_fits :: "main_pc \<Rightarrow> 'u list \<Rightarrow> bool" where
  "in_fits MUnlock us = True"
| "in_fits (MDrain i) us = (i \<le> length us)"
| "in_fits _ us = (us = [])"

text \<open>The units on their way, the oldest first; and which thread is between taking and releasing the lock.\<close>

definition waiting :: "('x, 'm, 'w) bus \<Rightarrow> 'x BufUnit list" where
  "waiting s = drop (drained (main_pc s)) (m_vectorIn (mgr s)) @ m_vectorOut (mgr s)"

definition in_section :: "('x, 'm, 'w) bus \<Rightarrow> thread \<Rightarrow> bool" where
  "in_section s t \<longleftrightarrow> holding (push_pc s t) \<or> t = Main \<and> (main_pc s = MSwap \<or> main_pc s = MUnlock)"

definition bus_inv :: "('x, 'm, 'w) bus \<Rightarrow> bool" where
  "bus_inv s \<longleftrightarrow>
     (\<forall>t. in_section s t \<longleftrightarrow> m_Lock s = Some t) \<and>
     (push_pc s Main \<noteq> Away \<longrightarrow> main_pc s = MHandle) \<and>
     (\<forall>t r. push_pc s t = Wants r \<or> push_pc s t = Holds r \<longrightarrow> is_ansyc r) \<and>
     in_fits (main_pc s) (m_vectorIn (mgr s))"

definition bus_abs :: "('x, 'm, 'w) bus \<Rightarrow> 'x BufUnit fifo" where
  "bus_abs s = (pushed s, taken s, waiting s)"

text \<open>What the operations do to the two vectors.\<close>

lemma perform_vectors:
  "is_ansyc r \<Longrightarrow> m_vectorOut (perform r m) = m_vectorOut m @ ansyc_units r"
  "\<not> is_ansyc r \<Longrightarrow> m_vectorOut (perform r m) = m_vectorOut m" "m_vectorIn (perform r m) = m_vectorIn m"
  by (cases r; simp add: PushEvent_def PushMessage_def PushAnsycEvent_def PushAnsycMessage_def buf_push_back_def)+

lemma other_vectors [simp]:
  "m_vectorOut (snd (PushMessage x m)) = m_vectorOut m" "m_vectorIn (snd (PushMessage x m)) = m_vectorIn m"
  "m_vectorOut (buf_push_back u m) = m_vectorOut m" "m_vectorIn (buf_push_back u m) = m_vectorIn m"
  "m_vectorOut (pop_front m) = m_vectorOut m" "m_vectorIn (pop_front m) = m_vectorIn m"
  "m_vectorOut (Exit m) = m_vectorOut m" "m_vectorIn (Exit m) = m_vectorIn m"
  "m_vectorOut (trim_memory m) = m_vectorOut m" "m_vectorIn (trim_memory m) = m_vectorIn m"
  by (simp_all add: PushMessage_def buf_push_back_def pop_front_def Exit_def trim_memory_def SetProcessWorkingSetSize_def)

lemma set_push_simps [simp]:
  "mgr (set_push t c s) = mgr s" "m_Lock (set_push t c s) = m_Lock s" "main_pc (set_push t c s) = main_pc s"
  "pushed (set_push t c s) = pushed s" "taken (set_push t c s) = taken s" "push_pc (set_push t c s) = (push_pc s)(t := c)"
  by (simp_all add: set_push_def)

lemma bus_invD:
  assumes "bus_inv s"
  shows "in_section s t \<longleftrightarrow> m_Lock s = Some t" and "push_pc s Main \<noteq> Away \<Longrightarrow> main_pc s = MHandle"
    and "push_pc s t = Wants r \<or> push_pc s t = Holds r \<Longrightarrow> is_ansyc r" and "in_fits (main_pc s) (m_vectorIn (mgr s))"
  using assms unfolding bus_inv_def by blast+

lemma push_step_inv:
  assumes "bus_inv s" and "push_step t s s'"
  shows "bus_inv s'"
  using assms(2)
proof cases
  case (push_call r)
  then have "in_section s' q = in_section s q" for q by (auto simp: in_section_def)
  then show ?thesis using push_call bus_invD [OF assms(1)] by (auto simp: bus_inv_def)
next
  case (push_lock r)
  then have "in_section s' q = (q = t)" for q using bus_invD(1) [OF assms(1)] by (auto simp: in_section_def)
  then show ?thesis using push_lock bus_invD(2-4) [OF assms(1)] by (auto simp: bus_inv_def split: if_splits)
next
  case (push_back r)
  then have "in_section s' q = in_section s q" for q by (auto simp: in_section_def)
  then show ?thesis using push_back bus_invD [OF assms(1)] by (auto simp: bus_inv_def perform_vectors split: if_splits)
next
  case push_unlock
  then have lock: "m_Lock s = Some t" using bus_invD(1) [OF assms(1), of t] by (simp add: in_section_def)
  have "\<not> in_section s' q" for q
    using push_unlock lock bus_invD(1) [OF assms(1), of q] bus_invD(2) [OF assms(1)] by (auto simp: in_section_def)
  then show ?thesis using push_unlock bus_invD(2-4) [OF assms(1)] by (auto simp: bus_inv_def split: if_splits)
qed

lemma cycle_step_inv:
  assumes "bus_inv s" and "cycle_step s s'"
  shows "bus_inv s'"
proof -
  note inv = bus_invD [OF assms(1)]
  have "push_pc s' = push_pc s" "push_pc s Main \<noteq> Away \<Longrightarrow> main_pc s' = MHandle" "in_fits (main_pc s') (m_vectorIn (mgr s'))"
    using assms(2) inv(2,4) by (cases; auto simp: perform_vectors)+
  moreover have "in_section s' t \<longleftrightarrow> m_Lock s' = Some t" for t
    using assms(2) inv(1) [of t] inv(1) [of Main] inv(2) by (cases; force simp: in_section_def)
  ultimately show ?thesis using inv(3) by (auto simp: bus_inv_def)
qed

lemma bus_step_inv: "bus_inv s \<Longrightarrow> bus_step s t \<Longrightarrow> bus_inv t"
  using push_step_inv cycle_step_inv by (auto simp: bus_step_def thread_step_def)

section \<open>Refinement\<close>

lemma ansyc_units_cases: "ansyc_units r = [] \<or> (\<exists>u. ansyc_units r = [u])"
  by (cases r) auto

lemma push_step_fifo:
  assumes "bus_inv s" and "push_step t s s'"
  shows "bus_abs s = bus_abs s' \<or> fifo_step (bus_abs s) (bus_abs s')"
  using assms(2)
proof cases
  case (push_back r)
  then have "is_ansyc r" using bus_invD(3) [OF assms(1)] by blast
  then have "bus_abs s' = (pushed s @ ansyc_units r, taken s, waiting s @ ansyc_units r)"
    using push_back by (simp add: bus_abs_def waiting_def perform_vectors)
  then show ?thesis using ansyc_units_cases [of r] by (auto simp: bus_abs_def intro: fifo_put)
qed (simp_all add: bus_abs_def waiting_def)

lemma cycle_step_fifo:
  assumes "bus_inv s" and "cycle_step s s'"
  shows "bus_abs s = bus_abs s' \<or> fifo_step (bus_abs s) (bus_abs s')"
  using assms(2)
proof cases
  case (cycle_drain i u)
  then have "waiting s = u # waiting s'" by (simp add: waiting_def Cons_nth_drop_Suc)
  then show ?thesis using cycle_drain by (simp add: bus_abs_def fifo_take)
qed (use bus_invD(4) [OF assms(1)] in \<open>simp_all add: bus_abs_def waiting_def perform_vectors\<close>)

interpretation bus_fifo: simulation bus_step fifo_step bus_inv bus_abs
  using bus_step_inv push_step_fifo cycle_step_fifo
  by unfold_locales (blast, unfold bus_step_def thread_step_def, blast)

lemma bus_init_inv: "bus_inv (bus_init w)"
  by (simp add: bus_init_def bus_inv_def in_section_def ModuleManagerImpl_def)


text \<open>A run in which a worker thread pushes one event.\<close>

definition sample_event :: "unit Event" where
  "sample_event = MakeEvent 2 0x10003002 2 0 0 0 0 None"

definition sample_pushed :: "(unit, nat, nat) bus" where
  "sample_pushed =
     set_push (Worker 1) Leaving (set_push (Worker 1) (Holds (ReqAnsycEvent sample_event))
       (set_push (Worker 1) (Wants (ReqAnsycEvent sample_event)) (bus_init 0)\<lparr>m_Lock := Some (Worker 1)\<rparr>)
       \<lparr>mgr := perform (ReqAnsycEvent sample_event) (ModuleManagerImpl 0), pushed := [unit_of_event sample_event]\<rparr>)"

lemma sample_pushed_reached: "bus_step\<^sup>*\<^sup>* (bus_init 0) sample_pushed"
proof -
  let ?r = "ReqAnsycEvent sample_event" and ?t = "Worker 1"
  let ?a = "set_push ?t (Wants ?r) (bus_init 0 :: (unit, nat, nat) bus)"
  let ?b = "set_push ?t (Holds ?r) (?a\<lparr>m_Lock := Some ?t\<rparr>)"
  let ?c = "set_push ?t Leaving (?b\<lparr>mgr := perform ?r (mgr ?b), pushed := pushed ?b @ ansyc_units ?r\<rparr>)"
  have "push_step ?t (bus_init 0) ?a" by (rule push_call) (simp_all add: bus_init_def)
  moreover have "push_step ?t ?a ?b" by (rule push_lock) (simp_all add: bus_init_def)
  moreover have "push_step ?t ?b ?c" by (rule push_back) simp
  moreover have "?c = sample_pushed"
    by (simp add: sample_pushed_def bus_init_def set_push_def sample_event_def MakeEvent_def IsEventValue_def)
  ultimately have "bus_step (bus_init 0) ?a" "bus_step ?a ?b" "bus_step ?b sample_pushed"
    unfolding bus_step_def thread_step_def by metis+
  then show ?thesis by (meson rtranclp.rtrancl_into_rtrancl rtranclp.rtrancl_refl)
qed


text \<open>
  C31: In every reachable state what was pushed from any thread is exactly what the main thread has taken followed by what
  is still waiting, in the order of the pushes: no unit is lost, doubled or overtaken on its way through the two vectors.  And
  whenever the main thread is at the assertion of line 385 or reads \<open>m_vectorOut\<close> after it, \<open>m_vectorIn\<close> is empty.
\<close>

theorem no_unit_lost:
  assumes "bus_step\<^sup>*\<^sup>* (bus_init w) s"
  shows "pushed s = taken s @ waiting s \<and> (main_pc s \<in> {MIdle, MTest, MLock, MSwap} \<longrightarrow> m_vectorIn (mgr s) = [])"
proof -
  have "fifo_step\<^sup>*\<^sup>* ([], [], []) (pushed s, taken s, waiting s)"
    using bus_fifo.reach_abs [OF assms bus_init_inv]
    by (simp add: bus_abs_def bus_init_def waiting_def ModuleManagerImpl_def)
  then show ?thesis
    using fifo_order bus_invD(4) [OF bus_fifo.reach_inv [OF assms bus_init_inv]] by (auto dest: fifo_order)
qed

theorem no_unit_lost_witness:
  "pushed sample_pushed = taken sample_pushed @ waiting sample_pushed \<and> m_vectorIn (mgr sample_pushed) = []"
proof -
  have "main_pc sample_pushed = MIdle" by (simp add: sample_pushed_def set_push_def bus_init_def)
  then show ?thesis using no_unit_lost [OF sample_pushed_reached] by simp
qed

section \<open>Mutual exclusion and progress\<close>

text \<open>
  C32: In every reachable state at most one thread is between taking and releasing the lock, so that \<open>m_vectorOut\<close> is never
  appended to during the swap; and the thread that has the lock can always go on, so that nobody waits for it
  forever for lack of a step.
\<close>

theorem lock_safe:
  assumes "bus_step\<^sup>*\<^sup>* (bus_init w) s" and "in_section s t"
  shows "(\<forall>q. in_section s q \<longrightarrow> q = t) \<and> (\<exists>s'. thread_step t s s')"
proof -
  note inv = bus_invD [OF bus_fifo.reach_inv [OF assms(1) bus_init_inv]]
  have "q = t" if "in_section s q" for q using that assms(2) inv(1) [of t] inv(1) [of q] by simp
  moreover have "\<exists>s'. thread_step t s s'"
  proof (cases "holding (push_pc s t)")
    case True
    then show ?thesis by (cases "push_pc s t") (auto simp: thread_step_def intro: push_step.intros)
  next
    case False
    then have "t = Main" "main_pc s = MSwap \<or> main_pc s = MUnlock" using assms(2) by (auto simp: in_section_def)
    then show ?thesis by (auto simp: thread_step_def intro: cycle_step.intros)
  qed
  ultimately show ?thesis by blast
qed

theorem lock_safe_witness:
  "{q. in_section sample_pushed q} = {Worker 1} \<and> (\<exists>s'. thread_step (Worker 1) sample_pushed s')"
proof -
  have "in_section sample_pushed (Worker 1)" by (simp add: sample_pushed_def in_section_def)
  then show ?thesis using lock_safe [OF sample_pushed_reached, of "Worker 1"] by blast
qed

section \<open>Agreement with the sequential cycle\<close>

text \<open>While no other thread moves, the main thread comes from \<open>MIdle\<close> to the dispatch loop with the manager in the
  state \<open>cycle_start\<close> that the sequential model starts the loop in.\<close>

lemma drain_steps:
  assumes "main_pc s = MDrain i" and "i \<le> length (m_vectorIn (mgr s))"
  shows "\<exists>k. cycle_step\<^sup>*\<^sup>* s (s\<lparr>mgr := (fold buf_push_back (drop i (m_vectorIn (mgr s))) (mgr s))\<lparr>m_vectorIn := []\<rparr>,
    main_pc := MLoop, taken := k\<rparr>)"
  using assms
proof (induction "length (m_vectorIn (mgr s)) - i" arbitrary: s i)
  case 0
  then have "cycle_step s (s\<lparr>mgr := (mgr s)\<lparr>m_vectorIn := []\<rparr>, main_pc := MLoop\<rparr>)" by (intro cycle_clear) auto
  then show ?case using 0 by (intro exI [of _ "taken s"]) (simp add: r_into_rtranclp)
next
  case (Suc n)
  let ?u = "m_vectorIn (mgr s) ! i"
  let ?s = "s\<lparr>mgr := buf_push_back ?u (mgr s), main_pc := MDrain (Suc i), taken := taken s @ [?u]\<rparr>"
  have i: "i < length (m_vectorIn (mgr s))" using Suc.hyps(2) by simp
  then have step: "cycle_step s ?s" using Suc.prems(1) by (intro cycle_drain) auto
  have "\<exists>k. cycle_step\<^sup>*\<^sup>* ?s (?s\<lparr>mgr := (fold buf_push_back (drop (Suc i) (m_vectorIn (mgr ?s))) (mgr ?s))\<lparr>m_vectorIn := []\<rparr>,
    main_pc := MLoop, taken := k\<rparr>)"
    using Suc.hyps(2) i by (intro Suc.hyps(1)) auto
  moreover have "drop i (m_vectorIn (mgr s)) = ?u # drop (Suc i) (m_vectorIn (mgr s))" using i by (simp add: Cons_nth_drop_Suc)
  ultimately have "\<exists>k. cycle_step\<^sup>*\<^sup>* ?s (s\<lparr>mgr := (fold buf_push_back (drop i (m_vectorIn (mgr s))) (mgr s))\<lparr>m_vectorIn := []\<rparr>,
    main_pc := MLoop, taken := k\<rparr>)" by simp
  then show ?case using converse_rtranclp_into_rtranclp [of cycle_step s ?s] step by blast
qed

lemma sequential_cycle:
  assumes "main_pc s = MIdle" and "m_Lock s = None" and "m_vectorIn (mgr s) = []"
  shows "\<exists>k. cycle_step\<^sup>*\<^sup>* s (s\<lparr>mgr := cycle_start (mgr s), main_pc := MLoop, taken := k\<rparr>)"
proof -
  let ?m = "snd (PushMessage cycle_message (mgr s))"
  let ?b = "s\<lparr>mgr := ?m, main_pc := MTest\<rparr>"
  have b: "cycle_step s ?b" by (rule cycle_begin [OF assms(1)])
  have "cycle_step\<^sup>*\<^sup>* ?b (s\<lparr>mgr := swap_vectors ?m, main_pc := MDrain 0\<rparr>)"
  proof (cases "m_vectorOut ?m = []")
    case True
    then have "cycle_step ?b (?b\<lparr>main_pc := MDrain 0\<rparr>)" by (intro cycle_skip) simp_all
    then show ?thesis using True by (simp add: swap_vectors_def r_into_rtranclp del: other_vectors)
  next
    case False
    let ?c = "?b\<lparr>main_pc := MLock\<rparr>"
    let ?d = "?c\<lparr>m_Lock := Some Main, main_pc := MSwap\<rparr>"
    let ?e = "?d\<lparr>mgr := (mgr ?d)\<lparr>m_vectorOut := m_vectorIn (mgr ?d), m_vectorIn := m_vectorOut (mgr ?d)\<rparr>, main_pc := MUnlock\<rparr>"
    have "cycle_step ?b ?c" using False by (intro cycle_test) simp_all
    moreover have "cycle_step ?c ?d" using assms(2) by (intro cycle_lock) simp_all
    moreover have "cycle_step ?d ?e" by (rule cycle_swap) simp
    moreover have "cycle_step ?e (?e\<lparr>m_Lock := None, main_pc := MDrain 0\<rparr>)" by (rule cycle_unlock) simp
    moreover have "?e\<lparr>m_Lock := None, main_pc := MDrain 0\<rparr> = s\<lparr>mgr := swap_vectors ?m, main_pc := MDrain 0\<rparr>"
      using False assms(2) by (simp add: swap_vectors_def del: other_vectors)
    ultimately show ?thesis by (metis (no_types, lifting) rtranclp.simps)
  qed
  moreover have "\<exists>k. cycle_step\<^sup>*\<^sup>* (s\<lparr>mgr := swap_vectors ?m, main_pc := MDrain 0\<rparr>)
      (s\<lparr>mgr := cycle_start (mgr s), main_pc := MLoop, taken := k\<rparr>)"
    using drain_steps [of "s\<lparr>mgr := swap_vectors ?m, main_pc := MDrain 0\<rparr>" 0] by (simp add: cycle_start_def drain_in_def)
  ultimately show ?thesis using converse_rtranclp_into_rtranclp [of cycle_step s ?b] b by (meson rtranclp_trans)
qed

end
