(* ===== verification/XString.thy ===== *)
theory XString
  imports Prelude "HOL-Library.Sublist"
begin

text \<open>
  The string class of the utility library, \<open>src/src/Utility/XString.cpp\<close>: a \<open>std::wstring\<close>
  whose positions and lengths are passed as 16-bit numbers.  First the members of \<open>std::wstring\<close> the
  class calls, then its operations in the order of the source, then what they compute.  An operation that
  returns a new \<open>String\<close> builds it from \<open>c_str()\<close>, so the result ends at the first NUL.
\<close>

section \<open>std::wstring\<close>

definition wide :: "string \<Rightarrow> wstring" where
  "wide s = map (\<lambda>c. of_nat (of_char c)) s"

definition c_str :: "wstring \<Rightarrow> wstring" where
  "c_str s = takeWhile (\<lambda>c. c \<noteq> 0) s"

fun find_index :: "('a \<Rightarrow> bool) \<Rightarrow> 'a list \<Rightarrow> nat option" where
  "find_index P [] = None"
| "find_index P (x # xs) = (if P x then Some 0 else map_option Suc (find_index P xs))"

fun find_sub :: "'a list \<Rightarrow> 'a list \<Rightarrow> nat option" where
  "find_sub pat [] = (if pat = [] then Some 0 else None)"
| "find_sub pat (x # xs) = (if prefix pat (x # xs) then Some 0 else map_option Suc (find_sub pat xs))"

text \<open>\<open>find_first_of\<close> and \<open>find_last_of\<close> with the set of characters as a predicate, \<open>find\<close> and
  \<open>rfind\<close>; \<open>None\<close> is \<open>npos\<close>.\<close>

definition str_find_first :: "('a \<Rightarrow> bool) \<Rightarrow> 'a list \<Rightarrow> nat \<Rightarrow> nat option" where
  "str_find_first P s off = map_option ((+) off) (find_index P (drop off s))"

definition str_find_last :: "('a \<Rightarrow> bool) \<Rightarrow> 'a list \<Rightarrow> nat \<Rightarrow> nat option" where
  "str_find_last P s off =
     (let t = take (Suc off) s in map_option (\<lambda>i. length t - 1 - i) (find_index P (rev t)))"

definition str_find :: "'a list \<Rightarrow> 'a list \<Rightarrow> nat \<Rightarrow> nat option" where
  "str_find pat s off =
     (if off \<le> length s then map_option ((+) off) (find_sub pat (drop off s)) else None)"

definition str_rfind :: "'a list \<Rightarrow> 'a list \<Rightarrow> nat \<Rightarrow> nat option" where
  "str_rfind pat s off =
     (let t = take (off + length pat) s in
      map_option (\<lambda>i. length t - length pat - i) (find_sub (rev pat) (rev t)))"

definition str_substr :: "'a list \<Rightarrow> nat \<Rightarrow> nat \<Rightarrow> 'a list outcome" where
  "str_substr s pos n = (if pos > length s then Inl OutOfRange else Inr (take n (drop pos s)))"

definition str_erase :: "'a list \<Rightarrow> nat \<Rightarrow> nat \<Rightarrow> 'a list outcome" where
  "str_erase s pos n = (if pos > length s then Inl OutOfRange else Inr (take pos s @ drop (pos + n) s))"

definition str_insert :: "'a list \<Rightarrow> nat \<Rightarrow> 'a list \<Rightarrow> 'a list outcome" where
  "str_insert s pos t = (if pos > length s then Inl OutOfRange else Inr (take pos s @ t @ drop pos s))"

definition str_replace :: "'a list \<Rightarrow> nat \<Rightarrow> nat \<Rightarrow> 'a list \<Rightarrow> 'a list outcome" where
  "str_replace s pos n t =
     (if pos > length s then Inl OutOfRange else Inr (take pos s @ t @ drop (pos + n) s))"

definition index_of :: "nat option \<Rightarrow> int" where
  "index_of i = (case i of None \<Rightarrow> -1 | Some n \<Rightarrow> int n)"

section \<open>Operations of String\<close>

definition BLANKS :: wstring where "BLANKS = [0x20, 0x0D, 0x0A, 0x09]"

definition trim_set :: "wchar \<Rightarrow> wchar \<Rightarrow> bool" where
  "trim_set ch c \<longleftrightarrow> (if ch = 0x20 then c \<in> set BLANKS else c = ch)"

definition GetLength :: "wstring \<Rightarrow> int" where "GetLength s = int (length s)"

definition GetAt :: "wstring \<Rightarrow> nat \<Rightarrow> wchar outcome" where
  "GetAt s nIndex = (if nIndex < length s then Inr (s ! nIndex) else Inl OutOfRange)"

definition Append_char :: "wstring \<Rightarrow> wchar \<Rightarrow> u16 \<Rightarrow> wstring" where
  "Append_char s ch nCount = s @ replicate (unat nCount) ch"

definition Append :: "wstring \<Rightarrow> wstring \<Rightarrow> wstring" where
  "Append s pszAppended = s @ c_str pszAppended"

definition Insert_char :: "wstring \<Rightarrow> wchar \<Rightarrow> nat \<Rightarrow> nat \<Rightarrow> wstring outcome" where
  "Insert_char s ch nIndex nCount = str_insert s nIndex (replicate nCount ch)"

definition Insert :: "wstring \<Rightarrow> wstring \<Rightarrow> nat \<Rightarrow> wstring outcome" where
  "Insert s pszInserted nIndex = str_insert s nIndex (c_str pszInserted)"

text \<open>\<open>erase (0, npos)\<close> when nothing else than the trimmed characters is found.\<close>

definition TrimLeft :: "wchar \<Rightarrow> wstring \<Rightarrow> wstring outcome" where
  "TrimLeft ch s =
     (if s = [] then Inr s
      else str_erase s 0 (case find_index (\<lambda>c. \<not> trim_set ch c) s of None \<Rightarrow> length s | Some i \<Rightarrow> i))"

text \<open>\<open>npos + 1\<close> is 0 and the count is \<open>length () - 1\<close>.\<close>

definition TrimRight :: "wchar \<Rightarrow> wstring \<Rightarrow> wstring outcome" where
  "TrimRight ch s =
     (if s = [] then Inr s
      else str_erase s
             (case str_find_last (\<lambda>c. \<not> trim_set ch c) s (length s) of None \<Rightarrow> 0 | Some i \<Rightarrow> i + 1)
             (length s - 1))"

definition Trim :: "wchar \<Rightarrow> wstring \<Rightarrow> wstring outcome" where
  "Trim ch s = obind (TrimLeft ch s) (TrimRight ch)"

definition Find :: "wstring \<Rightarrow> wstring \<Rightarrow> u16 \<Rightarrow> int" where
  "Find s pszToFind nOffset = index_of (str_find pszToFind s (unat nOffset))"

text \<open>\<open>nOffset\<close> is a signed 16-bit number; -1, the default, searches from the end.  Any other negative
  number becomes a position beyond every string.\<close>

definition ReverseFind :: "wstring \<Rightarrow> wstring \<Rightarrow> u16 \<Rightarrow> int" where
  "ReverseFind s pszToFind nOffset =
     index_of (str_rfind pszToFind s (if sint nOffset < 0 then length s else unat nOffset))"

definition FindFirstCharOf :: "wstring \<Rightarrow> wstring \<Rightarrow> u16 \<Rightarrow> int" where
  "FindFirstCharOf s pszToFind nOffset =
     index_of (str_find_first (\<lambda>c. c \<in> set pszToFind) s (unat nOffset))"

definition FindFirstCharNotOf :: "wstring \<Rightarrow> wstring \<Rightarrow> u16 \<Rightarrow> int" where
  "FindFirstCharNotOf s pszToFind nOffset =
     index_of (str_find_first (\<lambda>c. c \<notin> set pszToFind) s (unat nOffset))"

definition FindLastCharOf :: "wstring \<Rightarrow> wstring \<Rightarrow> u16 \<Rightarrow> int" where
  "FindLastCharOf s pszToFind nOffset =
     index_of (str_find_last (\<lambda>c. c \<in> set pszToFind) s (unat nOffset))"

definition FindLastCharNotOf :: "wstring \<Rightarrow> wstring \<Rightarrow> u16 \<Rightarrow> int" where
  "FindLastCharNotOf s pszToFind nOffset =
     index_of (str_find_last (\<lambda>c. c \<notin> set pszToFind) s (unat nOffset))"

definition SubStr :: "wstring \<Rightarrow> u16 \<Rightarrow> u16 \<Rightarrow> wstring outcome" where
  "SubStr s nBegin nNumber =
     obind (str_substr s (unat nBegin) (unat nNumber)) (\<lambda>t. Inr (c_str t))"

text \<open>\<open>Left\<close>, \<open>Mid\<close>, \<open>Right\<close>: the comparisons are on \<open>int\<close>, the arguments of \<open>SubStr\<close> are cut to 16 bits.\<close>

definition Left :: "wstring \<Rightarrow> u16 \<Rightarrow> wstring outcome" where
  "Left s nLength =
     (let nLength = (if uint nLength > GetLength s then of_int (GetLength s) else nLength)
      in SubStr s 0 nLength)"

definition Mid :: "wstring \<Rightarrow> u16 \<Rightarrow> int \<Rightarrow> wstring outcome" where
  "Mid s iPos nLength =
     (if uint iPos > GetLength s - 1 then Inr []
      else let nLeftNumber = GetLength s - uint iPos;
               nLeftNumber = (if nLeftNumber < 0 then 0 else nLeftNumber);
               nLeftNumber = (if nLeftNumber > GetLength s then GetLength s else nLeftNumber);
               nLength = (if nLength = -1 then nLeftNumber
                          else if nLength \<ge> nLeftNumber then nLeftNumber else nLength)
           in SubStr s iPos (of_int nLength))"

definition Right :: "wstring \<Rightarrow> u16 \<Rightarrow> wstring outcome" where
  "Right s nLength =
     (let nLeftNumber = GetLength s - uint nLength;
          nLeftNumber = (if nLeftNumber < 0 then 0 else nLeftNumber);
          nLeftNumber = (if nLeftNumber > GetLength s then GetLength s else nLeftNumber)
      in SubStr s (of_int nLeftNumber) nLength)"

definition BeginWith :: "wstring \<Rightarrow> wstring \<Rightarrow> bool outcome" where
  "BeginWith s strBegin = obind (Left s (of_int (GetLength strBegin))) (\<lambda>t. Inr (t = strBegin))"

definition EndWith :: "wstring \<Rightarrow> wstring \<Rightarrow> bool outcome" where
  "EndWith s strEnd = obind (Right s (of_int (GetLength strEnd))) (\<lambda>t. Inr (t = strEnd))"

text \<open>\<open>toupper\<close> and \<open>tolower\<close> of the C locale.\<close>

definition ToUpper :: "wstring \<Rightarrow> wstring" where
  "ToUpper s = map (\<lambda>c. if 0x61 \<le> c \<and> c \<le> 0x7A then c - 0x20 else c) s"

definition ToLower :: "wstring \<Rightarrow> wstring" where
  "ToLower s = map (\<lambda>c. if 0x41 \<le> c \<and> c \<le> 0x5A then c + 0x20 else c) s"

definition Reverse :: "wstring \<Rightarrow> wstring" where "Reverse s = rev s"

definition Replace_at :: "wstring \<Rightarrow> nat \<Rightarrow> nat \<Rightarrow> wstring \<Rightarrow> wstring outcome" where
  "Replace_at s nBegin nNumber pszAfterReplcing = str_replace s nBegin nNumber pszAfterReplcing"

text \<open>The loop of \<open>Replace\<close> searches with \<open>FindFirstCharOf\<close> from the start each time.  It may run for
  ever, so it takes fuel.\<close>

fun Replace_loop :: "nat \<Rightarrow> wstring \<Rightarrow> wstring \<Rightarrow> wstring \<Rightarrow> wstring outcome" where
  "Replace_loop fuel pszBefore pszAfter s =
     (let nIndex = FindFirstCharOf s pszBefore 0 in
      if nIndex = -1 then Inr s
      else case fuel of
             0 \<Rightarrow> Inl NoReturn
           | Suc n \<Rightarrow> obind (Replace_at s (nat nIndex) (length pszBefore) pszAfter)
                        (Replace_loop n pszBefore pszAfter))"

declare Replace_loop.simps [simp del]

definition IsNumeric :: "wstring \<Rightarrow> bool" where
  "IsNumeric s = (find_index (\<lambda>c. c \<notin> set (wide ''0123456789.'')) s = None)"

lemma length_c_str: "length (c_str s) \<le> length s"
  by (simp add: c_str_def length_takeWhile_le)

lemma SubStr_eq:
  "SubStr s b n = (if unat b > length s then Inl OutOfRange else Inr (c_str (take (unat n) (drop (unat b) s))))"
  by (simp add: SubStr_def str_substr_def)

text \<open>What is left after a separator is shorter, also where \<open>i + 1\<close> wraps to 0.\<close>

lemma SubStr_rest_shorter:
  assumes "i < length s" and "SubStr s (of_nat (i + 1)) (of_nat (length s - i)) = Inr t"
  shows "length t < length s"
proof (cases "unat (of_nat (i + 1) :: u16) = 0")
  case True
  then have "65536 dvd i + 1"
    by (simp add: unsigned_of_nat take_bit_eq_mod mod_eq_0_iff_dvd del: of_nat_Suc of_nat_add)
  then have big: "65536 \<le> length s" using assms(1) by (auto dest: dvd_imp_le)
  have "length t \<le> unat (of_nat (length s - i) :: u16)"
    using assms(2) length_c_str [of "take _ _"] by (auto simp: SubStr_eq split: if_splits intro: order_trans)
  also have "\<dots> < 65536" using unsigned_less [of "of_nat (length s - i) :: u16"] by simp
  finally show ?thesis using big by simp
next
  case False
  have "length t \<le> length s - unat (of_nat (i + 1) :: u16)"
    using assms(2) length_c_str [of "take _ (drop _ _)"]
    by (auto simp: SubStr_eq split: if_splits intro: order_trans)
  then show ?thesis using False assms(1) by simp
qed

function split_loop :: "wchar \<Rightarrow> wstring \<Rightarrow> nat \<Rightarrow> wstring list \<Rightarrow> wstring list outcome" where
  "split_loop chSplit strSrc i vResult =
     (if i < length strSrc then
        (if strSrc ! i = chSplit then
           obind (SubStr strSrc 0 (of_nat i)) (\<lambda>new_str.
             (case SubStr strSrc (of_nat (i + 1)) (of_nat (length strSrc - i)) of
                Inl e \<Rightarrow> Inl e
              | Inr rest \<Rightarrow> split_loop chSplit rest 0 (vResult @ [new_str])))
         else if i = length strSrc - 1 then
           obind (SubStr strSrc 0 (of_nat (length strSrc))) (\<lambda>new_str. Inr (vResult @ [new_str]))
         else split_loop chSplit strSrc (i + 1) vResult)
      else Inr vResult)"
  by pat_completeness auto
termination
  by (relation "measures [\<lambda>(c, s, i, r). length s, \<lambda>(c, s, i, r). length s - i]")
    (auto simp: SubStr_rest_shorter simp del: of_nat_Suc of_nat_add)

declare split_loop.simps [simp del]

text \<open>\<open>Split\<close> fills the array of the caller and the number of pieces, 16 bits wide.\<close>

definition Split :: "wchar \<Rightarrow> wstring \<Rightarrow> (wstring list \<times> u16) outcome" where
  "Split chSplit s = obind (split_loop chSplit (c_str s) 0 []) (\<lambda>vResult. Inr (vResult, of_nat (length vResult)))"

section \<open>What the operations compute\<close>

text \<open>Strings without a NUL and shorter than the 16-bit limit.\<close>

definition short_text :: "wstring \<Rightarrow> bool" where
  "short_text s \<longleftrightarrow> length s < 65536 \<and> 0 \<notin> set s"

lemma c_str_id [simp]: "0 \<notin> set s \<Longrightarrow> c_str s = s"
  unfolding c_str_def by (rule takeWhile_eq_all_conv [THEN iffD2]) auto

lemma unat_of_nat_u16: "n < 65536 \<Longrightarrow> unat (of_nat n :: u16) = n"
  by (simp add: unsigned_of_nat take_bit_nat_eq_self)

lemma no_nul_take_drop: "0 \<notin> set s \<Longrightarrow> 0 \<notin> set (take n (drop b s))"
  by (meson in_set_dropD in_set_takeD)

lemma SubStr_short:
  "short_text s \<Longrightarrow> b \<le> length s \<Longrightarrow> n < 65536 \<Longrightarrow> SubStr s (of_nat b) (of_nat n) = Inr (take n (drop b s))"
  by (simp add: SubStr_eq short_text_def unat_of_nat_u16 no_nul_take_drop)

lemma Left_short: "short_text s \<Longrightarrow> n < 65536 \<Longrightarrow> Left s (of_nat n) = Inr (take n s)"
  using SubStr_short [of s 0 "min n (length s)"]
  by (auto simp: Left_def GetLength_def uint_nat unat_of_nat_u16 short_text_def min_def split: if_splits)

lemma Right_short:
  assumes "short_text s" and "n < 65536"
  shows "Right s (of_nat n) = Inr (drop (length s - n) s)"
proof -
  have n: "uint (of_nat n :: u16) = int n" using assms(2) by (simp add: uint_nat unat_of_nat_u16)
  have "Right s (of_nat n) = SubStr s (of_nat (length s - n)) (of_nat n)"
  proof (cases "n \<le> length s")
    case True
    then have "int (length s) - int n = int (length s - n)" by simp
    then show ?thesis by (simp add: Right_def GetLength_def n Let_def del: of_nat_diff)
  next
    case False
    then show ?thesis by (simp add: Right_def GetLength_def n Let_def)
  qed
  then show ?thesis using SubStr_short [of s "length s - n" n] assms by simp
qed

lemma find_index_eq:
  "find_index P s = (if \<exists>c \<in> set s. P c then Some (length (takeWhile (\<lambda>c. \<not> P c) s)) else None)"
  by (induction s) auto

lemma take_takeWhile_len [simp]:
  "take (length (takeWhile P xs)) xs = takeWhile P xs" "drop (length (takeWhile P xs)) xs = dropWhile P xs"
  by (simp_all add: takeWhile_eq_take [symmetric] dropWhile_eq_drop)

subsection \<open>Prefixes and suffixes\<close>

lemma prefix_take_iff: "take (length b) s = b \<longleftrightarrow> prefix b s"
  by (metis append_eq_conv_conj prefix_def)

lemma suffix_drop_iff: "drop (length s - length e) s = e \<longleftrightarrow> suffix e s"
proof
  assume "drop (length s - length e) s = e"
  then show "suffix e s" by (metis suffix_drop)
next
  assume "suffix e s"
  then obtain r where "s = r @ e" by (auto simp: suffix_def)
  then show "drop (length s - length e) s = e" by simp
qed

text \<open>
  Note: For a string of fewer than 65536 characters without NUL, \<open>BeginWith\<close> answers whether the argument
  is a prefix and \<open>EndWith\<close> whether it is a suffix; neither faults.
\<close>

theorem begin_end_with:
  assumes "short_text s" and "length t < 65536"
  shows "BeginWith s t = Inr (prefix t s) \<and> EndWith s t = Inr (suffix t s)"
  using assms Left_short [of s "length t"] Right_short [of s "length t"]
  by (simp add: BeginWith_def EndWith_def GetLength_def prefix_take_iff suffix_drop_iff)

theorem begin_end_with_witness:
  "BeginWith (wide ''http://a.cn'') (wide ''http://'') = Inr True \<and>
   EndWith (wide ''http://a.cn'') (wide ''.com'') = Inr False"
  using begin_end_with [of "wide ''http://a.cn''" "wide ''http://''"]
    begin_end_with [of "wide ''http://a.cn''" "wide ''.com''"]
  by (simp add: wide_def short_text_def suffix_to_prefix)

subsection \<open>Trimming\<close>

lemma TrimLeft_eq: "TrimLeft ch s = Inr (dropWhile (trim_set ch) s)"
proof (cases "\<exists>c \<in> set s. \<not> trim_set ch c")
  case True
  then show ?thesis by (auto simp: TrimLeft_def str_erase_def find_index_eq)
next
  case False
  then have "dropWhile (trim_set ch) s = []" by simp
  show ?thesis
    unfolding \<open>dropWhile (trim_set ch) s = []\<close> using False
    by (cases "s = []") (simp_all add: TrimLeft_def str_erase_def find_index_eq)
qed

lemma TrimRight_eq:
  "TrimRight ch s =
     Inr (if s \<noteq> [] \<and> (\<forall>c \<in> set s. trim_set ch c) then [last s]
          else rev (dropWhile (trim_set ch) (rev s)))"
proof (cases "\<exists>c \<in> set s. \<not> trim_set ch c")
  case True
  let ?n = "length (takeWhile (trim_set ch) (rev s))"
  have n: "?n < length s"
    using True length_takeWhile_le [of "trim_set ch" "rev s"]
    by (metis le_neq_implies_less length_rev set_rev set_takeWhileD takeWhile_eq_take take_all_iff order_refl)
  have "take (length s - ?n) s = rev (drop ?n (rev s))"
    by (simp only: rev_drop length_rev rev_rev_ident)
  with True n show ?thesis
    by (auto simp: TrimRight_def str_erase_def str_find_last_def find_index_eq Let_def Suc_diff_Suc)
next
  case False
  then show ?thesis
    by (cases s rule: rev_cases)
      (auto simp: TrimRight_def str_erase_def str_find_last_def find_index_eq Let_def)
qed

lemma dropWhile_rev_nonempty: "s \<noteq> [] \<Longrightarrow> \<not> P (hd s) \<Longrightarrow> \<exists>c \<in> set s. \<not> P c"
  by (cases s) auto

lemma Trim_eq: "Trim ch s = Inr (rev (dropWhile (trim_set ch) (rev (dropWhile (trim_set ch) s))))"
proof -
  let ?t = "dropWhile (trim_set ch) s"
  have "?t = [] \<or> (\<exists>c \<in> set ?t. \<not> trim_set ch c)"
    using hd_dropWhile [of "trim_set ch" s] dropWhile_rev_nonempty by blast
  then show ?thesis by (auto simp: Trim_def TrimLeft_eq TrimRight_eq)
qed

text \<open>
  Note: \<open>Trim\<close> takes exactly the trimmed characters off both ends (blank, tab, carriage return and line feed
  for the default): what is left is the string without a head and a tail of trimmed characters, and it neither starts
  nor ends with one.  It never faults.
\<close>

theorem trim_both_ends:
  "\<exists>l t r. Trim ch s = Inr t \<and> s = l @ t @ r \<and> (\<forall>c \<in> set (l @ r). trim_set ch c) \<and>
     (t \<noteq> [] \<longrightarrow> \<not> trim_set ch (hd t) \<and> \<not> trim_set ch (last t))"
proof -
  let ?T = "trim_set ch"
  let ?u = "dropWhile ?T s"
  let ?t = "rev (dropWhile ?T (rev ?u))"
  have "?u = ?t @ rev (takeWhile ?T (rev ?u))"
    by (metis rev_append rev_rev_ident takeWhile_dropWhile_id)
  moreover from this have "s = takeWhile ?T s @ ?t @ rev (takeWhile ?T (rev ?u))"
    by (metis takeWhile_dropWhile_id)
  moreover have "\<forall>c \<in> set (takeWhile ?T s @ rev (takeWhile ?T (rev ?u))). ?T c"
    by (auto dest: set_takeWhileD)
  moreover have "\<not> ?T (hd ?t) \<and> \<not> ?T (last ?t)" if "?t \<noteq> []"
  proof
    have "hd ?t = hd ?u" using that calculation(1) by (metis hd_append2)
    moreover have "?u \<noteq> []" using that by (metis dropWhile.simps(1) rev.simps(1))
    ultimately show "\<not> ?T (hd ?t)" using hd_dropWhile by metis
    show "\<not> ?T (last ?t)" using that hd_dropWhile [of ?T "rev ?u"] by (simp add: last_rev)
  qed
  ultimately show ?thesis using Trim_eq by blast
qed

theorem trim_both_ends_witness:
  "\<exists>l t r. Trim 0x20 (wide '' a '') = Inr t \<and> wide '' a '' = l @ t @ r \<and> (\<forall>c \<in> set (l @ r). trim_set 0x20 c) \<and>
     (t \<noteq> [] \<longrightarrow> \<not> trim_set 0x20 (hd t) \<and> \<not> trim_set 0x20 (last t))"
  by (rule trim_both_ends)

text \<open>
  Note: \<open>TrimRight\<close> on a string of trimmed characters only leaves its last character, because
  \<open>erase\<close> is asked for one character less than the length; on every other string it takes the
  trimmed characters off the end.
\<close>

theorem trim_right_keeps_one:
  "TrimRight ch s =
     Inr (if s \<noteq> [] \<and> (\<forall>c \<in> set s. trim_set ch c) then [last s]
          else rev (dropWhile (trim_set ch) (rev s)))"
  by (rule TrimRight_eq)

theorem trim_right_keeps_one_witness:
  "TrimRight 0x20 (wide ''  '') = Inr (wide '' '') \<and> TrimRight 0x20 (wide ''a  '') = Inr (wide ''a'')"
  using trim_right_keeps_one [of "0x20" "wide ''  ''"] trim_right_keeps_one [of "0x20" "wide ''a  ''"]
  by (simp add: wide_def trim_set_def BLANKS_def)

subsection \<open>Replace\<close>

lemma FindFirstCharOf_0:
  "FindFirstCharOf s t 0 =
     (if \<exists>c \<in> set s. c \<in> set t then int (length (takeWhile (\<lambda>c. c \<notin> set t) s)) else -1)"
  by (simp add: FindFirstCharOf_def str_find_first_def find_index_eq index_of_def)

lemma Replace_step:
  assumes "\<forall>c \<in> set pre. c \<notin> set t" and "b \<in> set t"
  shows "Replace_loop (Suc n) t a (pre @ b # post) = Replace_loop n t a (pre @ a @ drop (length t - 1) post)"
    and "Replace_loop 0 t a (pre @ b # post) = Inl NoReturn"
proof -
  have "takeWhile (\<lambda>c. c \<notin> set t) (pre @ b # post) = pre" using assms by (simp add: takeWhile_append2)
  moreover have "drop (length pre + length t) (pre @ b # post) = drop (length t - 1) post"
    using assms(2) by (cases t) auto
  ultimately show "Replace_loop (Suc n) t a (pre @ b # post) = Replace_loop n t a (pre @ a @ drop (length t - 1) post)"
    and "Replace_loop 0 t a (pre @ b # post) = Inl NoReturn"
    using assms(2)
    by (auto simp: Replace_loop.simps [of "Suc n"] Replace_loop.simps [of 0] FindFirstCharOf_0 Replace_at_def
        str_replace_def)
qed

lemma Replace_done: "\<forall>c \<in> set s. c \<notin> set t \<Longrightarrow> Replace_loop n t a s = Inr s"
  by (auto simp: Replace_loop.simps FindFirstCharOf_0)

definition replace_each :: "wchar \<Rightarrow> wstring \<Rightarrow> wstring \<Rightarrow> wstring" where
  "replace_each b a s = concat (map (\<lambda>c. if c = b then a else [c]) s)"

lemma replace_each_id: "b \<notin> set s \<Longrightarrow> replace_each b a s = s"
  by (induction s) (auto simp: replace_each_def)

lemma replace_each_append: "replace_each b a (s @ t) = replace_each b a s @ replace_each b a t"
  by (simp add: replace_each_def)

text \<open>
  Note: Replacing one character by a text that does not contain it works: as many turns as there are
  occurrences suffice, and each occurrence is replaced.
\<close>

theorem replace_one_character:
  assumes "b \<notin> set a" and "count_list s b \<le> n"
  shows "Replace_loop n [b] a s = Inr (replace_each b a s)"
  using assms(2)
proof (induction n arbitrary: s)
  case 0
  then show ?case using assms(1) by (auto simp: count_list_0_iff replace_each_id intro!: Replace_done)
next
  case (Suc n)
  show ?case
  proof (cases "b \<in> set s")
    case True
    then obtain pre post where s: "s = pre @ b # post" and pre: "b \<notin> set pre" by (meson split_list_first)
    have zero: "count_list pre b = 0" "count_list a b = 0" using pre assms(1) by (simp_all add: count_list_0_iff)
    have "Replace_loop (Suc n) [b] a s = Replace_loop n [b] a (pre @ a @ post)"
      using Replace_step(1) [of pre "[b]" b n a post] pre s by auto
    also have "\<dots> = Inr (replace_each b a (pre @ a @ post))"
      using Suc.prems s zero by (intro Suc.IH) simp
    also have "replace_each b a (pre @ a @ post) = replace_each b a s"
      using pre assms(1) s by (simp add: replace_each_append replace_each_id) (simp add: replace_each_def)
    finally show ?thesis .
  next
    case False
    then show ?thesis by (auto simp: replace_each_id intro!: Replace_done)
  qed
qed

theorem replace_one_character_witness:
  "Replace_loop 2 (wide ''/'') (wide ''::'') (wide ''a/b/'') = Inr (wide ''a::b::'')"
  using replace_one_character [of "0x2F" "wide ''::''" "wide ''a/b/''" 2]
  by (simp add: wide_def replace_each_def)

text \<open>
  Note: Once the replacement contains a character of the searched text, \<open>Replace\<close> does not come back from
  any string that contains a character of the searched text: no number of turns is enough.
\<close>

theorem replace_runs_forever:
  assumes "set a \<inter> set t \<noteq> {}" and "set s \<inter> set t \<noteq> {}"
  shows "Replace_loop n t a s = Inl NoReturn"
  using assms(2)
proof (induction n arbitrary: s)
  case (0 s)
  then obtain pre b post where "s = pre @ b # post" "b \<in> set t" "\<forall>c \<in> set pre. c \<notin> set t"
    using split_list_first_prop [of s "\<lambda>c. c \<in> set t"] by auto
  then show ?case by (simp add: Replace_step)
next
  case (Suc n s)
  then obtain pre b post where "s = pre @ b # post" "b \<in> set t" "\<forall>c \<in> set pre. c \<notin> set t"
    using split_list_first_prop [of s "\<lambda>c. c \<in> set t"] by auto
  moreover have "set (pre @ a @ drop (length t - 1) post) \<inter> set t \<noteq> {}" using assms(1) by auto
  ultimately show ?case using Suc.IH [of "pre @ a @ drop (length t - 1) post"] by (simp add: Replace_step(1))
qed

theorem replace_runs_forever_witness:
  "Replace_loop 1000 (wide ''b'') (wide ''bb'') (wide ''ab'') = Inl NoReturn"
  using replace_runs_forever [of "wide ''bb''" "wide ''b''" "wide ''ab''" 1000] by (simp add: wide_def)

subsection \<open>Split\<close>

function pieces :: "wchar \<Rightarrow> wstring \<Rightarrow> wstring list" where
  "pieces c s =
     (if s = [] then []
      else if c \<in> set s then takeWhile (\<lambda>x. x \<noteq> c) s # pieces c (tl (dropWhile (\<lambda>x. x \<noteq> c) s))
      else [s])"
  by pat_completeness auto
termination
proof (relation "measure (\<lambda>(c, s). length s)")
  fix c :: wchar and s :: wstring assume "s \<noteq> []"
  then have "length (tl (dropWhile (\<lambda>x. x \<noteq> c) s)) < length s"
    using length_dropWhile_le [of "\<lambda>x. x \<noteq> c" s] by (cases s) (auto intro: le_less_trans)
  then show "((c, tl (dropWhile (\<lambda>x. x \<noteq> c) s)), (c, s)) \<in> measure (\<lambda>(c, s). length s)" by simp
qed simp

declare pieces.simps [simp del]

lemma takeWhile_sep:
  "c \<notin> set p \<Longrightarrow> takeWhile (\<lambda>x. x \<noteq> c) (p @ c # r) = p"
  "c \<notin> set p \<Longrightarrow> dropWhile (\<lambda>x. x \<noteq> c) (p @ c # r) = c # r"
  by (induction p) auto

lemma pieces_sep: "c \<notin> set p \<Longrightarrow> pieces c (p @ c # r) = p # pieces c r"
  by (subst pieces.simps) (simp add: takeWhile_sep)

lemma pieces_last: "c \<notin> set p \<Longrightarrow> p \<noteq> [] \<Longrightarrow> pieces c p = [p]"
  by (subst pieces.simps) simp

lemma split_loop_pieces:
  assumes "short_text s" and "i < length s \<or> s = []" and "c \<notin> set (take i s)"
  shows "split_loop c s i acc = Inr (acc @ pieces c s)"
  using assms
proof (induction c s i acc rule: split_loop.induct)
  case (1 c s i acc)
  show ?case
  proof (cases "s = []")
    case True
    then show ?thesis by (simp add: split_loop.simps [of c "[]"] pieces.simps [of c "[]"])
  next
    case False
    with 1(4) have i: "i < length s" by simp
    have left: "SubStr s 0 (of_nat i) = Inr (take i s)"
      using SubStr_short [OF 1(3), of 0 i] i 1(3) by (simp add: short_text_def)
    have rest: "SubStr s (of_nat (i + 1)) (of_nat (length s - i)) = Inr (drop (i + 1) s)"
    proof -
      have "length s - i < 65536" using 1(3) by (auto simp: short_text_def)
      then show ?thesis
        using SubStr_short [OF 1(3), of "i + 1" "length s - i"] i by (simp del: of_nat_diff of_nat_add of_nat_Suc)
    qed
    have whole: "SubStr s 0 (of_nat (length s)) = Inr s"
      using SubStr_short [OF 1(3), of 0 "length s"] 1(3) by (simp add: short_text_def)
    consider (sep) "s ! i = c" | (stop) "s ! i \<noteq> c" "i = length s - 1" | (go) "s ! i \<noteq> c" "i \<noteq> length s - 1"
      by blast
    then show ?thesis
    proof cases
      case sep
      have s: "s = take i s @ c # drop (i + 1) s" using i sep by (metis Suc_eq_plus1 id_take_nth_drop)
      have "short_text (drop (i + 1) s)" using 1(3) by (auto simp: short_text_def dest: in_set_dropD)
      then have "split_loop c (drop (i + 1) s) 0 (acc @ [take i s]) = Inr ((acc @ [take i s]) @ pieces c (drop (i + 1) s))"
        using 1(1) [OF i sep rest, of "take i s"] by (cases "i + 1 < length s") auto
      moreover have "pieces c s = take i s # pieces c (drop (i + 1) s)"
        using pieces_sep [OF 1(5), of "drop (i + 1) s"] s by simp
      ultimately show ?thesis
        using i sep left rest by (simp add: split_loop.simps [of c s] del: of_nat_add of_nat_Suc)
    next
      case stop
      then have "c \<notin> set s" using 1(5) i by (metis Suc_diff_1 in_set_conv_decomp id_take_nth_drop
            Un_iff drop_all empty_iff empty_set insert_iff le_refl length_greater_0_conv list.simps(15) set_append False)
      then show ?thesis using stop i whole False by (simp add: split_loop.simps [of c s] pieces_last)
    next
      case go
      then have "c \<notin> set (take (i + 1) s)" using 1(5) i by (simp add: take_Suc_conv_app_nth)
      moreover have "Suc i < length s" using go i by linarith
      ultimately show ?thesis using go i 1(2) [OF i go] 1(3)
        by (simp add: split_loop.simps [of c s i])
    qed
  qed
qed

fun join :: "'a \<Rightarrow> 'a list list \<Rightarrow> 'a list" where
  "join c [] = []"
| "join c [p] = p"
| "join c (p # ps) = p @ c # join c ps"

lemma pieces_join:
  "join c (pieces c s) @ (if s \<noteq> [] \<and> last s = c then [c] else []) = s \<and> (\<forall>p \<in> set (pieces c s). c \<notin> set p)"
proof (induction c s rule: pieces.induct)
  case (1 c s)
  show ?case
  proof (cases "c \<in> set s")
    case True
    then obtain p r where s: "s = p @ c # r" and p: "c \<notin> set p" by (meson split_list_first)
    have r: "tl (dropWhile (\<lambda>x. x \<noteq> c) s) = r" using s p by (simp add: takeWhile_sep)
    have IH: "join c (pieces c r) @ (if r \<noteq> [] \<and> last r = c then [c] else []) = r" "\<forall>p \<in> set (pieces c r). c \<notin> set p"
      using 1 [unfolded r] True by (metis empty_iff empty_set)+
    have ne: "pieces c r = [] \<longleftrightarrow> r = []" by (subst pieces.simps) auto
    show ?thesis
    proof (cases "pieces c r")
      case Nil
      then show ?thesis using s p ne by (simp add: pieces_sep)
    next
      case (Cons q qs)
      then show ?thesis using s p ne IH by (auto simp: pieces_sep)
    qed
  next
    case False
    then show ?thesis by (cases "s = []") (auto simp: pieces_last pieces.simps [of c "[]"])
  qed
qed

text \<open>
  Note: \<open>Split\<close> of a string of fewer than 65536 characters without NUL returns the pieces between the
  separators: none contains the separator, and joined with it they give back the string, up to one
  separator at the very end, after which no empty piece is reported.
\<close>

theorem split_rejoins:
  assumes "short_text s"
  shows "\<exists>ps. Split c s = Inr (ps, of_nat (length ps)) \<and> (\<forall>p \<in> set ps. c \<notin> set p) \<and>
           join c ps @ (if s \<noteq> [] \<and> last s = c then [c] else []) = s"
proof -
  have "Split c s = Inr (pieces c s, of_nat (length (pieces c s)))"
    using assms split_loop_pieces [of s 0 c "[]"] by (auto simp: Split_def short_text_def)
  then show ?thesis using pieces_join [of c s] by blast
qed

theorem split_rejoins_witness:
  "\<exists>ps. Split 0x2E (wide ''1.20.'') = Inr (ps, of_nat (length ps)) \<and> (\<forall>p \<in> set ps. 0x2E \<notin> set p) \<and>
     join 0x2E ps @ [0x2E] = wide ''1.20.''"
  using split_rejoins [of "wide ''1.20.''" "0x2E"] by (simp add: wide_def short_text_def)

end
