(* ===== verification/String_Helper.thy ===== *)
theory String_Helper
  imports XString
begin

text \<open>
  \<open>src/src/Utility/StringHelper.cpp\<close>: hexadecimal text, numbers, trimming, replacing and
  splitting of byte strings.  The code page conversions call Windows and are not modelled.
\<close>

section \<open>Operations\<close>

definition narrow :: "string \<Rightarrow> bytes" where
  "narrow s = map (\<lambda>c. of_nat (of_char c)) s"

definition MakeLower :: "bytes \<Rightarrow> bytes" where
  "MakeLower s = map (\<lambda>c. if 0x41 \<le> c \<and> c \<le> 0x5A then c + 0x20 else c) s"

definition MakeUpper :: "bytes \<Rightarrow> bytes" where
  "MakeUpper s = map (\<lambda>c. if 0x61 \<le> c \<and> c \<le> 0x7A then c - 0x20 else c) s"

text \<open>The format \<open>%02x\<close>.\<close>

definition hex_char :: "u8 \<Rightarrow> wchar" where
  "hex_char d = (if d < 10 then ucast d + 48 else ucast d + 87)"

definition HexToString :: "bytes \<Rightarrow> wstring" where
  "HexToString strHex = concat (map (\<lambda>b. [hex_char (b div 16), hex_char (b mod 16)]) strHex)"

definition hex_value :: "wchar \<Rightarrow> u8 option" where
  "hex_value c =
     (if c \<ge> 48 \<and> c \<le> 57 then Some (ucast (c - 48))
      else if c \<ge> 65 \<and> c \<le> 70 then Some (ucast (c - 55))
      else if c \<ge> 97 \<and> c \<le> 102 then Some (ucast (c - 87))
      else None)"

text \<open>The loop over pairs; a wrong digit makes the whole result empty.\<close>

fun hex_loop :: "wstring \<Rightarrow> bytes \<Rightarrow> bytes" where
  "hex_loop (a # b # s) strHex =
     (case hex_value a of
        None \<Rightarrow> []
      | Some h \<Rightarrow>
          (case hex_value b of
             None \<Rightarrow> []
           | Some l \<Rightarrow> hex_loop s (strHex @ [h * 16 + l])))"
| "hex_loop s strHex = strHex"

definition StringToHex :: "wstring \<Rightarrow> bytes" where
  "StringToHex strString = (if length strString mod 2 \<noteq> 0 then [] else hex_loop strString [])"

text \<open>Decimal digits, most significant first, as \<open>sprintf\<close> and \<open>_itot\<close> print them.\<close>

fun digits :: "nat \<Rightarrow> nat list" where
  "digits n = (if n < 10 then [n] else digits (n div 10) @ [n mod 10])"

declare digits.simps [simp del]

definition ConvertFromInt :: "int \<Rightarrow> bytes" where
  "ConvertFromInt n =
     (if n < 0 then 45 # map (\<lambda>d. of_nat d + 48) (digits (nat (- n)))
      else map (\<lambda>d. of_nat d + 48) (digits (nat n)))"

text \<open>\<open>atol\<close>: blanks, a sign, digits; a value outside the 32-bit range is cut to its ends.\<close>

definition is_digit :: "u8 \<Rightarrow> bool" where
  "is_digit c \<longleftrightarrow> 48 \<le> c \<and> c \<le> 57"

definition atol_value :: "bytes \<Rightarrow> int" where
  "atol_value s = foldl (\<lambda>v c. 10 * v + (uint c - 48)) 0 (takeWhile is_digit s)"

definition atol :: "bytes \<Rightarrow> int" where
  "atol s =
     (let t = dropWhile (\<lambda>c. c = 32 \<or> 9 \<le> c \<and> c \<le> 13) s;
          v = (if t \<noteq> [] \<and> hd t = 45 then - atol_value (tl t)
               else if t \<noteq> [] \<and> hd t = 43 then atol_value (tl t)
               else atol_value t)
      in max (- (2 ^ 31)) (min (2 ^ 31 - 1) v))"

definition ConvertToInt :: "bytes \<Rightarrow> int" where
  "ConvertToInt in_str = atol in_str"

definition IsNumberic :: "bytes \<Rightarrow> bool" where
  "IsNumberic num = (find_index (\<lambda>c. c \<notin> set (narrow ''0123456789.'')) num = None)"

definition blank :: "u8 \<Rightarrow> bool" where
  "blank c \<longleftrightarrow> c \<in> {32, 13, 10, 9}"

definition TrimAll :: "bytes \<Rightarrow> bytes outcome" where
  "TrimAll src_str =
     (if src_str = [] then Inr src_str
      else obind (str_erase src_str 0
                    (case find_index (\<lambda>c. \<not> blank c) src_str of None \<Rightarrow> length src_str | Some i \<Rightarrow> i))
             (\<lambda>s. str_erase s
                    (case str_find_last (\<lambda>c. \<not> blank c) s (length s) of None \<Rightarrow> 0 | Some i \<Rightarrow> i + 1)
                    (length s)))"

text \<open>The loop of \<open>Replace\<close> searches \<open>strSrc\<close>, edits \<open>strResult\<close> and moves by the length of the
  replacement; with fuel, as it may not end.\<close>

fun replace_loop :: "nat \<Rightarrow> bytes \<Rightarrow> bytes \<Rightarrow> bytes \<Rightarrow> nat \<Rightarrow> bytes \<Rightarrow> bytes outcome" where
  "replace_loop fuel strSrc strReplaced strReplacing pos strResult =
     (case str_find strReplaced strSrc pos of
        None \<Rightarrow> Inr strResult
      | Some pos' \<Rightarrow>
          (case fuel of
             0 \<Rightarrow> Inl NoReturn
           | Suc n \<Rightarrow>
               obind (str_replace strResult pos' (length strReplaced) strReplacing)
                 (replace_loop n strSrc strReplaced strReplacing (pos' + length strReplacing))))"

declare replace_loop.simps [simp del]

definition sh_Replace :: "nat \<Rightarrow> bytes \<Rightarrow> bytes \<Rightarrow> bytes \<Rightarrow> bytes outcome" where
  "sh_Replace fuel strSrc strReplaced strReplacing =
     replace_loop fuel strSrc strReplaced strReplacing 0 strSrc"

lemma find_sub_SomeD:
  "find_sub pat s = Some k \<Longrightarrow> k + length pat \<le> length s \<and> prefix pat (drop k s)"
proof (induction s arbitrary: k)
  case Nil
  then show ?case by (auto split: if_splits)
next
  case (Cons x s)
  then show ?case by (fastforce split: if_splits dest: prefix_length_le)
qed

lemma str_find_SomeD:
  "str_find pat s off = Some k \<Longrightarrow> off \<le> k \<and> k + length pat \<le> length s \<and> prefix pat (drop k s)"
  by (auto simp: str_find_def split: if_splits dest!: find_sub_SomeD simp: add.commute)

function sh_split_loop :: "u8 \<Rightarrow> bytes \<Rightarrow> nat option \<Rightarrow> nat \<Rightarrow> bytes list \<Rightarrow> nat \<times> bytes list" where
  "sh_split_loop ch strOri None nLastPos vec = (nLastPos, vec)"
| "sh_split_loop ch strOri (Some i) nLastPos vec =
     sh_split_loop ch strOri (str_find [ch] strOri (i + 1)) (i + 1)
       (vec @ [take (i - nLastPos) (drop nLastPos strOri)])"
  by pat_completeness auto
termination
proof (relation "measure (\<lambda>(ch, s, i, l, v). case i of None \<Rightarrow> 0 | Some i \<Rightarrow> Suc (length s - i))")
  fix ch s i l v
  show "((ch, s, str_find [ch] s (i + 1), i + 1, v @ [take (i - l) (drop l s)]), ch, s, Some i, l, v)
        \<in> measure (\<lambda>(ch, s, i, l, v). case i of None \<Rightarrow> 0 | Some i \<Rightarrow> Suc (length s - i))"
    by (auto split: option.split dest!: str_find_SomeD)
qed simp

definition sh_Split :: "bytes \<Rightarrow> u8 \<Rightarrow> bytes list" where
  "sh_Split strOri ch =
     (case sh_split_loop ch strOri (str_find [ch] strOri 0) 0 [] of
        (nLastPos, vec) \<Rightarrow>
          if nLastPos \<noteq> 0
          then vec @ [take (length strOri - nLastPos) (drop nLastPos strOri)]
          else vec)"

section \<open>What they compute\<close>

lemma hex_value_char:
  assumes "d < 16"
  shows "hex_value (hex_char d) = Some d"
proof -
  have "\<forall>n \<in> set [0..<16]. hex_value (hex_char (of_nat n)) = Some (of_nat n)" by code_simp
  moreover have "unat d \<in> set [0..<16]" using assms by (simp add: word_less_nat_alt)
  ultimately have "hex_value (hex_char (of_nat (unat d))) = Some (of_nat (unat d))" by blast
  then show ?thesis by simp
qed

lemma nibbles: "(b :: u8) div 16 < 16" "(b :: u8) mod 16 < 16" "(b :: u8) div 16 * 16 + b mod 16 = b"
proof -
  show "b div 16 < 16" using unat_byte_less [of b] by (simp add: word_less_nat_alt unat_div less_mult_imp_div_less)
  show "b mod 16 < 16" by (simp add: word_less_nat_alt unat_mod)
  show "b div 16 * 16 + b mod 16 = b" by (rule div_mult_mod_eq)
qed

text \<open>
  Note: Reading back the hexadecimal text of any byte string gives the byte string.
\<close>

theorem hex_roundtrip: "StringToHex (HexToString bs) = bs"
proof -
  have "hex_loop (HexToString bs) acc = acc @ bs" for acc
    by (induction bs arbitrary: acc) (simp_all add: HexToString_def hex_value_char nibbles)
  moreover have "even (length (HexToString bs))"
    by (induction bs) (simp_all add: HexToString_def)
  ultimately show ?thesis by (simp add: StringToHex_def)
qed

lemma str_find_here: "prefix pat (drop p s) \<Longrightarrow> p \<le> length s \<Longrightarrow> str_find pat s p = Some p"
  by (cases "drop p s") (auto simp: str_find_def)

text \<open>
  Note: \<open>StringHelper::Replace\<close> never returns when asked to delete a text that occurs: with an empty
  replacement the search position does not move, and the text is searched in the unchanged source.
\<close>

theorem replace_with_nothing_hangs:
  assumes "str_find t s 0 = Some p"
  shows "sh_Replace n s t [] = Inl NoReturn"
proof -
  have p: "prefix t (drop p s)" "p \<le> length s" using str_find_SomeD [OF assms] by auto
  then have again: "str_find t s p = Some p" by (rule str_find_here)
  have "replace_loop n s t [] q r = Inl NoReturn" if "q = 0 \<or> q = p" "p \<le> length r" for q r
    using that
  proof (induction n arbitrary: q r)
    case 0
    then show ?case using assms again by (auto simp: replace_loop.simps [of 0])
  next
    case (Suc n)
    then have "replace_loop n s t [] p (take p r @ drop (p + length t) r) = Inl NoReturn" by simp
    with Suc.prems show ?case
      using assms again by (auto simp: replace_loop.simps [of "Suc n"] str_replace_def)
  qed
  then show ?thesis using p by (simp add: sh_Replace_def)
qed

theorem replace_with_nothing_hangs_witness:
  "sh_Replace 1000 (narrow ''a-b'') (narrow ''-'') [] = Inl NoReturn"
  using replace_with_nothing_hangs [of "narrow ''-''" "narrow ''a-b''" 1 1000]
  by (simp add: narrow_def str_find_def)

subsection \<open>Split\<close>

lemma find_sub_single: "find_sub [c] s = find_index (\<lambda>x. x = c) s"
  by (induction s) auto

lemma find_char_None: "str_find [c] s l = None \<Longrightarrow> l \<le> length s \<Longrightarrow> c \<notin> set (drop l s)"
  by (auto simp: str_find_def find_sub_single find_index_eq split: if_splits)

lemma find_char_Some:
  assumes "str_find [c] s l = Some i"
  shows "l \<le> i" "i < length s" "c \<notin> set (take (i - l) (drop l s))"
    "drop l s = take (i - l) (drop l s) @ c # drop (i + 1) s"
proof -
  from assms have i: "i = l + length (takeWhile (\<lambda>x. x \<noteq> c) (drop l s))" and mem: "c \<in> set (drop l s)"
    by (auto simp: str_find_def find_sub_single find_index_eq split: if_splits)
  show "l \<le> i" "i < length s" using str_find_SomeD [OF assms] by auto
  have "take (i - l) (drop l s) = takeWhile (\<lambda>x. x \<noteq> c) (drop l s)" using i by simp
  then show nc: "c \<notin> set (take (i - l) (drop l s))" by (metis set_takeWhileD)
  have "s ! i = c" using str_find_SomeD [OF assms] by (auto simp: Cons_nth_drop_Suc [symmetric])
  then show "drop l s = take (i - l) (drop l s) @ c # drop (i + 1) s"
    using \<open>l \<le> i\<close> \<open>i < length s\<close>
    by (metis Cons_nth_drop_Suc Suc_eq_plus1 add.commute append_take_drop_id drop_drop le_add_diff_inverse2)
qed

lemma join_snoc: "join c (v @ [p, q]) = join c (v @ [p @ c # q])"
  by (induction c v rule: join.induct) auto

lemma sh_split_loop_correct:
  assumes "sh_split_loop c s i l v = (l', v')" and "i = str_find [c] s l" and "l \<le> length s"
    and "\<forall>p \<in> set v. c \<notin> set p"
  shows "join c (v' @ [drop l' s]) = join c (v @ [drop l s]) \<and> (\<forall>p \<in> set (v' @ [drop l' s]). c \<notin> set p) \<and>
         (l' \<noteq> 0 \<longleftrightarrow> l \<noteq> 0 \<or> i \<noteq> None)"
  using assms
proof (induction c s i l v rule: sh_split_loop.induct)
  case (1 c s l v)
  then show ?case using find_char_None [of c s l] by auto
next
  case (2 c s i l v)
  let ?p = "take (i - l) (drop l s)"
  note f = find_char_Some [OF 2(3) [symmetric]]
  have "sh_split_loop c s (str_find [c] s (i + 1)) (i + 1) (v @ [?p]) = (l', v')" using 2(2) by simp
  then have "join c (v' @ [drop l' s]) = join c ((v @ [?p]) @ [drop (i + 1) s])"
    "\<forall>p \<in> set (v' @ [drop l' s]). c \<notin> set p" "l' \<noteq> 0"
    using 2(1) f(2,3) 2(5) by auto
  then show ?case using join_snoc [of c v ?p "drop (i + 1) s"] f(4) by simp
qed

lemma sh_Split_eq:
  "if c \<in> set s then join c (sh_Split s c) = s \<and> (\<forall>p \<in> set (sh_Split s c). c \<notin> set p)
   else sh_Split s c = []"
proof -
  obtain l v where lv: "sh_split_loop c s (str_find [c] s 0) 0 [] = (l, v)" by fastforce
  have none: "str_find [c] s 0 = None \<longleftrightarrow> c \<notin> set s"
    by (auto simp: str_find_def find_sub_single find_index_eq)
  from sh_split_loop_correct [OF lv refl] show ?thesis
    using lv none by (cases "c \<in> set s") (auto simp: sh_Split_def)
qed

lemma join_sep_eq:
  assumes "c \<notin> set p" and "c \<notin> set q" and "p @ c # x = q @ c # y"
  shows "p = q \<and> x = y"
  using assms takeWhile_sep [of c p x] takeWhile_sep [of c q y] by (metis list.inject)

lemma join_Cons: "ps \<noteq> [] \<Longrightarrow> join c (p # ps) = p @ c # join c ps"
  by (cases ps) auto

lemma join_has_sep: "ps \<noteq> [] \<Longrightarrow> c \<in> set (join c (p # ps))"
  by (simp add: join_Cons)

lemma join_unique:
  assumes "join c ps = join c qs" and "\<forall>p \<in> set ps. c \<notin> set p" and "\<forall>q \<in> set qs. c \<notin> set q"
    and "ps \<noteq> []" and "qs \<noteq> []"
  shows "ps = qs"
  using assms
proof (induction ps arbitrary: qs)
  case (Cons p ps)
  then obtain q qs' where qs: "qs = q # qs'" by (cases qs) auto
  have pq: "c \<notin> set p" "c \<notin> set q" using Cons.prems qs by auto
  show ?case
  proof (cases "ps = [] \<or> qs' = []")
    case True
    then have "ps = [] \<and> qs' = []"
      using Cons.prems(1) pq join_has_sep [of ps c p] join_has_sep [of qs' c q] unfolding qs by fastforce
    then show ?thesis using Cons.prems(1) qs by simp
  next
    case False
    then have "p = q \<and> join c ps = join c qs'"
      using Cons.prems(1) join_sep_eq [OF pq, of "join c ps" "join c qs'"] unfolding qs by (simp add: join_Cons)
    then show ?thesis using Cons.IH [of qs'] Cons.prems False qs by simp
  qed
qed simp

lemma sh_Split_join:
  assumes "\<forall>p \<in> set (p # q # ps). c \<notin> set p"
  shows "sh_Split (join c (p # q # ps)) c = p # q # ps"
proof -
  let ?s = "join c (p # q # ps)"
  have mem: "c \<in> set ?s" by (rule join_has_sep) simp
  then have sp: "join c (sh_Split ?s c) = ?s" "\<forall>r \<in> set (sh_Split ?s c). c \<notin> set r"
    using sh_Split_eq [of c ?s] by presburger+
  have "sh_Split ?s c \<noteq> []" using sp(1) mem by (metis empty_iff empty_set join.simps(1))
  then show ?thesis using join_unique [OF sp assms] by blast
qed

text \<open>
  Note: \<open>StringHelper::Split\<close> answers no piece at all when the separator does not occur; when it does, the
  pieces, empty ones included, joined with the separator give back the string and none contains it.
\<close>

theorem sh_split_rejoins:
  "if c \<in> set s then join c (sh_Split s c) = s \<and> (\<forall>p \<in> set (sh_Split s c). c \<notin> set p)
   else sh_Split s c = []"
  by (rule sh_Split_eq)

theorem sh_split_rejoins_witness:
  "join 46 (sh_Split (narrow ''1..2'') 46) = narrow ''1..2'' \<and> sh_Split (narrow ''12'') 46 = []"
  using sh_split_rejoins [of 46 "narrow ''1..2''"] sh_split_rejoins [of 46 "narrow ''12''"]
  by (simp add: narrow_def)

end
