(* ===== verification/Std_Map.thy ===== *)
theory Std_Map
  imports Prelude "HOL-Library.List_Lexorder"
begin

text \<open>
  \<open>std::map\<close> as the program uses it: iteration in the order of the keys, assignment through \<open>operator[]\<close>, lookup with \<open>find\<close>.
\<close>

text \<open>A map as the list of its pairs in the order of the keys; \<open>key\<close> is what the comparison looks at.\<close>

fun map_put :: "('k \<Rightarrow> 'o::linorder) \<Rightarrow> 'k \<Rightarrow> 'v \<Rightarrow> ('k \<times> 'v) list \<Rightarrow> ('k \<times> 'v) list" where
  "map_put key k v [] = [(k, v)]"
| "map_put key k v ((k', v') # xs) =
     (if key k < key k' then (k, v) # (k', v') # xs
      else if key k = key k' then (k, v) # xs
      else (k', v') # map_put key k v xs)"

definition map_sorted :: "('k \<Rightarrow> 'o::linorder) \<Rightarrow> ('k \<times> 'v) list \<Rightarrow> bool" where
  "map_sorted key xs \<longleftrightarrow> sorted_wrt (\<lambda>a b. key (fst a) < key (fst b)) xs"

text \<open>What the program relies on: assignment changes one key, and a key occurs once.\<close>

locale std_map =
  fixes key :: "'k \<Rightarrow> 'o::linorder"
  assumes key_inj: "key a = key b \<Longrightarrow> a = b"
begin

lemma map_of_put: "map_of (map_put key k v xs) = (map_of xs)(k \<mapsto> v)"
  by (induction xs) (auto simp: fun_eq_iff dest: key_inj)

lemma keys_put: "fst ` set (map_put key k v xs) = insert k (fst ` set xs)"
  by (simp add: map_of_put flip: dom_map_of_conv_image_fst)

lemma set_put: "x \<in> set (map_put key k v xs) \<Longrightarrow> x = (k, v) \<or> x \<in> set xs"
  by (induction xs) (auto split: if_splits)

lemma put_sorted: "map_sorted key xs \<Longrightarrow> map_sorted key (map_put key k v xs)"
proof (induction xs)
  case (Cons x xs)
  obtain k' v' where x: "x = (k', v')" by (cases x)
  have "map_sorted key (map_put key k v xs)" using Cons by (simp add: map_sorted_def)
  then show ?case using Cons.prems x set_put [of _ k v xs] unfolding map_sorted_def by force
qed (simp add: map_sorted_def)

lemma sorted_distinct: "map_sorted key xs \<Longrightarrow> distinct (map fst xs)"
  unfolding map_sorted_def by (induction xs) auto

end

text \<open>\<open>std::map<std::wstring, T>\<close> compares the strings, \<open>std::map<ModuleId, T>\<close> the signed values of the enumeration.\<close>

interpretation wstring_map: std_map "\<lambda>k :: wstring. k"
  by unfold_locales

interpretation id_map: std_map "\<lambda>k :: u32. sint k"
  by unfold_locales (simp add: signed_word_eqI)

end
