(* ===== verification/Module_Loader.thy ===== *)
theory Module_Loader
  imports Module_Impl String_Helper Std_Map
begin

text \<open>
  Start and end of the program: the list of modules read from \<open>Module.xml\<close> (\<open>src/src/ModuleManager/ModuleList.h\<close>), the
  factories the modules export (\<open>ModuleFactoryImpl\<close> of \<open>src/include/ModuleImpl.h\<close> and the export macros of
  \<open>src/include/Module.h\<close>), \<open>LoadModules\<close>, \<open>Init\<close> and \<open>Destroy\<close> of the manager, and \<open>_tWinMain\<close>.  The module
  objects live in an explicit heap, so that it can be said which are alive.  The XML parser, \<open>LoadLibrary\<close> and the
  overridden \<open>Load\<close> and \<open>Unload\<close> of the modules are parameters.
\<close>

section \<open>The list of modules\<close>

text \<open>What TinyXML makes of the file: elements with attributes and children.\<close>

datatype xml = Element (xml_tag: bytes) (xml_attributes: "(bytes \<times> bytes) list") (xml_children: "xml list")

definition Attribute :: "bytes \<Rightarrow> xml \<Rightarrow> bytes outcome" where
  "Attribute a x = (case map_of (xml_attributes x) a of None \<Rightarrow> Inl NullDeref | Some v \<Rightarrow> Inr v)"

text \<open>\<open>FirstChildElement(tag)\<close> and from there \<open>NextSiblingElement()\<close>, which does not look at the tag.\<close>

definition elements_from :: "bytes \<Rightarrow> xml \<Rightarrow> xml list" where
  "elements_from tag x = dropWhile (\<lambda>y. xml_tag y \<noteq> tag) (xml_children x)"

definition bytes_of :: "string \<Rightarrow> bytes" where
  "bytes_of s = map of_char s"

definition module_ids :: "xml \<Rightarrow> u32 list outcome" where
  "module_ids x =
     ofold (\<lambda>y ids. obind (Attribute (bytes_of ''Id'') y) (\<lambda>v. Inr (ids @ [word_of_int (atol v)])))
       (elements_from (bytes_of ''IModule'') x) []"

type_synonym DllModuleList = "(wstring \<times> u32 list) list"

text \<open>\<open>doc\<close> are the top elements of the file, \<open>None\<close> when it could not be read; \<open>A2U\<close> is
  \<open>StringHelper::ANSIToUnicode\<close>.\<close>

definition ModuleList :: "(bytes \<Rightarrow> wstring) \<Rightarrow> xml list option \<Rightarrow> DllModuleList outcome" where
  "ModuleList A2U doc =
     (case doc of
        None \<Rightarrow> Inr []
      | Some xs \<Rightarrow>
          (case find (\<lambda>x. xml_tag x = bytes_of ''ModuleManager'') xs of
             None \<Rightarrow> Inl NullDeref
           | Some root \<Rightarrow>
               ofold (\<lambda>x m. obind (Attribute (bytes_of ''Name'') x) (\<lambda>name. obind (module_ids x) (\<lambda>listId.
                   Inr (map_put (\<lambda>k. k) (A2U (name @ bytes_of ''.dll'')) listId m))))
                 (elements_from (bytes_of ''Module'') root) []))"

section \<open>Objects, factories and the program state\<close>

type_synonym module_ptr = nat

record module_object =
  obj_class :: wstring
  m_pModuleManager :: bool

text \<open>The globals of a module DLL: \<open>g_<Module>Factory\<close> with its member \<open>m_pstIModule\<close>, and \<open>g_<Module>\<close>.\<close>

record dll_globals =
  g_ModuleFactory :: "module_ptr option"
  g_Module :: module_ptr

text \<open>A factory is named by its DLL, which has at most one.\<close>

record ModuleInterface =
  m_pGetModuleFactoryFunc :: bool
  m_pReleaseModuleFactoryFunc :: bool
  m_pModuleFactory :: "wstring option"
  m_pModules :: "module_ptr list"

datatype load_error = DllNotLoaded wstring | FactoryNull wstring | CounterFailed wstring | PointFailed wstring

datatype module_call = Loaded module_ptr | Unloaded module_ptr | Deleted module_ptr

record ('x, 'w) program =
  bus_state :: "('x, module_ptr, 'w) manager"
  m_mapModuleInterface :: "(wstring \<times> ModuleInterface) list"
  dll_data :: "wstring \<Rightarrow> dll_globals"
  objects :: "module_ptr \<Rightarrow> module_object option"
  next_object :: module_ptr
  boxes :: "load_error list"
  calls :: "module_call list"

definition program_start :: "'w \<Rightarrow> ('x, 'w) program" where
  "program_start w =
     \<lparr>bus_state = ModuleManagerImpl w, m_mapModuleInterface = [], dll_data = (\<lambda>_. \<lparr>g_ModuleFactory = None, g_Module = 0\<rparr>),
      objects = (\<lambda>_. None), next_object = 1, boxes = [], calls = []\<rparr>"

text \<open>What a DLL has: the two exports, and the factory its \<open>GetModuleFactory\<close> returns, that of the macros or one of
  another maker that is NULL or does not tell its number of modules.\<close>

datatype dll_factory = FactoryImpl | NoFactory | NoCounter

record dll =
  has_get :: bool
  has_release :: bool
  factory_of :: dll_factory

text \<open>The virtual functions of the modules by class: what \<open>Load\<close> and \<open>Unload\<close> do beside the base class, and
  whether \<open>Unload\<close> calls that of the base class.\<close>

record ('x, 'w) module_class =
  v_Load :: "('x, module_ptr, 'w) manager \<Rightarrow> ('x, module_ptr, 'w) manager"
  v_Unload :: "('x, module_ptr, 'w) manager \<Rightarrow> ('x, module_ptr, 'w) manager"
  v_super :: bool

section \<open>ModuleFactoryImpl and the export macros\<close>

definition set_factory :: "wstring \<Rightarrow> module_ptr option \<Rightarrow> ('x, 'w) program \<Rightarrow> ('x, 'w) program" where
  "set_factory name f p = p\<lparr>dll_data := (dll_data p)(name := (dll_data p name)\<lparr>g_ModuleFactory := f\<rparr>)\<rparr>"

definition new_module :: "wstring \<Rightarrow> ('x, 'w) program \<Rightarrow> ('x, 'w) program" where
  "new_module name p =
     p\<lparr>objects := (objects p)(next_object p \<mapsto> \<lparr>obj_class = name, m_pModuleManager = False\<rparr>), next_object := next_object p + 1\<rparr>"

definition QueryModuleCounter :: "bool \<times> nat" where
  "QueryModuleCounter = (True, 1)"

text \<open>The result is the pointer stored, \<open>None\<close> for \<open>FALSE\<close>.\<close>

definition QueryModulePoint ::
  "wstring \<Rightarrow> nat \<Rightarrow> ('x, 'w) program \<Rightarrow> (module_ptr option \<times> ('x, 'w) program) outcome" where
  "QueryModulePoint name counter p =
     (case g_ModuleFactory (dll_data p name) of
        None \<Rightarrow> Inl BadPointer
      | Some m \<Rightarrow>
          if counter = 1 then
            (if m \<noteq> 0 then Inr (Some m, p)
             else Inr (Some (next_object p), set_factory name (Some (next_object p)) (new_module name p)))
          else Inr (None, p))"

definition ReleaseModulePoint ::
  "wstring \<Rightarrow> nat \<Rightarrow> module_ptr \<Rightarrow> ('x, 'w) program \<Rightarrow> ('x, 'w) program outcome" where
  "ReleaseModulePoint name counter q p =
     (case g_ModuleFactory (dll_data p name) of
        None \<Rightarrow> Inl BadPointer
      | Some m \<Rightarrow>
          if counter = 1 \<and> q \<noteq> 0 \<and> m = q then
            (if objects p q = None then Inl BadPointer
             else Inr (set_factory name (Some 0) (p\<lparr>objects := (objects p)(q := None), calls := calls p @ [Deleted q]\<rparr>)))
          else Inr p)"

definition GetModuleFactory :: "wstring \<Rightarrow> ('x, 'w) program \<Rightarrow> ('x, 'w) program outcome" where
  "GetModuleFactory name p =
     (if g_ModuleFactory (dll_data p name) = None then
        obind (QueryModulePoint name 1 (set_factory name (Some 0) p)) (\<lambda>(q, p').
          Inr (case q of
                 None \<Rightarrow> p'
               | Some m \<Rightarrow> p'\<lparr>dll_data := (dll_data p')(name := (dll_data p' name)\<lparr>g_Module := m\<rparr>)\<rparr>))
      else Inr p)"

definition ReleaseModuleFactory :: "wstring \<Rightarrow> ('x, 'w) program \<Rightarrow> ('x, 'w) program" where
  "ReleaseModuleFactory name p =
     (if g_ModuleFactory (dll_data p name) \<noteq> None then set_factory name None p else p)"

section \<open>LoadModules, Init, Destroy and the main program\<close>

definition set_interface :: "wstring \<Rightarrow> ModuleInterface \<Rightarrow> ('x, 'w) program \<Rightarrow> ('x, 'w) program" where
  "set_interface name i p = p\<lparr>m_mapModuleInterface := map_put (\<lambda>k. k) name i (m_mapModuleInterface p)\<rparr>"

definition set_point :: "u32 \<Rightarrow> module_ptr \<Rightarrow> ('x, 'w) program \<Rightarrow> ('x, 'w) program" where
  "set_point k q p =
     p\<lparr>bus_state := (bus_state p)\<lparr>m_mapModulePoint := map_put (\<lambda>k. sint k) k q (m_mapModulePoint (bus_state p))\<rparr>\<rparr>"

definition message_box :: "load_error \<Rightarrow> ('x, 'w) program \<Rightarrow> ('x, 'w) program" where
  "message_box e p = p\<lparr>boxes := boxes p @ [e]\<rparr>"

definition load_module ::
  "(wstring \<Rightarrow> dll option) \<Rightarrow> wstring \<times> u32 list \<Rightarrow> ('x, 'w) program \<Rightarrow> ('x, 'w) program outcome" where
  "load_module LoadLibrary itr p =
     (let name = fst itr; ids = snd itr in
      case LoadLibrary name of
        None \<Rightarrow> Inr (message_box (DllNotLoaded name) p)
      | Some d \<Rightarrow>
          let i = \<lparr>m_pGetModuleFactoryFunc = has_get d, m_pReleaseModuleFactoryFunc = has_release d,
                   m_pModuleFactory = None, m_pModules = replicate (length ids) 0\<rparr>;
              p1 = set_interface name i p in
          if \<not> has_get d then Inl NullDeref
          else
            (case factory_of d of
               NoFactory \<Rightarrow> Inr (message_box (FactoryNull name) p1)
             | NoCounter \<Rightarrow> Inr (message_box (CounterFailed name) p1)
             | FactoryImpl \<Rightarrow>
                 obind (GetModuleFactory name p1) (\<lambda>p2.
                   let nCount = snd QueryModuleCounter; j = i\<lparr>m_pModuleFactory := Some name\<rparr>; p3 = set_interface name j p2 in
                   if nCount \<le> length ids then
                     obind (QueryModulePoint name nCount p3) (\<lambda>(q, p4).
                       case q of
                         None \<Rightarrow> Inr (message_box (PointFailed name) p4)
                       | Some m \<Rightarrow>
                           let pModules = (m_pModules j)[0 := m] in
                           Inr (fold (\<lambda>n. set_point (ids ! n) (pModules ! n)) [0..<nCount]
                                  (set_interface name (j\<lparr>m_pModules := pModules\<rparr>) p4)))
                   else Inr p3)))"

definition call_Load ::
  "(wstring \<Rightarrow> ('x, 'w) module_class) \<Rightarrow> u32 \<times> module_ptr \<Rightarrow> ('x, 'w) program \<Rightarrow> ('x, 'w) program outcome" where
  "call_Load cls it p =
     (case objects p (snd it) of
        None \<Rightarrow> Inl BadPointer
      | Some ob \<Rightarrow> Inr (p\<lparr>objects := (objects p)(snd it \<mapsto> ob\<lparr>m_pModuleManager := True\<rparr>), calls := calls p @ [Loaded (snd it)],
          bus_state := v_Load (cls (obj_class ob)) (bus_state p)\<rparr>))"

definition call_Unload ::
  "(wstring \<Rightarrow> ('x, 'w) module_class) \<Rightarrow> u32 \<times> module_ptr \<Rightarrow> ('x, 'w) program \<Rightarrow> ('x, 'w) program outcome" where
  "call_Unload cls it p =
     (case objects p (snd it) of
        None \<Rightarrow> Inl BadPointer
      | Some ob \<Rightarrow> Inr (p\<lparr>objects := (objects p)(snd it \<mapsto>
            ob\<lparr>m_pModuleManager := m_pModuleManager ob \<and> \<not> v_super (cls (obj_class ob))\<rparr>),
          calls := calls p @ [Unloaded (snd it)], bus_state := v_Unload (cls (obj_class ob)) (bus_state p)\<rparr>))"

definition LoadModules ::
  "(wstring \<Rightarrow> ('x, 'w) module_class) \<Rightarrow> (wstring \<Rightarrow> dll option) \<Rightarrow> DllModuleList \<Rightarrow> ('x, 'w) program \<Rightarrow> ('x, 'w) program outcome" where
  "LoadModules cls LoadLibrary dlls p =
     obind (ofold (load_module LoadLibrary) dlls p) (\<lambda>p1.
       ofold (call_Load cls) (m_mapModulePoint (bus_state p1)) p1)"

text \<open>\<open>Init\<close> returns whether \<open>user32.dll\<close> could be loaded, once the modules are; the main program does not look.\<close>

definition Init ::
  "(wstring \<Rightarrow> ('x, 'w) module_class) \<Rightarrow> (wstring \<Rightarrow> dll option) \<Rightarrow> DllModuleList \<Rightarrow> ('x, 'w) program \<Rightarrow>
   (bool \<times> ('x, 'w) program) outcome" where
  "Init cls LoadLibrary dlls p =
     obind (LoadModules cls LoadLibrary dlls p) (\<lambda>p1.
       Inr (LoadLibrary (map of_char ''user32.dll'') \<noteq> None, p1))"

definition release_interface :: "wstring \<times> ModuleInterface \<Rightarrow> ('x, 'w) program \<Rightarrow> ('x, 'w) program outcome" where
  "release_interface it p =
     (let i = snd it in
      case m_pModuleFactory i of
        None \<Rightarrow> Inl NullDeref
      | Some name \<Rightarrow>
          if m_pModules i = [] then Inl OutOfRange
          else
            obind (ReleaseModulePoint name (length (m_pModules i)) (m_pModules i ! 0) p) (\<lambda>p1.
              if m_pReleaseModuleFactoryFunc i then Inr (ReleaseModuleFactory (fst it) p1) else Inl NullDeref))"

definition Destroy :: "(wstring \<Rightarrow> ('x, 'w) module_class) \<Rightarrow> ('x, 'w) program \<Rightarrow> ('x, 'w) program outcome" where
  "Destroy cls p =
     obind (ofold (call_Unload cls) (m_mapModulePoint (bus_state p)) p) (\<lambda>p1.
     obind (ofold release_interface (m_mapModuleInterface p1)
         (p1\<lparr>bus_state := (bus_state p1)\<lparr>m_mapModulePoint := []\<rparr>\<rparr>)) (\<lambda>p2.
       Inr (p2\<lparr>m_mapModuleInterface := []\<rparr>)))"

definition EVENT_VALUE_UPDATE_CHECK_UPDATEINFO :: u32 where
  "EVENT_VALUE_UPDATE_CHECK_UPDATEINFO = VALUE_BEGIN EVENT_VALUE_BASE (module_value MODULE_ID_UPDATE)"

definition WinMain ::
  "(wstring \<Rightarrow> ('x, 'w) module_class) \<Rightarrow> ('x, module_ptr, 'w) event_proc \<Rightarrow> ('x, module_ptr, 'w) message_proc \<Rightarrow>
   ('x, module_ptr, 'w) payback_proc \<Rightarrow> ('q \<Rightarrow> ('x, module_ptr, 'w) manager \<Rightarrow> ('x, module_ptr, 'w) manager) \<Rightarrow>
   (wstring \<Rightarrow> dll option) \<Rightarrow> DllModuleList \<Rightarrow> nat \<Rightarrow> 'q win_message list \<Rightarrow> 'w \<Rightarrow> ('x, 'w) program outcome" where
  "WinMain cls pe pm pay wnd LoadLibrary dlls fuel qs w =
     obind (Init cls LoadLibrary dlls (program_start w)) (\<lambda>(_, p).
       let evt = MakeEvent (ucast (module_value MODULE_ID_CORE)) EVENT_VALUE_UPDATE_CHECK_UPDATEINFO
                   (ucast (module_value MODULE_ID_UPDATE)) 0 0 0 0 None in
       case Run pe pm pay wnd fuel qs (snd (PushEvent evt (bus_state p))) of
         None \<Rightarrow> Inl NoReturn
       | Some s \<Rightarrow> Destroy cls (p\<lparr>bus_state := s\<rparr>))"

section \<open>What is alive after loading\<close>

text \<open>The three ways a DLL of the list can be: it cannot be loaded, its factory fails, or it is one of the modules built with
  the macros, listed with one id.\<close>

definition absent :: "(wstring \<Rightarrow> dll option) \<Rightarrow> wstring \<times> u32 list \<Rightarrow> bool" where
  "absent LoadLibrary it \<longleftrightarrow> LoadLibrary (fst it) = None"

definition broken :: "(wstring \<Rightarrow> dll option) \<Rightarrow> wstring \<times> u32 list \<Rightarrow> bool" where
  "broken LoadLibrary it \<longleftrightarrow>
     (case LoadLibrary (fst it) of None \<Rightarrow> False | Some d \<Rightarrow> has_get d \<and> factory_of d \<noteq> FactoryImpl)"

definition loadable :: "(wstring \<Rightarrow> dll option) \<Rightarrow> wstring \<times> u32 list \<Rightarrow> bool" where
  "loadable LoadLibrary it \<longleftrightarrow>
     (case LoadLibrary (fst it) of
        None \<Rightarrow> False
      | Some d \<Rightarrow> has_get d \<and> has_release d \<and> factory_of d = FactoryImpl \<and> length (snd it) = 1)"

definition impl_interface :: "wstring \<Rightarrow> module_ptr \<Rightarrow> ModuleInterface" where
  "impl_interface name q =
     \<lparr>m_pGetModuleFactoryFunc = True, m_pReleaseModuleFactoryFunc = True, m_pModuleFactory = Some name, m_pModules = [q]\<rparr>"

text \<open>\<open>M\<close> are the loaded modules by id, \<open>f\<close> gives their objects, \<open>B\<close> are the DLLs whose factory failed.\<close>

definition load_inv ::
  "(u32 \<Rightarrow> wstring option) \<Rightarrow> (wstring \<Rightarrow> module_ptr) \<Rightarrow> wstring set \<Rightarrow> ('x, 'w) program \<Rightarrow> bool" where
  "load_inv M f B p \<longleftrightarrow>
     0 < next_object p \<and> B \<inter> ran M = {} \<and> inj_on M (dom M) \<and>
     (\<forall>name. g_ModuleFactory (dll_data p name) = (if name \<in> ran M then Some (f name) else None)) \<and>
     (\<forall>name \<in> ran M. 0 < f name \<and> f name < next_object p) \<and>
     dom (objects p) = f ` ran M \<and> (\<forall>name \<in> ran M. map_option obj_class (objects p (f name)) = Some name) \<and>
     map_sorted (\<lambda>k. k) (m_mapModuleInterface p) \<and> fst ` set (m_mapModuleInterface p) = ran M \<union> B \<and>
     (\<forall>(name, i) \<in> set (m_mapModuleInterface p).
        if name \<in> B then m_pModuleFactory i = None else i = impl_interface name (f name)) \<and>
     map_sorted (\<lambda>k. sint k) (m_mapModulePoint (bus_state p)) \<and>
     map_of (m_mapModulePoint (bus_state p)) = map_option f \<circ> M"


lemma load_absent: "absent LoadLibrary it \<Longrightarrow> load_module LoadLibrary it p = Inr (message_box (DllNotLoaded (fst it)) p)"
  by (simp add: absent_def load_module_def)

lemma load_broken:
  assumes "broken LoadLibrary it"
  obtains i e where "m_pModuleFactory i = None" "load_module LoadLibrary it p = Inr (message_box e (set_interface (fst it) i p))"
proof -
  obtain d where d: "LoadLibrary (fst it) = Some d" "has_get d" "factory_of d \<noteq> FactoryImpl"
    using assms by (auto simp: broken_def split: option.splits)
  let ?i = "\<lparr>m_pGetModuleFactoryFunc = has_get d, m_pReleaseModuleFactoryFunc = has_release d,
    m_pModuleFactory = None, m_pModules = replicate (length (snd it)) 0\<rparr>"
  show thesis
  proof (cases "factory_of d")
    case NoFactory
    then show thesis using d that [of ?i "FactoryNull (fst it)"] by (simp add: load_module_def Let_def)
  next
    case NoCounter
    then show thesis using d that [of ?i "CounterFailed (fst it)"] by (simp add: load_module_def Let_def)
  qed (use d in simp)
qed

lemma map_put_twice: "map_put key k v (map_put key k w xs) = map_put key k v xs"
  by (induction xs) auto

text \<open>The state after one module.\<close>

definition with_module :: "wstring \<Rightarrow> u32 \<Rightarrow> ('x, 'w) program \<Rightarrow> ('x, 'w) program" where
  "with_module name k p =
     set_point k (next_object p) (p\<lparr>m_mapModuleInterface := map_put (\<lambda>k. k) name (impl_interface name (next_object p)) (m_mapModuleInterface p),
       dll_data := (dll_data p)(name := \<lparr>g_ModuleFactory = Some (next_object p), g_Module = next_object p\<rparr>),
       objects := (objects p)(next_object p \<mapsto> \<lparr>obj_class = name, m_pModuleManager = False\<rparr>), next_object := next_object p + 1\<rparr>)"

lemma with_module_simps [simp]:
  "calls (with_module name k p) = calls p"
  "(bus_state (with_module name k p))\<lparr>m_mapModulePoint := x\<rparr> = (bus_state p)\<lparr>m_mapModulePoint := x\<rparr>"
  by (simp_all add: with_module_def set_point_def)

lemma dll_globals_updates: "(d :: dll_globals)\<lparr>g_ModuleFactory := a, g_Module := b\<rparr> = \<lparr>g_ModuleFactory = a, g_Module = b\<rparr>"
  by (cases d) simp

lemma load_loadable:
  assumes "loadable LoadLibrary it" and "g_ModuleFactory (dll_data p (fst it)) = None" and "0 < next_object p"
  shows "load_module LoadLibrary it p = Inr (with_module (fst it) (hd (snd it)) p)"
proof -
  obtain d where d: "LoadLibrary (fst it) = Some d" "has_get d" "has_release d" "factory_of d = FactoryImpl" "length (snd it) = 1"
    using assms by (auto simp: loadable_def split: option.splits)
  then obtain k where k: "snd it = [k]" by (cases "snd it") auto
  show ?thesis using d k assms(2,3)
    by (simp add: load_module_def Let_def GetModuleFactory_def QueryModulePoint_def set_factory_def set_interface_def
        QueryModuleCounter_def new_module_def map_put_twice with_module_def impl_interface_def set_point_def obind_def
        dll_globals_updates)
qed

lemma message_box_simps [simp]:
  "calls (message_box e p) = calls p" "bus_state (message_box e p) = bus_state p"
  by (simp_all add: message_box_def)

lemma message_box_inv [simp]: "load_inv M f B (message_box e p) = load_inv M f B p"
  by (simp add: load_inv_def message_box_def)

lemma interface_put:
  assumes "load_inv M f B p" and "(n, j) \<in> set (map_put (\<lambda>k. k) name i (m_mapModuleInterface p))" and "name \<notin> ran M \<union> B"
  shows "n = name \<and> j = i \<or>
    n \<noteq> name \<and> (if n \<in> B then m_pModuleFactory j = None else j = impl_interface n (f n))"
proof (cases "(n, j) = (name, i)")
  case False
  then have mem: "(n, j) \<in> set (m_mapModuleInterface p)" using wstring_map.set_put [OF assms(2)] by blast
  then have "n \<in> ran M \<union> B" using assms(1) unfolding load_inv_def by (metis (no_types, lifting) fst_conv image_eqI)
  moreover have "if n \<in> B then m_pModuleFactory j = None else j = impl_interface n (f n)"
    using assms(1) mem by (auto simp: load_inv_def)
  ultimately show ?thesis using assms(3) by auto
qed simp

lemma with_module_inv:
  assumes "load_inv M f B p" and "name \<notin> ran M \<union> B" and "M k = None"
  shows "load_inv (M(k \<mapsto> name)) (f(name := next_object p)) B (with_module name k p)"
proof -
  let ?q = "next_object p" and ?f = "f(name := next_object p)"
  have ran: "ran (M(k \<mapsto> name)) = insert name (ran M)" using assms(3) by (rule ran_map_upd)
  have f: "?f n = f n" if "n \<in> ran M" for n using that assms(2) by auto
  have "ran M \<inter> {x. x \<noteq> name} = ran M" using assms(2) by auto
  then have img: "?f ` insert name (ran M) = insert ?q (f ` ran M)" by simp
  have fresh: "?q \<noteq> f n" if "n \<in> ran M" for n using that assms(1) by (auto simp: load_inv_def)
  have pts: "(map_option f \<circ> M)(k \<mapsto> ?q) = map_option ?f \<circ> M(k \<mapsto> name)"
    using assms(2) by (auto simp: fun_eq_iff map_option_case ranI split: option.splits)
  have ifs: "\<forall>(n, i) \<in> set (map_put (\<lambda>k. k) name (impl_interface name ?q) (m_mapModuleInterface p)).
      if n \<in> B then m_pModuleFactory i = None else i = impl_interface n (?f n)"
    using interface_put [OF assms(1)] assms(2) by fastforce
  have inj: "inj_on (M(k \<mapsto> name)) (dom (M(k \<mapsto> name)))"
    using assms by (auto simp: load_inv_def inj_on_def ran_def dom_def split: if_splits)
  show ?thesis using assms(1,2) ifs pts fresh img f inj
    by (auto simp: load_inv_def with_module_def set_point_def ran wstring_map.put_sorted wstring_map.keys_put id_map.put_sorted id_map.map_of_put)
qed

lemma broken_inv:
  assumes "load_inv M f B p" and "name \<notin> ran M \<union> B" and "m_pModuleFactory i = None"
  shows "load_inv M f (insert name B) (set_interface name i p)"
proof -
  have "\<forall>(n, j) \<in> set (map_put (\<lambda>k. k) name i (m_mapModuleInterface p)).
      if n \<in> insert name B then m_pModuleFactory j = None else j = impl_interface n (f n)"
    using interface_put [OF assms(1)] assms(2,3) by fastforce
  then show ?thesis using assms
    by (simp add: load_inv_def set_interface_def wstring_map.put_sorted wstring_map.keys_put)
qed

text \<open>The ids are unique, and each DLL is of one of the three kinds.\<close>

definition modules_ok :: "(wstring \<Rightarrow> dll option) \<Rightarrow> DllModuleList \<Rightarrow> bool" where
  "modules_ok LoadLibrary dlls \<longleftrightarrow>
     distinct (map (hd \<circ> snd) (filter (loadable LoadLibrary) dlls)) \<and>
     list_all (\<lambda>it. absent LoadLibrary it \<or> broken LoadLibrary it \<or> loadable LoadLibrary it) dlls"

lemma kinds_of_dll:
  "absent LoadLibrary it \<Longrightarrow> \<not> loadable LoadLibrary it" "broken LoadLibrary it \<Longrightarrow> \<not> loadable LoadLibrary it"
  by (auto simp: absent_def broken_def loadable_def split: option.splits)

definition loaded_ids :: "(wstring \<Rightarrow> dll option) \<Rightarrow> DllModuleList \<Rightarrow> u32 \<Rightarrow> wstring option" where
  "loaded_ids LoadLibrary dlls = map_of (map (\<lambda>(name, ids). (hd ids, name)) (filter (loadable LoadLibrary) dlls))"

definition failed_dlls :: "(wstring \<Rightarrow> dll option) \<Rightarrow> DllModuleList \<Rightarrow> wstring set" where
  "failed_dlls LoadLibrary dlls = fst ` set (filter (broken LoadLibrary) dlls)"

lemma load_all_modules:
  assumes "load_inv M f B p" and "modules_ok LoadLibrary dlls"
    and "fst ` set dlls \<inter> (ran M \<union> B) = {}" and "\<forall>it \<in> set dlls. loadable LoadLibrary it \<longrightarrow> M (hd (snd it)) = None"
    and "distinct (map fst dlls)"
  shows "\<exists>f' p'. ofold (load_module LoadLibrary) dlls p = Inr p' \<and> calls p' = calls p \<and>
    bus_state p' = (bus_state p)\<lparr>m_mapModulePoint := m_mapModulePoint (bus_state p')\<rparr> \<and>
    load_inv (M ++ loaded_ids LoadLibrary dlls) f' (B \<union> failed_dlls LoadLibrary dlls) p'"
  using assms
proof (induction dlls arbitrary: M f B p)
  case Nil
  then show ?case by (auto simp: loaded_ids_def failed_dlls_def)
next
  case (Cons it dlls)
  obtain name ids where it: "it = (name, ids)" by (cases it)
  have ok: "modules_ok LoadLibrary dlls" and nin: "name \<notin> fst ` set dlls"
    and kind: "absent LoadLibrary it \<or> broken LoadLibrary it \<or> loadable LoadLibrary it"
    using Cons.prems(2,5) it by (auto simp: modules_ok_def split: if_splits)
  have rest: "distinct (map fst dlls)" using Cons.prems(5) by simp
  have new: "name \<notin> ran M \<union> B" using Cons.prems(3) it by auto
  consider "absent LoadLibrary it" | "broken LoadLibrary it" | "loadable LoadLibrary it" using kind by blast
  then show ?case
  proof cases
    case 1
    then have "\<not> broken LoadLibrary it" "\<not> loadable LoadLibrary it" using kinds_of_dll by (auto simp: absent_def broken_def)
    then have eq: "loaded_ids LoadLibrary (it # dlls) = loaded_ids LoadLibrary dlls"
        "failed_dlls LoadLibrary (it # dlls) = failed_dlls LoadLibrary dlls"
      by (simp_all add: loaded_ids_def failed_dlls_def)
    show ?thesis using Cons.IH [of M f B "message_box (DllNotLoaded name) p"] Cons.prems(1,3,4) ok rest it load_absent [OF 1, of p]
      unfolding eq by simp
  next
    case 2
    then have "\<not> loadable LoadLibrary it" using kinds_of_dll by blast
    with 2 have eq: "loaded_ids LoadLibrary (it # dlls) = loaded_ids LoadLibrary dlls"
        "failed_dlls LoadLibrary (it # dlls) = insert name (failed_dlls LoadLibrary dlls)"
      using it by (simp_all add: loaded_ids_def failed_dlls_def)
    obtain i e where i: "m_pModuleFactory i = None" "load_module LoadLibrary it p = Inr (message_box e (set_interface name i p))"
      using load_broken [OF 2] it by (metis fst_conv)
    show ?thesis using Cons.IH [of M f "insert name B" "message_box e (set_interface name i p)"] Cons.prems(1,3,4) ok rest nin
        broken_inv [OF Cons.prems(1) new i(1)] i(2) it
      unfolding eq by (simp add: set_interface_def insert_commute)
  next
    case 3
    then have nb: "\<not> broken LoadLibrary it" using kinds_of_dll by blast
    have k: "M (hd ids) = None" using 3 Cons.prems(4) it by auto
    have nid: "hd (snd i) \<noteq> hd ids" if "i \<in> set dlls" "loadable LoadLibrary i" for i
    proof -
      have "hd ids \<notin> (hd \<circ> snd) ` set (filter (loadable LoadLibrary) dlls)" using Cons.prems(2) 3 it by (simp add: modules_ok_def)
      moreover have "(hd \<circ> snd) i \<in> (hd \<circ> snd) ` set (filter (loadable LoadLibrary) dlls)" using that by simp
      ultimately show ?thesis by (metis comp_apply)
    qed
    have later: "\<forall>it \<in> set dlls. loadable LoadLibrary it \<longrightarrow> (M(hd ids \<mapsto> name)) (hd (snd it)) = None"
      using Cons.prems(4) nid by simp
    have fresh: "loaded_ids LoadLibrary dlls (hd ids) = None" using nid by (fastforce simp: loaded_ids_def map_of_eq_None_iff)
    have eq: "M ++ loaded_ids LoadLibrary (it # dlls) = M(hd ids \<mapsto> name) ++ loaded_ids LoadLibrary dlls"
        "failed_dlls LoadLibrary (it # dlls) = failed_dlls LoadLibrary dlls"
      using 3 nb it fresh by (auto simp: loaded_ids_def failed_dlls_def map_add_def fun_eq_iff split: option.splits)
    have "g_ModuleFactory (dll_data p name) = None" "0 < next_object p" using Cons.prems(1) new by (auto simp: load_inv_def)
    then have run: "load_module LoadLibrary it p = Inr (with_module name (hd ids) p)" using load_loadable [OF 3] it by simp
    have dis: "fst ` set dlls \<inter> (ran (M(hd ids \<mapsto> name)) \<union> B) = {}"
      using ran_map_upd [of M "hd ids" name, OF k] Cons.prems(3) nin it by auto
    have inv: "load_inv (M(hd ids \<mapsto> name)) (f(name := next_object p)) B (with_module name (hd ids) p)"
      using with_module_inv [OF Cons.prems(1) new k] .
    obtain f' p' where "ofold (load_module LoadLibrary) dlls (with_module name (hd ids) p) = Inr p'" "calls p' = calls p"
      "bus_state p' = (bus_state p)\<lparr>m_mapModulePoint := m_mapModulePoint (bus_state p')\<rparr>"
      "load_inv (M(hd ids \<mapsto> name) ++ loaded_ids LoadLibrary dlls) f' (B \<union> failed_dlls LoadLibrary dlls) p'"
      using Cons.IH [OF inv ok dis later rest] unfolding with_module_simps by blast
    then show ?thesis unfolding eq using run by (intro exI [of _ f'] exI [of _ p']) simp
  qed
qed

lemma start_inv: "load_inv Map.empty f {} (program_start w)"
  by (simp add: load_inv_def program_start_def ModuleManagerImpl_def map_sorted_def fun_eq_iff)

section \<open>Load, run, unload and delete\<close>

definition class_ok :: "('x, 'w) module_class \<Rightarrow> bool" where
  "class_ok c \<longleftrightarrow> (\<forall>s. pushes s (v_Load c s) \<and> pushes s (v_Unload c s))"

lemma pushes_points: "pushes s t \<Longrightarrow> m_mapModulePoint t = m_mapModulePoint s"
  by (elim pushesE) simp

lemma load_calls:
  assumes "\<forall>c. class_ok (cls c)" and "\<forall>it \<in> set its. snd it \<in> dom (objects p)"
  shows "\<exists>p'. ofold (call_Load cls) its p = Inr p' \<and> calls p' = calls p @ map (Loaded \<circ> snd) its \<and>
    pushes (bus_state p) (bus_state p') \<and> m_mapModuleInterface p' = m_mapModuleInterface p \<and> dll_data p' = dll_data p \<and>
    next_object p' = next_object p \<and>
    objects p' = (\<lambda>q. map_option (\<lambda>ob. if q \<in> snd ` set its then ob\<lparr>m_pModuleManager := True\<rparr> else ob) (objects p q))"
  using assms(2)
proof (induction its arbitrary: p)
  case Nil
  then show ?case by (simp add: pushes_refl map_option.identity)
next
  case (Cons it its)
  then obtain ob where ob: "objects p (snd it) = Some ob" by auto
  let ?p = "p\<lparr>objects := (objects p)(snd it \<mapsto> ob\<lparr>m_pModuleManager := True\<rparr>), calls := calls p @ [Loaded (snd it)],
          bus_state := v_Load (cls (obj_class ob)) (bus_state p)\<rparr>"
  have step: "call_Load cls it p = Inr ?p" using ob by (simp add: call_Load_def)
  have "pushes (bus_state p) (bus_state ?p)" using assms(1) by (simp add: class_ok_def)
  then show ?case using Cons.IH [of ?p] Cons.prems ob step
    by (force simp: fun_eq_iff map_option_case intro: pushes_trans split: option.splits)
qed

lemma unload_calls:
  assumes "\<forall>c. class_ok (cls c)" and "\<forall>it \<in> set its. snd it \<in> dom (objects p)"
  shows "\<exists>p'. ofold (call_Unload cls) its p = Inr p' \<and> calls p' = calls p @ map (Unloaded \<circ> snd) its \<and>
    m_mapModuleInterface p' = m_mapModuleInterface p \<and> dll_data p' = dll_data p \<and> dom (objects p') = dom (objects p)"
  using assms(2)
proof (induction its arbitrary: p)
  case (Cons it its)
  then obtain ob where ob: "objects p (snd it) = Some ob" by auto
  let ?p = "p\<lparr>objects := (objects p)(snd it \<mapsto> ob\<lparr>m_pModuleManager := m_pModuleManager ob \<and> \<not> v_super (cls (obj_class ob))\<rparr>),
          calls := calls p @ [Unloaded (snd it)], bus_state := v_Unload (cls (obj_class ob)) (bus_state p)\<rparr>"
  have step: "call_Unload cls it p = Inr ?p" using ob by (simp add: call_Unload_def)
  have dom: "dom (objects ?p) = dom (objects p)" using ob by auto
  then have "\<forall>it \<in> set its. snd it \<in> dom (objects ?p)" using Cons.prems by simp
  from Cons.IH [OF this] show ?case unfolding dom using step by simp
qed simp

text \<open>The last loop of \<open>Destroy\<close> over the interfaces of loaded modules.\<close>

definition releasable :: "(wstring \<Rightarrow> module_ptr) \<Rightarrow> ('x, 'w) program \<Rightarrow> wstring \<times> ModuleInterface \<Rightarrow> bool" where
  "releasable f p it \<longleftrightarrow> snd it = impl_interface (fst it) (f (fst it)) \<and>
     g_ModuleFactory (dll_data p (fst it)) = Some (f (fst it)) \<and> 0 < f (fst it) \<and> f (fst it) \<in> dom (objects p)"

lemma release_all:
  assumes "\<forall>it \<in> set its. releasable f p it" and "distinct (map fst its)" and "inj_on f (fst ` set its)"
  shows "\<exists>p'. ofold release_interface its p = Inr p' \<and> calls p' = calls p @ map (Deleted \<circ> f \<circ> fst) its \<and>
    dom (objects p') = dom (objects p) - f ` fst ` set its \<and> bus_state p' = bus_state p \<and>
    (\<forall>name. g_ModuleFactory (dll_data p' name) = (if name \<in> fst ` set its then None else g_ModuleFactory (dll_data p name)))"
  using assms
proof (induction its arbitrary: p)
  case (Cons it its)
  obtain name i where it: "it = (name, i)" by (cases it)
  let ?p = "set_factory name None (set_factory name (Some 0) (p\<lparr>objects := (objects p)(f name := None), calls := calls p @ [Deleted (f name)]\<rparr>))"
  have rel: "releasable f p it" using Cons.prems(1) by simp
  then have step: "release_interface it p = Inr ?p"
    by (auto simp: it releasable_def release_interface_def impl_interface_def ReleaseModulePoint_def ReleaseModuleFactory_def
        set_factory_def)
  have "releasable f ?p j" if "j \<in> set its" for j
  proof -
    have "fst j \<noteq> name" using Cons.prems(2) that it by force
    moreover have "f (fst j) \<noteq> f name" using Cons.prems(2,3) that it by (force simp: inj_on_def)
    ultimately show ?thesis using Cons.prems(1) that by (simp add: releasable_def set_factory_def)
  qed
  moreover have "distinct (map fst its)" "inj_on f (fst ` set its)" using Cons.prems(2,3) by (auto intro: inj_on_subset)
  ultimately obtain p' where p': "ofold release_interface its ?p = Inr p'" "calls p' = calls ?p @ map (Deleted \<circ> f \<circ> fst) its"
    "dom (objects p') = dom (objects ?p) - f ` fst ` set its" "bus_state p' = bus_state ?p"
    "\<forall>name. g_ModuleFactory (dll_data p' name) = (if name \<in> fst ` set its then None else g_ModuleFactory (dll_data ?p name))"
    using Cons.IH [of ?p] by blast
  have "dom (objects ?p) = dom (objects p) - {f name}" "g_ModuleFactory (dll_data ?p n) = (if n = name then None else g_ModuleFactory (dll_data p n))" for n
    by (auto simp: set_factory_def)
  then show ?case using p' step it by (auto simp: set_factory_def)
qed simp

lemma load_inv_bus:
  "m_mapModulePoint s = m_mapModulePoint (bus_state p) \<Longrightarrow> load_inv M f B (p\<lparr>bus_state := s\<rparr>) = load_inv M f B p"
  by (simp add: load_inv_def)

lemma load_inv_inj: "load_inv M f B p \<Longrightarrow> inj_on f (ran M)"
  unfolding load_inv_def inj_on_def by (metis option.inject)

lemma point_objects:
  assumes "load_inv M f B p"
  shows "snd ` set (m_mapModulePoint (bus_state p)) = f ` ran M" and "distinct (map snd (m_mapModulePoint (bus_state p)))"
proof -
  let ?P = "m_mapModulePoint (bus_state p)"
  have d: "distinct (map fst ?P)" and m: "map_of ?P = map_option f \<circ> M"
    using assms id_map.sorted_distinct by (auto simp: load_inv_def)
  have mem: "(k, q) \<in> set ?P \<longleftrightarrow> (\<exists>n. M k = Some n \<and> q = f n)" for k q
    using map_of_eq_Some_iff [OF d, of k q] m by auto
  then show "snd ` set ?P = f ` ran M" by (force simp: ran_def image_iff)
  have inj: "inj_on M (dom M)" using assms by (simp add: load_inv_def)
  have "inj_on snd (set ?P)"
  proof (rule inj_onI)
    fix a b assume *: "a \<in> set ?P" "b \<in> set ?P" "snd a = snd b"
    obtain n where n: "M (fst a) = Some n" "snd a = f n" using *(1) mem [of "fst a" "snd a"] by auto
    moreover obtain n' where n': "M (fst b) = Some n'" "snd b = f n'" using *(2) mem [of "fst b" "snd b"] by auto
    ultimately have "n = n'" using *(3) load_inv_inj [OF assms] by (auto simp: inj_on_def ran_def)
    then have "fst a = fst b" using n n' inj by (metis inj_onD domI)
    then show "a = b" using *(3) by (simp add: prod_eq_iff)
  qed
  then show "distinct (map snd ?P)" using d by (auto simp: distinct_map)
qed

lemma load_calls_inv:
  assumes "load_inv M f B p" and "objects p' = (\<lambda>q. map_option (\<lambda>ob. if q \<in> A then ob\<lparr>m_pModuleManager := True\<rparr> else ob) (objects p q))"
    and "m_mapModuleInterface p' = m_mapModuleInterface p" and "dll_data p' = dll_data p" and "next_object p' = next_object p"
    and "m_mapModulePoint (bus_state p') = m_mapModulePoint (bus_state p)"
  shows "load_inv M f B p'"
proof -
  have "dom (objects p') = dom (objects p)" "map_option obj_class (objects p' q) = map_option obj_class (objects p q)" for q
    using assms(2) by (auto simp: dom_def option.map_comp comp_def if_distrib cong: if_cong)
  then show ?thesis using assms by (simp add: load_inv_def)
qed

lemma interface_releasable:
  assumes "load_inv M f B p" and "dom (objects p') = dom (objects p)" and "dll_data p' = dll_data p"
    and "it \<in> set (m_mapModuleInterface p)" and "fst it \<notin> B"
  shows "releasable f p' it" and "fst it \<in> ran M"
proof -
  have "fst ` set (m_mapModuleInterface p) = ran M \<union> B" using assms(1) by (simp add: load_inv_def)
  then show n: "fst it \<in> ran M" using assms(4,5) by auto
  have "snd it = impl_interface (fst it) (f (fst it))" using assms(1,4,5) by (auto simp: load_inv_def split_beta)
  then show "releasable f p' it" using n assms(1,2,3) by (auto simp: releasable_def load_inv_def)
qed

lemma Destroy_returns:
  assumes "load_inv M f {} p" and "\<forall>c. class_ok (cls c)"
  shows "\<exists>p' ds. Destroy cls p = Inr p' \<and> objects p' = Map.empty \<and> (\<forall>name. g_ModuleFactory (dll_data p' name) = None) \<and>
    m_mapModulePoint (bus_state p') = [] \<and> m_mapModuleInterface p' = [] \<and>
    mset ds = mset (map snd (m_mapModulePoint (bus_state p))) \<and>
    calls p' = calls p @ map (Unloaded \<circ> snd) (m_mapModulePoint (bus_state p)) @ map Deleted ds"
proof -
  let ?P = "m_mapModulePoint (bus_state p)" and ?I = "m_mapModuleInterface p"
  have dom: "dom (objects p) = f ` ran M" and keys: "fst ` set ?I = ran M" and d: "distinct (map fst ?I)"
    and g: "\<And>name. g_ModuleFactory (dll_data p name) = (if name \<in> ran M then Some (f name) else None)"
    using assms(1) wstring_map.sorted_distinct by (auto simp: load_inv_def)
  have "\<forall>it \<in> set ?P. snd it \<in> dom (objects p)" using point_objects(1) [OF assms(1)] dom by auto
  then obtain p1 where p1: "ofold (call_Unload cls) ?P p = Inr p1" "calls p1 = calls p @ map (Unloaded \<circ> snd) ?P"
    "m_mapModuleInterface p1 = ?I" "dll_data p1 = dll_data p" "dom (objects p1) = dom (objects p)"
    using unload_calls [OF assms(2)] by blast
  let ?p = "p1\<lparr>bus_state := (bus_state p1)\<lparr>m_mapModulePoint := []\<rparr>\<rparr>"
  have "\<forall>it \<in> set ?I. releasable f ?p it" using interface_releasable(1) [OF assms(1), of ?p] p1(4,5) by auto
  then obtain p2 where p2: "ofold release_interface ?I ?p = Inr p2" "calls p2 = calls ?p @ map (Deleted \<circ> f \<circ> fst) ?I"
    "dom (objects p2) = dom (objects ?p) - f ` fst ` set ?I" "bus_state p2 = bus_state ?p"
    "\<forall>name. g_ModuleFactory (dll_data p2 name) = (if name \<in> fst ` set ?I then None else g_ModuleFactory (dll_data ?p name))"
    using release_all [of ?I f ?p, OF _ d] load_inv_inj [OF assms(1)] unfolding keys by blast
  have "dom (objects p2) = {}" using p2(3) p1(5) dom keys by simp
  then have "objects p2 = Map.empty" by simp
  moreover have "g_ModuleFactory (dll_data p2 name) = None" for name using p2(5) p1(4) g keys by simp
  moreover have "(\<lambda>x. f (fst x)) ` set ?I = f ` ran M" using keys by (metis image_image)
  then have "mset (map (f \<circ> fst) ?I) = mset (map snd ?P)"
    using point_objects [OF assms(1)] d load_inv_inj [OF assms(1)] keys
    by (intro iffD1 [OF set_eq_iff_mset_eq_distinct]) (simp_all add: distinct_map comp_inj_on image_comp [symmetric])
  ultimately show ?thesis using p1 p2
    by (intro exI [of _ "p2\<lparr>m_mapModuleInterface := []\<rparr>"] exI [of _ "map (f \<circ> fst) ?I"]) (simp add: Destroy_def comp_assoc)
qed

lemma Destroy_faults:
  assumes "load_inv M f B p" and "B \<noteq> {}" and "\<forall>c. class_ok (cls c)"
  shows "Destroy cls p = Inl NullDeref"
proof -
  let ?P = "m_mapModulePoint (bus_state p)" and ?I = "m_mapModuleInterface p"
  have dom: "dom (objects p) = f ` ran M" and keys: "fst ` set ?I = ran M \<union> B" and d: "distinct (map fst ?I)"
    using assms(1) wstring_map.sorted_distinct by (auto simp: load_inv_def)
  have "\<forall>it \<in> set ?P. snd it \<in> dom (objects p)" using point_objects(1) [OF assms(1)] dom by auto
  then obtain p1 where p1: "ofold (call_Unload cls) ?P p = Inr p1" "m_mapModuleInterface p1 = ?I" "dll_data p1 = dll_data p"
      "dom (objects p1) = dom (objects p)"
    using unload_calls [OF assms(3)] by blast
  let ?p = "p1\<lparr>bus_state := (bus_state p1)\<lparr>m_mapModulePoint := []\<rparr>\<rparr>"
  obtain b where "b \<in> B" using assms(2) by blast
  then have "b \<in> fst ` set ?I" using keys by blast
  with \<open>b \<in> B\<close> have "\<exists>x \<in> set ?I. fst x \<in> B" by auto
  then obtain xs y ys where split: "?I = xs @ y # ys" "fst y \<in> B" "\<forall>x \<in> set xs. fst x \<notin> B"
    using split_list_first_prop [of ?I "\<lambda>x. fst x \<in> B"] by blast
  have "releasable f ?p x \<and> fst x \<in> ran M" if "x \<in> set xs" for x
    using interface_releasable [OF assms(1), of ?p x] p1(3,4) split that by simp
  then have "\<forall>x \<in> set xs. releasable f ?p x" "fst ` set xs \<subseteq> ran M" by blast+
  moreover have "distinct (map fst xs)" using d split(1) by simp
  ultimately obtain p2 where p2: "ofold release_interface xs ?p = Inr p2"
    using release_all [of xs f ?p] inj_on_subset [OF load_inv_inj [OF assms(1)]] by blast
  have "m_pModuleFactory (snd y) = None" using assms(1) split(1,2) by (auto simp: load_inv_def split_beta)
  then have "release_interface y p2 = Inl NullDeref" by (simp add: release_interface_def)
  then show ?thesis using p1 p2 split(1) by (simp add: Destroy_def ofold_append)
qed

lemma Init_inv:
  fixes cls :: "wstring \<Rightarrow> ('x, 'w) module_class"
  assumes "modules_ok LoadLibrary dlls" and "\<forall>c. class_ok (cls c)" and "distinct (map fst dlls)"
  shows "\<exists>f b p. Init cls LoadLibrary dlls (program_start w) = Inr (b, p) \<and>
    load_inv (loaded_ids LoadLibrary dlls) f (failed_dlls LoadLibrary dlls) p \<and> manager_wf (bus_state p) \<and>
    calls p = map (Loaded \<circ> snd) (m_mapModulePoint (bus_state p)) \<and>
    (\<forall>name \<in> ran (loaded_ids LoadLibrary dlls). objects p (f name) = Some \<lparr>obj_class = name, m_pModuleManager = True\<rparr>)"
proof -
  obtain f and p1 :: "('x, 'w) program" where p1: "ofold (load_module LoadLibrary) dlls (program_start w) = Inr p1" "calls p1 = []"
    "bus_state p1 = (ModuleManagerImpl w)\<lparr>m_mapModulePoint := m_mapModulePoint (bus_state p1)\<rparr>"
    "load_inv (loaded_ids LoadLibrary dlls) f (failed_dlls LoadLibrary dlls) p1"
    using load_all_modules [OF start_inv assms(1) _ _ assms(3), of w] by (auto simp: program_start_def)
  let ?P = "m_mapModulePoint (bus_state p1)"
  note objs = point_objects(1) [OF p1(4)]
  have "\<forall>it \<in> set ?P. snd it \<in> dom (objects p1)" using objs p1(4) by (auto simp: load_inv_def)
  then obtain p where p: "ofold (call_Load cls) ?P p1 = Inr p" "calls p = calls p1 @ map (Loaded \<circ> snd) ?P"
    "pushes (bus_state p1) (bus_state p)" "m_mapModuleInterface p = m_mapModuleInterface p1" "dll_data p = dll_data p1"
    "next_object p = next_object p1"
    "objects p = (\<lambda>q. map_option (\<lambda>ob. if q \<in> snd ` set ?P then ob\<lparr>m_pModuleManager := True\<rparr> else ob) (objects p1 q))"
    using load_calls [OF assms(2), of ?P p1] by blast
  have pts: "m_mapModulePoint (bus_state p) = ?P" using pushes_points [OF p(3)] .
  have "manager_wf (bus_state p1)" by (subst p1(3)) (simp add: manager_wf_def ModuleManagerImpl_def)
  then have "manager_wf (bus_state p)" using pushes_wf [OF p(3)] by blast
  moreover have "load_inv (loaded_ids LoadLibrary dlls) f (failed_dlls LoadLibrary dlls) p"
    using load_calls_inv [OF p1(4) p(7,4,5,6) pts] .
  moreover have "objects p (f name) = Some \<lparr>obj_class = name, m_pModuleManager = True\<rparr>" if n: "name \<in> ran (loaded_ids LoadLibrary dlls)" for name
  proof -
    have "map_option obj_class (objects p1 (f name)) = Some name" using p1(4) n by (simp add: load_inv_def)
    then obtain ob where ob: "objects p1 (f name) = Some ob" "obj_class ob = name" by auto
    then show ?thesis using p(7) objs n by (cases ob) simp
  qed
  ultimately show ?thesis using p1(1,2) p(1,2) pts by (simp add: Init_def LoadModules_def) blast
qed

end
