(* ===== verification/Program_Lifecycle.thy ===== *)
theory Program_Lifecycle
  imports Module_Loader
begin

text \<open>
  The program as a whole: \<open>_tWinMain\<close> of \<open>src/src/ModuleManager/ModuleManager.cpp\<close> loads the modules, runs the message pump
  until a quit message and destroys what it has loaded.  The lemmas of the bus (termination of the cycle, what a module may push) and
  those of the loader (what is alive) meet here.
\<close>

section \<open>The message pump ends\<close>

text \<open>Running: with modules whose handlers are ranked and with window procedures that only push, \<open>Run\<close> comes to the quit message.\<close>

lemma cycle_fuel:
  assumes "ranked_maps rank maps" and "manager_wf s"
  shows "\<exists>n t. manager_wf t \<and> m_mapModulePoint t = m_mapModulePoint s \<and>
    (\<forall>k \<ge> n. OnCycleTrigger (PROCESS_EVENT maps) (PROCESS_MESSAGE maps) (PaybackExtraInfo del) k s = Some t)"
proof -
  obtain n t where "dispatch_loop (PROCESS_EVENT maps) (PROCESS_MESSAGE maps) (PaybackExtraInfo del) n (cycle_start s) = Some t"
    using dispatch_loop_terminates [OF assms(1) cycle_start_wf [OF assms(2)]] by blast
  then have "OnCycleTrigger (PROCESS_EVENT maps) (PROCESS_MESSAGE maps) (PaybackExtraInfo del) k s = Some t" if "n \<le> k" for k
    using table_modules.dispatch_loop_mono that by (simp add: OnCycleTrigger_def cycle_start_def)
  then show ?thesis using table_modules.OnCycleTrigger_result assms(2) by blast
qed

lemma window_fuel:
  assumes "ranked_maps rank maps" and "\<forall>q s. pushes s (wnd q s)" and "manager_wf s"
  shows "\<exists>n t. manager_wf t \<and> m_mapModulePoint t = m_mapModulePoint s \<and>
    (\<forall>k \<ge> n. DispatchMessage (PROCESS_EVENT maps) (PROCESS_MESSAGE maps) (PaybackExtraInfo del) wnd k q s = Some t)"
proof (cases q)
  case WmTimer
  then show ?thesis using cycle_fuel [OF assms(1,3), of del] by simp
next
  case (WmOther w)
  have "pushes s (wnd w s)" using assms(2) by blast
  then have "manager_wf (wnd w s)" "m_mapModulePoint (wnd w s) = m_mapModulePoint s" using pushes_wf pushes_points assms(3) by blast+
  then show ?thesis using WmOther by (intro exI [of _ 0] exI [of _ "wnd w s"]) simp
qed (use assms(3) in auto)

lemma pump_fuel:
  assumes "ranked_maps rank maps" and "\<forall>q s. pushes s (wnd q s)" and "manager_wf s" and "WmQuit \<in> set qs"
  shows "\<exists>n rest t. manager_wf t \<and> m_mapModulePoint t = m_mapModulePoint s \<and>
    (\<forall>k \<ge> n. message_pump (PROCESS_EVENT maps) (PROCESS_MESSAGE maps) (PaybackExtraInfo del) wnd k qs s = Some (rest, t))"
  using assms(3,4)
proof (induction qs arbitrary: s)
  case (Cons q qs)
  show ?case
  proof (cases "q = WmQuit \<or> \<not> m_bRun s")
    case False
    obtain n t where t: "manager_wf t" "m_mapModulePoint t = m_mapModulePoint s"
      "\<forall>k \<ge> n. DispatchMessage (PROCESS_EVENT maps) (PROCESS_MESSAGE maps) (PaybackExtraInfo del) wnd k q s = Some t"
      using window_fuel [OF assms(1,2) Cons.prems(1)] by blast
    obtain n' rest t' where t': "manager_wf t'" "m_mapModulePoint t' = m_mapModulePoint t"
      "\<forall>k \<ge> n'. message_pump (PROCESS_EVENT maps) (PROCESS_MESSAGE maps) (PaybackExtraInfo del) wnd k qs t = Some (rest, t')"
      using Cons.IH [OF t(1)] Cons.prems(2) False by auto
    show ?thesis using t t' False by (intro exI [of _ "max n n'"] exI [of _ rest] exI [of _ t']) simp
  qed (use Cons.prems in auto)
qed simp

lemma drain_fuel:
  assumes "ranked_maps rank maps" and "\<forall>q s. pushes s (wnd q s)" and "manager_wf s"
  shows "\<exists>n t. manager_wf t \<and> m_mapModulePoint t = m_mapModulePoint s \<and>
    (\<forall>k \<ge> n. drain_pump (PROCESS_EVENT maps) (PROCESS_MESSAGE maps) (PaybackExtraInfo del) wnd k qs s = Some t)"
  using assms(3)
proof (induction qs arbitrary: s)
  case (Cons q qs)
  show ?case
  proof (cases "m_eventMsgBuf s = []")
    case False
    obtain n t where t: "manager_wf t" "m_mapModulePoint t = m_mapModulePoint s"
      "\<forall>k \<ge> n. DispatchMessage (PROCESS_EVENT maps) (PROCESS_MESSAGE maps) (PaybackExtraInfo del) wnd k q s = Some t"
      using window_fuel [OF assms(1,2) Cons.prems(1)] by blast
    obtain n' t' where t': "manager_wf t'" "m_mapModulePoint t' = m_mapModulePoint t"
      "\<forall>k \<ge> n'. drain_pump (PROCESS_EVENT maps) (PROCESS_MESSAGE maps) (PaybackExtraInfo del) wnd k qs t = Some t'"
      using Cons.IH [OF t(1)] by auto
    show ?thesis using t t' False by (intro exI [of _ "max n n'"] exI [of _ t']) simp
  qed (use Cons.prems in auto)
qed auto

lemma Run_returns:
  assumes "ranked_maps rank maps" and "\<forall>q s. pushes s (wnd q s)" and "manager_wf s" and "WmQuit \<in> set qs"
  shows "\<exists>n t. Run (PROCESS_EVENT maps) (PROCESS_MESSAGE maps) (PaybackExtraInfo del) wnd n qs s = Some t \<and>
    m_mapModulePoint t = m_mapModulePoint s"
proof -
  let ?s = "snd (PushMessage begin_show_message (s\<lparr>m_bRun := True\<rparr>))"
  have "manager_wf (s\<lparr>m_bRun := True\<rparr>)" using assms(3) by (simp add: manager_wf_def)
  moreover have push: "pushes (s\<lparr>m_bRun := True\<rparr>) ?s" by (intro pushes.intros)
  ultimately have wf: "manager_wf ?s" using pushes_wf by blast
  have pts: "m_mapModulePoint ?s = m_mapModulePoint s" using pushes_points [OF push] by simp
  obtain n1 t1 where 1: "manager_wf t1" "m_mapModulePoint t1 = m_mapModulePoint ?s"
    "\<forall>k \<ge> n1. OnCycleTrigger (PROCESS_EVENT maps) (PROCESS_MESSAGE maps) (PaybackExtraInfo del) k ?s = Some t1"
    using cycle_fuel [OF assms(1) wf] by blast
  obtain n2 rest t2 where 2: "manager_wf t2" "m_mapModulePoint t2 = m_mapModulePoint t1"
    "\<forall>k \<ge> n2. message_pump (PROCESS_EVENT maps) (PROCESS_MESSAGE maps) (PaybackExtraInfo del) wnd k qs t1 = Some (rest, t2)"
    using pump_fuel [OF assms(1,2) 1(1) assms(4)] by blast
  obtain n3 t3 where 3: "m_mapModulePoint t3 = m_mapModulePoint t2"
    "\<forall>k \<ge> n3. drain_pump (PROCESS_EVENT maps) (PROCESS_MESSAGE maps) (PaybackExtraInfo del) wnd k rest t2 = Some t3"
    using drain_fuel [OF assms(1,2) 2(1)] by blast
  show ?thesis using 1 2 3 pts by (intro exI [of _ "max n1 (max n2 n3)"] exI [of _ t3]) (simp add: Run_def)
qed

section \<open>From start to Destroy\<close>

lemma points_count:
  assumes "load_inv (loaded_ids LoadLibrary dlls) f B p" and "modules_ok LoadLibrary dlls"
  shows "length (m_mapModulePoint (bus_state p)) = length (filter (loadable LoadLibrary) dlls)"
proof -
  let ?P = "m_mapModulePoint (bus_state p)" and ?L = "map (\<lambda>(name, ids). (hd ids, name)) (filter (loadable LoadLibrary) dlls)"
  have d: "distinct (map fst ?P)" and m: "map_of ?P = map_option f \<circ> map_of ?L"
    using assms(1) id_map.sorted_distinct by (auto simp: load_inv_def loaded_ids_def)
  have dl: "distinct (map fst ?L)" using assms(2) by (simp add: modules_ok_def comp_def split_beta)
  have "dom (map_of ?P) = dom (map_of ?L)" unfolding m by (auto simp: dom_def)
  then have "fst ` set ?P = fst ` set ?L" unfolding dom_map_of_conv_image_fst .
  then have "length (map fst ?P) = length (map fst ?L)" using distinct_card [OF d] distinct_card [OF dl] by (simp only: set_map)
  then show ?thesis by simp
qed

text \<open>Start and run of the program, up to \<open>Destroy\<close>.\<close>

lemma runs_to_Destroy:
  assumes "modules_ok LoadLibrary dlls" and "\<forall>c. class_ok (cls c)"
    and "ranked_maps rank maps" and "\<forall>q s. pushes s (wnd q s)" and "WmQuit \<in> set qs" and "distinct (map fst dlls)"
  shows "\<exists>fuel f p. load_inv (loaded_ids LoadLibrary dlls) f (failed_dlls LoadLibrary dlls) p \<and>
    calls p = map (Loaded \<circ> snd) (m_mapModulePoint (bus_state p)) \<and>
    WinMain cls (PROCESS_EVENT maps) (PROCESS_MESSAGE maps) (PaybackExtraInfo del) wnd LoadLibrary dlls fuel qs w = Destroy cls p"
proof -
  obtain f b p where p: "Init cls LoadLibrary dlls (program_start w) = Inr (b, p)"
    and inv: "load_inv (loaded_ids LoadLibrary dlls) f (failed_dlls LoadLibrary dlls) p" and wf: "manager_wf (bus_state p)"
    and calls: "calls p = map (Loaded \<circ> snd) (m_mapModulePoint (bus_state p))"
    using Init_inv [OF assms(1,2,6), of w] by blast
  let ?evt = "MakeEvent (ucast (module_value MODULE_ID_CORE)) EVENT_VALUE_UPDATE_CHECK_UPDATEINFO
                   (ucast (module_value MODULE_ID_UPDATE)) 0 0 0 0 None"
  let ?s = "snd (PushEvent ?evt (bus_state p))"
  have push: "pushes (bus_state p) ?s" by (intro pushes.intros)
  obtain n s where s: "Run (PROCESS_EVENT maps) (PROCESS_MESSAGE maps) (PaybackExtraInfo del) wnd n qs ?s = Some s"
      "m_mapModulePoint s = m_mapModulePoint (bus_state p)"
    using Run_returns [OF assms(3,4) pushes_wf [OF push wf] assms(5), of del] pushes_points [OF push] by auto
  have "load_inv (loaded_ids LoadLibrary dlls) f (failed_dlls LoadLibrary dlls) (p\<lparr>bus_state := s\<rparr>)" using inv load_inv_bus [OF s(2)] by blast
  then show ?thesis using p s calls
    by (intro exI [of _ n] exI [of _ f] exI [of _ "p\<lparr>bus_state := s\<rparr>"]) (simp add: WinMain_def Let_def)
qed

lemma ModuleList_distinct:
  assumes "ModuleList A2U doc = Inr dlls"
  shows "distinct (map fst dlls)"
proof -
  have "map_sorted (\<lambda>k. k) dlls"
  proof (cases doc)
    case (Some xs)
    then obtain root where "find (\<lambda>x. xml_tag x = bytes_of ''ModuleManager'') xs = Some root"
      using assms by (auto simp: ModuleList_def split: option.splits)
    with Some assms have "ofold (\<lambda>x m. obind (Attribute (bytes_of ''Name'') x) (\<lambda>name. obind (module_ids x) (\<lambda>listId.
        Inr (map_put (\<lambda>k. k) (A2U (name @ bytes_of ''.dll'')) listId m)))) (elements_from (bytes_of ''Module'') root) [] = Inr dlls"
      by (simp add: ModuleList_def)
    then show ?thesis
      by (rule ofold_invariant) (auto simp: map_sorted_def [of _ "[]"] obind_eq_Inr_iff intro: wstring_map.put_sorted)
  qed (use assms in \<open>auto simp: ModuleList_def map_sorted_def\<close>)
  then show ?thesis by (rule wstring_map.sorted_distinct)
qed

section \<open>Properties\<close>

text \<open>
  C16: After \<open>Init\<close> the bus reaches a module under an id exactly when the id belongs to a DLL of the list that could be
  loaded; the module is a living object of the class of that DLL and has been given the manager.
\<close>

theorem modules_reachable:
  assumes "ModuleList A2U doc = Inr dlls" and "modules_ok LoadLibrary dlls" and "\<forall>c. class_ok (cls c)"
  shows "\<exists>b p. Init cls LoadLibrary dlls (program_start w) = Inr (b, p) \<and>
    (\<forall>k. case loaded_ids LoadLibrary dlls k of
           None \<Rightarrow> EXIST_MODULE k (bus_state p) = None
         | Some name \<Rightarrow> \<exists>q. EXIST_MODULE k (bus_state p) = Some q \<and>
             objects p q = Some \<lparr>obj_class = name, m_pModuleManager = True\<rparr>)"
proof -
  obtain f b p where p: "Init cls LoadLibrary dlls (program_start w) = Inr (b, p)"
    and inv: "load_inv (loaded_ids LoadLibrary dlls) f (failed_dlls LoadLibrary dlls) p"
    and obj: "\<forall>name \<in> ran (loaded_ids LoadLibrary dlls). objects p (f name) = Some \<lparr>obj_class = name, m_pModuleManager = True\<rparr>"
    using Init_inv [OF assms(2,3) ModuleList_distinct [OF assms(1)], of w] by blast
  have "EXIST_MODULE k (bus_state p) = map_option f (loaded_ids LoadLibrary dlls k)" for k
    using inv by (simp add: load_inv_def EXIST_MODULE_def)
  then show ?thesis using p obj by (auto intro: ranI split: option.split)
qed

text \<open>
  C2: The whole program, from \<open>_tWinMain\<close> to its end, on a sequence of Windows messages with a quit message: when every
  DLL that can be loaded is one of the modules built with the macros, its handlers are ranked, and modules and windows only push,
  it returns without a fault; each module is loaded once, unloaded once and deleted once, in this order and all of them in each
  phase before the next, and no module object and no factory is left.
\<close>

theorem program_lifecycle:
  assumes "ModuleList A2U doc = Inr dlls" and "modules_ok LoadLibrary dlls" and "failed_dlls LoadLibrary dlls = {}" and "\<forall>c. class_ok (cls c)"
    and "ranked_maps rank maps" and "\<forall>q s. pushes s (wnd q s)" and "WmQuit \<in> set qs"
  shows "\<exists>fuel p ms ds. WinMain cls (PROCESS_EVENT maps) (PROCESS_MESSAGE maps) (PaybackExtraInfo del) wnd LoadLibrary dlls fuel qs w = Inr p \<and>
    objects p = Map.empty \<and> (\<forall>name. g_ModuleFactory (dll_data p name) = None) \<and>
    distinct ms \<and> mset ds = mset ms \<and> length ms = length (filter (loadable LoadLibrary) dlls) \<and>
    calls p = map Loaded ms @ map Unloaded ms @ map Deleted ds"
proof -
  obtain n f p where inv: "load_inv (loaded_ids LoadLibrary dlls) f {} p"
    and calls: "calls p = map (Loaded \<circ> snd) (m_mapModulePoint (bus_state p))"
    and run: "WinMain cls (PROCESS_EVENT maps) (PROCESS_MESSAGE maps) (PaybackExtraInfo del) wnd LoadLibrary dlls n qs w = Destroy cls p"
    using runs_to_Destroy [OF assms(2,4-7) ModuleList_distinct [OF assms(1)], of del w] assms(3) by auto
  let ?P = "m_mapModulePoint (bus_state p)"
  obtain p' ds where p': "Destroy cls p = Inr p'" "objects p' = Map.empty" "\<forall>name. g_ModuleFactory (dll_data p' name) = None"
      "mset ds = mset (map snd ?P)" "calls p' = calls p @ map (Unloaded \<circ> snd) ?P @ map Deleted ds"
    using Destroy_returns [OF inv assms(4)] by auto
  then show ?thesis using run calls point_objects(2) [OF inv] points_count [OF inv assms(2)]
    by (intro exI [of _ n] exI [of _ p'] exI [of _ "map snd ?P"] exI [of _ ds]) simp
qed

text \<open>
  Note: When the factory of a DLL is NULL or does not tell its number of modules, the program reports it and goes on, but at its end
  \<open>Destroy\<close> calls through the NULL pointer it has kept for this DLL.
\<close>

theorem failed_factory_faults:
  assumes "ModuleList A2U doc = Inr dlls" and "modules_ok LoadLibrary dlls" and "failed_dlls LoadLibrary dlls \<noteq> {}" and "\<forall>c. class_ok (cls c)"
    and "ranked_maps rank maps" and "\<forall>q s. pushes s (wnd q s)" and "WmQuit \<in> set qs"
  shows "\<exists>fuel. WinMain cls (PROCESS_EVENT maps) (PROCESS_MESSAGE maps) (PaybackExtraInfo del) wnd LoadLibrary dlls fuel qs w = Inl NullDeref"
  using runs_to_Destroy [OF assms(2,4-7) ModuleList_distinct [OF assms(1)], of del w] Destroy_faults [OF _ assms(3,4)] by metis

text \<open>The \<open>Module.xml\<close> of the repository, in which the code pages agree on ASCII.\<close>

definition module_xml :: "xml list" where
  "module_xml =
     [Element (bytes_of ''ModuleManager'') []
        (map (\<lambda>(name, i). Element (bytes_of ''Module'') [(bytes_of ''Name'', bytes_of name)]
               [Element (bytes_of ''IModule'') [(bytes_of ''Id'', bytes_of i)] []])
          [(''MainFrame'', ''2''), (''Setting'', ''3''), (''TrayIcon'', ''4''), (''DataCenter'', ''5''), (''Login'', ''6''),
           (''PlugInManager'', ''7''), (''Database'', ''8''), (''Web'', ''9''), (''Update'', ''10''), (''FavMonitor'', ''11'')])]"

definition module_list :: DllModuleList where
  "module_list = map (\<lambda>(name, i). (map of_char name, [i]))
     [(''DataCenter.dll'', 5), (''Database.dll'', 8), (''FavMonitor.dll'', 11), (''Login.dll'', 6), (''MainFrame.dll'', 2),
      (''PlugInManager.dll'', 7), (''Setting.dll'', 3), (''TrayIcon.dll'', 4), (''Update.dll'', 10), (''Web.dll'', 9)]"

lemma module_xml_list: "ModuleList (map ucast) (Some module_xml) = Inr module_list"
  by code_simp

definition sample_library :: "wstring \<Rightarrow> dll option" where
  "sample_library name =
     (if name = map of_char ''Web.dll'' then None else Some \<lparr>has_get = True, has_release = True, factory_of = FactoryImpl\<rparr>)"

definition faulty_library :: "wstring \<Rightarrow> dll option" where
  "faulty_library name =
     Some \<lparr>has_get = True, has_release = True, factory_of = (if name = map of_char ''Web.dll'' then NoFactory else FactoryImpl)\<rparr>"

definition quiet_class :: "(unit, nat) module_class" where
  "quiet_class = \<lparr>v_Load = (\<lambda>s. s), v_Unload = (\<lambda>s. s), v_super = True\<rparr>"

lemma quiet_class_ok: "\<forall>c :: wstring. class_ok quiet_class"
  by (simp add: class_ok_def quiet_class_def pushes_refl)

lemma sample_library_ok: "modules_ok sample_library module_list" "failed_dlls sample_library module_list = {}"
    "length (filter (loadable sample_library) module_list) = 9"
  by code_simp+

lemma faulty_library_ok: "modules_ok faulty_library module_list" "failed_dlls faulty_library module_list = {map of_char ''Web.dll''}"
  by code_simp+

theorem modules_reachable_witness:
  "\<exists>b p q. Init (\<lambda>_. quiet_class) sample_library module_list (program_start 0) = Inr (b, p) \<and>
     EXIST_MODULE 9 (bus_state p) = None \<and> EXIST_MODULE 5 (bus_state p) = Some q \<and>
     objects p q = Some \<lparr>obj_class = map of_char ''DataCenter.dll'', m_pModuleManager = True\<rparr>"
proof -
  have "loaded_ids sample_library module_list 9 = None" "loaded_ids sample_library module_list 5 = Some (map of_char ''DataCenter.dll'')"
    by code_simp+
  note ids = this
  obtain b p where p: "Init (\<lambda>_. quiet_class) sample_library module_list (program_start 0) = Inr (b, p)" and
    all: "\<And>k. case loaded_ids sample_library module_list k of None \<Rightarrow> EXIST_MODULE k (bus_state p) = None
         | Some name \<Rightarrow> \<exists>q. EXIST_MODULE k (bus_state p) = Some q \<and> objects p q = Some \<lparr>obj_class = name, m_pModuleManager = True\<rparr>"
    using modules_reachable [OF module_xml_list sample_library_ok(1) quiet_class_ok, of 0] by blast
  show ?thesis using p all [of 9] all [of 5] unfolding ids by auto
qed

theorem program_lifecycle_witness:
  "\<exists>fuel p ms ds. WinMain (\<lambda>_. quiet_class) (PROCESS_EVENT demo_maps) (PROCESS_MESSAGE demo_maps) (PaybackExtraInfo (\<lambda>_ w. w)) (\<lambda>_ s. s)
      sample_library module_list fuel [WmTimer, WmOther (), WmQuit] 0 = Inr p \<and>
    objects p = Map.empty \<and> (\<forall>name. g_ModuleFactory (dll_data p name) = None) \<and> distinct ms \<and> mset ds = mset ms \<and> length ms = 9 \<and>
    calls p = map Loaded ms @ map Unloaded ms @ map Deleted ds"
  using program_lifecycle [OF module_xml_list sample_library_ok(1,2) quiet_class_ok demo_ranked, of "\<lambda>_ s. s" "[WmTimer, WmOther (), WmQuit]" "\<lambda>_ w. w" 0]
  unfolding sample_library_ok(3) by (simp add: pushes_refl)

theorem failed_factory_faults_witness:
  "\<exists>fuel. WinMain (\<lambda>_. quiet_class) (PROCESS_EVENT demo_maps) (PROCESS_MESSAGE demo_maps) (PaybackExtraInfo (\<lambda>_ w. w)) (\<lambda>_ s. s)
      faulty_library module_list fuel [WmTimer, WmOther (), WmQuit] 0 = Inl NullDeref"
  using failed_factory_faults [OF module_xml_list faulty_library_ok(1) _ quiet_class_ok demo_ranked, of "\<lambda>_ s. s" "[WmTimer, WmOther (), WmQuit]" "\<lambda>_ w. w" 0]
  unfolding faulty_library_ok(2) by (simp add: pushes_refl)

end
