(* ===== verification/Misc_Helper.thy ===== *)
theory Misc_Helper
  imports String_Helper
begin

text \<open>
  \<open>src/src/Utility/MiscHelper.cpp\<close>: the domain of a URL, its top domain, the Windows version and
  the version numbers of the client.  The clipboard, process and configuration helpers call
  Windows or touch files and are not modelled.
\<close>

section \<open>Domains\<close>

definition HTTP :: wstring where "HTTP = wide ''http://''"
definition HTTPS :: wstring where "HTTPS = wide ''https://''"

definition SLASHES :: wstring where "SLASHES = [0x5C, 0x2F]"

text \<open>The tail of \<open>GetDomainFromUrl\<close>; for \<open>https\<close> it tests the domain, not the URL.\<close>

definition with_prefix :: "bool \<Rightarrow> wstring \<Rightarrow> wstring \<Rightarrow> wstring outcome" where
  "with_prefix bIncludePrefix strUrl strDomain =
     (if bIncludePrefix then
        obind (Left strUrl 7) (\<lambda>l7.
          if l7 = HTTP then Inr (HTTP @ strDomain)
          else obind (Left strDomain 8) (\<lambda>d8.
            if d8 = HTTPS then Inr (HTTPS @ strDomain) else Inr strDomain))
      else Inr strDomain)"

definition GetDomainFromUrl :: "wstring option \<Rightarrow> bool \<Rightarrow> wstring outcome" where
  "GetDomainFromUrl pszUrl bIncludePrefix =
     (case pszUrl of
        None \<Rightarrow> Inr []
      | Some strUrl \<Rightarrow>
          obind (Left strUrl 7) (\<lambda>l7.
          obind (Left strUrl 8) (\<lambda>l8.
            if l7 \<noteq> HTTP \<and> l8 \<noteq> HTTPS then Inr []
            else
              obind (if l7 = HTTP then SubStr strUrl 7 (of_int (GetLength strUrl - 1))
                     else SubStr strUrl 8 (of_int (GetLength strUrl - 1)))
                (\<lambda>strDomain.
                  let nIndex = FindFirstCharOf strDomain SLASHES 0 in
                  if nIndex = -1 then with_prefix bIncludePrefix strUrl strDomain
                  else obind (SubStr strDomain 0 (of_int nIndex)) (with_prefix bIncludePrefix strUrl)))))"

definition szDomain :: "wstring list" where
  "szDomain =
     map wide [''.com.at'', ''.com.au'', ''.com.be'', ''.com.dk'', ''.com.es'', ''.com.us'',
       ''.com.de'', ''.com.uk'', ''.com.fr'', ''.com.eu'', ''.com.gb'', ''.com.ie'', ''.com.il'',
       ''.com.in'', ''.com.it'', ''.com.jp'', ''.com.kp'', ''.com.kr'', ''.com.se'', ''.com.vn'',
       ''.com.cn'', ''.com.hk'', ''.com.mo'', ''.com.tw'',
       ''.net.at'', ''.net.au'', ''.net.be'', ''.net.dk'', ''.net.es'', ''.net.us'', ''.net.de'',
       ''.net.uk'', ''.net.fr'', ''.net.eu'', ''.net.gb'', ''.net.ie'', ''.net.il'', ''.net.in'',
       ''.net.it'', ''.net.jp'', ''.net.kp'', ''.net.kr'', ''.net.se'', ''.net.vn'', ''.net.cn'',
       ''.net.hk'', ''.net.mo'', ''.net.tw'',
       ''.org.at'', ''.org.au'', ''.org.be'', ''.org.dk'', ''.org.es'', ''.org.us'', ''.org.de'',
       ''.org.uk'', ''.org.fr'', ''.org.eu'', ''.org.gb'', ''.org.ie'', ''.org.il'', ''.org.in'',
       ''.org.it'', ''.org.jp'', ''.org.kp'', ''.org.kr'', ''.org.se'', ''.org.vn'', ''.org.cn'',
       ''.org.hk'', ''.org.mo'', ''.org.tw'',
       ''.gov.at'', ''.gov.au'', ''.gov.be'', ''.gov.dk'', ''.gov.es'', ''.gov.us'', ''.gov.de'',
       ''.gov.uk'', ''.gov.fr'', ''.gov.eu'', ''.gov.gb'', ''.gov.ie'', ''.gov.il'', ''.gov.in'',
       ''.gov.it'', ''.gov.jp'', ''.gov.kp'', ''.gov.kr'', ''.gov.se'', ''.gov.vn'', ''.gov.cn'',
       ''.gov.hk'', ''.gov.mo'', ''.gov.tw'',
       ''.com'', ''.net'', ''.cn'', ''.org'', ''.cc'', ''.me'', ''.tel'', ''.mobile'', ''.asia'',
       ''.biz'', ''.info'', ''.name'', ''.tv'', ''.hv'']
     @ [[0x2E, 0x516C, 0x53F8], [0x2E, 0x4E2D, 0x56FD], [0x2E, 0x7F51, 0x7EDC]]"

text \<open>The loop over the table: the first entry the host ends with.\<close>

fun top_domain_loop :: "wstring \<Rightarrow> wstring list \<Rightarrow> wstring outcome" where
  "top_domain_loop strUrl [] = Inr []"
| "top_domain_loop strUrl (d # ds) =
     obind (EndWith strUrl d) (\<lambda>e.
       if e then
         obind (SubStr strUrl 0 (of_int (GetLength strUrl - int (length d)))) (\<lambda>strDomainName.
           let nIndex = FindLastCharOf strDomainName [0x2E] (-1) in
           obind (SubStr strDomainName (of_int (nIndex + 1)) (of_int (GetLength strDomainName - nIndex)))
             (\<lambda>t. Inr (t @ d)))
       else top_domain_loop strUrl ds)"

definition GetTopDomainUrl :: "wstring option \<Rightarrow> wstring outcome" where
  "GetTopDomainUrl pszUrl =
     (case pszUrl of
        None \<Rightarrow> Inr []
      | Some u \<Rightarrow>
          obind (GetDomainFromUrl (Some u) True) (\<lambda>szUrl.
            let strUrl = ToLower szUrl in
            obind (Left strUrl 7) (\<lambda>l7.
            obind (Left strUrl 8) (\<lambda>l8.
            obind (if l7 = HTTP then SubStr strUrl 7 (of_int (GetLength strUrl - 7))
                   else if l8 = HTTPS then SubStr strUrl 8 (of_int (GetLength strUrl - 8))
                   else Inr strUrl)
              (\<lambda>strUrl. top_domain_loop strUrl szDomain)))))"

section \<open>Windows version\<close>

text \<open>What \<open>GetVersionEx\<close> and \<open>GetNativeSystemInfo\<close> fill in.\<close>

record osver =
  dwMajorVersion :: u32
  dwMinorVersion :: u32
  dwPlatformId :: u32
  szCSDVersion1 :: wchar
  wProductType :: u8
  wProcessorArchitecture :: u16

datatype os_name = OS_UNKNOWN | OS_WIN95 | OS_WIN98 | OS_WIN98SE | OS_WINME | OS_WINNT | OS_WIN2000
  | OS_WINXP | OS_WIN2003 | OS_WINXP64 | OS_VISTA | OS_WIN7

text \<open>\<open>ver\<close> is the answer of the first \<open>GetVersionEx\<close>, \<open>ver2\<close> of the second, with the short
  structure; \<open>None\<close> when the call fails.\<close>

definition GetOsVer :: "osver option \<Rightarrow> osver option \<Rightarrow> os_name" where
  "GetOsVer ver ver2 =
     (case (case ver of None \<Rightarrow> ver2 | Some v \<Rightarrow> Some v) of
        None \<Rightarrow> OS_UNKNOWN
      | Some v \<Rightarrow>
          (let majorVer = dwMajorVersion v; minorVer = dwMinorVersion v in
           if dwPlatformId v = 2 then
             (if majorVer \<le> 4 then OS_WINNT
              else if majorVer = 5 \<and> minorVer = 0 then OS_WIN2000
              else if majorVer = 5 \<and> minorVer = 1 then OS_WINXP
              else if majorVer = 5 \<and> minorVer = 2 then
                (if wProductType v = 1 \<and> wProcessorArchitecture v = 9 then OS_WINXP64 else OS_WIN2003)
              else if majorVer = 6 \<and> minorVer = 0 then OS_VISTA
              else if majorVer = 6 \<and> minorVer = 1 then OS_WIN7
              else OS_UNKNOWN)
           else if dwPlatformId v = 1 then
             (if majorVer = 4 \<and> minorVer = 0 then OS_WIN95
              else if majorVer = 4 \<and> minorVer = 10 then
                (if szCSDVersion1 v = 0x41 \<or> szCSDVersion1 v = 0x42 then OS_WIN98SE else OS_WIN98)
              else if majorVer = 4 \<and> minorVer = 90 then OS_WINME
              else OS_UNKNOWN)
           else OS_UNKNOWN))"

section \<open>Client versions\<close>

text \<open>The first loop of \<open>GetVersionFromString\<close> looks for a part that is not a number and does nothing
  with the answer.\<close>

definition GetVersionFromString :: "bytes option \<Rightarrow> int" where
  "GetVersionFromString pszVersion =
     (case pszVersion of
        None \<Rightarrow> 0
      | Some s \<Rightarrow>
          (let vec = sh_Split s 46;
               vec = (if vec = [] then vec @ [s] else vec);
               nNum = (if length vec > 4 then 4 else length vec)
           in fold (\<lambda>j nVersion. wrap32 (nVersion + ConvertToInt (vec ! j) * 2 ^ ((3 - j) * 8))) [0..<nNum] 0))"

definition ValueOf :: "int \<Rightarrow> wstring" where
  "ValueOf n = map ucast (ConvertFromInt n)"

definition GetStringFromVersion :: "int \<Rightarrow> wstring option outcome" where
  "GetStringFromVersion nVersion =
     (if nVersion \<le> 0 then Inr None
      else
        (case fold (\<lambda>i (s, n). (s @ ValueOf (n div 2 ^ ((3 - i) * 8)) @ [0x2E], n mod 2 ^ ((3 - i) * 8)))
                [0..<4] ([], nVersion) of
           (wstrVerson, n) \<Rightarrow> obind (Trim 0x2E wstrVerson) (\<lambda>t. Inr (Some t))))"

section \<open>What they compute\<close>

lemma HTTP_chars: "HTTP = [0x68, 0x74, 0x74, 0x70, 0x3A, 0x2F, 0x2F]"
  and HTTPS_chars: "HTTPS = [0x68, 0x74, 0x74, 0x70, 0x73, 0x3A, 0x2F, 0x2F]"
  by (simp_all add: HTTP_def HTTPS_def wide_def)

lemma scheme_simps [simp]:
  "length HTTP = 7" "length HTTPS = 8" "HTTP \<noteq> HTTPS" "HTTPS \<noteq> HTTP" "HTTP \<noteq> []" "HTTPS \<noteq> []" "[] \<noteq> HTTP" "[] \<noteq> HTTPS"
  "0x2F \<in> set HTTPS"
  "take 7 HTTPS \<noteq> HTTP"
  by (simp_all add: HTTP_chars HTTPS_chars)

lemma SubStr_int:
  "short_text s \<Longrightarrow> b \<le> length s \<Longrightarrow> b < 65536 \<Longrightarrow> i = int n \<Longrightarrow> n < 65536 \<Longrightarrow> w = of_nat b \<Longrightarrow>
     SubStr s w (of_int i) = Inr (take n (drop b s))"
  using SubStr_short by simp

lemma short_text_append: "short_text (s @ t) \<Longrightarrow> short_text s" "short_text (s @ t) \<Longrightarrow> short_text t"
  by (auto simp: short_text_def)

lemma host_end:
  assumes "\<forall>c \<in> set host. c \<notin> set SLASHES" and "rest = [] \<or> hd rest \<in> set SLASHES"
  shows "takeWhile (\<lambda>c. c \<notin> set SLASHES) (host @ rest) = host"
  using assms by (cases rest) (auto simp: takeWhile_append2)

lemma cut_at_slash:
  assumes "short_text (host @ rest)" and "\<forall>c \<in> set host. c \<notin> set SLASHES"
    and "rest = [] \<or> hd rest \<in> set SLASHES"
  shows "(let nIndex = FindFirstCharOf (host @ rest) SLASHES 0 in
          if nIndex = -1 then f (host @ rest)
          else obind (SubStr (host @ rest) 0 (of_int nIndex)) f) = f host"
proof -
  have "FindFirstCharOf (host @ rest) SLASHES 0 = (if rest = [] then -1 else int (length host))"
    using host_end [OF assms(2,3)] assms(2,3) by (cases rest) (auto simp: FindFirstCharOf_0)
  moreover have "SubStr (host @ rest) 0 (of_int (int (length host))) = Inr host"
    using SubStr_int [OF assms(1), of 0 "int (length host)" "length host" 0] assms(1)
    by (simp add: short_text_def)
  ultimately show ?thesis by simp
qed

lemma Left_78: "short_text s \<Longrightarrow> Left s 7 = Inr (take 7 s)" "short_text s \<Longrightarrow> Left s 8 = Inr (take 8 s)"
  using Left_short [of s 7] Left_short [of s 8] by simp_all

lemma with_prefix_host:
  assumes "short_text url" and "url = scheme @ host @ rest" and "scheme = HTTP \<or> scheme = HTTPS"
    and "\<forall>c \<in> set host. c \<notin> set SLASHES"
  shows "with_prefix b url host = Inr ((if scheme = HTTP \<and> b then HTTP else []) @ host)"
proof -
  have "take 8 host \<noteq> HTTPS"
  proof
    assume "take 8 host = HTTPS"
    then have "0x2F \<in> set (take 8 host)" by simp
    then show False using assms(4) by (auto simp: SLASHES_def dest: in_set_takeD)
  qed
  moreover have "take 7 url = HTTP \<longleftrightarrow> scheme = HTTP" using assms(2,3) by auto
  moreover have "short_text host" using assms(1,2) short_text_append by blast
  ultimately show ?thesis using assms(1) by (auto simp: with_prefix_def Left_78)
qed

lemma GetDomainFromUrl_eq:
  assumes "short_text url" and "url = scheme @ host @ rest" and "scheme = HTTP \<or> scheme = HTTPS"
    and "\<forall>c \<in> set host. c \<notin> set SLASHES" and "rest = [] \<or> hd rest \<in> set SLASHES"
  shows "GetDomainFromUrl (Some url) b = Inr ((if scheme = HTTP \<and> b then HTTP else []) @ host)"
proof -
  have len: "length url - 1 < 65536" "0 < length url" using assms(1-3) by (auto simp: short_text_def simp flip: length_greater_0_conv)
  then have int: "GetLength url - 1 = int (length url - 1)" by (cases url) (simp_all add: GetLength_def)
  have sub: "(if take 7 url = HTTP then SubStr url 7 (of_int (GetLength url - 1))
              else SubStr url 8 (of_int (GetLength url - 1))) = Inr (host @ rest)"
    using assms(3)
  proof
    assume "scheme = HTTP"
    then show ?thesis
      using SubStr_int [OF assms(1), of 7 _ "length url - 1" 7, OF _ _ int len(1)] assms(2) by simp
  next
    assume "scheme = HTTPS"
    then show ?thesis
      using SubStr_int [OF assms(1), of 8 _ "length url - 1" 8, OF _ _ int len(1)] assms(2) by simp
  qed
  have "take 7 url = HTTP \<or> take 8 url = HTTPS" using assms(2,3) by auto
  moreover have "short_text (host @ rest)" using assms(1,2) short_text_append(2) by blast
  ultimately show ?thesis
    using assms(1) sub cut_at_slash [OF _ assms(4,5), of "with_prefix b url"] with_prefix_host [OF assms(1-4)]
    unfolding GetDomainFromUrl_def by (auto simp: Left_78)
qed

text \<open>
  Note: For a URL of fewer than 65536 characters without NUL, \<open>scheme://host/...\<close>, \<open>GetDomainFromUrl\<close> returns
  the host up to the first slash or backslash, and it never faults.  With \<open>bIncludePrefix\<close> the prefix
  \<open>http://\<close> is put back, but for \<open>https\<close> the prefix is lost, because the test looks at the domain.
\<close>

theorem domain_of_url:
  assumes "short_text url" and "url = scheme @ host @ rest" and "scheme = HTTP \<or> scheme = HTTPS"
    and "\<forall>c \<in> set host. c \<notin> set SLASHES" and "rest = [] \<or> hd rest \<in> set SLASHES"
  shows "GetDomainFromUrl (Some url) True = Inr (if scheme = HTTP then HTTP @ host else host) \<and>
         GetDomainFromUrl (Some url) False = Inr host"
  using GetDomainFromUrl_eq [OF assms, of True] GetDomainFromUrl_eq [OF assms, of False] by simp

theorem domain_of_url_witness:
  "GetDomainFromUrl (Some (HTTPS @ wide ''a.cn'' @ wide ''/x'')) True = Inr (wide ''a.cn'') \<and>
   GetDomainFromUrl (Some (HTTP @ wide ''a.cn'' @ wide ''/x'')) True = Inr (HTTP @ wide ''a.cn'')"
  using domain_of_url [of "HTTPS @ wide ''a.cn'' @ wide ''/x''" HTTPS "wide ''a.cn''" "wide ''/x''"]
    domain_of_url [of "HTTP @ wide ''a.cn'' @ wide ''/x''" HTTP "wide ''a.cn''" "wide ''/x''"]
  by (simp add: wide_def SLASHES_def short_text_def) (simp add: HTTP_chars HTTPS_chars)

subsection \<open>Top domains\<close>

lemma unat_max_u16: "unat (-1 :: u16) = 65535"
  by (simp add: unsigned_minus_1_eq_mask mask_eq_exp_minus_1)

lemma FindLastCharOf_end:
  assumes "short_text s"
  shows "FindLastCharOf s [c] (-1) =
    (if c \<in> set s then int (length s - 1 - length (takeWhile (\<lambda>x. x \<noteq> c) (rev s))) else -1)"
proof -
  have "take (Suc (unat (-1 :: u16))) s = s" using assms by (simp add: unat_max_u16 short_text_def)
  then show ?thesis by (auto simp: FindLastCharOf_def str_find_last_def find_index_eq index_of_def Let_def)
qed

lemma last_label:
  assumes "short_text (pre @ name)" and "0x2E \<notin> set name" and "pre = [] \<or> last pre = 0x2E"
  shows "FindLastCharOf (pre @ name) [0x2E] (-1) = int (length pre) - 1"
proof (cases pre rule: rev_cases)
  case Nil
  then show ?thesis using assms by (simp add: FindLastCharOf_end)
next
  case (snoc p c)
  then have "takeWhile (\<lambda>x. x \<noteq> 0x2E) (rev (pre @ name)) = rev name"
    using assms(2,3) takeWhile_sep(1) [of "0x2E" "rev name" "rev p"] by simp
  then show ?thesis
    using assms snoc by (simp add: FindLastCharOf_end del: rev_append)
qed

lemma EndWith_suffix: "short_text s \<Longrightarrow> length t < 65536 \<Longrightarrow> EndWith s t = Inr (suffix t s)"
  using Right_short [of s "length t"] by (simp add: EndWith_def GetLength_def suffix_drop_iff)

lemma top_domain_loop_hit:
  assumes "short_text (pre @ name @ sfx)" and "0x2E \<notin> set name" and "pre = [] \<or> last pre = 0x2E"
    and "ds = ds1 @ sfx # ds2" and "\<forall>d \<in> set ds1. \<not> suffix d (pre @ name @ sfx)"
    and "\<forall>d \<in> set ds. length d < 65536" and "sfx \<noteq> []"
  shows "top_domain_loop (pre @ name @ sfx) ds = Inr (name @ sfx)"
  using assms(4,5,6)
proof (induction ds1 arbitrary: ds)
  case Nil
  let ?h = "pre @ name @ sfx" and ?n = "pre @ name"
  have n: "short_text ?n" using assms(1) short_text_append(1) [of ?n sfx] by simp
  have ends: "EndWith ?h sfx = Inr True"
    using assms(1) Nil by (simp add: EndWith_suffix suffix_append)
  have cut: "SubStr ?h 0 (of_int (GetLength ?h - int (length sfx))) = Inr ?n"
    using SubStr_int [OF assms(1), of 0 _ "length ?n" 0] assms(1) by (simp add: GetLength_def short_text_def)
  have "length name + 1 < 65536" using assms(1,7) by (cases sfx) (auto simp: short_text_def)
  then have "SubStr ?n (of_int (int (length pre) - 1 + 1)) (of_int (GetLength ?n - (int (length pre) - 1))) = Inr name"
    using SubStr_int [OF n, of "length pre" "GetLength ?n - (int (length pre) - 1)" "length name + 1"
        "of_int (int (length pre) - 1 + 1)"] n by (simp add: GetLength_def short_text_def)
  then show ?case
    using ends cut last_label [OF n assms(2,3)] Nil by (simp add: Let_def)
next
  case (Cons d ds1)
  then show ?case using assms(1) by (simp add: EndWith_suffix)
qed

lemma szDomain_entries: "\<forall>d \<in> set szDomain. length d < 65536 \<and> d \<noteq> []"
  by (simp add: szDomain_def wide_def)

text \<open>
  Note: For \<open>http://host/...\<close> in lower case, whose host is some labels, one label \<open>name\<close> and a suffix of the
  table, \<open>GetTopDomainUrl\<close> answers that label with the first suffix of the table the host ends with,
  so that \<open>com.cn\<close> wins over \<open>cn\<close>.
\<close>

theorem top_domain_of_url:
  assumes "short_text (HTTP @ (pre @ name @ sfx) @ rest)"
    and "\<forall>c \<in> set (pre @ name @ sfx). c \<notin> set SLASHES" and "rest = [] \<or> hd rest \<in> set SLASHES"
    and "ToLower (pre @ name @ sfx) = pre @ name @ sfx"
    and "0x2E \<notin> set name" and "pre = [] \<or> last pre = 0x2E"
    and "szDomain = front @ sfx # back_part" and "\<forall>d \<in> set front. \<not> suffix d (pre @ name @ sfx)"
  shows "GetTopDomainUrl (Some (HTTP @ (pre @ name @ sfx) @ rest)) = Inr (name @ sfx)"
proof -
  let ?h = "pre @ name @ sfx"
  have short: "short_text (HTTP @ ?h)" "short_text ?h"
    using assms(1) short_text_append(1) [of "HTTP @ ?h" rest] short_text_append(2) [of HTTP ?h] by simp_all
  have dom: "GetDomainFromUrl (Some (HTTP @ ?h @ rest)) True = Inr (HTTP @ ?h)"
    using GetDomainFromUrl_eq [OF assms(1) refl _ assms(2,3), of True] by simp
  have low: "ToLower (HTTP @ ?h) = HTTP @ ?h" using assms(4) by (simp add: ToLower_def HTTP_chars)
  have sub: "SubStr (HTTP @ ?h) 7 (of_int (GetLength (HTTP @ ?h) - 7)) = Inr ?h"
    using SubStr_int [OF short(1), of 7 "GetLength (HTTP @ ?h) - 7" "length ?h" 7] short
    by (simp add: GetLength_def short_text_def)
  have "sfx \<in> set szDomain" using assms(7) by (metis in_set_conv_decomp)
  then have "\<forall>d \<in> set szDomain. length d < 65536" and "sfx \<noteq> []"
    using szDomain_entries by blast+
  then have "top_domain_loop ?h szDomain = Inr (name @ sfx)"
    by (intro top_domain_loop_hit [OF short(2) assms(5,6,7,8)])
  with dom low sub short show ?thesis
    unfolding GetTopDomainUrl_def option.case Let_def by (simp add: Left_78)
qed

theorem top_domain_of_url_witness:
  "GetTopDomainUrl (Some (HTTP @ (wide ''www.'' @ wide ''sina'' @ wide ''.com.cn'') @ wide ''/news'')) =
     Inr (wide ''sina'' @ wide ''.com.cn'')"
proof (rule top_domain_of_url [where front = "take 20 szDomain" and back_part = "drop 21 szDomain"])
  show "szDomain = take 20 szDomain @ wide ''.com.cn'' # drop 21 szDomain" by code_simp
  show "\<forall>d \<in> set (take 20 szDomain). \<not> suffix d (wide ''www.'' @ wide ''sina'' @ wide ''.com.cn'')"
    by (simp add: szDomain_def wide_def suffix_to_prefix)
qed (simp_all add: wide_def HTTP_chars SLASHES_def short_text_def ToLower_def)

subsection \<open>Versions\<close>

lemma digits_value: "foldl (\<lambda>v d. 10 * v + d) 0 (digits n) = n"
proof (induction n rule: digits.induct)
  case (1 n)
  show ?case by (cases "n < 10") (simp_all add: digits.simps [of n] 1)
qed

lemma digits_small: "d \<in> set (digits n) \<Longrightarrow> d < 10"
proof (induction n rule: digits.induct)
  case (1 n)
  then show ?case by (cases "n < 10") (auto simp: digits.simps [of n])
qed

lemma digits_nonempty [simp]: "digits n \<noteq> []"
  by (subst digits.simps) simp

abbreviation digit_char :: "nat \<Rightarrow> u8" where "digit_char d \<equiv> of_nat d + 48"

lemma digit_char_props:
  assumes "d < 10"
  shows "is_digit (digit_char d)" "uint (digit_char d) - 48 = int d" "digit_char d \<notin> {32, 43, 45, 46}"
    "\<not> (9 \<le> digit_char d \<and> digit_char d \<le> 13)"
proof -
  have "\<forall>d \<in> set [0..<10]. is_digit (digit_char d) \<and> uint (digit_char d) - 48 = int d \<and>
      digit_char d \<notin> {32, 43, 45, 46} \<and> \<not> (9 \<le> digit_char d \<and> digit_char d \<le> 13)"
    by code_simp
  moreover have "d \<in> set [0..<10]" using assms by simp
  ultimately show "is_digit (digit_char d)" "uint (digit_char d) - 48 = int d"
    "digit_char d \<notin> {32, 43, 45, 46}" "\<not> (9 \<le> digit_char d \<and> digit_char d \<le> 13)" by blast+
qed

lemma foldl_digits:
  "\<forall>d \<in> set ds. d < 10 \<Longrightarrow>
     foldl (\<lambda>v c. 10 * v + (uint c - 48)) (int a) (map digit_char ds) = int (foldl (\<lambda>v d. 10 * v + d) a ds)"
proof (induction ds arbitrary: a)
  case (Cons d ds)
  then show ?case using Cons.IH [of "10 * a + d"] digit_char_props(2) [of d] by simp
qed simp

lemma atol_digits: "n < 2 ^ 31 \<Longrightarrow> atol (map digit_char (digits n)) = int n"
proof -
  assume n: "n < 2 ^ 31"
  let ?s = "map digit_char (digits n)"
  have small: "\<forall>d \<in> set (digits n). d < 10" using digits_small by blast
  have tw: "takeWhile is_digit ?s = ?s" using small by (auto simp: takeWhile_eq_all_conv digit_char_props(1))
  have v: "atol_value ?s = int n"
    using foldl_digits [OF small, of 0] digits_value [of n] unfolding atol_value_def tw by simp
  obtain d ds where d: "digits n = d # ds" "d < 10" using small by (cases "digits n") auto
  have nb: "\<not> (digit_char d = 32 \<or> 9 \<le> digit_char d \<and> digit_char d \<le> 13)" "digit_char d \<noteq> 45" "digit_char d \<noteq> 43"
    using digit_char_props(3,4) [OF d(2)] by blast+
  have "dropWhile (\<lambda>c. c = 32 \<or> 9 \<le> c \<and> c \<le> 13) ?s = ?s" "hd ?s \<noteq> 45" "hd ?s \<noteq> 43"
    unfolding d(1) list.map dropWhile.simps list.sel if_not_P [OF nb(1)] by (rule refl nb(2,3))+
  with v n show "atol ?s = int n" by (simp add: atol_def Let_def)
qed

definition to_ansi :: "wstring \<Rightarrow> bytes" where
  "to_ansi s = map ucast s"

abbreviation dec :: "int \<Rightarrow> bytes" where "dec n \<equiv> map digit_char (digits (nat n))"

lemma dec_no_dot: "46 \<notin> set (dec n)"
  using digits_small digit_char_props(3) by fastforce

lemma dec_nonempty: "dec n \<noteq> []" by simp

lemma ValueOf_dec: "0 \<le> n \<Longrightarrow> ValueOf n = map ucast (dec n)"
  by (simp add: ValueOf_def ConvertFromInt_def)

lemma ucast_back [simp]: "ucast (ucast (c :: u8) :: u16) = c"
  by (rule bit_word_eqI) (auto simp: bit_simps)

lemma ucast_dot: "(ucast (c :: u8) = (0x2E :: u16)) \<longleftrightarrow> c = 46"
proof
  assume "ucast c = (0x2E :: u16)"
  then have "ucast (ucast c :: u16) = (ucast (0x2E :: u16) :: u8)" by simp
  then show "c = 46" by simp
qed simp

lemma Trim_dots:
  fixes bs :: bytes
  assumes "bs \<noteq> []" and "hd bs \<noteq> 46" and "last bs \<noteq> 46"
  shows "Trim 0x2E (map ucast (bs @ [46])) = Inr (map ucast bs)"
proof -
  let ?w = "map ucast bs :: wstring"
  have T: "trim_set 0x2E = (\<lambda>c. c = 0x2E)" by (rule ext) (simp add: trim_set_def)
  have "hd ?w \<noteq> 0x2E" "last ?w \<noteq> 0x2E" "?w \<noteq> []"
    using assms ucast_dot [of "hd bs"] ucast_dot [of "last bs"] by (simp_all add: hd_map last_map)
  then have "dropWhile (trim_set 0x2E) (?w @ [0x2E]) = ?w @ [0x2E]" "dropWhile (trim_set 0x2E) (rev ?w) = rev ?w"
    unfolding T by (simp_all add: dropWhile_eq_self_iff hd_append hd_rev)
  then show ?thesis by (simp add: Trim_eq T)
qed

lemma hd_dec: "hd (dec n) \<noteq> 46" and last_dec: "last (dec n) \<noteq> 46"
  using dec_no_dot [of n] by (metis dec_nonempty hd_in_set, metis dec_nonempty last_in_set)

definition version_text :: "int \<Rightarrow> bytes" where
  "version_text n =
     join 46 [dec (n div 2 ^ 24), dec (n mod 2 ^ 24 div 2 ^ 16), dec (n mod 2 ^ 16 div 2 ^ 8), dec (n mod 2 ^ 8)]"

lemma upt4: "[0..<4] = [0, 1, 2, 3 :: nat]" by code_simp

lemma version_shifts:
  "2 ^ ((3 - 0) * 8) = (2 ^ 24 :: int)" "2 ^ ((3 - 1) * 8) = (2 ^ 16 :: int)"
  "2 ^ ((3 - 2) * 8) = (2 ^ 8 :: int)" "2 ^ ((3 - 3) * 8) = (1 :: int)"
  by simp_all

lemma GetStringFromVersion_eq:
  assumes "0 < n"
  shows "GetStringFromVersion n = Inr (Some (map ucast (version_text n)))"
proof -
  have m: "n mod 2 ^ 24 mod 2 ^ 16 = n mod 2 ^ 16" "n mod 2 ^ 16 mod 2 ^ 8 = n mod 2 ^ 8"
    by (simp_all add: mod_mod_cancel)
  have v: "ValueOf (n div 2 ^ 24) = map ucast (dec (n div 2 ^ 24))"
    "ValueOf (n mod 2 ^ 24 div 2 ^ 16) = map ucast (dec (n mod 2 ^ 24 div 2 ^ 16))"
    "ValueOf (n mod 2 ^ 16 div 2 ^ 8) = map ucast (dec (n mod 2 ^ 16 div 2 ^ 8))"
    "ValueOf (n mod 2 ^ 8) = map ucast (dec (n mod 2 ^ 8))"
    using assms by (intro ValueOf_dec, simp add: pos_imp_zdiv_nonneg_iff)+
  have ucast_46: "ucast (46 :: u8) = (0x2E :: u16)" by simp
  have "fold (\<lambda>i (s, n). (s @ ValueOf (n div 2 ^ ((3 - i) * 8)) @ [0x2E], n mod 2 ^ ((3 - i) * 8)))
      [0..<4] ([], n) = (map ucast (version_text n @ [46]), 0)"
    unfolding upt4 fold_simps prod.case version_shifts m version_text_def by (simp only: v join.simps map_append list.map
        append_assoc append.simps div_by_1 mod_by_1 ucast_46)
  moreover have "Trim 0x2E (map ucast (version_text n @ [46])) = Inr (map ucast (version_text n))"
  proof (rule Trim_dots)
    show "hd (version_text n) \<noteq> 46" using hd_dec by (simp add: version_text_def hd_append)
    show "last (version_text n) \<noteq> 46" using last_dec by (simp add: version_text_def last_append)
  qed (simp add: version_text_def)
  ultimately show ?thesis using assms by (simp add: GetStringFromVersion_def)
qed

lemma version_parts:
  fixes n :: int
  assumes "0 < n" and "n < 2 ^ 31"
  shows "0 \<le> n div 2 ^ 24 \<and> n div 2 ^ 24 < 128"
    and "n div 2 ^ 24 * 2 ^ 24 + n mod 2 ^ 24 div 2 ^ 16 * 2 ^ 16 + n mod 2 ^ 16 div 2 ^ 8 * 2 ^ 8 + n mod 2 ^ 8 = n"
proof -
  show "0 \<le> n div 2 ^ 24 \<and> n div 2 ^ 24 < 128" using assms by (simp add: pos_imp_zdiv_nonneg_iff div_less_iff_less_mult)
  have "n mod 2 ^ 24 = n mod 2 ^ 24 div 2 ^ 16 * 2 ^ 16 + n mod 2 ^ 16"
    using div_mult_mod_eq [of "n mod 2 ^ 24" "2 ^ 16"] by (simp add: mod_mod_cancel)
  moreover have "n mod 2 ^ 16 = n mod 2 ^ 16 div 2 ^ 8 * 2 ^ 8 + n mod 2 ^ 8"
    using div_mult_mod_eq [of "n mod 2 ^ 16" "2 ^ 8"] by (simp add: mod_mod_cancel)
  ultimately show "n div 2 ^ 24 * 2 ^ 24 + n mod 2 ^ 24 div 2 ^ 16 * 2 ^ 16 + n mod 2 ^ 16 div 2 ^ 8 * 2 ^ 8 + n mod 2 ^ 8 = n"
    using div_mult_mod_eq [of n "2 ^ 24"] by linarith
qed

lemma atol_dec: "0 \<le> n \<Longrightarrow> n < 2 ^ 31 \<Longrightarrow> ConvertToInt (dec n) = n"
  using atol_digits [of "nat n"] by (simp add: ConvertToInt_def)

lemma atol_dec_small: "0 \<le> n \<Longrightarrow> n < 256 \<Longrightarrow> ConvertToInt (dec n) = n"
  by (rule atol_dec) simp_all

lemma nth4:
  "[x0, x1, x2, x3] ! 0 = x0" "[x0, x1, x2, x3] ! 1 = x1" "[x0, x1, x2, x3] ! 2 = x2" "[x0, x1, x2, x3] ! 3 = x3"
  by simp_all

lemma wrap_parts:
  assumes "0 \<le> a" "a < 128" "0 \<le> b" "b < 256" "0 \<le> c" "c < 256" "0 \<le> d" "d < 256"
    and "a * 2 ^ 24 + b * 2 ^ 16 + c * 2 ^ 8 + d = n" and "n < 2 ^ 31"
  shows "wrap32 (wrap32 (wrap32 (wrap32 (a * 2 ^ 24) + b * 2 ^ 16) + c * 2 ^ 8) + d) = n"
proof -
  have "wrap32 (a * 2 ^ 24) = a * 2 ^ 24" using assms by (intro wrap32_id) simp_all
  moreover have "wrap32 (a * 2 ^ 24 + b * 2 ^ 16) = a * 2 ^ 24 + b * 2 ^ 16"
    using assms by (intro wrap32_id) simp_all
  moreover have "wrap32 (a * 2 ^ 24 + b * 2 ^ 16 + c * 2 ^ 8) = a * 2 ^ 24 + b * 2 ^ 16 + c * 2 ^ 8"
    using assms by (intro wrap32_id) simp_all
  moreover have "wrap32 n = n" using assms by (intro wrap32_id) simp_all
  ultimately show ?thesis using assms(9) by metis
qed

lemma GetVersionFromString_text:
  assumes "0 < n" and "n < 2 ^ 31"
  shows "GetVersionFromString (Some (version_text n)) = n"
proof -
  let ?a = "n div 2 ^ 24" and ?b = "n mod 2 ^ 24 div 2 ^ 16" and ?c = "n mod 2 ^ 16 div 2 ^ 8" and ?d = "n mod 2 ^ 8"
  have split: "sh_Split (version_text n) 46 = [dec ?a, dec ?b, dec ?c, dec ?d]"
    unfolding version_text_def by (rule sh_Split_join) (simp add: dec_no_dot del: set_map)
  have b: "0 \<le> ?b" "?b < 256" "0 \<le> ?c" "?c < 256" "0 \<le> ?d" "?d < 256"
    by (simp_all add: pos_imp_zdiv_nonneg_iff div_less_iff_less_mult)
  note parts = version_parts [OF assms]
  have conv: "ConvertToInt (dec ?a) = ?a" "ConvertToInt (dec ?b) = ?b" "ConvertToInt (dec ?c) = ?c"
    "ConvertToInt (dec ?d) = ?d"
    by (rule atol_dec_small, (use parts(1) b in linarith)+)+
  have "fold (\<lambda>j v. wrap32 (v + ConvertToInt ([dec ?a, dec ?b, dec ?c, dec ?d] ! j) * 2 ^ ((3 - j) * 8))) [0..<4] 0 =
      wrap32 (wrap32 (wrap32 (wrap32 (?a * 2 ^ 24) + ?b * 2 ^ 16) + ?c * 2 ^ 8) + ?d)"
    unfolding upt4 fold_simps nth4 version_shifts conv add_0 mult_1_right by (rule refl)
  also have "\<dots> = n" using wrap_parts [OF _ _ b parts(2) assms(2)] parts(1) by blast
  finally have "fold (\<lambda>j v. wrap32 (v + ConvertToInt ([dec ?a, dec ?b, dec ?c, dec ?d] ! j) * 2 ^ ((3 - j) * 8)))
      [0..<4] 0 = n" .
  moreover have "(if 4 < length [dec ?a, dec ?b, dec ?c, dec ?d] then 4 else length [dec ?a, dec ?b, dec ?c, dec ?d]) = 4"
    by simp
  ultimately show ?thesis
    unfolding GetVersionFromString_def option.case Let_def split by (simp only: list.distinct if_False)
qed

text \<open>
  Note: A positive 32-bit version number printed by \<open>GetStringFromVersion\<close> as four decimal parts is read back
  unchanged by \<open>GetVersionFromString\<close>.
\<close>

theorem version_roundtrip:
  assumes "0 < n" and "n < 2 ^ 31"
  shows "\<exists>t. GetStringFromVersion n = Inr (Some t) \<and> GetVersionFromString (Some (to_ansi t)) = n"
  using GetStringFromVersion_eq [OF assms(1)] GetVersionFromString_text [OF assms]
  by (simp add: to_ansi_def comp_def)

theorem version_roundtrip_witness:
  "\<exists>t. GetStringFromVersion 0x01020304 = Inr (Some t) \<and> GetVersionFromString (Some (to_ansi t)) = 0x01020304"
  by (rule version_roundtrip) simp_all

text \<open>
  Note: \<open>GetOsVer\<close> recognises Windows 95 to Windows 7 and nothing later: with an answer from Windows it is
  \<open>OS_UNKNOWN\<close> exactly for an NT version above 6.1 or above 5.2 in the fifth series, for a 9x version other than
  4.0, 4.10 and 4.90, and for any other platform.
\<close>

theorem os_version_unknown:
  "GetOsVer (Some v) ver2 = OS_UNKNOWN \<longleftrightarrow>
     (if dwPlatformId v = 2 then
        dwMajorVersion v = 5 \<and> dwMinorVersion v \<notin> {0, 1, 2} \<or>
        dwMajorVersion v = 6 \<and> dwMinorVersion v \<notin> {0, 1} \<or> \<not> dwMajorVersion v \<le> 6
      else if dwPlatformId v = 1 then dwMajorVersion v \<noteq> 4 \<or> dwMinorVersion v \<notin> {0, 10, 90}
      else True)"
proof -
  let ?maj = "dwMajorVersion v"
  have le6: "?maj \<le> 6 \<longleftrightarrow> ?maj \<le> 4 \<or> ?maj = 5 \<or> ?maj = 6"
    by (simp add: word_le_nat_alt word_unat_eq_iff) linarith
  consider (nt) "?maj \<le> 4" "?maj \<noteq> 5" "?maj \<noteq> 6" | (xp) "?maj = 5" | (vista) "?maj = 6"
    | (new) "\<not> ?maj \<le> 4" "?maj \<noteq> 5" "?maj \<noteq> 6" "?maj \<noteq> 4" by fastforce
  then show ?thesis
    unfolding GetOsVer_def Let_def option.case le6 by cases simp_all
qed

theorem os_version_unknown_witness:
  "GetOsVer (Some \<lparr>dwMajorVersion = 6, dwMinorVersion = 2, dwPlatformId = 2, szCSDVersion1 = 0, wProductType = 1,
     wProcessorArchitecture = 9\<rparr>) None = OS_UNKNOWN"
  using os_version_unknown [of "\<lparr>dwMajorVersion = 6, dwMinorVersion = 2, dwPlatformId = 2, szCSDVersion1 = 0,
      wProductType = 1, wProcessorArchitecture = 9\<rparr>" None]
  by simp

end
