(* ===== verification/Image_Helper.thy ===== *)
theory Image_Helper
  imports Prelude
begin

text \<open>
  \<open>ImageHelper::CreateIconFromBuffer\<close> of \<open>src/src/Utility/ImageHelper.cpp\<close>: it walks over the directory
  of an icon file and hands one image to Windows.  The buffer is a byte list, \<open>nSize\<close> the size the
  caller states; every read outside the buffer is a fault.  \<open>CreateIconFromResourceEx\<close> is a parameter, given
  the bytes from the start of the image on, the stated number of bytes, and the desired width and height.
  The default icon of \<open>src/src/DataCenter/DataCenterModule.cpp\<close> is the concrete input.
\<close>

section \<open>The icon directory\<close>

text \<open>An \<open>ICONDIRENTRY\<close> is 16 bytes: width, height, colours, reserved, then \<open>wPlanes\<close> at 4, \<open>wBitCount\<close> at
  6, \<open>dwBytesInRes\<close> at 8 and \<open>dwImageOffset\<close> at 12.\<close>

definition rd8 :: "bytes \<Rightarrow> nat \<Rightarrow> u8 outcome" where
  "rd8 buf i = (if i < length buf then Inr (buf ! i) else Inl OutOfRange)"

definition rd16 :: "bytes \<Rightarrow> nat \<Rightarrow> u16 outcome" where
  "rd16 buf i =
     (if i + 1 < length buf then Inr (ucast (buf ! i) + 256 * ucast (buf ! (i + 1))) else Inl OutOfRange)"

definition rd32 :: "bytes \<Rightarrow> nat \<Rightarrow> u32 outcome" where
  "rd32 buf i = (if i + 3 < length buf then Inr (ld32 buf i) else Inl OutOfRange)"

text \<open>Offset of the entry \<open>i\<close> of the directory.\<close>

definition entry_offset :: "nat \<Rightarrow> nat" where "entry_offset i = 6 + 16 * i"

text \<open>One turn of the \<open>while\<close>: \<open>sel\<close> is the index of \<open>lpSelectEntry\<close>.  The second half of the
  condition tests the width again.\<close>

definition select_turn :: "bytes \<Rightarrow> int \<Rightarrow> nat \<Rightarrow> nat option \<Rightarrow> nat option outcome" where
  "select_turn buf nIconSize i sel =
     obind (rd8 buf (entry_offset i)) (\<lambda>w.
       if uint w \<noteq> nIconSize \<or> uint w \<noteq> nIconSize then Inr sel
       else
         (case sel of
            None \<Rightarrow> Inr (Some i)
          | Some k \<Rightarrow>
              obind (rd16 buf (entry_offset k + 6)) (\<lambda>bk.
              obind (rd16 buf (entry_offset i + 6)) (\<lambda>bi.
                Inr (if bk < bi then Some i else Some k)))))"

definition CreateIconFromBuffer ::
  "(bytes \<Rightarrow> u32 \<Rightarrow> u8 \<Rightarrow> u8 \<Rightarrow> nat) \<Rightarrow> bytes option \<Rightarrow> u32 \<Rightarrow> int \<Rightarrow> nat outcome" where
  "CreateIconFromBuffer createIcon lpBuf nSize nIconSize =
     (case lpBuf of
        None \<Rightarrow> Inr 0
      | Some buf \<Rightarrow>
          if nSize < 2 then Inr 0
          else obind (rd8 buf 0) (\<lambda>b0.
          if b0 \<noteq> 0 then Inr 0
          else if nSize - 2 < 2 then Inr 0
          else obind (rd8 buf 2) (\<lambda>b2.
          if b2 \<noteq> 1 then Inr 0
          else if nSize - 4 < 2 then Inr 0
          else obind (rd8 buf 4) (\<lambda>b4.
          if b4 < 1 then Inr 0
          else if 6 + (ucast b4 :: u32) * 16 > nSize then Inr 0
          else obind (ofold (select_turn buf nIconSize) [0..<unat b4] None) (\<lambda>sel.
            (case sel of
               None \<Rightarrow> Inr 0
             | Some k \<Rightarrow>
                 obind (rd32 buf (entry_offset k + 8)) (\<lambda>dwBytesInRes.
                 obind (rd32 buf (entry_offset k + 12)) (\<lambda>dwImageOffset.
                 if dwImageOffset > nSize then Inr 0
                 else if dwImageOffset + dwBytesInRes > nSize then Inr 0
                 else obind (rd16 buf (unat dwImageOffset + 14)) (\<lambda>biBitCount.
                 if biBitCount \<noteq> 16 then
                   obind (rd8 buf (entry_offset (unat b4))) (\<lambda>w.
                   obind (rd8 buf (entry_offset (unat b4) + 1)) (\<lambda>h.
                     Inr (createIcon (drop (unat dwImageOffset) buf) dwBytesInRes w h)))
                 else Inr 0)))))))))"

section \<open>The default icon\<close>

definition szDefaultIcon :: bytes where
  "szDefaultIcon =
    [0x00, 0x00, 0x01, 0x00, 0x01, 0x00, 0x10, 0x10, 0x00, 0x00, 0x01, 0x00, 0x20, 0x00, 0x68, 0x04,
     0x00, 0x00, 0x16, 0x00, 0x00, 0x00, 0x28, 0x00, 0x00, 0x00, 0x10, 0x00, 0x00, 0x00, 0x20, 0x00,
     0x00, 0x00, 0x01, 0x00, 0x20, 0x00, 0x00, 0x00, 0x00, 0x00, 0x40, 0x04, 0x00, 0x00, 0x00, 0x00,
     0x00, 0x00, 0x00, 0x00, 0x00, 0x00, 0x00, 0x00, 0x00, 0x00, 0x00, 0x00, 0x00, 0x00, 0x00, 0x00,
     0x00, 0x00, 0xCE, 0xC0, 0xAE, 0x4E, 0xCE, 0xC0, 0xAE, 0xB7, 0xCE, 0xC0, 0xAE, 0xFF, 0xCE, 0xC0,
     0xAE, 0xFF, 0xCE, 0xC0, 0xAE, 0xFF, 0xCE, 0xC0, 0xAE, 0xFF, 0xCE, 0xC0, 0xAE, 0xFF, 0xCE, 0xC0,
     0xAE, 0xFF, 0xCE, 0xC0, 0xAE, 0xFF, 0xCE, 0xC0, 0xAE, 0xFF, 0xCE, 0xC0, 0xAE, 0xFF, 0xCE, 0xC0,
     0xAE, 0xFF, 0xCE, 0xC0, 0xAE, 0xB7, 0xCE, 0xC0, 0xAE, 0x4E, 0x00, 0x00, 0x00, 0x00, 0x00, 0x00,
     0x00, 0x00, 0xCE, 0xC0, 0xAE, 0xB7, 0xD1, 0xC4, 0xB2, 0xFF, 0xBF, 0xAC, 0x94, 0xFF, 0xBC, 0xA8,
     0x8F, 0xFF, 0xBC, 0xA8, 0x8F, 0xFF, 0xBC, 0xA8, 0x8F, 0xFF, 0xBC, 0xA8, 0x8F, 0xFF, 0xBC, 0xA8,
     0x8F, 0xFF, 0xBC, 0xA8, 0x8F, 0xFF, 0xBC, 0xA8, 0x8F, 0xFF, 0xBC, 0xA8, 0x8F, 0xFF, 0xBF, 0xAC,
     0x94, 0xFF, 0xD1, 0xC4, 0xB2, 0xFF, 0xCE, 0xC0, 0xAE, 0xB7, 0x00, 0x00, 0x00, 0x00, 0x00, 0x00,
     0x00, 0x00, 0xCE, 0xC0, 0xAE, 0xFF, 0xEC, 0xE7, 0xE0, 0xFF, 0xFE, 0xFD, 0xFB, 0xFF, 0xFE, 0xFC,
     0xF9, 0xFF, 0xFD, 0xFB, 0xF8, 0xFF, 0xFD, 0xFA, 0xF6, 0xFF, 0xFC, 0xF9, 0xF4, 0xFF, 0xFC, 0xF7,
     0xF1, 0xFF, 0xFB, 0xF6, 0xEF, 0xFF, 0xFB, 0xF5, 0xED, 0xFF, 0xFA, 0xF4, 0xEB, 0xFF, 0xF9, 0xF2,
     0xE8, 0xFF, 0xEA, 0xE0, 0xD4, 0xFF, 0xCE, 0xC0, 0xAE, 0xFF, 0x00, 0x00, 0x00, 0x00, 0x00, 0x00,
     0x00, 0x00, 0xCE, 0xC0, 0xAE, 0xFF, 0xFE, 0xFD, 0xFB, 0xFF, 0xFD, 0xFB, 0xF8, 0xFF, 0xFD, 0xFA,
     0xF6, 0xFF, 0xFC, 0xF9, 0xF4, 0xFF, 0xFC, 0xF7, 0xF1, 0xFF, 0xFB, 0xF6, 0xEF, 0xFF, 0xFB, 0xF5,
     0xED, 0xFF, 0xFA, 0xF4, 0xEB, 0xFF, 0xF9, 0xF2, 0xE8, 0xFF, 0xF9, 0xF1, 0xE6, 0xFF, 0xF8, 0xEF,
     0xE4, 0xFF, 0xF9, 0xF2, 0xE9, 0xFF, 0xCE, 0xC0, 0xAE, 0xFF, 0x00, 0x00, 0x00, 0x00, 0x00, 0x00,
     0x00, 0x00, 0xCE, 0xC0, 0xAE, 0xFF, 0xFE, 0xFB, 0xF8, 0xFF, 0xFC, 0xF9, 0xF4, 0xFF, 0xFC, 0xF7,
     0xF1, 0xFF, 0xFB, 0xF6, 0xEF, 0xFF, 0xFB, 0xF5, 0xED, 0xFF, 0xFA, 0xF4, 0xEB, 0xFF, 0xF5, 0xED,
     0xE2, 0xFF, 0xCA, 0xB7, 0x9F, 0xFF, 0xB6, 0x9F, 0x82, 0xFF, 0xC2, 0xAE, 0x94, 0xFF, 0xF4, 0xEB,
     0xDD, 0xFF, 0xF8, 0xF0, 0xE6, 0xFF, 0xCE, 0xC0, 0xAE, 0xFF, 0x00, 0x00, 0x00, 0x00, 0x00, 0x00,
     0x00, 0x00, 0xCE, 0xC0, 0xAE, 0xFF, 0xFD, 0xF9, 0xF5, 0xFF, 0xFB, 0xF6, 0xEF, 0xFF, 0xFB, 0xF5,
     0xED, 0xFF, 0xFA, 0xF4, 0xEB, 0xFF, 0xF9, 0xF2, 0xE8, 0xFF, 0xF3, 0xEA, 0xDD, 0xFF, 0xB5, 0x9E,
     0x80, 0xFF, 0xA5, 0x8B, 0x69, 0xFF, 0xA5, 0x8B, 0x69, 0xFF, 0xA7, 0x8D, 0x6C, 0xFF, 0xF2, 0xE8,
     0xD9, 0xFF, 0xF6, 0xEF, 0xE3, 0xFF, 0xCE, 0xC0, 0xAE, 0xFF, 0x00, 0x00, 0x00, 0x00, 0x00, 0x00,
     0x00, 0x00, 0xCE, 0xC0, 0xAE, 0xFF, 0xFC, 0xF8, 0xF2, 0xFF, 0xFA, 0xF4, 0xEB, 0xFF, 0xF9, 0xF2,
     0xE8, 0xFF, 0xF9, 0xF1, 0xE6, 0xFF, 0xF8, 0xEF, 0xE4, 0xFF, 0xC5, 0xB1, 0x98, 0xFF, 0xA5, 0x8B,
     0x69, 0xFF, 0xA5, 0x8B, 0x69, 0xFF, 0xA5, 0x8B, 0x69, 0xFF, 0xBA, 0xA4, 0x88, 0xFF, 0xF2, 0xE7,
     0xD8, 0xFF, 0xF4, 0xEC, 0xE0, 0xFF, 0xCE, 0xC0, 0xAE, 0xFF, 0x00, 0x00, 0x00, 0x00, 0x00, 0x00,
     0x00, 0x00, 0xCE, 0xC0, 0xAE, 0xFF, 0xFB, 0xF5, 0xEE, 0xFF, 0xF9, 0xF1, 0xE6, 0xFF, 0xE7, 0xDB,
     0xCB, 0xFF, 0xBB, 0xA6, 0x8A, 0xFF, 0xEA, 0xDE, 0xCE, 0xFF, 0xAC, 0x93, 0x73, 0xFF, 0xA5, 0x8B,
     0x69, 0xFF, 0xA5, 0x8B, 0x69, 0xFF, 0xA5, 0x8B, 0x69, 0xFF, 0xD8, 0xC8, 0xB3, 0xFF, 0xEF, 0xE4,
     0xD4, 0xFF, 0xF2, 0xE9, 0xDD, 0xFF, 0xCE, 0xC0, 0xAE, 0xFF, 0x00, 0x00, 0x00, 0x00, 0x00, 0x00,
     0x00, 0x00, 0xCE, 0xC0, 0xAE, 0xFF, 0xFA, 0xF3, 0xEB, 0xFF, 0xF7, 0xEE, 0xE2, 0xFF, 0xAE, 0x95,
     0x76, 0xFF, 0xAE, 0x96, 0x77, 0xFF, 0xEF, 0xE4, 0xD5, 0xFF, 0xD0, 0xBF, 0xA7, 0xFF, 0xA5, 0x8B,
     0x69, 0xFF, 0xA5, 0x8B, 0x69, 0xFF, 0xB6, 0xA0, 0x82, 0xFF, 0xED, 0xE2, 0xD2, 0xFF, 0xEC, 0xE0,
     0xD0, 0xFF, 0xEF, 0xE6, 0xDA, 0xFF, 0xCE, 0xC0, 0xAE, 0xFF, 0x00, 0x00, 0x00, 0x00, 0x00, 0x00,
     0x00, 0x00, 0xCE, 0xC0, 0xAE, 0xFF, 0xF8, 0xF2, 0xE8, 0xFF, 0xF5, 0xEB, 0xDD, 0xFF, 0xE4, 0xD7,
     0xC5, 0xFF, 0xEA, 0xDE, 0xCD, 0xFF, 0xBA, 0xA4, 0x87, 0xFF, 0xCB, 0xB9, 0xA0, 0xFF, 0xCE, 0xBD,
     0xA5, 0xFF, 0xBE, 0xAB, 0x90, 0xFF, 0xDE, 0xD0, 0xBD, 0xFF, 0xE0, 0xD3, 0xC0, 0xFF, 0xDE, 0xD1,
     0xBF, 0xFF, 0xE6, 0xDC, 0xCE, 0xFF, 0xCE, 0xC0, 0xAE, 0xFF, 0x00, 0x00, 0x00, 0x00, 0x00, 0x00,
     0x00, 0x00, 0xCE, 0xC0, 0xAE, 0xFF, 0xF7, 0xEF, 0xE5, 0xFF, 0xF3, 0xE9, 0xDA, 0xFF, 0xF2, 0xE7,
     0xD8, 0xFF, 0xC6, 0xB2, 0x98, 0xFF, 0xA6, 0x8C, 0x6A, 0xFF, 0xD2, 0xC2, 0xAB, 0xFF, 0xAC, 0x94,
     0x76, 0xFF, 0xC4, 0xB1, 0x9A, 0xFF, 0xCD, 0xBC, 0xA6, 0xFF, 0xC9, 0xB8, 0xA2, 0xFF, 0xCA, 0xB9,
     0xA4, 0xFF, 0xDE, 0xD4, 0xC7, 0xFF, 0xCE, 0xC0, 0xAE, 0xFF, 0x00, 0x00, 0x00, 0x00, 0x00, 0x00,
     0x00, 0x00, 0xCE, 0xC0, 0xAE, 0xFF, 0xF5, 0xED, 0xE2, 0xFF, 0xF0, 0xE5, 0xD6, 0xFF, 0xEF, 0xE4,
     0xD4, 0xFF, 0xE1, 0xD4, 0xC1, 0xFF, 0xE0, 0xD2, 0xBF, 0xFF, 0xD7, 0xC7, 0xB3, 0xFF, 0x95, 0x7B,
     0x59, 0xFF, 0xE8, 0xE2, 0xDA, 0xFF, 0xFB, 0xFA, 0xF9, 0xFF, 0xF6, 0xF3, 0xF0, 0xFF, 0xF3, 0xEF,
     0xEA, 0xFF, 0xE1, 0xD8, 0xCD, 0xFF, 0xCE, 0xC0, 0xAE, 0x96, 0x00, 0x00, 0x00, 0x00, 0x00, 0x00,
     0x00, 0x00, 0xCE, 0xC0, 0xAE, 0xFF, 0xF3, 0xEB, 0xDF, 0xFF, 0xED, 0xE2, 0xD2, 0xFF, 0xEC, 0xE0,
     0xD0, 0xFF, 0xEA, 0xDE, 0xCE, 0xFF, 0xE8, 0xDC, 0xCC, 0xFF, 0xDC, 0xCF, 0xBD, 0xFF, 0xB4, 0xA0,
     0x86, 0xFF, 0xFC, 0xFB, 0xFA, 0xFF, 0xF7, 0xF5, 0xF2, 0xFF, 0xF4, 0xF0, 0xEC, 0xFF, 0xE1, 0xD9,
     0xCE, 0xFF, 0xCE, 0xC0, 0xAE, 0x96, 0xCE, 0xC0, 0xAE, 0x15, 0x00, 0x00, 0x00, 0x00, 0x00, 0x00,
     0x00, 0x00, 0xCE, 0xC0, 0xAE, 0xFF, 0xF3, 0xEC, 0xE2, 0xFF, 0xEA, 0xDF, 0xCF, 0xFF, 0xE8, 0xDC,
     0xCC, 0xFF, 0xE6, 0xDA, 0xCA, 0xFF, 0xE4, 0xD9, 0xC8, 0xFF, 0xDA, 0xCC, 0xB9, 0xFF, 0xC6, 0xB4,
     0x9E, 0xFF, 0xF8, 0xF6, 0xF3, 0xFF, 0xF4, 0xF1, 0xED, 0xFF, 0xE1, 0xD9, 0xCE, 0xFF, 0xCE, 0xC0,
     0xAE, 0x96, 0xCE, 0xC0, 0xAE, 0x15, 0x00, 0x00, 0x00, 0x00, 0x00, 0x00, 0x00, 0x00, 0x00, 0x00,
     0x00, 0x00, 0xCE, 0xC0, 0xAE, 0xBD, 0xEF, 0xE9, 0xE1, 0xFF, 0xF6, 0xF2, 0xEC, 0xFF, 0xF5, 0xF1,
     0xEB, 0xFF, 0xF5, 0xF0, 0xEA, 0xFF, 0xF4, 0xEF, 0xE9, 0xFF, 0xEC, 0xE6, 0xDD, 0xFF, 0xDD, 0xD4,
     0xC7, 0xFF, 0xF7, 0xF4, 0xF1, 0xFF, 0xE2, 0xD9, 0xCF, 0xFF, 0xCE, 0xC0, 0xAE, 0x96, 0xCE, 0xC0,
     0xAE, 0x15, 0x00, 0x00, 0x00, 0x00, 0x00, 0x00, 0x00, 0x00, 0x00, 0x00, 0x00, 0x00, 0x00, 0x00,
     0x00, 0x00, 0xCE, 0xC0, 0xAE, 0x54, 0xCE, 0xC0, 0xAE, 0xBD, 0xCE, 0xC0, 0xAE, 0xFF, 0xCE, 0xC0,
     0xAE, 0xFF, 0xCE, 0xC0, 0xAE, 0xFF, 0xCE, 0xC0, 0xAE, 0xFF, 0xCE, 0xC0, 0xAE, 0xFF, 0xCE, 0xC0,
     0xAE, 0xFF, 0xCE, 0xC0, 0xAE, 0xFF, 0xCE, 0xC0, 0xAE, 0x96, 0xCE, 0xC0, 0xAE, 0x15, 0x00, 0x00,
     0x00, 0x00, 0x00, 0x00, 0x00, 0x00, 0x00, 0x00, 0x00, 0x00, 0x00, 0x00, 0x00, 0x00, 0x80, 0x01,
     0x00, 0x00, 0x80, 0x01, 0x00, 0x00, 0x80, 0x01, 0x00, 0x00, 0x80, 0x01, 0x00, 0x00, 0x80, 0x01,
     0x00, 0x00, 0x80, 0x01, 0x00, 0x00, 0x80, 0x01, 0x00, 0x00, 0x80, 0x01, 0x00, 0x00, 0x80, 0x01,
     0x00, 0x00, 0x80, 0x01, 0x00, 0x00, 0x80, 0x01, 0x00, 0x00, 0x80, 0x01, 0x00, 0x00, 0x80, 0x01,
     0x00, 0x00, 0x80, 0x03, 0x00, 0x00, 0x80, 0x07, 0x00, 0x00, 0x80, 0x0F, 0x00, 0x00]"

section \<open>Properties\<close>

definition width_at :: "bytes \<Rightarrow> nat \<Rightarrow> int" where
  "width_at buf i = uint (buf ! entry_offset i)"

definition bits_at :: "bytes \<Rightarrow> nat \<Rightarrow> u16" where
  "bits_at buf i = ucast (buf ! (entry_offset i + 6)) + 256 * ucast (buf ! (entry_offset i + 7))"

text \<open>\<open>sel\<close> is the best of the first \<open>m\<close> entries: of the wanted width, with the most bits, the earliest such.\<close>

definition best_entry :: "bytes \<Rightarrow> int \<Rightarrow> nat \<Rightarrow> nat option \<Rightarrow> bool" where
  "best_entry buf sz m sel \<longleftrightarrow>
     (case sel of
        None \<Rightarrow> (\<forall>i<m. width_at buf i \<noteq> sz)
      | Some k \<Rightarrow> k < m \<and> width_at buf k = sz \<and>
                  (\<forall>i<m. width_at buf i = sz \<longrightarrow> bits_at buf i \<le> bits_at buf k \<and> (i < k \<longrightarrow> bits_at buf i < bits_at buf k)))"

lemma select_turn_best:
  assumes "best_entry buf sz m sel" and "entry_offset (Suc m) \<le> length buf"
  shows "\<exists>sel'. select_turn buf sz m sel = Inr sel' \<and> best_entry buf sz (Suc m) sel'"
proof -
  have r: "rd8 buf (entry_offset m) = Inr (buf ! entry_offset m)" "rd16 buf (entry_offset m + 6) = Inr (bits_at buf m)"
    using assms(2) by (simp_all add: rd8_def rd16_def entry_offset_def bits_at_def)
  show ?thesis
  proof (cases sel)
    case None
    then show ?thesis using assms(1) r(1)
      by (auto simp: select_turn_def best_entry_def width_at_def less_Suc_eq split: option.split)
  next
    case (Some k)
    then have "k < m" using assms(1) by (simp add: best_entry_def)
    then have "rd16 buf (entry_offset k + 6) = Inr (bits_at buf k)"
      using assms(2) by (simp add: rd16_def entry_offset_def bits_at_def)
    then show ?thesis using assms(1) r Some
      by (force simp: select_turn_def best_entry_def width_at_def less_Suc_eq)
  qed
qed

text \<open>
  Note: When the directory of \<open>n\<close> entries lies inside the buffer, the selection loop does not fault and picks
  the earliest of the entries of the wanted width that have the most bits per pixel, or none when no entry
  has that width.
\<close>

theorem icon_selection:
  assumes "entry_offset n \<le> length buf"
  shows "\<exists>sel. ofold (select_turn buf sz) [0..<n] None = Inr sel \<and> best_entry buf sz n sel"
  using assms
proof (induction n)
  case 0
  then show ?case by (simp add: best_entry_def)
next
  case (Suc n)
  then obtain sel where sel: "ofold (select_turn buf sz) [0..<n] None = Inr sel" "best_entry buf sz n sel"
    by (auto simp: entry_offset_def)
  then show ?case using select_turn_best [OF sel(2) Suc.prems] by (auto simp: ofold_append)
qed

theorem icon_selection_witness:
  "\<exists>sel. ofold (select_turn szDefaultIcon 16) [0..<1] None = Inr sel \<and> best_entry szDefaultIcon 16 1 sel"
  by (rule icon_selection) (simp add: entry_offset_def szDefaultIcon_def)

text \<open>
  Note: The default icon is accepted: its one entry is 16 pixels wide and its 1128 bytes fill the buffer exactly.
  But the size asked of Windows is 40 by 0 and not 16 by 16: after the loop \<open>lpIDE\<close> points behind the directory, to
  the header of the image.
\<close>

theorem default_icon_size:
  "CreateIconFromBuffer createIcon (Some szDefaultIcon) (of_nat (length szDefaultIcon)) 16 =
     Inr (createIcon (drop 22 szDefaultIcon) 1128 40 0)"
proof -
  have len: "length szDefaultIcon = 1150" by (simp add: szDefaultIcon_def)
  have hdr: "take 38 szDefaultIcon = [0, 0, 1, 0, 1, 0, 16, 16, 0, 0, 1, 0, 32, 0, 0x68, 4, 0, 0, 22, 0, 0, 0,
      40, 0, 0, 0, 16, 0, 0, 0, 32, 0, 0, 0, 1, 0, 32, 0]"
    by (simp add: szDefaultIcon_def)
  have nth: "szDefaultIcon ! i = [0, 0, 1, 0, 1, 0, 16, 16, 0, 0, 1, 0, 32, 0, 0x68, 4, 0, 0, 22, 0, 0, 0,
      40, 0, 0, 0, 16, 0, 0, 0, 32, 0, 0, 0, 1, 0, 32, 0] ! i" if "i < 38" for i
    using that hdr by (metis nth_take)
  show ?thesis
    by (simp add: CreateIconFromBuffer_def rd8_def rd16_def rd32_def len nth entry_offset_def select_turn_def ld32_def
        mk32_def)
qed

text \<open>One entry that states an image of \<open>0xFFFFFFFF\<close> bytes at offset 22, and 16 bytes of image.\<close>

definition evil_icon :: bytes where
  "evil_icon = [0, 0, 1, 0, 1, 0, 16, 16, 0, 0, 1, 0, 32, 0, 0xFF, 0xFF, 0xFF, 0xFF, 22, 0, 0, 0,
     0, 0, 0, 0, 0, 0, 0, 0, 0, 0, 0, 0, 0, 0, 0, 0]"


end
