(* ===== verification/Data_Center.thy ===== *)
theory Data_Center
  imports Module_Impl Misc_Helper Image_Helper
begin

text \<open>
  The data centre module, \<open>src/src/DataCenter/DataCenterModule.cpp\<close> with the structures of
  \<open>src/include/DataCenterDefine.h\<close>: a vector of pointers to favourites, kept in an explicit heap because the
  handlers change the records in place and hand the pointers out.  Address 0 is NULL; \<open>new\<close> takes the next
  address.  \<open>std::sort\<close> is a parameter, as its order of equal elements is not specified; \<open>std_sort\<close> states what
  the module relies on.
\<close>

section \<open>Favourites and the heap\<close>

type_synonym ptr = nat

record FavoriteLineData =
  nId :: int
  szTitle :: wstring
  nPid :: int
  bFolder :: bool
  szUrl :: wstring
  nAddTimes :: int
  nLastModifyTime :: int
  nClickTimes :: int
  nHashId :: u32
  nOrder :: int
  bDelete :: bool

text \<open>The constructor; \<open>now\<close> is \<open>time(NULL)\<close>.\<close>

definition FavoriteLineData_init :: "int \<Rightarrow> FavoriteLineData" where
  "FavoriteLineData_init now =
     \<lparr>nId = 0, szTitle = [], nPid = 0, bFolder = False, szUrl = [], nAddTimes = now,
      nLastModifyTime = now, nClickTimes = 0, nHashId = 0, nOrder = 0, bDelete = False\<rparr>"

definition MAX_LENGTH :: nat where "MAX_LENGTH = 1024"
definition MAX_PATH :: nat where "MAX_PATH = 260"

text \<open>\<open>wcsncpy_s\<close> with \<open>_TRUNCATE\<close> into an array of \<open>n\<close> characters.\<close>

definition STRNCPY :: "nat \<Rightarrow> wstring \<Rightarrow> wstring" where
  "STRNCPY n src = take (n - 1) (c_str src)"

record datacenter =
  m_vFavoriteLineData :: "ptr list"
  dc_heap :: "ptr \<Rightarrow> FavoriteLineData option"
  next_ptr :: ptr
  m_mapDomain2Icon :: "wstring \<Rightarrow> nat option"
  m_hDefaultIcon :: nat
  m_bAutoUpdate :: bool

definition deref :: "datacenter \<Rightarrow> ptr \<Rightarrow> FavoriteLineData outcome" where
  "deref s p =
     (if p = 0 then Inl NullDeref
      else case dc_heap s p of None \<Rightarrow> Inl BadPointer | Some d \<Rightarrow> Inr d)"

definition store :: "ptr \<Rightarrow> FavoriteLineData \<Rightarrow> datacenter \<Rightarrow> datacenter" where
  "store p d s = s\<lparr>dc_heap := (dc_heap s)(p \<mapsto> d)\<rparr>"

definition new_data :: "FavoriteLineData \<Rightarrow> datacenter \<Rightarrow> ptr \<times> datacenter" where
  "new_data d s = (next_ptr s, store (next_ptr s) d (s\<lparr>next_ptr := next_ptr s + 1\<rparr>))"

definition delete_data :: "ptr \<Rightarrow> datacenter \<Rightarrow> datacenter outcome" where
  "delete_data p s = obind (deref s p) (\<lambda>_. Inr (s\<lparr>dc_heap := (dc_heap s)(p := None)\<rparr>))"

text \<open>\<open>m_vFavoriteLineData[i]\<close>, with the index as the code computes it.\<close>

definition vec_at :: "datacenter \<Rightarrow> int \<Rightarrow> ptr outcome" where
  "vec_at s i =
     (if 0 \<le> i \<and> i < int (length (m_vFavoriteLineData s)) then Inr (m_vFavoriteLineData s ! nat i)
      else Inl OutOfRange)"

section \<open>Events and services\<close>

text \<open>What \<open>m_pstExtraInfo\<close> points to in the events of this module, and in those of the Web module.\<close>

datatype dc_extra =
    FavIconResp wstring bytes
  | CheckUpdateConfigResp wstring
  | DownloadUpdateFileResp i32
  | AddFavorite int wstring wstring
  | DeleteFavorite int wstring
  | AddFavoriteFold int wstring
  | AddFavoriteResult ptr
  | AddFavoriteFoldResult int ptr
  | FavIconSave wstring bytes
  | FavoriteIconArrive wstring nat

definition dc_event :: "nat \<Rightarrow> u32" where
  "dc_event k = VALUE_BEGIN EVENT_VALUE_BASE (module_value MODULE_ID_DATACENTER) + of_nat k"

definition dc_service :: "nat \<Rightarrow> u32" where
  "dc_service k = VALUE_BEGIN SERVICE_VALUE_BASE (module_value MODULE_ID_DATACENTER) + of_nat k"

definition EVENT_VALUE_DATACENTER_FAVORITE_ICON_ARRIVE :: u32 where
  "EVENT_VALUE_DATACENTER_FAVORITE_ICON_ARRIVE = dc_event 1"
definition EVENT_VALUE_DATACENTER_ADD_FAVORITE :: u32 where
  "EVENT_VALUE_DATACENTER_ADD_FAVORITE = dc_event 2"
definition EVENT_VALUE_DATACENTER_ADD_FAVORITE_RESP :: u32 where
  "EVENT_VALUE_DATACENTER_ADD_FAVORITE_RESP = dc_event 3"
definition EVENT_VALUE_DATACENTER_DELETE_FAVORITE :: u32 where
  "EVENT_VALUE_DATACENTER_DELETE_FAVORITE = dc_event 4"
definition EVENT_VALUE_DATACENTER_ADD_FAVORITE_FOLD :: u32 where
  "EVENT_VALUE_DATACENTER_ADD_FAVORITE_FOLD = dc_event 5"
definition EVENT_VALUE_DATACENTER_ADD_FAVORITE_FOLD_RESP :: u32 where
  "EVENT_VALUE_DATACENTER_ADD_FAVORITE_FOLD_RESP = dc_event 6"
definition EVENT_VALUE_DATACENTER_DELETE_FAVORITE_FOLD :: u32 where
  "EVENT_VALUE_DATACENTER_DELETE_FAVORITE_FOLD = dc_event 7"
definition EVENT_VALUE_DATACENTER_TREELIST_SELECT :: u32 where
  "EVENT_VALUE_DATACENTER_TREELIST_SELECT = dc_event 8"
definition EVENT_VALUE_DATACENTER_SET_AUTOUPDATE :: u32 where
  "EVENT_VALUE_DATACENTER_SET_AUTOUPDATE = dc_event 9"
definition EVENT_VALUE_WEB_GET_FAVICON_RESP :: u32 where
  "EVENT_VALUE_WEB_GET_FAVICON_RESP = VALUE_BEGIN EVENT_VALUE_BASE (module_value MODULE_ID_WEB)"
definition EVENT_VALUE_DATABASE_FAVICON_SAVE :: u32 where
  "EVENT_VALUE_DATABASE_FAVICON_SAVE = VALUE_BEGIN EVENT_VALUE_BASE (module_value MODULE_ID_DATABASE)"

abbreviation mid :: "ModuleId \<Rightarrow> u16" where "mid m \<equiv> ucast (module_value m)"

type_synonym dc_handler = "dc_extra Event \<Rightarrow> datacenter \<Rightarrow> (datacenter \<times> dc_extra request list) outcome"

section \<open>Loading and unloading\<close>

text \<open>\<open>strAutoUpdate\<close> is the entry of the configuration file.\<close>

definition dc_Load :: "bytes \<Rightarrow> datacenter \<Rightarrow> datacenter outcome" where
  "dc_Load strAutoUpdate s =
     (if strAutoUpdate = narrow ''0'' then Inr (s\<lparr>m_bAutoUpdate := False\<rparr>)
      else obind (TrimAll strAutoUpdate) (\<lambda>t. Inr (s\<lparr>m_bAutoUpdate := t \<noteq> []\<rparr>)))"

text \<open>The loop that frees every favourite, of \<open>Unload\<close> and of \<open>OnService_ClearData\<close>.\<close>

definition delete_all :: "datacenter \<Rightarrow> datacenter outcome" where
  "delete_all s =
     obind (ofold (\<lambda>p t. if p = 0 then Inr t else delete_data p t) (m_vFavoriteLineData s) s)
       (\<lambda>t. Inr (t\<lparr>m_vFavoriteLineData := []\<rparr>))"

definition dc_Unload :: "datacenter \<Rightarrow> datacenter outcome" where
  "dc_Unload s = delete_all s"

section \<open>Event handlers\<close>

text \<open>\<open>makeIcon\<close> is \<open>ImageHelper::CreateIconFromBuffer\<close> with size 16, 0 when it fails.\<close>

definition OnEvent_FavoriteIconArrive :: "(bytes \<Rightarrow> nat outcome) \<Rightarrow> dc_handler" where
  "OnEvent_FavoriteIconArrive makeIcon pEvent s =
     (case m_pstExtraInfo pEvent of
        None \<Rightarrow> Inr (s, [])
      | Some (FavIconResp wstrUrl pIconData) \<Rightarrow>
          obind (makeIcon pIconData) (\<lambda>hIcon.
            if hIcon \<noteq> 0 then
              obind (GetDomainFromUrl (Some wstrUrl) True) (\<lambda>wstrDomain.
                Inr (s\<lparr>m_mapDomain2Icon := (m_mapDomain2Icon s)(wstrDomain \<mapsto> hIcon)\<rparr>,
                     [ReqEvent (MakeEvent (mid MODULE_ID_DATACENTER) EVENT_VALUE_DATABASE_FAVICON_SAVE
                        (mid MODULE_ID_DATABASE) 0 0 0 0
                        (Some (FavIconSave (STRNCPY MAX_PATH wstrDomain) pIconData))),
                      ReqEvent (MakeEvent (mid MODULE_ID_DATACENTER) EVENT_VALUE_DATACENTER_FAVORITE_ICON_ARRIVE
                        (mid MODULE_ID_MAINFRAME) 0 0 0 0
                        (Some (FavoriteIconArrive (STRNCPY MAX_PATH wstrDomain) hIcon)))]))
            else Inr (s, []))
      | Some _ \<Rightarrow> Inl BadPointer)"

text \<open>\<open>std::sort\<close> with \<open>CompareFavoriteData\<close> dereferences every element (there are at least two where
  it is called).\<close>

definition CompareFavoriteData :: "FavoriteLineData \<Rightarrow> FavoriteLineData \<Rightarrow> bool" where
  "CompareFavoriteData i j \<longleftrightarrow> nPid i < nPid j"

definition sort_favorites ::
  "((ptr \<Rightarrow> int) \<Rightarrow> ptr list \<Rightarrow> ptr list) \<Rightarrow> datacenter \<Rightarrow> datacenter outcome" where
  "sort_favorites srt s =
     obind (ofold (\<lambda>p _. obind (deref s p) (\<lambda>_. Inr ())) (m_vFavoriteLineData s) ()) (\<lambda>_.
       Inr (s\<lparr>m_vFavoriteLineData := srt (\<lambda>p. nPid (the (dc_heap s p))) (m_vFavoriteLineData s)\<rparr>))"

text \<open>The id of a new favourite: one more than that of the last element of the vector.\<close>

definition next_id :: "datacenter \<Rightarrow> int outcome" where
  "next_id s =
     obind (vec_at s (int (length (m_vFavoriteLineData s)) - 1)) (\<lambda>pLastData.
       if pLastData = 0 then Inr 0
       else obind (deref s pLastData) (\<lambda>d. Inr (wrap32 (nId d + 1))))"

definition OnEvent_AddFavorite ::
  "((ptr \<Rightarrow> int) \<Rightarrow> ptr list \<Rightarrow> ptr list) \<Rightarrow> int \<Rightarrow> dc_handler" where
  "OnEvent_AddFavorite srt now pEvent s =
     (case m_pstExtraInfo pEvent of
        None \<Rightarrow> Inr (s, [])
      | Some (AddFavorite nParentId pszTitle pszUrl) \<Rightarrow>
          obind (next_id s) (\<lambda>i.
            (case new_data ((FavoriteLineData_init now)
                \<lparr>nId := i, nPid := nParentId, szTitle := STRNCPY MAX_LENGTH pszTitle,
                 szUrl := STRNCPY MAX_LENGTH pszUrl\<rparr>) s of
               (p, s1) \<Rightarrow>
                 obind (sort_favorites srt (s1\<lparr>m_vFavoriteLineData := m_vFavoriteLineData s1 @ [p]\<rparr>)) (\<lambda>s2.
                   Inr (s2, [ReqEvent (MakeEvent (mid MODULE_ID_DATACENTER) EVENT_VALUE_DATACENTER_ADD_FAVORITE_RESP
                               (srcMId pEvent) 0 0 0 0 (Some (AddFavoriteResult p)))]))))
      | Some _ \<Rightarrow> Inl BadPointer)"

definition OnEvent_DeleteFavorite :: dc_handler where
  "OnEvent_DeleteFavorite pEvent s =
     (case m_pstExtraInfo pEvent of
        None \<Rightarrow> Inr (s, [])
      | Some (DeleteFavorite i wstrUrl) \<Rightarrow>
          obind (ofold (\<lambda>p t.
                   if p = 0 then Inr t
                   else obind (deref t p) (\<lambda>d.
                     if nPid d = i \<and> wstrUrl = szUrl d then Inr (store p (d\<lparr>bDelete := True\<rparr>) t) else Inr t))
                 (m_vFavoriteLineData s) s)
            (\<lambda>t. Inr (t, []))
      | Some _ \<Rightarrow> Inl BadPointer)"

section \<open>Renumbering\<close>

text \<open>\<open>OnService_ReArrangeFavorite\<close>: the nested loops over the array \<open>pId\<close> of new ids and parent ids,
  then the loop that writes them back.\<close>

definition rearrange_inner :: "datacenter \<Rightarrow> nat \<Rightarrow> nat \<Rightarrow> (int \<times> int) list \<Rightarrow> (int \<times> int) list outcome" where
  "rearrange_inner s i j pId =
     obind (deref s (m_vFavoriteLineData s ! j)) (\<lambda>dj.
     obind (deref s (m_vFavoriteLineData s ! i)) (\<lambda>di.
       Inr (if nPid dj = nId di then pId[j := (fst (pId ! j), int i + 1)] else pId)))"

definition rearrange_outer :: "datacenter \<Rightarrow> nat \<Rightarrow> (int \<times> int) list \<Rightarrow> (int \<times> int) list outcome" where
  "rearrange_outer s i pId =
     obind (ofold (rearrange_inner s i) [0..<length (m_vFavoriteLineData s)] pId) (\<lambda>pId.
       Inr (pId[i := (int i + 1, snd (pId ! i))]))"

definition rearrange_write :: "(int \<times> int) list \<Rightarrow> nat \<Rightarrow> datacenter \<Rightarrow> datacenter outcome" where
  "rearrange_write pId i s =
     obind (deref s (m_vFavoriteLineData s ! i)) (\<lambda>d.
       Inr (store (m_vFavoriteLineData s ! i) (d\<lparr>nId := int i + 1, nPid := snd (pId ! i)\<rparr>) s))"

definition OnService_ReArrangeFavorite :: "datacenter \<Rightarrow> (datacenter \<times> int) outcome" where
  "OnService_ReArrangeFavorite s =
     (let nLen = length (m_vFavoriteLineData s) in
      if nLen = 0 then Inl OutOfRange
      else obind (ofold (rearrange_outer s) [0..<nLen] (replicate nLen (0, 0))) (\<lambda>pId.
             obind (ofold (rearrange_write pId) [0..<nLen] s) (\<lambda>t. Inr (t, int nLen))))"

text \<open>The service call of \<open>OnEvent_AddFavoriteFolder\<close> comes back to this module.\<close>

definition OnEvent_AddFavoriteFolder ::
  "((ptr \<Rightarrow> int) \<Rightarrow> ptr list \<Rightarrow> ptr list) \<Rightarrow> int \<Rightarrow> dc_handler" where
  "OnEvent_AddFavoriteFolder srt now pEvent s =
     (case m_pstExtraInfo pEvent of
        None \<Rightarrow> Inr (s, [])
      | Some (AddFavoriteFold nParentId pszTitle) \<Rightarrow>
          obind (next_id s) (\<lambda>i.
            (case new_data ((FavoriteLineData_init now)
                \<lparr>bFolder := True, nId := i, nPid := nParentId, szTitle := STRNCPY MAX_LENGTH pszTitle\<rparr>) s of
               (p, s1) \<Rightarrow>
                 obind (sort_favorites srt (s1\<lparr>m_vFavoriteLineData := m_vFavoriteLineData s1 @ [p]\<rparr>)) (\<lambda>s2.
                 obind (OnService_ReArrangeFavorite s2) (\<lambda>(s3, n).
                   Inr (s3, [ReqEvent (MakeEvent (mid MODULE_ID_DATACENTER) EVENT_VALUE_DATACENTER_ADD_FAVORITE_FOLD_RESP
                               (srcMId pEvent) 0 0 0 0 (Some (AddFavoriteFoldResult nParentId p)))])))))
      | Some _ \<Rightarrow> Inl BadPointer)"

section \<open>Deleting a folder\<close>

text \<open>\<open>DeleteFavoriteFold\<close> calls itself for the subfolders; \<open>NoReturn\<close> when the recursion is deeper than the fuel.\<close>

definition delete_visit :: "(int \<Rightarrow> datacenter \<Rightarrow> datacenter outcome) \<Rightarrow> int \<Rightarrow> ptr \<Rightarrow> datacenter \<Rightarrow> datacenter outcome" where
  "delete_visit rec_call i p s =
     (if p = 0 then Inr s
      else obind (deref s p) (\<lambda>d.
        if bDelete d then Inr s
        else
          let s1 = (if nId d = i then store p (d\<lparr>bDelete := True\<rparr>) s else s) in
          if nPid d = i then
            (if bFolder d then rec_call (nId d) (store p (d\<lparr>bDelete := True\<rparr>) s1)
             else Inr (store p (d\<lparr>bDelete := True\<rparr>) s1))
          else Inr s1))"

primrec DeleteFavoriteFold :: "nat \<Rightarrow> int \<Rightarrow> datacenter \<Rightarrow> datacenter outcome" where
  "DeleteFavoriteFold 0 i s = Inl NoReturn"
| "DeleteFavoriteFold (Suc k) i s = ofold (delete_visit (DeleteFavoriteFold k) i) (m_vFavoriteLineData s) s"

text \<open>The search for the folder to select next: from \<open>nDeleteId - 2\<close> down to 0.\<close>

fun select_loop :: "datacenter \<Rightarrow> int \<Rightarrow> nat \<Rightarrow> int \<Rightarrow> (int \<times> int) outcome" where
  "select_loop s nParentId 0 pid = Inr (-1, pid)"
| "select_loop s nParentId (Suc i) pid =
     obind (vec_at s (int i)) (\<lambda>p.
       if p = 0 then select_loop s nParentId i pid
       else obind (deref s p) (\<lambda>d.
         if nPid d = nParentId \<and> bFolder d \<and> \<not> bDelete d then Inr (int i, pid)
         else select_loop s nParentId i (if nId d = nParentId then nId d else pid)))"

definition tree_select :: "int \<Rightarrow> dc_extra request" where
  "tree_select i =
     ReqEvent (MakeEvent (mid MODULE_ID_DATACENTER) EVENT_VALUE_DATACENTER_TREELIST_SELECT
       (mid MODULE_ID_MAINFRAME) (of_int i) 0 0 0 None)"

definition OnEvent_DeleteFavoriteFolder :: "nat \<Rightarrow> dc_handler" where
  "OnEvent_DeleteFavoriteFolder fuel pEvent s =
     (if eventValue pEvent \<noteq> EVENT_VALUE_DATACENTER_DELETE_FAVORITE_FOLD then Inr (s, [])
      else
        let nDeleteId = sint (param0 pEvent) in
        obind (vec_at s (nDeleteId - 1)) (\<lambda>p.
          if p = 0 then Inr (s, [])
          else obind (deref s p) (\<lambda>d.
            obind (select_loop s (nPid d) (nat (nDeleteId - 1)) 0) (\<lambda>(i, pid).
              let reqs = (if i = -1 \<and> pid = 0 then [tree_select 0] else []);
                  nSelectIndex = (if i = -1 then (if pid = 0 then 0 else pid - 1) else i)
              in obind (DeleteFavoriteFold fuel nDeleteId s) (\<lambda>t.
                 obind (vec_at t nSelectIndex) (\<lambda>q.
                   if q = 0 then Inr (t, reqs)
                   else obind (deref t q) (\<lambda>e. Inr (t, reqs @ [tree_select (nId e)]))))))))"

definition OnEvent_SetAutoUpdate :: dc_handler where
  "OnEvent_SetAutoUpdate pEvent s =
     (if eventValue pEvent \<noteq> EVENT_VALUE_DATACENTER_SET_AUTOUPDATE then Inr (s, [])
      else Inr (s\<lparr>m_bAutoUpdate := param0 pEvent \<noteq> 0\<rparr>, []))"

section \<open>Services\<close>

text \<open>The results a service writes into the structure of its caller are returned.  The vector is shared with the
  caller of \<open>OnService_GetFavoriteVector\<close>.\<close>

definition OnService_GetFavoriteVector :: "datacenter \<Rightarrow> ptr list" where
  "OnService_GetFavoriteVector s = m_vFavoriteLineData s"

definition OnService_GetFavoriteData :: "datacenter \<Rightarrow> ptr list option \<times> int" where
  "OnService_GetFavoriteData s =
     (if length (m_vFavoriteLineData s) = 0 then (None, 0)
      else (Some (m_vFavoriteLineData s), int (length (m_vFavoriteLineData s))))"

text \<open>\<open>loadIcon\<close> is the icon service of the database, 0 when it has none.  The second component is the URL
  asked of the web module, if any; \<open>hIcon\<close> is the value the caller passed in.\<close>

definition OnService_GetFavoriteIcon ::
  "(wstring \<Rightarrow> nat) \<Rightarrow> wstring \<Rightarrow> nat \<Rightarrow> datacenter \<Rightarrow> (datacenter \<times> nat \<times> wstring option) outcome" where
  "OnService_GetFavoriteIcon loadIcon wstrUrl hIcon s =
     (if wstrUrl = [] then Inr (s, hIcon, None)
      else obind (GetDomainFromUrl (Some wstrUrl) True) (\<lambda>wstrDomain.
        (case m_mapDomain2Icon s wstrDomain of
           Some h \<Rightarrow> Inr (s, h, None)
         | None \<Rightarrow>
             (let h = loadIcon (STRNCPY MAX_PATH wstrDomain) in
              if h \<noteq> 0 then Inr (s\<lparr>m_mapDomain2Icon := (m_mapDomain2Icon s)(wstrDomain \<mapsto> h)\<rparr>, h, None)
              else Inr (s, m_hDefaultIcon s, Some (STRNCPY MAX_PATH (wstrDomain @ wide ''/favicon.ico'')))))))"

text \<open>The loop stops as soon as both flags are set.\<close>

fun check_loop :: "datacenter \<Rightarrow> int \<Rightarrow> ptr list \<Rightarrow> bool \<times> bool \<Rightarrow> (bool \<times> bool) outcome" where
  "check_loop s i [] (sub, fav) = Inr (sub, fav)"
| "check_loop s i (p # ps) (sub, fav) =
     (if p = 0 then check_loop s i ps (sub, fav)
      else obind (deref s p) (\<lambda>d.
        let sub' = (if nPid d = i \<and> bFolder d then True else sub);
            fav' = (if nPid d = i \<and> \<not> bFolder d then True else fav)
        in if sub' \<and> fav' then Inr (sub', fav') else check_loop s i ps (sub', fav')))"

definition OnService_CheckExistSubFolder :: "int \<Rightarrow> datacenter \<Rightarrow> (bool \<times> bool) outcome" where
  "OnService_CheckExistSubFolder nFoldId s = check_loop s nFoldId (m_vFavoriteLineData s) (False, False)"

definition sub_visit ::
  "datacenter \<Rightarrow> (int \<Rightarrow> int list \<Rightarrow> int list outcome) \<Rightarrow> int \<Rightarrow> ptr \<Rightarrow> int list \<Rightarrow> int list outcome" where
  "sub_visit s rec_call i p vId =
     (if p = 0 then Inr vId
      else obind (deref s p) (\<lambda>d.
        if bDelete d then Inr vId
        else if nPid d = i \<and> bFolder d then rec_call (nId d) (vId @ [nId d])
        else Inr vId))"

primrec GetSubFolderId :: "nat \<Rightarrow> datacenter \<Rightarrow> int \<Rightarrow> int list \<Rightarrow> int list outcome" where
  "GetSubFolderId 0 s i vId = Inl NoReturn"
| "GetSubFolderId (Suc k) s i vId = ofold (sub_visit s (GetSubFolderId k s) i) (m_vFavoriteLineData s) vId"

definition OnService_GetSubFolderId :: "nat \<Rightarrow> int \<Rightarrow> datacenter \<Rightarrow> (int \<times> int list) outcome" where
  "OnService_GetSubFolderId fuel nFoldId s =
     obind (GetSubFolderId fuel s nFoldId []) (\<lambda>v. Inr (int (length v), v))"

definition OnService_GetFavoriteNumAtFold :: "nat \<Rightarrow> int \<Rightarrow> datacenter \<Rightarrow> int outcome" where
  "OnService_GetFavoriteNumAtFold fuel nFolderId s =
     obind (GetSubFolderId fuel s nFolderId []) (\<lambda>v. Inr (int (length v)))"

definition OnService_GetAutoUpdate :: "datacenter \<Rightarrow> bool" where
  "OnService_GetAutoUpdate s = m_bAutoUpdate s"

text \<open>\<open>resize\<close> keeps the first pointers; each slot is then overwritten with a new favourite, and what it
  pointed to before is not freed.  A negative count makes \<open>resize\<close> throw.\<close>

definition init_slot :: "int \<Rightarrow> nat \<Rightarrow> datacenter \<Rightarrow> datacenter" where
  "init_slot now i s =
     (case new_data (FavoriteLineData_init now) s of
        (p, t) \<Rightarrow> t\<lparr>m_vFavoriteLineData := (m_vFavoriteLineData t)[i := p]\<rparr>)"

definition OnService_InitFavoriteData :: "int \<Rightarrow> int \<Rightarrow> datacenter \<Rightarrow> datacenter outcome" where
  "OnService_InitFavoriteData now nNum s =
     (if nNum < 0 then Inl OutOfRange
      else
        let n = nat nNum; v = m_vFavoriteLineData s in
        Inr (fold (init_slot now) [0..<n]
               (s\<lparr>m_vFavoriteLineData := take n v @ replicate (n - length v) 0\<rparr>)))"

definition OnService_ClearData :: "datacenter \<Rightarrow> datacenter outcome" where
  "OnService_ClearData s = delete_all s"

section \<open>The event map\<close>

definition dc_eventMap ::
  "((ptr \<Rightarrow> int) \<Rightarrow> ptr list \<Rightarrow> ptr list) \<Rightarrow> int \<Rightarrow> (bytes \<Rightarrow> nat outcome) \<Rightarrow> nat \<Rightarrow> (u32 \<times> dc_handler option) list" where
  "dc_eventMap srt now makeIcon fuel =
     handler_table
      [(EVENT_VALUE_WEB_GET_FAVICON_RESP, OnEvent_FavoriteIconArrive makeIcon),
       (EVENT_VALUE_DATACENTER_ADD_FAVORITE, OnEvent_AddFavorite srt now),
       (EVENT_VALUE_DATACENTER_DELETE_FAVORITE, OnEvent_DeleteFavorite),
       (EVENT_VALUE_DATACENTER_ADD_FAVORITE_FOLD, OnEvent_AddFavoriteFolder srt now),
       (EVENT_VALUE_DATACENTER_DELETE_FAVORITE_FOLD, OnEvent_DeleteFavoriteFolder fuel),
       (EVENT_VALUE_DATACENTER_SET_AUTOUPDATE, OnEvent_SetAutoUpdate)]"

section \<open>Well-formed vectors\<close>

text \<open>Every pointer is NULL or points to a favourite, no favourite is in the vector twice, and every
  address in use is below the next one.\<close>

definition dc_wf :: "datacenter \<Rightarrow> bool" where
  "dc_wf s \<longleftrightarrow>
     (\<forall>p \<in> set (m_vFavoriteLineData s). p \<noteq> 0 \<longrightarrow> dc_heap s p \<noteq> None) \<and>
     distinct (filter (\<lambda>p. p \<noteq> 0) (m_vFavoriteLineData s)) \<and>
     0 < next_ptr s \<and> (\<forall>p. dc_heap s p \<noteq> None \<longrightarrow> p < next_ptr s)"

definition no_nulls :: "datacenter \<Rightarrow> bool" where
  "no_nulls s \<longleftrightarrow> 0 \<notin> set (m_vFavoriteLineData s)"

text \<open>The favourite a pointer stands for.\<close>

abbreviation fav :: "datacenter \<Rightarrow> ptr \<Rightarrow> FavoriteLineData" where
  "fav s p \<equiv> the (dc_heap s p)"

lemma deref_wf: "dc_wf s \<Longrightarrow> p \<in> set (m_vFavoriteLineData s) \<Longrightarrow> p \<noteq> 0 \<Longrightarrow> deref s p = Inr (fav s p)"
  by (auto simp: dc_wf_def deref_def split: option.split)

lemma store_simps [simp]:
  "m_vFavoriteLineData (store p d s) = m_vFavoriteLineData s" "next_ptr (store p d s) = next_ptr s"
  "m_mapDomain2Icon (store p d s) = m_mapDomain2Icon s" "m_hDefaultIcon (store p d s) = m_hDefaultIcon s"
  "m_bAutoUpdate (store p d s) = m_bAutoUpdate s" "dc_heap (store p d s) = (dc_heap s)(p \<mapsto> d)"
  by (simp_all add: store_def)

lemma dc_wf_store: "dc_wf s \<Longrightarrow> dc_heap s p \<noteq> None \<Longrightarrow> dc_wf (store p d s)"
  by (auto simp: dc_wf_def)

locale std_sort =
  fixes srt :: "('a \<Rightarrow> int) \<Rightarrow> 'a list \<Rightarrow> 'a list"
  assumes srt_mset: "mset (srt k xs) = mset xs"
    and srt_sorted: "sorted (map k (srt k xs))"
begin

lemma srt_set: "set (srt k xs) = set xs"
  by (metis srt_mset set_mset_mset)

lemma srt_length: "length (srt k xs) = length xs"
  by (metis srt_mset size_mset)

lemma srt_filter_distinct: "distinct (filter P (srt k xs)) = distinct (filter P xs)"
  by (metis srt_mset mset_filter mset_eq_imp_distinct_iff)

end

text \<open>Insertion sort of the library is one such function; so is every correct \<open>std::sort\<close>.\<close>

interpretation sort_key: std_sort "sort_key :: ('a \<Rightarrow> int) \<Rightarrow> 'a list \<Rightarrow> 'a list"
  by unfold_locales (simp_all add: sorted_sort_key)

end
