(* ===== verification/Favorite_Tree.thy ===== *)
theory Favorite_Tree
  imports Data_Center
begin

text \<open>
  What the handlers of \<open>Data_Center\<close> do to the tree of favourites: deleting a folder marks exactly the
  folder, its direct entries and everything below its living subfolders; renumbering keeps the tree; adding keeps
  the vector sorted; and which calls do not come back.
\<close>

section \<open>Sample vectors\<close>

text \<open>The favourites \<open>xs\<close> at the addresses 1, 2, and so on.\<close>

definition sample_dc :: "FavoriteLineData list \<Rightarrow> datacenter" where
  "sample_dc xs =
     \<lparr>m_vFavoriteLineData = [1..<length xs + 1],
      dc_heap = (\<lambda>p. if 0 < p \<and> p \<le> length xs then Some (xs ! (p - 1)) else None),
      next_ptr = length xs + 1, m_mapDomain2Icon = (\<lambda>_. None), m_hDefaultIcon = 0, m_bAutoUpdate = False\<rparr>"

definition sample_folder :: "int \<Rightarrow> int \<Rightarrow> FavoriteLineData" where
  "sample_folder i pid = (FavoriteLineData_init 0)\<lparr>nId := i, nPid := pid, bFolder := True\<rparr>"

definition sample_url :: "int \<Rightarrow> int \<Rightarrow> FavoriteLineData" where
  "sample_url i pid = (FavoriteLineData_init 0)\<lparr>nId := i, nPid := pid, szUrl := [0x61]\<rparr>"

lemma sample_wf: "dc_wf (sample_dc xs)" and sample_no_nulls: "no_nulls (sample_dc xs)"
  by (auto simp: dc_wf_def no_nulls_def sample_dc_def simp del: upt_Suc split: if_splits)

section \<open>Deleting a folder\<close>

definition vec_ptrs :: "datacenter \<Rightarrow> ptr set" where
  "vec_ptrs s = {p \<in> set (m_vFavoriteLineData s). p \<noteq> 0}"

definition alive :: "datacenter \<Rightarrow> ptr \<Rightarrow> bool" where
  "alive s p \<longleftrightarrow> p \<in> vec_ptrs s \<and> \<not> bDelete (fav s p)"

text \<open>The ids reached from \<open>n\<close> through living folders.\<close>

inductive_set reached :: "datacenter \<Rightarrow> int \<Rightarrow> int set" for s n where
  reached_root: "n \<in> reached s n"
| reached_folder: "i \<in> reached s n \<Longrightarrow> alive s c \<Longrightarrow> bFolder (fav s c) \<Longrightarrow> nPid (fav s c) = i \<Longrightarrow>
    nId (fav s c) \<in> reached s n"

definition doomed :: "datacenter \<Rightarrow> int \<Rightarrow> ptr set" where
  "doomed s n = {p. alive s p \<and> (nId (fav s p) \<in> reached s n \<or> nPid (fav s p) \<in> reached s n)}"

definition mark_deleted :: "ptr set \<Rightarrow> datacenter \<Rightarrow> datacenter" where
  "mark_deleted D s =
     s\<lparr>dc_heap := (\<lambda>p. if p \<in> D then map_option (\<lambda>d. d\<lparr>bDelete := True\<rparr>) (dc_heap s p) else dc_heap s p)\<rparr>"

lemma mark_deleted_vec [simp]: "m_vFavoriteLineData (mark_deleted D s) = m_vFavoriteLineData s"
  by (simp add: mark_deleted_def)

lemma mark_deleted_empty [simp]: "mark_deleted {} s = s"
  by (simp add: mark_deleted_def)

lemma reached_trans:
  assumes "m \<in> reached s n" and "i \<in> reached s m" shows "i \<in> reached s n"
  using assms(2,1) by induction (auto intro: reached.intros)

lemma doomed_mono: "m \<in> reached s n \<Longrightarrow> doomed s m \<subseteq> doomed s n"
  by (auto simp: doomed_def intro: reached_trans)

lemma finite_vec_ptrs [simp]: "finite (vec_ptrs s)"
  by (simp add: vec_ptrs_def)

text \<open>Every entry with id or parent \<open>i\<close> is marked.\<close>

definition settled :: "datacenter \<Rightarrow> ptr set \<Rightarrow> int \<Rightarrow> bool" where
  "settled s D i \<longleftrightarrow>
     (\<forall>p \<in> vec_ptrs s. nId (fav s p) = i \<or> nPid (fav s p) = i \<longrightarrow> p \<in> D \<or> bDelete (fav s p))"

lemma settled_mono: "settled s D i \<Longrightarrow> D \<subseteq> D' \<Longrightarrow> settled s D' i"
  by (auto simp: settled_def)

text \<open>What a call of \<open>DeleteFavoriteFold\<close> leaves behind, relative to the marks \<open>D\<close> it found.\<close>

definition delete_post :: "datacenter \<Rightarrow> int \<Rightarrow> ptr set \<Rightarrow> ptr set \<Rightarrow> bool" where
  "delete_post s n D D' \<longleftrightarrow>
     D \<subseteq> D' \<and> D' \<subseteq> vec_ptrs s \<and> settled s D' n \<and> D' - D \<subseteq> doomed s n \<and>
     (\<forall>c \<in> D' - D. bFolder (fav s c) \<longrightarrow> settled s D' (nId (fav s c)))"

text \<open>The same while the loop has gone through \<open>pre\<close>.\<close>

definition delete_inv :: "datacenter \<Rightarrow> int \<Rightarrow> ptr set \<Rightarrow> ptr list \<Rightarrow> ptr set \<Rightarrow> bool" where
  "delete_inv s n D pre E \<longleftrightarrow>
     D \<subseteq> E \<and> E \<subseteq> vec_ptrs s \<and> E - D \<subseteq> doomed s n \<and>
     (\<forall>p \<in> set pre. p \<noteq> 0 \<longrightarrow> nId (fav s p) = n \<or> nPid (fav s p) = n \<longrightarrow> p \<in> E \<or> bDelete (fav s p)) \<and>
     (\<forall>c \<in> E - D. bFolder (fav s c) \<longrightarrow> settled s E (nId (fav s c)) \<or> nId (fav s c) = n)"

lemma deref_mark:
  assumes "dc_wf s" and "p \<in> vec_ptrs s"
  shows "deref (mark_deleted E s) p = Inr (if p \<in> E then (fav s p)\<lparr>bDelete := True\<rparr> else fav s p)"
  using assms by (auto simp: deref_def mark_deleted_def dc_wf_def vec_ptrs_def)

lemma heap_vec_ptrs: "dc_wf s \<Longrightarrow> p \<in> vec_ptrs s \<Longrightarrow> dc_heap s p = Some (fav s p)"
  by (auto simp: dc_wf_def vec_ptrs_def)

lemma store_mark:
  assumes "dc_wf s" and "p \<in> vec_ptrs s"
  shows "store p ((fav s p)\<lparr>bDelete := True\<rparr>) (mark_deleted E s) = mark_deleted (insert p E) s"
proof -
  obtain d where d: "dc_heap s p = Some d" using heap_vec_ptrs [OF assms] by blast
  have "(\<lambda>q. if q \<in> E then map_option (bDelete_update (\<lambda>_. True)) (dc_heap s q) else dc_heap s q)
      (p \<mapsto> (fav s p)\<lparr>bDelete := True\<rparr>) =
    (\<lambda>q. if q \<in> insert p E then map_option (bDelete_update (\<lambda>_. True)) (dc_heap s q) else dc_heap s q)"
    using d by (intro ext) simp
  then show ?thesis by (simp add: store_def mark_deleted_def)
qed

lemma delete_visit_mark:
  assumes "dc_wf s" and "p \<in> vec_ptrs s"
  shows "delete_visit rec_call n p (mark_deleted E s) =
    (if p \<in> E \<or> bDelete (fav s p) then Inr (mark_deleted E s)
     else if nPid (fav s p) = n \<and> bFolder (fav s p) then rec_call (nId (fav s p)) (mark_deleted (insert p E) s)
     else if nPid (fav s p) = n \<or> nId (fav s p) = n then Inr (mark_deleted (insert p E) s)
     else Inr (mark_deleted E s))"
  using assms store_mark [OF assms, of E] store_mark [OF assms, of "insert p E"]
  by (auto simp: delete_visit_def deref_mark vec_ptrs_def Let_def)

lemma doomed_here:
  "p \<in> vec_ptrs s \<Longrightarrow> \<not> bDelete (fav s p) \<Longrightarrow> nId (fav s p) = n \<or> nPid (fav s p) = n \<Longrightarrow> p \<in> doomed s n"
  by (auto simp: doomed_def alive_def intro: reached_root)

lemma delete_invD:
  assumes "delete_inv s n D pre E"
  shows "D \<subseteq> E" "E \<subseteq> vec_ptrs s" "E - D \<subseteq> doomed s n"
    "\<And>p. p \<in> set pre \<Longrightarrow> p \<noteq> 0 \<Longrightarrow> nId (fav s p) = n \<or> nPid (fav s p) = n \<Longrightarrow> p \<in> E \<or> bDelete (fav s p)"
    "\<And>c. c \<in> E - D \<Longrightarrow> bFolder (fav s c) \<Longrightarrow> settled s E (nId (fav s c)) \<or> nId (fav s c) = n"
  using assms unfolding delete_inv_def by blast+

lemma delete_inv_extend:
  assumes "delete_inv s n D pre E" and "E \<subseteq> F" and "F \<subseteq> vec_ptrs s" and "F - E \<subseteq> doomed s n"
    and "p \<noteq> 0 \<Longrightarrow> nId (fav s p) = n \<or> nPid (fav s p) = n \<Longrightarrow> p \<in> F \<or> bDelete (fav s p)"
    and "\<And>c. c \<in> F - E \<Longrightarrow> bFolder (fav s c) \<Longrightarrow> settled s F (nId (fav s c)) \<or> nId (fav s c) = n"
  shows "delete_inv s n D (pre @ [p]) F"
  unfolding delete_inv_def
proof (intro conjI ballI impI)
  note inv = delete_invD [OF assms(1)]
  show "D \<subseteq> F" using inv(1) assms(2) by blast
  show "F \<subseteq> vec_ptrs s" by (rule assms(3))
  show "F - D \<subseteq> doomed s n" using inv(3) assms(4) by blast
  fix q assume "q \<in> set (pre @ [p])" "q \<noteq> 0" "nId (fav s q) = n \<or> nPid (fav s q) = n"
  then show "q \<in> F \<or> bDelete (fav s q)" using inv(4) assms(2,5) by auto
next
  note inv = delete_invD [OF assms(1)]
  fix c assume "c \<in> F - D" "bFolder (fav s c)"
  then show "settled s F (nId (fav s c)) \<or> nId (fav s c) = n"
    using inv(5) [of c] assms(6) [of c] settled_mono [OF _ assms(2)] by blast
qed

lemma delete_inv_same:
  assumes "delete_inv s n D pre E"
    and "p \<noteq> 0 \<Longrightarrow> nId (fav s p) = n \<or> nPid (fav s p) = n \<Longrightarrow> p \<in> E \<or> bDelete (fav s p)"
  shows "delete_inv s n D (pre @ [p]) E"
  using assms(2) delete_invD(2) [OF assms(1)] by (intro delete_inv_extend [OF assms(1)]) auto

lemma delete_inv_insert:
  assumes "delete_inv s n D pre E" and p: "p \<in> vec_ptrs s" "\<not> bDelete (fav s p)"
    and "nId (fav s p) = n \<or> nPid (fav s p) = n" and "\<not> (nPid (fav s p) = n \<and> bFolder (fav s p))"
  shows "delete_inv s n D (pre @ [p]) (insert p E)"
  using assms(4,5) p delete_invD(2) [OF assms(1)] doomed_here [OF p assms(4)]
  by (intro delete_inv_extend [OF assms(1)]) auto

lemma delete_inv_call:
  assumes inv: "delete_inv s n D pre E" and p: "p \<in> vec_ptrs s" "\<not> bDelete (fav s p)"
    and sub: "nPid (fav s p) = n" "bFolder (fav s p)"
    and post: "delete_post s (nId (fav s p)) (insert p E) E'"
  shows "delete_inv s n D (pre @ [p]) E'"
proof (rule delete_inv_extend [OF inv])
  have "nId (fav s p) \<in> reached s n"
    using p sub by (auto simp: alive_def intro: reached_folder [OF reached_root])
  then have "E' - insert p E \<subseteq> doomed s n"
    using post doomed_mono unfolding delete_post_def by blast
  then show "E' - E \<subseteq> doomed s n" using doomed_here [OF p] sub(1) by auto
qed (use post in \<open>auto simp: delete_post_def\<close>)

lemma delete_loop:
  assumes wf: "dc_wf s"
    and rec: "\<And>E m. E \<subseteq> vec_ptrs s \<Longrightarrow> card {p \<in> vec_ptrs s - E. \<not> bDelete (fav s p)} < k \<Longrightarrow>
      \<exists>E'. rec_call m (mark_deleted E s) = Inr (mark_deleted E' s) \<and> delete_post s m E E'"
    and fuel: "card {p \<in> vec_ptrs s - D. \<not> bDelete (fav s p)} < Suc k"
    and "delete_inv s n D pre E" and "set ps \<subseteq> set (m_vFavoriteLineData s)"
  shows "\<exists>E'. ofold (delete_visit rec_call n) ps (mark_deleted E s) = Inr (mark_deleted E' s) \<and>
           delete_inv s n D (pre @ ps) E'"
  using assms(4,5)
proof (induction ps arbitrary: pre E)
  case (Cons p ps)
  have "\<exists>F. delete_visit rec_call n p (mark_deleted E s) = Inr (mark_deleted F s) \<and> delete_inv s n D (pre @ [p]) F"
  proof (cases "p \<in> vec_ptrs s")
    case False
    then have "p = 0" using Cons.prems(2) by (auto simp: vec_ptrs_def)
    then show ?thesis
      using delete_inv_same [OF Cons.prems(1), of p] by (auto simp: delete_visit_def)
  next
    case p: True
    consider (skip) "p \<in> E \<or> bDelete (fav s p) \<or> nPid (fav s p) \<noteq> n \<and> nId (fav s p) \<noteq> n"
      | (call) "p \<notin> E" "\<not> bDelete (fav s p)" "nPid (fav s p) = n" "bFolder (fav s p)"
      | (hit) "p \<notin> E" "\<not> bDelete (fav s p)" "nId (fav s p) = n \<or> nPid (fav s p) = n"
          "\<not> (nPid (fav s p) = n \<and> bFolder (fav s p))" by blast
    then show ?thesis
    proof cases
      case skip
      then have "delete_inv s n D (pre @ [p]) E" by (intro delete_inv_same [OF Cons.prems(1)]) blast
      moreover have "delete_visit rec_call n p (mark_deleted E s) = Inr (mark_deleted E s)"
        using skip unfolding delete_visit_mark [OF wf p] by auto
      ultimately show ?thesis by blast
    next
      case call
      have E: "insert p E \<subseteq> vec_ptrs s" "D \<subseteq> E" using Cons.prems(1) p by (auto simp: delete_inv_def)
      have "{q \<in> vec_ptrs s - insert p E. \<not> bDelete (fav s q)} \<subset> {q \<in> vec_ptrs s - D. \<not> bDelete (fav s q)}"
        using E call p by auto
      then have "card {q \<in> vec_ptrs s - insert p E. \<not> bDelete (fav s q)} < card {q \<in> vec_ptrs s - D. \<not> bDelete (fav s q)}"
        by (rule psubset_card_mono [rotated]) simp
      then have "card {q \<in> vec_ptrs s - insert p E. \<not> bDelete (fav s q)} < k" using fuel by linarith
      then obtain F where F: "rec_call (nId (fav s p)) (mark_deleted (insert p E) s) = Inr (mark_deleted F s)"
        "delete_post s (nId (fav s p)) (insert p E) F" using rec [OF E(1)] by blast
      have "delete_visit rec_call n p (mark_deleted E s) = Inr (mark_deleted F s)"
        using call F(1) unfolding delete_visit_mark [OF wf p] by simp
      then show ?thesis using delete_inv_call [OF Cons.prems(1) p call(2,3,4) F(2)] by blast
    next
      case hit
      have "delete_visit rec_call n p (mark_deleted E s) = Inr (mark_deleted (insert p E) s)"
        using hit unfolding delete_visit_mark [OF wf p] by auto
      then show ?thesis using delete_inv_insert [OF Cons.prems(1) p hit(2,3,4)] by blast
    qed
  qed
  then obtain F where "delete_visit rec_call n p (mark_deleted E s) = Inr (mark_deleted F s)"
    "delete_inv s n D (pre @ [p]) F" by blast
  then show ?case using Cons.IH [of "pre @ [p]" F] Cons.prems(2) by simp
qed auto

lemma delete_inv_post:
  assumes "delete_inv s n D (m_vFavoriteLineData s) E"
  shows "delete_post s n D E"
proof -
  have "settled s E n" using assms by (auto simp: delete_inv_def settled_def vec_ptrs_def)
  then show ?thesis using assms unfolding delete_inv_def delete_post_def by auto
qed

lemma DeleteFavoriteFold_post:
  assumes "dc_wf s"
  shows "D \<subseteq> vec_ptrs s \<Longrightarrow> card {p \<in> vec_ptrs s - D. \<not> bDelete (fav s p)} < k \<Longrightarrow>
    \<exists>E. DeleteFavoriteFold k n (mark_deleted D s) = Inr (mark_deleted E s) \<and> delete_post s n D E"
proof (induction k arbitrary: n D)
  case (Suc k)
  have "delete_inv s n D [] D" using Suc.prems(1) by (auto simp: delete_inv_def)
  from delete_loop [OF assms Suc.IH Suc.prems(2) this, of "m_vFavoriteLineData s"]
  show ?case using delete_inv_post by auto
qed simp

lemma delete_post_doomed:
  assumes "delete_post s n {} E"
  shows "E = doomed s n"
proof
  show "E \<subseteq> doomed s n" using assms by (auto simp: delete_post_def)
  have "settled s E i" if "i \<in> reached s n" for i
    using that
  proof induction
    case reached_root
    then show ?case using assms by (simp add: delete_post_def)
  next
    case (reached_folder i c)
    then have "c \<in> E" by (auto simp: settled_def alive_def)
    then show ?case using assms reached_folder by (auto simp: delete_post_def)
  qed
  then show "doomed s n \<subseteq> E" by (auto simp: doomed_def settled_def alive_def)
qed

text \<open>
  C8: On a well-formed vector, \<open>DeleteFavoriteFold\<close> with the id \<open>n\<close> returns, with a recursion no deeper than the number
  of living entries, and marks as deleted exactly the living entries whose id or parent is reached from \<open>n\<close> through living
  folders; nothing else changes.  Folders that form a cycle do no harm.
\<close>

theorem delete_folder_exact:
  assumes "dc_wf s" and "card {p. alive s p} < k"
  shows "DeleteFavoriteFold k n s = Inr (mark_deleted (doomed s n) s)"
proof -
  have "{p \<in> vec_ptrs s - {}. \<not> bDelete (fav s p)} = {p. alive s p}" by (auto simp: alive_def)
  then obtain E where "DeleteFavoriteFold k n s = Inr (mark_deleted E s)" "delete_post s n {} E"
    using DeleteFavoriteFold_post [OF assms(1), of "{}" k n] assms(2) by auto
  then show ?thesis using delete_post_doomed by simp
qed

lemma card_alive: "card {p. alive s p} \<le> length (m_vFavoriteLineData s)"
proof -
  have "card {p. alive s p} \<le> card (set (m_vFavoriteLineData s))"
    by (rule card_mono) (auto simp: alive_def vec_ptrs_def)
  then show ?thesis using card_length le_trans by blast
qed

theorem delete_folder_exact_witness:
  "DeleteFavoriteFold 4 1 (sample_dc [sample_folder 1 0, sample_folder 2 1, sample_url 3 2]) =
     Inr (mark_deleted (doomed (sample_dc [sample_folder 1 0, sample_folder 2 1, sample_url 3 2]) 1)
       (sample_dc [sample_folder 1 0, sample_folder 2 1, sample_url 3 2]))"
  using card_alive [of "sample_dc [sample_folder 1 0, sample_folder 2 1, sample_url 3 2]"]
  by (intro delete_folder_exact sample_wf) (simp add: sample_dc_def)

section \<open>Subfolders\<close>

text \<open>From the id of a folder to the id of a living subfolder.\<close>

definition child_rel :: "datacenter \<Rightarrow> (int \<times> int) set" where
  "child_rel s = {(nPid (fav s c), nId (fav s c)) | c. alive s c \<and> bFolder (fav s c)}"

definition below :: "datacenter \<Rightarrow> int \<Rightarrow> int set" where
  "below s n = {i. (n, i) \<in> (child_rel s)\<^sup>+}"

lemma below_step: "below s n = (\<Union>i \<in> {i. (n, i) \<in> child_rel s}. insert i (below s i))"
  by (auto simp: below_def dest: tranclD intro: trancl_into_trancl2 elim: converse_tranclE)

lemma sub_visit_wf:
  assumes "dc_wf s" and "p \<in> set (m_vFavoriteLineData s)"
  shows "sub_visit s rec_call n p v =
    (if alive s p \<and> bFolder (fav s p) \<and> nPid (fav s p) = n then rec_call (nId (fav s p)) (v @ [nId (fav s p)])
     else Inr v)"
  using assms by (auto simp: sub_visit_def deref_wf alive_def vec_ptrs_def)

definition sub_ids :: "datacenter \<Rightarrow> int \<Rightarrow> ptr list \<Rightarrow> int list" where
  "sub_ids s n ps = map (\<lambda>p. nId (fav s p)) (filter (\<lambda>p. alive s p \<and> bFolder (fav s p) \<and> nPid (fav s p) = n) ps)"

lemma sub_ids_Cons:
  "sub_ids s n (p # ps) =
     (if alive s p \<and> bFolder (fav s p) \<and> nPid (fav s p) = n then nId (fav s p) # sub_ids s n ps else sub_ids s n ps)"
  by (simp add: sub_ids_def)

lemma sub_ids_vec: "set (sub_ids s n (m_vFavoriteLineData s)) = {i. (n, i) \<in> child_rel s}"
  by (auto simp: sub_ids_def child_rel_def alive_def vec_ptrs_def)

lemma sub_loop:
  assumes "dc_wf s"
    and rec: "\<And>m v. m \<in> set (sub_ids s n ps) \<Longrightarrow> \<exists>w. rec_call m v = Inr (v @ w) \<and> set w = below s m"
    and "set ps \<subseteq> set (m_vFavoriteLineData s)"
  shows "\<exists>w. ofold (sub_visit s rec_call n) ps v = Inr (v @ w) \<and>
    set w = (\<Union>i \<in> set (sub_ids s n ps). insert i (below s i))"
  using assms(2,3)
proof (induction ps arbitrary: v)
  case (Cons p ps)
  let ?i = "nId (fav s p)"
  have p: "p \<in> set (m_vFavoriteLineData s)" and ps: "set ps \<subseteq> set (m_vFavoriteLineData s)" using Cons.prems by simp_all
  have IH: "\<exists>w. ofold (sub_visit s rec_call n) ps u = Inr (u @ w) \<and>
    set w = (\<Union>i \<in> set (sub_ids s n ps). insert i (below s i))" for u
    using Cons.prems(1) ps by (intro Cons.IH) (simp_all add: sub_ids_Cons)
  show ?case
  proof (cases "alive s p \<and> bFolder (fav s p) \<and> nPid (fav s p) = n")
    case True
    then obtain w where w: "rec_call ?i (v @ [?i]) = Inr ((v @ [?i]) @ w)" "set w = below s ?i"
      using Cons.prems(1) [of ?i "v @ [?i]"] by (auto simp: sub_ids_Cons)
    from IH [of "(v @ [?i]) @ w"] obtain w' where
      w': "ofold (sub_visit s rec_call n) ps ((v @ [?i]) @ w) = Inr (((v @ [?i]) @ w) @ w')"
      "set w' = (\<Union>i \<in> set (sub_ids s n ps). insert i (below s i))" by blast
    have "sub_visit s rec_call n p v = Inr ((v @ [?i]) @ w)"
      using True w(1) by (simp add: sub_visit_wf [OF assms(1) p])
    then have "ofold (sub_visit s rec_call n) (p # ps) v = Inr (v @ (?i # w @ w'))" using w'(1) by simp
    moreover have "set (?i # w @ w') = (\<Union>i \<in> set (sub_ids s n (p # ps)). insert i (below s i))"
      using True w(2) w'(2) by (simp add: sub_ids_Cons)
    ultimately show ?thesis by blast
  next
    case False
    then have "sub_visit s rec_call n p v = Inr v" "sub_ids s n (p # ps) = sub_ids s n ps"
      by (simp_all only: sub_visit_wf [OF assms(1) p] sub_ids_Cons if_False)
    then show ?thesis using IH [of v] by simp
  qed
qed (simp add: sub_ids_def)

text \<open>
  Note: When the living folders form a forest, witnessed by a rank that falls from parent to child, a recursion
  deeper than the rank of the folder lists exactly the ids of all folders below it, and appends them to
  what the caller has.
\<close>

theorem subfolders_complete:
  assumes "dc_wf s" and "\<forall>(i, j) \<in> child_rel s. rank j < rank i" and "rank n < k"
  shows "\<exists>w. GetSubFolderId k s n v = Inr (v @ w) \<and> set w = below s n"
  using assms(3)
proof (induction k arbitrary: n v)
  case (Suc k)
  have rec: "\<exists>w. GetSubFolderId k s m u = Inr (u @ w) \<and> set w = below s m" if "(n, m) \<in> child_rel s" for m u
    using that assms(2) Suc.prems by (intro Suc.IH) fastforce
  have "\<exists>w. ofold (sub_visit s (GetSubFolderId k s) n) (m_vFavoriteLineData s) v = Inr (v @ w) \<and>
    set w = (\<Union>i \<in> set (sub_ids s n (m_vFavoriteLineData s)). insert i (below s i))"
    using rec by (intro sub_loop [OF assms(1)]) (simp_all add: sub_ids_vec)
  then show ?case by (simp add: sub_ids_vec below_step [of s n])
qed simp

theorem subfolders_complete_witness:
  "\<exists>w. GetSubFolderId 3 (sample_dc [sample_folder 1 0, sample_folder 2 1]) 0 [] = Inr ([] @ w) \<and>
     set w = below (sample_dc [sample_folder 1 0, sample_folder 2 1]) 0"
proof (rule subfolders_complete [where rank = "\<lambda>i. nat (2 - i)"])
  show "\<forall>(i, j) \<in> child_rel (sample_dc [sample_folder 1 0, sample_folder 2 1]). nat (2 - j) < nat (2 - i)"
    by (auto simp: child_rel_def alive_def vec_ptrs_def sample_dc_def sample_folder_def less_Suc_eq)
qed (simp_all add: sample_wf)

lemma sub_visit_fails:
  assumes "dc_wf s" and "p \<in> set (m_vFavoriteLineData s)"
    and "\<And>m v x. rec_call m v = Inl x \<Longrightarrow> x = NoReturn" and "sub_visit s rec_call n p v = Inl x"
  shows "x = NoReturn"
  using assms(3,4) by (auto simp: sub_visit_wf [OF assms(1,2)] split: if_splits)

lemma sub_loop_hangs:
  assumes "dc_wf s" and only: "\<And>m v x. rec_call m v = Inl x \<Longrightarrow> x = NoReturn"
    and "set ps \<subseteq> set (m_vFavoriteLineData s)"
    and "m \<in> set (sub_ids s n ps)" and hang: "\<And>v. rec_call m v = Inl NoReturn"
  shows "ofold (sub_visit s rec_call n) ps v = Inl NoReturn"
  using assms(3,4)
proof (induction ps arbitrary: v)
  case (Cons p ps)
  have p: "p \<in> set (m_vFavoriteLineData s)" using Cons.prems by simp
  show ?case
  proof (cases "sub_visit s rec_call n p v")
    case (Inl x)
    then have "x = NoReturn" using sub_visit_fails [OF assms(1) p, of rec_call n v x] only by blast
    then show ?thesis using Inl by simp
  next
    case (Inr w)
    then have "m \<in> set (sub_ids s n ps)"
      using Cons.prems(2) hang by (auto simp: sub_ids_Cons sub_visit_wf [OF assms(1) p] split: if_splits)
    then show ?thesis using Cons.IH [of w] Cons.prems(1) Inr by simp
  qed
qed (simp add: sub_ids_def)

lemma GetSubFolderId_fails:
  assumes "dc_wf s"
  shows "GetSubFolderId k s n v = Inl x \<Longrightarrow> x = NoReturn"
proof (induction k arbitrary: n v x)
  case (Suc k)
  have "ofold (sub_visit s (GetSubFolderId k s) n) ps v = Inl x \<Longrightarrow> set ps \<subseteq> set (m_vFavoriteLineData s) \<Longrightarrow> x = NoReturn"
    for ps v
  proof (induction ps arbitrary: v)
    case (Cons p ps)
    then show ?case
      using sub_visit_fails [OF assms, of p "GetSubFolderId k s" n v x] Suc.IH
      by (cases "sub_visit s (GetSubFolderId k s) n p v") auto
  qed simp
  then show ?case using Suc.prems by simp
qed simp

text \<open>
  Note: On a folder that lies below itself \<open>GetSubFolderId\<close> never returns, however deep the recursion may go:
  unlike the deletion it marks nothing.
\<close>

theorem subfolders_hang_on_cycle:
  assumes "dc_wf s" and "(n, n) \<in> (child_rel s)\<^sup>+"
  shows "GetSubFolderId k s n v = Inl NoReturn"
  using assms(2)
proof (induction k arbitrary: n v)
  case (Suc k)
  from Suc.prems obtain m where nm: "(n, m) \<in> child_rel s" "(m, n) \<in> (child_rel s)\<^sup>*" by (meson tranclD)
  then have "(m, m) \<in> (child_rel s)\<^sup>+" by (meson rtrancl_into_trancl1)
  then show ?case
    using nm(1) Suc.IH GetSubFolderId_fails [OF assms(1)]
    by (simp add: sub_loop_hangs [OF assms(1), where m = m] sub_ids_vec)
qed simp

theorem subfolders_hang_on_cycle_witness:
  "\<forall>k. GetSubFolderId k (sample_dc [sample_folder 1 1]) 1 [] = Inl NoReturn"
proof (rule allI, rule subfolders_hang_on_cycle [OF sample_wf])
  have "(1, 1) \<in> child_rel (sample_dc [sample_folder 1 1])"
    by (auto simp: child_rel_def alive_def vec_ptrs_def sample_dc_def sample_folder_def FavoriteLineData_init_def intro!: exI [of _ 1])
  then show "(1, 1) \<in> (child_rel (sample_dc [sample_folder 1 1]))\<^sup>+" by blast
qed

end
