(* ===== verification/Favorite_Edit.thy ===== *)
theory Favorite_Edit
  imports Favorite_Tree
begin

text \<open>
  Adding favourites and folders and renumbering: the vector stays well formed and sorted by parent, nothing is
  lost, and renumbering keeps the tree.  Two calls in a row may hand out the same id, and the first one needs a vector that is
  not empty.
\<close>

section \<open>Well-formed vectors without NULL\<close>

definition dc_ok :: "datacenter \<Rightarrow> bool" where
  "dc_ok s \<longleftrightarrow> dc_wf s \<and> no_nulls s"

abbreviation entry :: "datacenter \<Rightarrow> nat \<Rightarrow> FavoriteLineData" where
  "entry s i \<equiv> fav s (m_vFavoriteLineData s ! i)"

lemma sample_ok [simp]: "dc_ok (sample_dc xs)"
  by (simp add: dc_ok_def sample_wf sample_no_nulls)

lemma dc_ok_distinct: "dc_ok s \<Longrightarrow> distinct (m_vFavoriteLineData s)"
proof -
  assume "dc_ok s"
  then have "filter (\<lambda>p. p \<noteq> 0) (m_vFavoriteLineData s) = m_vFavoriteLineData s"
    unfolding dc_ok_def no_nulls_def filter_id_conv by metis
  then show ?thesis using \<open>dc_ok s\<close> by (metis dc_ok_def dc_wf_def)
qed

lemma dc_ok_nonnull: "dc_ok s \<Longrightarrow> p \<in> set (m_vFavoriteLineData s) \<Longrightarrow> p \<noteq> 0"
  unfolding dc_ok_def no_nulls_def by metis

lemma deref_ok: "dc_ok s \<Longrightarrow> p \<in> set (m_vFavoriteLineData s) \<Longrightarrow> deref s p = Inr (fav s p)"
  using dc_ok_nonnull by (auto simp: dc_ok_def intro!: deref_wf)

lemma heap_ok: "dc_ok s \<Longrightarrow> p \<in> set (m_vFavoriteLineData s) \<Longrightarrow> dc_heap s p = Some (fav s p)"
  using dc_ok_nonnull [of s p] by (auto simp: dc_ok_def dc_wf_def)

lemma fresh_ptr: "dc_ok s \<Longrightarrow> dc_heap s (next_ptr s) = None"
  by (auto simp: dc_ok_def dc_wf_def)

lemma fresh_not_in_vec: "dc_ok s \<Longrightarrow> next_ptr s \<notin> set (m_vFavoriteLineData s)"
  using fresh_ptr heap_ok by fastforce

text \<open>Appending a new favourite.\<close>

definition append_new :: "FavoriteLineData \<Rightarrow> datacenter \<Rightarrow> datacenter" where
  "append_new d s =
     (store (next_ptr s) d (s\<lparr>next_ptr := next_ptr s + 1\<rparr>))
       \<lparr>m_vFavoriteLineData := m_vFavoriteLineData s @ [next_ptr s]\<rparr>"

lemma append_new_simps [simp]:
  "m_vFavoriteLineData (append_new d s) = m_vFavoriteLineData s @ [next_ptr s]"
  "dc_heap (append_new d s) = (dc_heap s)(next_ptr s \<mapsto> d)"
  by (simp_all add: append_new_def)

lemma append_new_ok:
  assumes "dc_ok s" shows "dc_ok (append_new d s)"
proof -
  have "next_ptr (append_new d s) = next_ptr s + 1" by (simp add: append_new_def store_def)
  then show ?thesis
    using assms fresh_not_in_vec [OF assms] unfolding dc_ok_def dc_wf_def no_nulls_def
    by (auto simp: less_Suc_eq)
qed

lemma all_deref_ok:
  assumes "dc_ok s" and "set ps \<subseteq> set (m_vFavoriteLineData s)"
  shows "ofold (\<lambda>p _. obind (deref s p) (\<lambda>_. Inr ())) ps () = Inr ()"
  using assms(2) by (induction ps) (simp_all add: deref_ok [OF assms(1)])

lemma sort_favorites_ok:
  assumes "dc_ok s"
  shows "sort_favorites srt s = Inr (s\<lparr>m_vFavoriteLineData := srt (\<lambda>p. nPid (fav s p)) (m_vFavoriteLineData s)\<rparr>)"
  by (simp add: sort_favorites_def all_deref_ok [OF assms])

lemma reorder_ok:
  assumes "dc_ok s" and "mset v = mset (m_vFavoriteLineData s)"
  shows "dc_ok (s\<lparr>m_vFavoriteLineData := v\<rparr>)"
proof -
  have "set v = set (m_vFavoriteLineData s)" by (rule mset_eq_setD [OF assms(2)])
  moreover have "distinct v" using assms(2) dc_ok_distinct [OF assms(1)] mset_eq_imp_distinct_iff by blast
  ultimately show ?thesis using assms(1) by (auto simp: dc_ok_def dc_wf_def no_nulls_def)
qed

lemma next_id_ok:
  assumes "dc_ok s" and "m_vFavoriteLineData s \<noteq> []"
  shows "next_id s = Inr (wrap32 (nId (fav s (last (m_vFavoriteLineData s))) + 1))"
proof -
  have "vec_at s (int (length (m_vFavoriteLineData s)) - 1) = Inr (last (m_vFavoriteLineData s))"
  proof -
    have "nat (int n - 1) = n - 1" for n :: nat by arith
    then show ?thesis using assms(2) by (simp add: vec_at_def last_conv_nth)
  qed
  moreover have "deref s (last (m_vFavoriteLineData s)) = Inr (fav s (last (m_vFavoriteLineData s)))"
    "last (m_vFavoriteLineData s) \<noteq> 0"
    using deref_ok [OF assms(1)] dc_ok_nonnull [OF assms(1)] last_in_set [OF assms(2)] by blast+
  ultimately show ?thesis by (simp add: next_id_def)
qed

section \<open>Adding a favourite\<close>

text \<open>The favourite that is added, and the event that reports it.\<close>

definition added :: "int \<Rightarrow> int \<Rightarrow> wstring \<Rightarrow> wstring \<Rightarrow> datacenter \<Rightarrow> FavoriteLineData" where
  "added now pid title url s =
     (FavoriteLineData_init now)
       \<lparr>nId := wrap32 (nId (fav s (last (m_vFavoriteLineData s))) + 1), nPid := pid,
        szTitle := STRNCPY MAX_LENGTH title, szUrl := STRNCPY MAX_LENGTH url\<rparr>"

definition add_response :: "dc_extra Event \<Rightarrow> ptr \<Rightarrow> dc_extra request" where
  "add_response e p =
     ReqEvent (MakeEvent (mid MODULE_ID_DATACENTER) EVENT_VALUE_DATACENTER_ADD_FAVORITE_RESP (srcMId e) 0 0 0 0
       (Some (AddFavoriteResult p)))"

lemma AddFavorite_eq:
  assumes "dc_ok s" and "m_vFavoriteLineData s \<noteq> []" and "m_pstExtraInfo e = Some (AddFavorite pid title url)"
  shows "OnEvent_AddFavorite srt now e s =
    (let t = append_new (added now pid title url s) s
     in Inr (t\<lparr>m_vFavoriteLineData := srt (\<lambda>p. nPid (fav t p)) (m_vFavoriteLineData t)\<rparr>, [add_response e (next_ptr s)]))"
  using sort_favorites_ok [OF append_new_ok [OF assms(1)], of srt "added now pid title url s"]
  by (simp add: OnEvent_AddFavorite_def assms(3) next_id_ok [OF assms(1,2)] new_data_def added_def append_new_def
      add_response_def Let_def)

lemma sorted_add:
  assumes "std_sort srt" and "dc_ok t"
  defines "t' \<equiv> t\<lparr>m_vFavoriteLineData := srt (\<lambda>p. nPid (fav t p)) (m_vFavoriteLineData t)\<rparr>"
  shows "dc_ok t'" and "sorted (map (\<lambda>p. nPid (fav t' p)) (m_vFavoriteLineData t'))"
    and "mset (m_vFavoriteLineData t') = mset (m_vFavoriteLineData t)" and "dc_heap t' = dc_heap t"
  using std_sort.srt_mset [OF assms(1)] std_sort.srt_sorted [OF assms(1)] reorder_ok [OF assms(2)]
  by (simp_all add: t'_def)

text \<open>
  C9: Whatever correct \<open>std::sort\<close> does with favourites of equal parents, adding to a well-formed vector that is not
  empty adds one new favourite with the given title, URL and parent and the id of the last entry plus one, changes no
  other, leaves the vector well formed and sorted by parent, and answers with one event to the sender.
\<close>

theorem add_favorite:
  assumes "std_sort srt" and "dc_ok s" and "m_vFavoriteLineData s \<noteq> []"
    and "m_pstExtraInfo e = Some (AddFavorite pid title url)"
  shows "\<exists>t. OnEvent_AddFavorite srt now e s = Inr (t, [add_response e (next_ptr s)]) \<and> dc_ok t \<and>
    mset (m_vFavoriteLineData t) = add_mset (next_ptr s) (mset (m_vFavoriteLineData s)) \<and>
    sorted (map (\<lambda>p. nPid (fav t p)) (m_vFavoriteLineData t)) \<and>
    dc_heap t = (dc_heap s)(next_ptr s \<mapsto> added now pid title url s)"
  using sorted_add [OF assms(1) append_new_ok [OF assms(2), of "added now pid title url s"]]
  by (auto simp: AddFavorite_eq [OF assms(2-4)] Let_def)

definition add_event :: "int \<Rightarrow> dc_extra Event" where
  "add_event pid =
     MakeEvent (mid MODULE_ID_MAINFRAME) EVENT_VALUE_DATACENTER_ADD_FAVORITE (mid MODULE_ID_DATACENTER) 0 0 0 0
       (Some (AddFavorite pid [0x54] [0x55]))"

theorem add_favorite_witness:
  "\<exists>t. OnEvent_AddFavorite sort_key 7 (add_event 0) (sample_dc [sample_folder 1 0]) =
      Inr (t, [add_response (add_event 0) (next_ptr (sample_dc [sample_folder 1 0]))]) \<and> dc_ok t \<and>
    mset (m_vFavoriteLineData t) =
      add_mset (next_ptr (sample_dc [sample_folder 1 0])) (mset (m_vFavoriteLineData (sample_dc [sample_folder 1 0]))) \<and>
    sorted (map (\<lambda>p. nPid (fav t p)) (m_vFavoriteLineData t)) \<and>
    dc_heap t = (dc_heap (sample_dc [sample_folder 1 0]))
      (next_ptr (sample_dc [sample_folder 1 0]) \<mapsto> added 7 0 [0x54] [0x55] (sample_dc [sample_folder 1 0]))"
  by (rule add_favorite [OF sort_key.std_sort_axioms sample_ok])
    (simp_all add: sample_dc_def add_event_def MakeEvent_def)

section \<open>Ids that are given twice\<close>

text \<open>
  Note: The handler reads the last element of the vector without asking whether there is one: on an empty
  vector the index is out of range.
\<close>

theorem add_to_empty_fails:
  assumes "m_vFavoriteLineData s = []" and "m_pstExtraInfo e = Some (AddFavorite pid title url)"
  shows "OnEvent_AddFavorite srt now e s = Inl OutOfRange"
  using assms by (simp add: OnEvent_AddFavorite_def next_id_def vec_at_def)

theorem add_to_empty_fails_witness:
  "OnEvent_AddFavorite sort_key 7 (add_event 0) (sample_dc []) = Inl OutOfRange"
  by (rule add_to_empty_fails) (simp_all add: sample_dc_def add_event_def MakeEvent_def)

lemma last_sorted_max:
  assumes "sorted (map k xs)" and "x \<in> set xs" shows "k x \<le> (k (last xs) :: int)"
  using assms by (induction xs) (auto split: if_splits)

lemma add_keeps_last:
  assumes "std_sort srt" and "dc_ok s" and "m_vFavoriteLineData s \<noteq> []"
    and last: "l = last (m_vFavoriteLineData s)"
      "\<forall>p \<in> set (m_vFavoriteLineData s). p \<noteq> l \<longrightarrow> nPid (fav s p) < nPid (fav s l)" "pid < nPid (fav s l)"
    and "m_pstExtraInfo e = Some (AddFavorite pid title url)"
    and run: "OnEvent_AddFavorite srt now e s = Inr (t, r)"
  shows "last (m_vFavoriteLineData t) = l" and "fav t l = fav s l" and "nId (fav t (next_ptr s)) = wrap32 (nId (fav s l) + 1)"
    and "dc_ok t" and "m_vFavoriteLineData t \<noteq> []" and "next_ptr t = next_ptr s + 1"
proof -
  let ?u = "append_new (added now pid title url s) s"
  have t: "t = ?u\<lparr>m_vFavoriteLineData := srt (\<lambda>p. nPid (fav ?u p)) (m_vFavoriteLineData ?u)\<rparr>"
    using run by (simp add: AddFavorite_eq [OF assms(2,3,7)] Let_def)
  note u = sorted_add [OF assms(1) append_new_ok [OF assms(2), of "added now pid title url s"], folded t]
  have heap: "dc_heap t = (dc_heap s)(next_ptr s \<mapsto> added now pid title url s)" using u(4) by simp
  have set_t: "set (m_vFavoriteLineData t) = insert (next_ptr s) (set (m_vFavoriteLineData s))"
    using mset_eq_setD [OF u(3)] by simp
  have l: "l \<in> set (m_vFavoriteLineData s)" "l \<noteq> next_ptr s"
    using last(1) last_in_set [OF assms(3)] fresh_not_in_vec [OF assms(2)] by metis+
  then show fav_l: "fav t l = fav s l" by (simp add: heap)
  show "nId (fav t (next_ptr s)) = wrap32 (nId (fav s l) + 1)" by (simp add: heap added_def last(1))
  show "dc_ok t" by (rule u(1))
  show ne: "m_vFavoriteLineData t \<noteq> []" using set_t by auto
  show "next_ptr t = next_ptr s + 1" by (simp add: t append_new_def store_def)
  have le: "nPid (fav t l) \<le> nPid (fav t (last (m_vFavoriteLineData t)))"
    using last_sorted_max [OF u(2)] l(1) set_t by auto
  have "last (m_vFavoriteLineData t) \<in> insert (next_ptr s) (set (m_vFavoriteLineData s))" using ne set_t last_in_set by metis
  moreover have "nPid (fav t q) < nPid (fav t l)" if "q \<in> insert (next_ptr s) (set (m_vFavoriteLineData s))" "q \<noteq> l" for q
    using that last(2,3) fresh_not_in_vec [OF assms(2)] l by (auto simp: heap added_def)
  ultimately show "last (m_vFavoriteLineData t) = l" using le by force
qed

lemma sample_vec2: "m_vFavoriteLineData (sample_dc [a, b]) = [1, 2]"
  by (simp add: sample_dc_def upt_conv_Cons)

lemma sample_fav2: "fav (sample_dc [a, b]) (Suc 0) = a" "fav (sample_dc [a, b]) 2 = b"
  by (simp_all add: sample_dc_def)

text \<open>
  Note: The id of a new favourite is taken from the last entry, but the vector is sorted by parent afterwards.  Where the
  last entry has the greatest parent, two favourites added one after the other under smaller parents get the same id.
\<close>

theorem add_twice_same_id:
  assumes "std_sort srt" and "dc_ok s" and "m_vFavoriteLineData s \<noteq> []"
    and "\<forall>p \<in> set (m_vFavoriteLineData s). p \<noteq> last (m_vFavoriteLineData s) \<longrightarrow>
      nPid (fav s p) < nPid (fav s (last (m_vFavoriteLineData s)))"
    and "pid < nPid (fav s (last (m_vFavoriteLineData s)))"
    and "m_pstExtraInfo e = Some (AddFavorite pid title url)"
  shows "\<exists>t u. OnEvent_AddFavorite srt now e s = Inr (t, [add_response e (next_ptr s)]) \<and>
    OnEvent_AddFavorite srt now e t = Inr (u, [add_response e (next_ptr s + 1)]) \<and>
    nId (fav u (next_ptr s)) = nId (fav u (next_ptr s + 1))"
proof -
  let ?l = "last (m_vFavoriteLineData s)"
  obtain t where t: "OnEvent_AddFavorite srt now e s = Inr (t, [add_response e (next_ptr s)])"
    by (simp add: AddFavorite_eq [OF assms(2,3,6)] Let_def)
  note step = add_keeps_last [OF assms(1-3) refl assms(4-6) t]
  have run: "OnEvent_AddFavorite srt now e t =
    (let u = append_new (added now pid title url t) t
     in Inr (u\<lparr>m_vFavoriteLineData := srt (\<lambda>p. nPid (fav u p)) (m_vFavoriteLineData u)\<rparr>, [add_response e (next_ptr s + 1)]))"
    using AddFavorite_eq [OF step(4,5) assms(6)] step(6) by simp
  have "nId (added now pid title url t) = wrap32 (nId (fav s ?l) + 1)" using step(1,2) by (simp add: added_def)
  then show ?thesis using t step(3,6) by (simp add: run Let_def)
qed

theorem add_twice_same_id_witness:
  "\<exists>t u. OnEvent_AddFavorite sort_key 7 (add_event 0) (sample_dc [sample_folder 1 0, sample_url 2 1]) =
       Inr (t, [add_response (add_event 0) (next_ptr (sample_dc [sample_folder 1 0, sample_url 2 1]))]) \<and>
    OnEvent_AddFavorite sort_key 7 (add_event 0) t =
       Inr (u, [add_response (add_event 0) (next_ptr (sample_dc [sample_folder 1 0, sample_url 2 1]) + 1)]) \<and>
    nId (fav u (next_ptr (sample_dc [sample_folder 1 0, sample_url 2 1]))) =
      nId (fav u (next_ptr (sample_dc [sample_folder 1 0, sample_url 2 1]) + 1))"
  by (rule add_twice_same_id [OF sort_key.std_sort_axioms sample_ok])
    (simp_all add: sample_vec2 sample_fav2 add_event_def MakeEvent_def sample_folder_def sample_url_def FavoriteLineData_init_def)

section \<open>Renumbering\<close>

text \<open>The parent that entry \<open>j\<close> gets: one more than the last index whose id is its parent, 0 if there is none.\<close>

primrec new_pid :: "datacenter \<Rightarrow> nat \<Rightarrow> nat \<Rightarrow> int" where
  "new_pid s j 0 = 0"
| "new_pid s j (Suc m) = (if nPid (entry s j) = nId (entry s m) then int m + 1 else new_pid s j m)"

lemma inner_loop:
  assumes "dc_ok s" and "i < length (m_vFavoriteLineData s)" and "m \<le> length (m_vFavoriteLineData s)"
    and "length q = length (m_vFavoriteLineData s)"
  shows "ofold (rearrange_inner s i) [0..<m] q =
    Inr (map (\<lambda>j. if j < m \<and> nPid (entry s j) = nId (entry s i) then (fst (q ! j), int i + 1) else q ! j)
           [0..<length (m_vFavoriteLineData s)])"
  using assms(3)
proof (induction m)
  case 0
  then show ?case using assms(4) map_nth [of q] by simp
next
  case (Suc m)
  then have step: "rearrange_inner s i m p =
      Inr (if nPid (entry s m) = nId (entry s i) then p[m := (fst (p ! m), int i + 1)] else p)" for p
    using assms(2) by (simp add: rearrange_inner_def deref_ok [OF assms(1)])
  show ?case
    using Suc assms(4)
    by (simp add: ofold_append step) (auto intro!: nth_equalityI simp: nth_list_update less_Suc_eq)
qed

lemma outer_loop:
  assumes "dc_ok s" and "m \<le> length (m_vFavoriteLineData s)"
  shows "ofold (rearrange_outer s) [0..<m] (replicate (length (m_vFavoriteLineData s)) (0, 0)) =
    Inr (map (\<lambda>j. (if j < m then int j + 1 else 0, new_pid s j m)) [0..<length (m_vFavoriteLineData s)])"
  using assms(2)
proof (induction m)
  case 0
  then show ?case by (simp add: map_replicate_const)
next
  case (Suc m)
  then show ?case
    by (simp add: ofold_append rearrange_outer_def inner_loop [OF assms(1)])
      (auto intro!: nth_equalityI simp: nth_list_update less_Suc_eq)
qed

definition renumbered ::
  "datacenter \<Rightarrow> (int \<times> int) list \<Rightarrow> nat \<Rightarrow> (ptr \<Rightarrow> FavoriteLineData option) \<Rightarrow> bool" where
  "renumbered s q m h \<longleftrightarrow>
     (\<forall>p. p \<notin> set (m_vFavoriteLineData s) \<longrightarrow> h p = dc_heap s p) \<and>
     (\<forall>i < length (m_vFavoriteLineData s). h (m_vFavoriteLineData s ! i) =
        Some (if i < m then (entry s i)\<lparr>nId := int i + 1, nPid := snd (q ! i)\<rparr> else entry s i))"

lemma write_loop:
  assumes "dc_ok s" and "m \<le> length (m_vFavoriteLineData s)"
  shows "\<exists>h. ofold (rearrange_write q) [0..<m] s = Inr (s\<lparr>dc_heap := h\<rparr>) \<and> renumbered s q m h"
  using assms(2)
proof (induction m)
  case 0
  have "renumbered s q 0 (dc_heap s)"
    unfolding renumbered_def using heap_ok [OF assms(1) nth_mem] by (simp only: not_less0 if_False) blast
  moreover have "s = s\<lparr>dc_heap := dc_heap s\<rparr>" by simp
  ultimately show ?case by (metis ofold.simps(1) upt_0)
next
  case (Suc m)
  then obtain h where h: "ofold (rearrange_write q) [0..<m] s = Inr (s\<lparr>dc_heap := h\<rparr>)" "renumbered s q m h" by auto
  let ?p = "m_vFavoriteLineData s ! m"
  let ?d = "(entry s m)\<lparr>nId := int m + 1, nPid := snd (q ! m)\<rparr>"
  have p: "?p \<noteq> 0" "?p \<in> set (m_vFavoriteLineData s)"
    using Suc.prems dc_ok_nonnull [OF assms(1), of ?p] by (simp_all del: neq0_conv)
  have "h ?p = Some (entry s m)" using h(2) Suc.prems by (simp add: renumbered_def)
  then have run: "rearrange_write q m (s\<lparr>dc_heap := h\<rparr>) = Inr (s\<lparr>dc_heap := h(?p \<mapsto> ?d)\<rparr>)"
    using p(1) by (simp add: rearrange_write_def deref_def store_def del: neq0_conv)
  have "renumbered s q (Suc m) (h(?p \<mapsto> ?d))"
    using h(2) p(2) Suc.prems nth_eq_iff_index_eq [OF dc_ok_distinct [OF assms(1)]]
    by (auto simp: renumbered_def less_Suc_eq)
  then show ?case using h(1) run by (auto simp: ofold_append)
qed

lemma new_pid_bounds: "0 \<le> new_pid s j m \<and> new_pid s j m \<le> int m"
  by (induction m) auto

lemma new_pid_hit:
  assumes "distinct (map (\<lambda>p. nId (fav s p)) (m_vFavoriteLineData s))" and "i < m" and "m \<le> length (m_vFavoriteLineData s)"
  shows "new_pid s j m = int i + 1 \<longleftrightarrow> nPid (entry s j) = nId (entry s i)"
  using assms(2,3)
proof (induction m)
  case (Suc m)
  show ?case
  proof (cases "i = m")
    case True
    then show ?thesis using new_pid_bounds [of s j m] by auto
  next
    case False
    then have "nId (entry s i) \<noteq> nId (entry s m)"
      using Suc.prems nth_eq_iff_index_eq [OF assms(1), of i m] by simp
    then show ?thesis using False Suc by auto
  qed
qed simp

lemma ReArrange_eq:
  assumes "dc_ok s" and "m_vFavoriteLineData s \<noteq> []"
  shows "\<exists>h. OnService_ReArrangeFavorite s = Inr (s\<lparr>dc_heap := h\<rparr>, int (length (m_vFavoriteLineData s))) \<and>
    renumbered s (map (\<lambda>j. (int j + 1, new_pid s j (length (m_vFavoriteLineData s)))) [0..<length (m_vFavoriteLineData s)])
      (length (m_vFavoriteLineData s)) h"
proof -
  let ?n = "length (m_vFavoriteLineData s)"
  let ?q = "map (\<lambda>j. (int j + 1, new_pid s j ?n)) [0..<?n]"
  have "ofold (rearrange_outer s) [0..<?n] (replicate ?n (0, 0)) = Inr ?q"
    by (simp add: outer_loop [OF assms(1) order_refl])
  moreover obtain h where h: "ofold (rearrange_write ?q) [0..<?n] s = Inr (s\<lparr>dc_heap := h\<rparr>)" "renumbered s ?q ?n h"
    using write_loop [OF assms(1) order_refl] by blast
  ultimately have "OnService_ReArrangeFavorite s = Inr (s\<lparr>dc_heap := h\<rparr>, int ?n)"
    using assms(2) by (simp add: OnService_ReArrangeFavorite_def Let_def)
  then show ?thesis using h(2) by blast
qed

text \<open>
  C10: On a well-formed vector with unique ids, renumbering gives the entries the ids 1, 2, and so on in their order,
  makes an entry the child of another exactly when it was before, puts entries whose parent is not in the vector under the root 0, and
  changes no other field of any entry.
\<close>

theorem rearrange_keeps_tree:
  assumes "dc_ok s" and "m_vFavoriteLineData s \<noteq> []"
    and "distinct (map (\<lambda>p. nId (fav s p)) (m_vFavoriteLineData s))"
  shows "\<exists>t. OnService_ReArrangeFavorite s = Inr (t, int (length (m_vFavoriteLineData s))) \<and>
    m_vFavoriteLineData t = m_vFavoriteLineData s \<and>
    (\<forall>i < length (m_vFavoriteLineData s).
       nId (entry t i) = int i + 1 \<and>
       (\<forall>j < length (m_vFavoriteLineData s). nPid (entry t i) = nId (entry t j) \<longleftrightarrow> nPid (entry s i) = nId (entry s j)) \<and>
       (nPid (entry s i) \<notin> (\<lambda>p. nId (fav s p)) ` set (m_vFavoriteLineData s) \<longrightarrow> nPid (entry t i) = 0) \<and>
       (entry t i)\<lparr>nId := nId (entry s i), nPid := nPid (entry s i)\<rparr> = entry s i)"
proof -
  let ?n = "length (m_vFavoriteLineData s)"
  from ReArrange_eq [OF assms(1,2)] obtain h where
    h: "OnService_ReArrangeFavorite s = Inr (s\<lparr>dc_heap := h\<rparr>, int ?n)"
      "renumbered s (map (\<lambda>j. (int j + 1, new_pid s j ?n)) [0..<?n]) ?n h" by blast
  have hit: "h (m_vFavoriteLineData s ! i) = Some ((entry s i)\<lparr>nId := int i + 1, nPid := new_pid s i ?n\<rparr>)" if "i < ?n" for i
    using h(2) that by (simp add: renumbered_def)
  show ?thesis
  proof (intro exI [of _ "s\<lparr>dc_heap := h\<rparr>"] conjI allI impI)
    fix i j assume "i < ?n" "j < ?n"
    then show "nPid (entry (s\<lparr>dc_heap := h\<rparr>) i) = nId (entry (s\<lparr>dc_heap := h\<rparr>) j) \<longleftrightarrow> nPid (entry s i) = nId (entry s j)"
      using new_pid_hit [OF assms(3) _ order_refl, of j i] by (simp add: hit)
  next
    fix i assume i: "i < ?n" "nPid (entry s i) \<notin> (\<lambda>p. nId (fav s p)) ` set (m_vFavoriteLineData s)"
    have "new_pid s i m = 0" if "m \<le> ?n" for m
      using that
    proof (induction m)
      case (Suc m)
      then have "nPid (entry s i) \<noteq> nId (entry s m)" using i(2) by force
      then show ?case using Suc by simp
    qed simp
    then show "nPid (entry (s\<lparr>dc_heap := h\<rparr>) i) = 0" using i(1) by (simp add: hit)
  qed (simp_all add: h(1) hit)
qed

theorem rearrange_keeps_tree_witness:
  "\<exists>t. OnService_ReArrangeFavorite (sample_dc [sample_folder 7 0, sample_url 9 7]) = Inr (t, int (length (m_vFavoriteLineData (sample_dc [sample_folder 7 0, sample_url 9 7])))) \<and>
     nId (fav t 1) = 1 \<and> nId (fav t 2) = 2 \<and> nPid (fav t 1) = 0 \<and> nPid (fav t 2) = 1"
proof -
  let ?s = "sample_dc [sample_folder 7 0, sample_url 9 7]"
  have "distinct (map (\<lambda>p. nId (fav ?s p)) (m_vFavoriteLineData ?s))"
    by (simp add: sample_vec2 sample_fav2 sample_folder_def sample_url_def)
  from rearrange_keeps_tree [OF sample_ok _ this] show ?thesis
    by (elim meta_impE exE, simp add: sample_vec2) (rule exI, elim conjE, intro conjI, assumption?,
      simp_all add: sample_vec2 sample_fav2 All_less_Suc sample_folder_def sample_url_def)
qed

end
