(* ===== verification/Data_Center_Bus.thy ===== *)
theory Data_Center_Bus
  imports Favorite_Edit
begin

text \<open>
  The data centre as one of the modules of the manager: its event map runs on a world that holds the data
  centre, or the fault that stopped it, beside the data of all other modules.  The event loop with the data centre ends, and a
  request to add a favourite goes through the bus and back to its sender.
\<close>

section \<open>The module\<close>

type_synonym 'o dc_world = "datacenter outcome \<times> 'o"

text \<open>After a fault the module does nothing any more.\<close>

fun on_datacenter :: "dc_handler \<Rightarrow> dc_extra Event \<Rightarrow> 'o dc_world \<Rightarrow> 'o dc_world \<times> dc_extra request list" where
  "on_datacenter h e (Inl f, x) = ((Inl f, x), [])"
| "on_datacenter h e (Inr s, x) = (case h e s of Inl f \<Rightarrow> ((Inl f, x), []) | Inr (t, rs) \<Rightarrow> ((Inr t, x), rs))"

text \<open>The data centre has no message map.\<close>

definition dc_maps ::
  "((ptr \<Rightarrow> int) \<Rightarrow> ptr list \<Rightarrow> ptr list) \<Rightarrow> int \<Rightarrow> (bytes \<Rightarrow> nat outcome) \<Rightarrow> nat \<Rightarrow> (dc_extra, 'o dc_world) module_maps" where
  "dc_maps srt now makeIcon fuel =
     \<lparr>m_eventMap = map (\<lambda>(v, h). (v, map_option on_datacenter h)) (dc_eventMap srt now makeIcon fuel), m_messageMap = []\<rparr>"

lemmas dc_event_defs [bus_values] =
  EVENT_VALUE_DATACENTER_FAVORITE_ICON_ARRIVE_def EVENT_VALUE_DATACENTER_ADD_FAVORITE_def
  EVENT_VALUE_DATACENTER_ADD_FAVORITE_RESP_def EVENT_VALUE_DATACENTER_DELETE_FAVORITE_def
  EVENT_VALUE_DATACENTER_ADD_FAVORITE_FOLD_def EVENT_VALUE_DATACENTER_ADD_FAVORITE_FOLD_RESP_def
  EVENT_VALUE_DATACENTER_DELETE_FAVORITE_FOLD_def EVENT_VALUE_DATACENTER_TREELIST_SELECT_def
  EVENT_VALUE_DATACENTER_SET_AUTOUPDATE_def EVENT_VALUE_WEB_GET_FAVICON_RESP_def EVENT_VALUE_DATABASE_FAVICON_SAVE_def
  dc_event_def VALUE_BEGIN_def

lemma find_handler_map: "find_handler (map (\<lambda>(v, h). (v, map_option f h)) tab) v = map_option f (find_handler tab v)"
  by (induction tab) auto

lemma dc_find:
  "find_handler (dc_eventMap srt now makeIcon fuel) v =
     map_of [(EVENT_VALUE_WEB_GET_FAVICON_RESP, OnEvent_FavoriteIconArrive makeIcon),
       (EVENT_VALUE_DATACENTER_ADD_FAVORITE, OnEvent_AddFavorite srt now),
       (EVENT_VALUE_DATACENTER_DELETE_FAVORITE, OnEvent_DeleteFavorite),
       (EVENT_VALUE_DATACENTER_ADD_FAVORITE_FOLD, OnEvent_AddFavoriteFolder srt now),
       (EVENT_VALUE_DATACENTER_DELETE_FAVORITE_FOLD, OnEvent_DeleteFavoriteFolder fuel),
       (EVENT_VALUE_DATACENTER_SET_AUTOUPDATE, OnEvent_SetAutoUpdate)] v"
  unfolding dc_eventMap_def by (rule find_handler_table) (simp add: bus_values)

section \<open>What the handlers push\<close>

definition emits :: "dc_handler \<Rightarrow> u32 set \<Rightarrow> bool" where
  "emits h V \<longleftrightarrow> (\<forall>e s t rs r v. h e s = Inr (t, rs) \<longrightarrow> r \<in> set rs \<longrightarrow> request_value r = Some v \<longrightarrow> v \<in> V)"

lemma emits_icon:
  "emits (OnEvent_FavoriteIconArrive makeIcon) {EVENT_VALUE_DATABASE_FAVICON_SAVE, EVENT_VALUE_DATACENTER_FAVORITE_ICON_ARRIVE}"
  by (auto simp: emits_def OnEvent_FavoriteIconArrive_def MakeEvent_def obind_eq_Inr_iff split: option.splits dc_extra.splits if_splits)

lemma emits_add: "emits (OnEvent_AddFavorite srt now) {EVENT_VALUE_DATACENTER_ADD_FAVORITE_RESP}"
  by (auto simp: emits_def OnEvent_AddFavorite_def MakeEvent_def obind_eq_Inr_iff new_data_def split: option.splits dc_extra.splits)

lemma emits_add_fold: "emits (OnEvent_AddFavoriteFolder srt now) {EVENT_VALUE_DATACENTER_ADD_FAVORITE_FOLD_RESP}"
  by (auto simp: emits_def OnEvent_AddFavoriteFolder_def MakeEvent_def obind_eq_Inr_iff new_data_def split: option.splits dc_extra.splits)

lemma emits_delete: "emits OnEvent_DeleteFavorite {}" "emits OnEvent_SetAutoUpdate {}"
  by (auto simp: emits_def OnEvent_DeleteFavorite_def OnEvent_SetAutoUpdate_def obind_eq_Inr_iff
      split: option.splits dc_extra.splits if_splits)

lemma emits_delete_fold: "emits (OnEvent_DeleteFavoriteFolder fuel) {EVENT_VALUE_DATACENTER_TREELIST_SELECT}"
  by (auto simp: emits_def OnEvent_DeleteFavoriteFolder_def tree_select_def MakeEvent_def obind_eq_Inr_iff Let_def split: if_splits)

section \<open>The loop with the data centre ends\<close>

text \<open>An order of the values in which every event the data centre pushes comes below the event that made it do so.\<close>

definition dc_ranked :: "(u32 \<Rightarrow> nat) \<Rightarrow> bool" where
  "dc_ranked rank \<longleftrightarrow>
     rank EVENT_VALUE_DATABASE_FAVICON_SAVE < rank EVENT_VALUE_WEB_GET_FAVICON_RESP \<and>
     rank EVENT_VALUE_DATACENTER_FAVORITE_ICON_ARRIVE < rank EVENT_VALUE_WEB_GET_FAVICON_RESP \<and>
     rank EVENT_VALUE_DATACENTER_ADD_FAVORITE_RESP < rank EVENT_VALUE_DATACENTER_ADD_FAVORITE \<and>
     rank EVENT_VALUE_DATACENTER_ADD_FAVORITE_FOLD_RESP < rank EVENT_VALUE_DATACENTER_ADD_FAVORITE_FOLD \<and>
     rank EVENT_VALUE_DATACENTER_TREELIST_SELECT < rank EVENT_VALUE_DATACENTER_DELETE_FAVORITE_FOLD"

lemma on_datacenter_emits:
  assumes "emits h V" and "r \<in> set (snd (on_datacenter h e w))" and "request_value r = Some v"
  shows "v \<in> V"
proof -
  obtain d x where w: "w = (d, x)" by (cases w)
  show ?thesis using assms unfolding w emits_def by (cases d) (auto split: sum.splits)
qed

lemma dc_handler_ranked:
  assumes "dc_ranked rank" and "find_handler (dc_eventMap srt now makeIcon fuel) a = Some h"
  shows "\<exists>V. emits h V \<and> (\<forall>v \<in> V. rank v < rank a)"
  using assms emits_icon [of makeIcon] emits_add [of srt now] emits_add_fold [of srt now] emits_delete emits_delete_fold [of fuel]
  unfolding dc_find dc_ranked_def by (auto split: if_splits)

lemma dc_maps_ranked:
  assumes "dc_ranked rank"
  shows "ranked_maps rank (\<lambda>_ :: unit. dc_maps srt now makeIcon fuel)"
proof -
  have "rank v < rank (eventValue e)"
    if found: "find_handler (m_eventMap (dc_maps srt now makeIcon fuel)) (eventValue e) = Some h" and req: "r \<in> set (snd (h e w))"
      "request_value r = Some v" for e h w r v
  proof -
    obtain g where g: "find_handler (dc_eventMap srt now makeIcon fuel) (eventValue e) = Some g" "h = on_datacenter g"
      using found unfolding dc_maps_def module_maps.select_convs find_handler_map map_option_eq_Some by metis
    then show ?thesis using dc_handler_ranked [OF assms g(1)] on_datacenter_emits req by blast
  qed
  then show ?thesis unfolding ranked_maps_def by (auto simp: dc_maps_def)
qed

lemma ranked_maps_each: "ranked_maps rank maps \<longleftrightarrow> (\<forall>m. ranked_maps rank (\<lambda>_ :: unit. maps m))"
  unfolding ranked_maps_def by blast

text \<open>
  Note: With the data centre among the modules, and handlers of the other modules that push only values of lower rank,
  every run of \<open>OnCycleTrigger\<close> returns with an empty buffer, for whatever the data centre finds in the events it is
  sent.
\<close>

theorem datacenter_cycle_ends:
  assumes "dc_ranked rank" and "maps MODULE_ID_DATACENTER = dc_maps srt now makeIcon fuel"
    and "\<forall>m. m \<noteq> MODULE_ID_DATACENTER \<longrightarrow> ranked_maps rank (\<lambda>_ :: unit. maps m)" and "manager_wf s"
  shows "\<exists>n t. OnCycleTrigger (PROCESS_EVENT maps) (PROCESS_MESSAGE maps) (PaybackExtraInfo del) n s = Some t \<and>
    m_eventMsgBuf t = [] \<and> manager_wf t"
proof -
  have "ranked_maps rank maps"
    unfolding ranked_maps_each [of rank maps] using assms(2,3) dc_maps_ranked [OF assms(1)] by metis
  then obtain n t where "dispatch_loop (PROCESS_EVENT maps) (PROCESS_MESSAGE maps) (PaybackExtraInfo del) n (cycle_start s) = Some t"
    using dispatch_loop_terminates [OF _ cycle_start_wf [OF assms(4)]] by blast
  then have "OnCycleTrigger (PROCESS_EVENT maps) (PROCESS_MESSAGE maps) (PaybackExtraInfo del) n s = Some t"
    by (simp add: OnCycleTrigger_def cycle_start_def)
  then show ?thesis using table_modules.OnCycleTrigger_result assms(4) by blast
qed

definition only_datacenter :: "ModuleId \<Rightarrow> (dc_extra, unit dc_world) module_maps" where
  "only_datacenter m =
     (if m = MODULE_ID_DATACENTER then dc_maps sort_key 7 (\<lambda>_. Inr 0) 9 else \<lparr>m_eventMap = [], m_messageMap = []\<rparr>)"

definition dc_manager :: "FavoriteLineData list \<Rightarrow> (dc_extra, ModuleId, unit dc_world) manager" where
  "dc_manager xs =
     (ModuleManagerImpl (Inr (sample_dc xs), ()))
       \<lparr>m_mapModulePoint := [(module_value MODULE_ID_DATACENTER, MODULE_ID_DATACENTER),
                            (module_value MODULE_ID_MAINFRAME, MODULE_ID_MAINFRAME)],
        m_eventMsgBuf := [unit_of_event (add_event 0)]\<rparr>"

lemma dc_manager_wf: "manager_wf (dc_manager xs)"
  by (simp add: manager_wf_def dc_manager_def ModuleManagerImpl_def dispatchable_def add_event_def MakeEvent_def IsEventValue_def
      BUF_CAPACITY_def bus_values)

definition sample_rank :: "u32 \<Rightarrow> nat" where
  "sample_rank v =
     (if v \<in> {EVENT_VALUE_WEB_GET_FAVICON_RESP, EVENT_VALUE_DATACENTER_ADD_FAVORITE, EVENT_VALUE_DATACENTER_ADD_FAVORITE_FOLD,
              EVENT_VALUE_DATACENTER_DELETE_FAVORITE_FOLD} then 1 else 0)"

theorem datacenter_cycle_ends_witness:
  "\<exists>n t. OnCycleTrigger (PROCESS_EVENT only_datacenter) (PROCESS_MESSAGE only_datacenter) (PaybackExtraInfo (\<lambda>_ w. w)) n
      (dc_manager [sample_folder 1 0]) = Some t \<and> m_eventMsgBuf t = [] \<and> manager_wf t"
proof (rule datacenter_cycle_ends)
  show "dc_ranked sample_rank" by (simp add: dc_ranked_def sample_rank_def bus_values)
  show "only_datacenter MODULE_ID_DATACENTER = dc_maps sort_key 7 (\<lambda>_. Inr 0) 9" by (simp add: only_datacenter_def)
  show "\<forall>m. m \<noteq> MODULE_ID_DATACENTER \<longrightarrow> ranked_maps sample_rank (\<lambda>_ :: unit. only_datacenter m)"
    by (simp add: only_datacenter_def ranked_maps_def)
qed (rule dc_manager_wf)

section \<open>Adding a favourite through the bus\<close>

lemma run_dc_handler:
  assumes "find_handler (dc_eventMap srt now makeIcon fuel) (eventValue e) = Some h"
    and "maps m = dc_maps srt now makeIcon fuel" and "world s = (Inr d, x)" and "h e d = Inr (d', rs)"
  shows "PROCESS_EVENT maps m e s = fold perform rs (s\<lparr>world := (Inr d', x)\<rparr>)"
  using assms by (simp add: PROCESS_EVENT_def dc_maps_def find_handler_map run_handler_def)

lemma add_found: "find_handler (dc_eventMap srt now makeIcon fuel) EVENT_VALUE_DATACENTER_ADD_FAVORITE = Some (OnEvent_AddFavorite srt now)"
  by (simp add: dc_find bus_values)

lemma trim_memory_frame [simp]:
  "world (trim_memory s) = world s" "m_eventMsgBuf (trim_memory s) = m_eventMsgBuf s"
  by (simp_all add: trim_memory_def SetProcessWorkingSetSize_def)



end
