(* ===== verification/Data_Center_Safety.thy ===== *)
theory Data_Center_Safety
  imports Favorite_Edit
begin

text \<open>
  Pointer safety of the data centre.  Every handler of its event map and every service that changes its state is proved to keep the vector
  well formed (no NULL, no dangling pointer, no entry twice) and to fault at most by an index out of range or by a recursion that
  does not end.  \<open>sound P r\<close> says this of a result; its rules follow the structure of the handlers.
\<close>

section \<open>Results without pointer faults\<close>

definition sound :: "('a \<Rightarrow> bool) \<Rightarrow> 'a outcome \<Rightarrow> bool" where
  "sound P r \<longleftrightarrow> (case r of Inl e \<Rightarrow> e \<in> {OutOfRange, NoReturn} | Inr x \<Rightarrow> P x)"

lemma sound_simps [simp]: "sound P (Inr x) = P x" "sound P (Inl e) \<longleftrightarrow> e = OutOfRange \<or> e = NoReturn"
  by (simp_all add: sound_def)

lemma sound_obind: "sound Q m \<Longrightarrow> (\<And>x. Q x \<Longrightarrow> sound P (f x)) \<Longrightarrow> sound P (obind m f)"
  by (cases m) auto

lemma sound_ofold: "P s \<Longrightarrow> (\<And>x s. x \<in> set xs \<Longrightarrow> P s \<Longrightarrow> sound P (f x s)) \<Longrightarrow> sound P (ofold f xs s)"
  by (induction xs arbitrary: s) (auto intro!: sound_obind)

lemma sound_mono: "sound Q r \<Longrightarrow> (\<And>x. Q x \<Longrightarrow> P x) \<Longrightarrow> sound P r"
  by (cases r) auto

lemma sound_any: "sound (\<lambda>_. True) m \<Longrightarrow> (\<And>x. sound P (f x)) \<Longrightarrow> sound P (obind m f)"
  by (rule sound_obind)

lemma sound_strings: "sound (\<lambda>_. True) (str_substr s p n)" "sound (\<lambda>_. True) (SubStr s b m)" "sound (\<lambda>_. True) (Left s c)"
  by (auto simp: str_substr_def SubStr_def Left_def intro!: sound_any)

lemma sound_domain: "sound (\<lambda>_. True) (GetDomainFromUrl u b)"
  by (auto simp: GetDomainFromUrl_def with_prefix_def Let_def intro!: sound_any sound_strings split: option.split)

lemma sound_vec_at: "sound (\<lambda>p. p \<in> set (m_vFavoriteLineData s)) (vec_at s i)"
  by (auto simp: vec_at_def)

lemma sound_deref: "dc_ok s \<Longrightarrow> p \<in> set (m_vFavoriteLineData s) \<Longrightarrow> sound (\<lambda>_. dc_heap s p \<noteq> None) (deref s p)"
  using deref_ok heap_ok by fastforce

section \<open>States that differ only in the records\<close>

definition like :: "datacenter \<Rightarrow> datacenter \<Rightarrow> bool" where
  "like s t \<longleftrightarrow> m_vFavoriteLineData t = m_vFavoriteLineData s \<and> next_ptr t = next_ptr s \<and> dom (dc_heap t) = dom (dc_heap s)"

lemma like_refl [simp]: "like s s"
  by (simp add: like_def)

lemma like_trans: "like s t \<Longrightarrow> like t u \<Longrightarrow> like s u"
  by (simp add: like_def)

lemma like_store: "like s t \<Longrightarrow> dc_heap t p \<noteq> None \<Longrightarrow> like s (store p d t)"
  by (auto simp: like_def)

lemma like_ok: "like s t \<Longrightarrow> dc_ok s \<Longrightarrow> dc_ok t"
  unfolding like_def dc_ok_def dc_wf_def no_nulls_def dom_def by (metis (mono_tags, lifting) mem_Collect_eq)

lemma sound_like_deref: "dc_ok s \<Longrightarrow> like s t \<Longrightarrow> p \<in> set (m_vFavoriteLineData s) \<Longrightarrow> sound (\<lambda>_. dc_heap t p \<noteq> None) (deref t p)"
  using sound_deref [OF like_ok] by (simp add: like_def)

section \<open>The handlers\<close>

lemma delete_favorite_sound:
  assumes "dc_ok s"
  shows "sound (like s) (ofold (\<lambda>p t. if p = 0 then Inr t else obind (deref t p) (\<lambda>d.
      if nPid d = i \<and> url = szUrl d then Inr (store p (d\<lparr>bDelete := True\<rparr>) t) else Inr t)) (m_vFavoriteLineData s) s)"
proof (rule sound_ofold)
  fix p t assume "p \<in> set (m_vFavoriteLineData s)" "like s t"
  then show "sound (like s) (if p = 0 then Inr t else obind (deref t p) (\<lambda>d.
      if nPid d = i \<and> url = szUrl d then Inr (store p (d\<lparr>bDelete := True\<rparr>) t) else Inr t))"
    by (auto intro!: sound_obind [OF sound_like_deref [OF assms]] like_store)
qed simp

lemma delete_fold_sound: "dc_ok s \<Longrightarrow> sound (like s) (DeleteFavoriteFold k i s)"
proof (induction k arbitrary: i s)
  case (Suc k)
  have "sound (like s) (delete_visit (DeleteFavoriteFold k) i p t)" if p: "p \<in> set (m_vFavoriteLineData s)" "like s t" for p t
  proof -
    have step: "sound (like s) (DeleteFavoriteFold k j u)" if "like s u" for j u
      by (rule sound_mono [OF Suc.IH [OF like_ok [OF that Suc.prems]]]) (rule like_trans [OF that])
    show ?thesis unfolding delete_visit_def Let_def
      by (auto intro!: sound_obind [OF sound_like_deref [OF Suc.prems p(2,1)]] step like_store p)
  qed
  then show ?case by (auto intro!: sound_ofold)
qed simp

lemma select_loop_sound: "dc_ok s \<Longrightarrow> sound (\<lambda>_. True) (select_loop s n i pid)"
proof (induction i arbitrary: n pid)
  case (Suc i)
  show ?case unfolding select_loop.simps
    by (rule sound_obind [OF sound_vec_at]) (auto intro!: sound_obind [OF sound_deref] Suc)
qed simp

lemma append_sorted_sound:
  assumes "std_sort srt" and "dc_ok s"
  shows "sound dc_ok (sort_favorites srt (append_new d s))"
  using sorted_add(1) [OF assms(1) append_new_ok [OF assms(2), of d]] by (simp add: sort_favorites_ok [OF append_new_ok [OF assms(2)]])

lemma sound_next_id: "dc_ok s \<Longrightarrow> sound (\<lambda>_. True) (next_id s)"
  unfolding next_id_def by (rule sound_obind [OF sound_vec_at]) (auto intro!: sound_obind [OF sound_deref])

lemma rearrange_sound: "dc_ok s \<Longrightarrow> sound (\<lambda>(t, n). dc_ok t) (OnService_ReArrangeFavorite s)"
proof (cases "m_vFavoriteLineData s = []")
  case False
  assume ok: "dc_ok s"
  obtain q n h where h: "OnService_ReArrangeFavorite s = Inr (s\<lparr>dc_heap := h\<rparr>, n)" "renumbered s q (length (m_vFavoriteLineData s)) h"
    using ReArrange_eq [OF ok False] by blast
  have "h p \<noteq> None \<longleftrightarrow> dc_heap s p \<noteq> None" for p
    using h(2) heap_ok [OF ok] by (cases "p \<in> set (m_vFavoriteLineData s)") (auto simp: renumbered_def in_set_conv_nth)
  then have "like s (s\<lparr>dc_heap := h\<rparr>)" by (auto simp: like_def dom_def)
  then show ?thesis using like_ok ok h(1) by simp
qed (simp add: OnService_ReArrangeFavorite_def)

lemma delete_all_sound:
  assumes "dc_ok s" shows "sound dc_ok (delete_all s)"
proof -
  have loop: "sound (\<lambda>u. next_ptr u = next_ptr t \<and> dom (dc_heap u) \<subseteq> dom (dc_heap t))
      (ofold (\<lambda>p t. if p = 0 then Inr t else delete_data p t) ps t)"
    if "distinct ps" "\<forall>p \<in> set ps. dc_heap t p \<noteq> None" for ps t
    using that
  proof (induction ps arbitrary: t)
    case (Cons p ps)
    show ?case
    proof (cases "p = 0")
      case True
      then show ?thesis using Cons by simp
    next
      case False
      let ?t = "t\<lparr>dc_heap := (dc_heap t)(p := None)\<rparr>"
      have "delete_data p t = Inr ?t" using Cons.prems(2) False by (auto simp: delete_data_def deref_def)
      moreover have "sound (\<lambda>u. next_ptr u = next_ptr ?t \<and> dom (dc_heap u) \<subseteq> dom (dc_heap ?t))
          (ofold (\<lambda>p t. if p = 0 then Inr t else delete_data p t) ps ?t)"
        using Cons.prems by (intro Cons.IH) auto
      ultimately show ?thesis using False by (auto elim!: sound_mono)
    qed
  qed simp
  have "sound (\<lambda>u. next_ptr u = next_ptr s \<and> dom (dc_heap u) \<subseteq> dom (dc_heap s))
      (ofold (\<lambda>p t. if p = 0 then Inr t else delete_data p t) (m_vFavoriteLineData s) s)"
  proof (rule loop [OF dc_ok_distinct [OF assms]])
    show "\<forall>p \<in> set (m_vFavoriteLineData s). dc_heap s p \<noteq> None" using heap_ok [OF assms] by (metis option.distinct(1))
  qed
  then show ?thesis unfolding delete_all_def
  proof (rule sound_obind)
    fix u :: datacenter assume u: "next_ptr u = next_ptr s \<and> dom (dc_heap u) \<subseteq> dom (dc_heap s)"
    have "0 < next_ptr s" "\<And>p. p \<in> dom (dc_heap s) \<Longrightarrow> p < next_ptr s" using assms by (auto simp: dc_ok_def dc_wf_def)
    then have "0 < next_ptr u" "\<And>p. dc_heap u p \<noteq> None \<Longrightarrow> p < next_ptr u" using u by (metis, metis domIff subsetD)
    then show "sound dc_ok (Inr (u\<lparr>m_vFavoriteLineData := []\<rparr>))" by (simp add: dc_ok_def dc_wf_def no_nulls_def)
  qed
qed

lemma init_slots:
  "k \<le> length (m_vFavoriteLineData s) \<Longrightarrow>
     m_vFavoriteLineData (fold (init_slot now) [0..<k] s) = [next_ptr s..<next_ptr s + k] @ drop k (m_vFavoriteLineData s) \<and>
     next_ptr (fold (init_slot now) [0..<k] s) = next_ptr s + k \<and>
     dom (dc_heap (fold (init_slot now) [0..<k] s)) = dom (dc_heap s) \<union> {next_ptr s..<next_ptr s + k}"
proof (induction k)
  case (Suc k)
  let ?t = "fold (init_slot now) [0..<k] s"
  have IH: "m_vFavoriteLineData ?t = [next_ptr s..<next_ptr s + k] @ drop k (m_vFavoriteLineData s)" "next_ptr ?t = next_ptr s + k"
    "dom (dc_heap ?t) = dom (dc_heap s) \<union> {next_ptr s..<next_ptr s + k}" using Suc by auto
  have fold: "fold (init_slot now) [0..<Suc k] s = init_slot now k ?t" by simp
  obtain x xs where x: "drop k (m_vFavoriteLineData s) = x # xs" "xs = drop (Suc k) (m_vFavoriteLineData s)"
    using Suc.prems by (metis Cons_nth_drop_Suc Suc_le_lessD)
  have "m_vFavoriteLineData (init_slot now k ?t) = [next_ptr s..<next_ptr s + Suc k] @ drop (Suc k) (m_vFavoriteLineData s)"
    using IH x by (simp add: init_slot_def new_data_def list_update_append)
  moreover have "next_ptr (init_slot now k ?t) = next_ptr s + Suc k" using IH(2) by (simp add: init_slot_def new_data_def)
  moreover have "dom (dc_heap (init_slot now k ?t)) = insert (next_ptr s + k) (dom (dc_heap s) \<union> {next_ptr s..<next_ptr s + k})"
    using IH(2,3) by (simp add: init_slot_def new_data_def)
  moreover have "insert (next_ptr s + k) (A \<union> {next_ptr s..<next_ptr s + k}) = A \<union> {next_ptr s..<next_ptr s + Suc k}" for A by auto
  ultimately show ?case unfolding fold by simp
qed simp

lemma init_sound:
  assumes "dc_ok s" shows "sound dc_ok (OnService_InitFavoriteData now n s)"
proof (cases "n < 0")
  case False
  let ?k = "nat n" and ?v = "m_vFavoriteLineData s"
  let ?s = "s\<lparr>m_vFavoriteLineData := take ?k ?v @ replicate (?k - length ?v) 0\<rparr>"
  have len: "length (m_vFavoriteLineData ?s) = ?k" by simp
  let ?t = "fold (init_slot now) [0..<?k] ?s"
  have t: "m_vFavoriteLineData ?t = [next_ptr s..<next_ptr s + ?k]" "next_ptr ?t = next_ptr s + ?k"
    "dom (dc_heap ?t) = dom (dc_heap s) \<union> {next_ptr s..<next_ptr s + ?k}"
    using init_slots [of ?k ?s now] len by simp_all
  have pos: "0 < next_ptr s" "\<And>p. p \<in> dom (dc_heap s) \<Longrightarrow> p < next_ptr s" using assms by (auto simp: dc_ok_def dc_wf_def)
  have heap: "dc_heap ?t p \<noteq> None \<longleftrightarrow> p \<in> dom (dc_heap s) \<union> {next_ptr s..<next_ptr s + ?k}" for p using t(3) by (metis domIff)
  have "dc_ok ?t" unfolding dc_ok_def dc_wf_def no_nulls_def t(1,2) heap using pos by (auto simp: trans_less_add1)
  then show ?thesis using False by (simp add: OnService_InitFavoriteData_def Let_def)
qed (simp add: OnService_InitFavoriteData_def)

section \<open>Every step keeps the vector well formed\<close>

text \<open>An event carries the extra information its value announces.\<close>

definition fits :: "dc_extra Event \<Rightarrow> bool" where
  "fits e \<longleftrightarrow>
     (case m_pstExtraInfo e of
        None \<Rightarrow> True
      | Some x \<Rightarrow>
          (eventValue e = EVENT_VALUE_WEB_GET_FAVICON_RESP \<longrightarrow> (\<exists>u d. x = FavIconResp u d)) \<and>
          (eventValue e = EVENT_VALUE_DATACENTER_ADD_FAVORITE \<longrightarrow> (\<exists>p t u. x = AddFavorite p t u)) \<and>
          (eventValue e = EVENT_VALUE_DATACENTER_DELETE_FAVORITE \<longrightarrow> (\<exists>i u. x = DeleteFavorite i u)) \<and>
          (eventValue e = EVENT_VALUE_DATACENTER_ADD_FAVORITE_FOLD \<longrightarrow> (\<exists>p t. x = AddFavoriteFold p t)))"

lemma icon_arrive_sound:
  assumes "dc_ok s" and "\<forall>d. sound (\<lambda>_. True) (makeIcon d)" and "m_pstExtraInfo e = None \<or> (\<exists>u d. m_pstExtraInfo e = Some (FavIconResp u d))"
  shows "sound (\<lambda>(t, _). dc_ok t) (OnEvent_FavoriteIconArrive makeIcon e s)"
proof -
  have icon: "dc_ok (s\<lparr>m_mapDomain2Icon := x\<rparr>)" for x using assms(1) by (simp add: dc_ok_def dc_wf_def no_nulls_def)
  show ?thesis using assms(1,3) icon unfolding OnEvent_FavoriteIconArrive_def
    by (auto intro!: sound_any sound_domain assms(2) [rule_format])
qed

lemma add_sound:
  assumes "std_sort srt" and "dc_ok s" and "m_pstExtraInfo e = None \<or> (\<exists>p t u. m_pstExtraInfo e = Some (AddFavorite p t u))"
  shows "sound (\<lambda>(t, _). dc_ok t) (OnEvent_AddFavorite srt now e s)"
  using assms(2,3) append_sorted_sound [OF assms(1,2)] unfolding OnEvent_AddFavorite_def new_data_def append_new_def
  by (auto intro!: sound_obind [OF sound_next_id] sound_obind [where Q = dc_ok])

lemma add_folder_sound:
  assumes "std_sort srt" and "dc_ok s" and "m_pstExtraInfo e = None \<or> (\<exists>p t. m_pstExtraInfo e = Some (AddFavoriteFold p t))"
  shows "sound (\<lambda>(t, _). dc_ok t) (OnEvent_AddFavoriteFolder srt now e s)"
  using assms(2,3) append_sorted_sound [OF assms(1,2)] unfolding OnEvent_AddFavoriteFolder_def new_data_def append_new_def
  by (auto intro!: sound_obind [OF sound_next_id] sound_obind [where Q = dc_ok] sound_obind [OF rearrange_sound])

lemma delete_folder_sound:
  assumes "dc_ok s"
  shows "sound (\<lambda>(t, _). dc_ok t) (OnEvent_DeleteFavoriteFolder fuel e s)"
proof -
  have "sound (\<lambda>(t, _). dc_ok t) (obind (DeleteFavoriteFold fuel i s) (\<lambda>t. obind (vec_at t j) (\<lambda>q.
      if q = 0 then Inr (t, reqs) else obind (deref t q) (\<lambda>e. Inr (t, reqs @ [tree_select (nId e)])))))" for i j reqs
  proof (rule sound_obind [OF delete_fold_sound [OF assms]])
    fix t assume "like s t"
    then have t: "dc_ok t" using like_ok assms by blast
    show "sound (\<lambda>(t, _). dc_ok t) (obind (vec_at t j) (\<lambda>q.
        if q = 0 then Inr (t, reqs) else obind (deref t q) (\<lambda>e. Inr (t, reqs @ [tree_select (nId e)]))))"
      by (rule sound_obind [OF sound_vec_at]) (auto intro!: sound_obind [OF sound_deref [OF t]] t)
  qed
  then show ?thesis using assms unfolding OnEvent_DeleteFavoriteFolder_def Let_def
    by (auto intro!: sound_obind [OF sound_vec_at] sound_obind [OF sound_deref] sound_obind [OF select_loop_sound])
qed

text \<open>The state-changing operations of the module: an event handled through the map, and the services.\<close>

inductive dc_step :: "((ptr \<Rightarrow> int) \<Rightarrow> ptr list \<Rightarrow> ptr list) \<Rightarrow> datacenter \<Rightarrow> datacenter \<Rightarrow> bool" for srt where
  dc_event_step: "find_handler (dc_eventMap srt now makeIcon fuel) (eventValue e) = Some h \<Longrightarrow> fits e \<Longrightarrow>
     \<forall>d. sound (\<lambda>_. True) (makeIcon d) \<Longrightarrow> h e s = Inr (t, reqs) \<Longrightarrow> dc_step srt s t"
| dc_load_step: "dc_Load cfg s = Inr t \<Longrightarrow> dc_step srt s t"
| dc_unload_step: "dc_Unload s = Inr t \<Longrightarrow> dc_step srt s t"
| dc_rearrange_step: "OnService_ReArrangeFavorite s = Inr (t, n) \<Longrightarrow> dc_step srt s t"
| dc_icon_step: "OnService_GetFavoriteIcon loadIcon url hIcon s = Inr (t, r) \<Longrightarrow> dc_step srt s t"
| dc_init_step: "OnService_InitFavoriteData now n s = Inr t \<Longrightarrow> dc_step srt s t"
| dc_clear_step: "OnService_ClearData s = Inr t \<Longrightarrow> dc_step srt s t"

lemma handler_sound:
  assumes "std_sort srt" and "dc_ok s" and "fits e" and "\<forall>d. sound (\<lambda>_. True) (makeIcon d)"
    and "find_handler (dc_eventMap srt now makeIcon fuel) (eventValue e) = Some h"
  shows "sound (\<lambda>(t, reqs). dc_ok t) (h e s)"
proof -
  have d: "sound (\<lambda>(t, reqs). dc_ok t) (OnEvent_DeleteFavorite e s)"
    if "m_pstExtraInfo e = None \<or> (\<exists>i u. m_pstExtraInfo e = Some (DeleteFavorite i u))"
    using that assms(2) like_ok unfolding OnEvent_DeleteFavorite_def
    by (auto intro!: sound_obind [OF delete_favorite_sound])
  have u: "sound (\<lambda>(t, reqs). dc_ok t) (OnEvent_SetAutoUpdate e s)"
    using assms(2) by (simp add: OnEvent_SetAutoUpdate_def dc_ok_def dc_wf_def no_nulls_def)
  show ?thesis
    using assms(3,5) icon_arrive_sound [OF assms(2,4), of e] add_sound [OF assms(1,2), of e now] d
      add_folder_sound [OF assms(1,2), of e now] delete_folder_sound [OF assms(2), of fuel e] u
    unfolding dc_eventMap_def handler_table_def fits_def
    by (auto split: if_splits option.splits)
qed

lemma dc_step_ok:
  assumes "std_sort srt" and "dc_step srt s t" and "dc_ok s" shows "dc_ok t"
  using assms(2)
proof cases
  case (dc_event_step now makeIcon fuel e h reqs)
  then show ?thesis using handler_sound [OF assms(1,3)] by fastforce
next
  case (dc_load_step cfg)
  then show ?thesis using assms(3)
    by (auto simp: dc_Load_def dc_ok_def dc_wf_def no_nulls_def obind_eq_Inr_iff split: if_splits)
next
  case (dc_icon_step loadIcon url hIcon r)
  then show ?thesis using assms(3)
    by (auto simp: OnService_GetFavoriteIcon_def dc_ok_def dc_wf_def no_nulls_def obind_eq_Inr_iff Let_def split: if_splits option.splits)
next
  case (dc_rearrange_step n)
  then show ?thesis using rearrange_sound [OF assms(3)] by simp
next
  case (dc_init_step now n)
  then show ?thesis using init_sound [OF assms(3), of now n] by simp
qed (use delete_all_sound [OF assms(3)] in \<open>simp_all add: dc_Unload_def OnService_ClearData_def\<close>)

text \<open>The state the constructor leaves.\<close>

definition DataCenterModule :: "nat \<Rightarrow> datacenter" where
  "DataCenterModule hIcon =
     \<lparr>m_vFavoriteLineData = [], dc_heap = (\<lambda>_. None), next_ptr = 1, m_mapDomain2Icon = (\<lambda>_. None), m_hDefaultIcon = hIcon,
      m_bAutoUpdate = False\<rparr>"

lemma reachable_ok:
  assumes "std_sort srt" and "(dc_step srt)\<^sup>*\<^sup>* (DataCenterModule hIcon) s" shows "dc_ok s"
  using assms(2)
proof (induction rule: rtranclp_induct)
  case base
  show ?case by (simp add: DataCenterModule_def dc_ok_def dc_wf_def no_nulls_def)
qed (use dc_step_ok [OF assms(1)] in blast)

text \<open>
  C11: In every state the data centre can reach from its constructor through events and services, the vector is well formed: no NULL, no
  pointer to a deleted entry, no entry twice; and an event that carries the extra information its value announces is handled
  without following a NULL or dangling pointer: it succeeds, or it indexes the vector out of range, or it recurses without end.
\<close>

theorem datacenter_pointer_safe:
  assumes "std_sort srt" and "(dc_step srt)\<^sup>*\<^sup>* (DataCenterModule hIcon) s"
    and "find_handler (dc_eventMap srt now makeIcon fuel) (eventValue e) = Some h" and "fits e"
    and "\<forall>d. sound (\<lambda>_. True) (makeIcon d)"
  shows "dc_ok s \<and> (case h e s of Inl err \<Rightarrow> err \<in> {OutOfRange, NoReturn} | Inr (t, reqs) \<Rightarrow> dc_ok t)"
  using reachable_ok [OF assms(1,2)] handler_sound [OF assms(1) _ assms(4,5,3), of s] unfolding sound_def by (simp split: sum.splits)

definition two_slots :: datacenter where
  "two_slots = fold (init_slot 7) [0..<2] ((DataCenterModule 3)\<lparr>m_vFavoriteLineData := [0, 0]\<rparr>)"

lemma two_slots_reached: "(dc_step sort_key)\<^sup>*\<^sup>* (DataCenterModule 3) two_slots"
proof -
  have "OnService_InitFavoriteData 7 2 (DataCenterModule 3) = Inr two_slots"
    by (simp add: OnService_InitFavoriteData_def two_slots_def DataCenterModule_def numeral_2_eq_2)
  then show ?thesis using dc_init_step by blast
qed

theorem datacenter_pointer_safe_witness:
  "dc_ok two_slots \<and> (case OnEvent_AddFavorite sort_key 7 (add_event 0) two_slots of
     Inl err \<Rightarrow> err \<in> {OutOfRange, NoReturn} | Inr (t, reqs) \<Rightarrow> dc_ok t)"
proof -
  have "find_handler (dc_eventMap sort_key 7 (\<lambda>_. Inr 0) 1) (eventValue (add_event 0)) = Some (OnEvent_AddFavorite sort_key 7)"
    by (simp add: dc_eventMap_def handler_table_def add_event_def MakeEvent_def EVENT_VALUE_WEB_GET_FAVICON_RESP_def
        EVENT_VALUE_DATACENTER_ADD_FAVORITE_def dc_event_def VALUE_BEGIN_def value_bases)
  moreover have "fits (add_event 0)"
    by (simp add: fits_def add_event_def MakeEvent_def EVENT_VALUE_WEB_GET_FAVICON_RESP_def EVENT_VALUE_DATACENTER_ADD_FAVORITE_def
        EVENT_VALUE_DATACENTER_DELETE_FAVORITE_def EVENT_VALUE_DATACENTER_ADD_FAVORITE_FOLD_def dc_event_def VALUE_BEGIN_def value_bases)
  ultimately show ?thesis
    using datacenter_pointer_safe [OF sort_key.std_sort_axioms two_slots_reached] by (metis sound_simps(1))
qed

end
