(* ===== verification/PlugIn_Merge.thy ===== *)
theory PlugIn_Merge
  imports Favorite_Edit
begin

text \<open>
  \<open>PlugInModule::Merge\<close> of \<open>src/src/PlugIn/PlugInModule.cpp\<close>: after the favourites of all browsers have been put into one
  vector, it joins folders and links of the same hash under the same parent.  An entry stands for the path of hashes that leads to
  it from the root.  With a stable sort no path is lost; \<open>std::sort\<close> is not stable, and with another order favourites
  disappear.
\<close>

section \<open>Merge\<close>

text \<open>What the module pushes while it works; the four texts of the progress message are named.\<close>

datatype process_text = LoadingPlugIns | CheckingPlugIns | ExportingFavorites | MergingFavorites

datatype plugin_message =
    CheckIsWorkedEvent
  | ExInportProcess process_text
  | LoadAllPlugInFinished
  | ExportBegin nat
  | ExportEnd nat int bool
  | ExportAllFinished
  | ImportPreBegin
  | ImportBegin nat
  | ImportEnd nat int int
  | ImportAllFinished

type_synonym export_state = "plugin_message list \<times> datacenter"

definition push_message :: "plugin_message \<Rightarrow> export_state \<Rightarrow> export_state" where
  "push_message m x = (fst x @ [m], snd x)"

text \<open>The first loop.  The tests of title and URL compare the addresses of arrays with those of
  literals and are never true.\<close>

definition merge_collect :: "int \<Rightarrow> ptr list \<Rightarrow> datacenter \<Rightarrow> ptr list outcome" where
  "merge_collect nParentId ppData s =
     ofold (\<lambda>p vec.
         if p = 0 then Inr vec
         else obind (deref s p) (\<lambda>d.
           if nId d = 0 then Inr vec
           else if nPid d = nParentId then Inr (vec @ [p]) else Inr vec))
       ppData []"

text \<open>The loop that hangs the children of \<open>a\<close> under \<open>b\<close>.\<close>

definition merge_relink :: "ptr list \<Rightarrow> int \<Rightarrow> int \<Rightarrow> datacenter \<Rightarrow> datacenter outcome" where
  "merge_relink ppData a b s =
     ofold (\<lambda>p t.
         if p = 0 then Inr t
         else obind (deref t p) (\<lambda>d. if nPid d = a then Inr (store p (d\<lparr>nPid := b\<rparr>) t) else Inr t))
       ppData s"

definition merge_turn ::
  "(int \<Rightarrow> export_state \<Rightarrow> export_state outcome) \<Rightarrow> ptr list \<Rightarrow> ptr list \<Rightarrow> nat \<Rightarrow> export_state \<Rightarrow> export_state outcome" where
  "merge_turn rec_call ppData vec i x =
     obind (deref (snd x) (vec ! i)) (\<lambda>d.
     obind (deref (snd x) (vec ! (i + 1))) (\<lambda>e.
       if nHashId d = nHashId e then
         obind (merge_relink ppData (nId d) (nId e) (store (vec ! i) (d\<lparr>bDelete := True\<rparr>) (snd x))) (\<lambda>t.
           rec_call (nId e) (fst x, t))
       else Inr x))"

text \<open>\<open>srt\<close> is \<open>std::sort\<close>, here with \<open>compare_hashid\<close>; the recursion goes at most as deep as the fuel.\<close>

primrec Merge ::
  "((ptr \<Rightarrow> int) \<Rightarrow> ptr list \<Rightarrow> ptr list) \<Rightarrow> nat \<Rightarrow> ptr list \<Rightarrow> int \<Rightarrow> export_state \<Rightarrow> export_state outcome" where
  "Merge srt 0 ppData nParentId x = Inl NoReturn"
| "Merge srt (Suc k) ppData nParentId x =
     (let y = push_message (ExInportProcess MergingFavorites) x in
      obind (merge_collect nParentId ppData (snd y)) (\<lambda>vec.
        if length vec > 1 then
          ofold (merge_turn (Merge srt k ppData) ppData (srt (\<lambda>p. uint (nHashId (fav (snd y) p))) vec)) [0..<length vec - 1] y
        else Inr y))"

section \<open>Paths\<close>

definition entries :: "datacenter \<Rightarrow> ptr set" where
  "entries s = set (m_vFavoriteLineData s)"

text \<open>The hashes from the root to an entry, and the same through entries that are not deleted.\<close>

inductive hash_path :: "ptr set \<Rightarrow> (ptr \<Rightarrow> int) \<Rightarrow> (ptr \<Rightarrow> int) \<Rightarrow> (ptr \<Rightarrow> u32) \<Rightarrow> ptr \<Rightarrow> u32 list \<Rightarrow> bool"
  for E ids par hash where
  hash_path_root: "p \<in> E \<Longrightarrow> par p = 0 \<Longrightarrow> hash_path E ids par hash p [hash p]"
| hash_path_child: "hash_path E ids par hash q hs \<Longrightarrow> p \<in> E \<Longrightarrow> par p = ids q \<Longrightarrow>
    hash_path E ids par hash p (hs @ [hash p])"

definition favorite_paths :: "datacenter \<Rightarrow> u32 list set" where
  "favorite_paths s =
     {hs. \<exists>p. hash_path (entries s) (\<lambda>p. nId (fav s p)) (\<lambda>p. nPid (fav s p)) (\<lambda>p. nHashId (fav s p)) p hs}"

definition living_paths :: "datacenter \<Rightarrow> u32 list set" where
  "living_paths s =
     {hs. \<exists>p. hash_path {p \<in> entries s. \<not> bDelete (fav s p)} (\<lambda>p. nId (fav s p)) (\<lambda>p. nPid (fav s p))
        (\<lambda>p. nHashId (fav s p)) p hs}"

section \<open>A favourite that gets lost\<close>

text \<open>A sort that reverses three equal elements and keeps the order otherwise.\<close>

definition unstable_sort :: "('a \<Rightarrow> int) \<Rightarrow> 'a list \<Rightarrow> 'a list" where
  "unstable_sort k xs = (if length xs = 3 then sort_key k (rev xs) else sort_key k xs)"

interpretation unstable_sort: std_sort unstable_sort
  by unfold_locales (simp_all add: unstable_sort_def sorted_sort_key)

definition hashed :: "u32 \<Rightarrow> FavoriteLineData \<Rightarrow> FavoriteLineData" where
  "hashed h d = d\<lparr>nHashId := h\<rparr>"

text \<open>The same folder with the same link in three browsers, and one other folder.\<close>

definition three_browsers :: datacenter where
  "three_browsers =
     sample_dc [hashed 7 (sample_folder 1 0), hashed 7 (sample_folder 2 0), hashed 7 (sample_folder 3 0), hashed 9 (sample_folder 4 0),
       hashed 5 (sample_url 11 1), hashed 5 (sample_url 12 2), hashed 5 (sample_url 13 3)]"

definition all_deleted :: "datacenter \<Rightarrow> int list \<Rightarrow> bool" where
  "all_deleted s ids \<longleftrightarrow> list_all (\<lambda>p. nId (fav s p) \<in> set ids \<longrightarrow> bDelete (fav s p)) (m_vFavoriteLineData s)"


section \<open>Parents and marks as functions\<close>

text \<open>\<open>Merge\<close> changes only the parents and the marks of the entries.\<close>

definition with_forest :: "datacenter \<Rightarrow> (ptr \<Rightarrow> int) \<Rightarrow> (ptr \<Rightarrow> bool) \<Rightarrow> datacenter" where
  "with_forest s par del =
     s\<lparr>dc_heap := (\<lambda>p. if p \<in> entries s then Some ((fav s p)\<lparr>nPid := par p, bDelete := del p\<rparr>) else dc_heap s p)\<rparr>"

definition relinked :: "datacenter \<Rightarrow> int \<Rightarrow> int \<Rightarrow> (ptr \<Rightarrow> int) \<Rightarrow> ptr \<Rightarrow> int" where
  "relinked s a b par p = (if p \<in> entries s \<and> par p = a then b else par p)"

lemma with_forest_id:
  assumes "dc_ok s" shows "with_forest s (\<lambda>p. nPid (fav s p)) (\<lambda>p. bDelete (fav s p)) = s"
proof -
  have "(\<lambda>p. if p \<in> entries s then Some ((fav s p)\<lparr>nPid := nPid (fav s p), bDelete := bDelete (fav s p)\<rparr>) else dc_heap s p) = dc_heap s"
    using heap_ok [OF assms] by (intro ext) (simp add: entries_def del: option.collapse)
  then show ?thesis by (simp add: with_forest_def)
qed

lemma deref_forest:
  assumes "dc_ok s" and "p \<in> entries s"
  shows "deref (with_forest s par del) p = Inr ((fav s p)\<lparr>nPid := par p, bDelete := del p\<rparr>)"
  using dc_ok_nonnull [OF assms(1), of p] assms(2) by (simp add: deref_def with_forest_def entries_def del: neq0_conv)

lemma fav_forest: "p \<in> entries s \<Longrightarrow> fav (with_forest s par del) p = (fav s p)\<lparr>nPid := par p, bDelete := del p\<rparr>"
  by (simp add: with_forest_def)

lemma store_forest:
  assumes "p \<in> entries s"
  shows "store p ((fav s p)\<lparr>nPid := a, bDelete := b\<rparr>) (with_forest s par del) = with_forest s (par(p := a)) (del(p := b))"
proof -
  have "(\<lambda>q. if q \<in> entries s then Some ((fav s q)\<lparr>nPid := par q, bDelete := del q\<rparr>) else dc_heap s q)
      (p \<mapsto> (fav s p)\<lparr>nPid := a, bDelete := b\<rparr>) =
    (\<lambda>q. if q \<in> entries s then Some ((fav s q)\<lparr>nPid := (par(p := a)) q, bDelete := (del(p := b)) q\<rparr>) else dc_heap s q)"
    using assms by (intro ext) simp
  then show ?thesis by (simp add: store_def with_forest_def)
qed

lemma update_swap: "(d :: FavoriteLineData)\<lparr>bDelete := x, nPid := y\<rparr> = d\<lparr>nPid := y, bDelete := x\<rparr>"
  by (cases d) simp

lemma entries_nonnull: "dc_ok s \<Longrightarrow> p \<in> entries s \<Longrightarrow> p \<noteq> 0"
  using dc_ok_nonnull by (auto simp: entries_def)

lemma collect_loop:
  assumes "dc_ok s" and "set ps \<subseteq> entries s" and "\<forall>p \<in> entries s. nId (fav s p) \<noteq> 0"
  shows "ofold (\<lambda>p vec. if p = 0 then Inr vec
      else obind (deref (with_forest s par del) p) (\<lambda>d.
        if nId d = 0 then Inr vec else if nPid d = n then Inr (vec @ [p]) else Inr vec)) ps acc =
    Inr (acc @ filter (\<lambda>p. par p = n) ps)"
  using assms(2)
proof (induction ps arbitrary: acc)
  case (Cons p ps)
  then have "p \<in> entries s" by simp
  then show ?case using Cons entries_nonnull [OF assms(1)] assms(3) by (simp add: deref_forest [OF assms(1)] del: neq0_conv)
qed simp

lemma merge_collect_forest:
  assumes "dc_ok s" and "\<forall>p \<in> entries s. nId (fav s p) \<noteq> 0"
  shows "merge_collect n (m_vFavoriteLineData s) (with_forest s par del) = Inr (filter (\<lambda>p. par p = n) (m_vFavoriteLineData s))"
  using collect_loop [OF assms(1) _ assms(2), of "m_vFavoriteLineData s"] by (simp add: merge_collect_def entries_def)

lemma relink_loop:
  assumes "dc_ok s" and "set ps \<subseteq> entries s"
  shows "ofold (\<lambda>p t. if p = 0 then Inr t
      else obind (deref t p) (\<lambda>d. if nPid d = a then Inr (store p (d\<lparr>nPid := b\<rparr>) t) else Inr t)) ps (with_forest s par del) =
    Inr (with_forest s (\<lambda>p. if p \<in> set ps \<and> par p = a then b else par p) del)"
  using assms(2)
proof (induction ps arbitrary: par)
  case (Cons p ps)
  then have p: "p \<in> entries s" "p \<noteq> 0" using entries_nonnull [OF assms(1)] by auto
  let ?par = "if par p = a then par(p := b) else par"
  have "(if par p = a then Inr (store p ((fav s p)\<lparr>nPid := par p, bDelete := del p, nPid := b\<rparr>) (with_forest s par del))
      else Inr (with_forest s par del)) = (Inr (with_forest s ?par del) :: datacenter outcome)"
    using store_forest [OF p(1), where a = b and b = "del p" and par = par and del = del] by (simp add: fun_upd_idem update_swap)
  moreover have "(\<lambda>q. if q \<in> set ps \<and> ?par q = a then b else ?par q) = (\<lambda>q. if q \<in> set (p # ps) \<and> par q = a then b else par q)"
    by auto
  ultimately show ?case using Cons.IH [of ?par] Cons.prems p(2) by (simp add: deref_forest [OF assms(1) p(1)] del: neq0_conv)
qed simp

lemma merge_relink_forest:
  assumes "dc_ok s"
  shows "merge_relink (m_vFavoriteLineData s) a b (with_forest s par del) = Inr (with_forest s (relinked s a b par) del)"
proof -
  have "(\<lambda>p. if p \<in> set (m_vFavoriteLineData s) \<and> par p = a then b else par p) = relinked s a b par"
    by (auto simp: relinked_def entries_def)
  then show ?thesis using relink_loop [OF assms, of "m_vFavoriteLineData s" a b par del] by (simp add: merge_relink_def entries_def)
qed

lemma merge_turn_forest:
  assumes "dc_ok s" and "vec ! i \<in> entries s" and "vec ! Suc i \<in> entries s"
  shows "merge_turn rec_call (m_vFavoriteLineData s) vec i (msgs, with_forest s par del) =
    (if nHashId (fav s (vec ! i)) = nHashId (fav s (vec ! Suc i))
     then rec_call (nId (fav s (vec ! Suc i)))
       (msgs, with_forest s (relinked s (nId (fav s (vec ! i))) (nId (fav s (vec ! Suc i))) par) (del(vec ! i := True)))
     else Inr (msgs, with_forest s par del))"
  using store_forest [OF assms(2), where a = "par (vec ! i)" and b = True and par = par and del = del]
  by (simp add: merge_turn_def deref_forest [OF assms(1)] assms(2,3) merge_relink_forest [OF assms(1)])

section \<open>Paths survive\<close>

text \<open>\<open>pos\<close> is the place of an entry in the vector.\<close>

definition pos :: "datacenter \<Rightarrow> ptr \<Rightarrow> nat" where
  "pos s p = length (takeWhile (\<lambda>q. q \<noteq> p) (m_vFavoriteLineData s))"

abbreviation fid :: "datacenter \<Rightarrow> ptr \<Rightarrow> int" where "fid s p \<equiv> nId (fav s p)"
abbreviation fhash :: "datacenter \<Rightarrow> ptr \<Rightarrow> u32" where "fhash s p \<equiv> nHashId (fav s p)"
abbreviation fpath :: "datacenter \<Rightarrow> (ptr \<Rightarrow> int) \<Rightarrow> ptr \<Rightarrow> u32 list \<Rightarrow> bool" where
  "fpath s par \<equiv> hash_path (entries s) (fid s) par (fhash s)"

text \<open>Unique ids, none of them 0, and a depth of every id: the entries form a forest.\<close>

definition forest :: "datacenter \<Rightarrow> (int \<Rightarrow> nat) \<Rightarrow> (ptr \<Rightarrow> int) \<Rightarrow> bool" where
  "forest s lv par \<longleftrightarrow>
     inj_on (fid s) (entries s) \<and> (\<forall>p \<in> entries s. fid s p \<noteq> 0 \<and> lv (fid s p) = Suc (lv (par p)))"

text \<open>A deleted entry has a later one with the same hash under the same parent.\<close>

definition covered :: "datacenter \<Rightarrow> (ptr \<Rightarrow> int) \<Rightarrow> (ptr \<Rightarrow> bool) \<Rightarrow> bool" where
  "covered s par del \<longleftrightarrow>
     (\<forall>p \<in> entries s. del p \<longrightarrow> (\<exists>q \<in> entries s. par q = par p \<and> fhash s q = fhash s p \<and> pos s p < pos s q))"

text \<open>Deleted entries outside \<open>X\<close> have no children.\<close>

definition childless :: "datacenter \<Rightarrow> ptr set \<Rightarrow> (ptr \<Rightarrow> int) \<Rightarrow> (ptr \<Rightarrow> bool) \<Rightarrow> bool" where
  "childless s X par del \<longleftrightarrow> (\<forall>p \<in> entries s. del p \<longrightarrow> p \<notin> X \<longrightarrow> (\<forall>q \<in> entries s. par q \<noteq> fid s p))"

lemma path_entry: "fpath s par p hs \<Longrightarrow> p \<in> entries s"
  by (erule hash_path.cases) auto

lemma path_sibling:
  assumes "fpath s par p hs" and "q \<in> entries s" and "par q = par p" and "fhash s q = fhash s p"
  shows "fpath s par q hs"
  using assms(1)
proof cases
  case hash_path_root
  then show ?thesis using hash_path.hash_path_root [of q "entries s" par "fid s" "fhash s"] assms(2-4) by simp
next
  case (hash_path_child r gs)
  then show ?thesis using hash_path.hash_path_child [of "entries s" "fid s" par "fhash s" r gs q] assms(2-4) by simp
qed

lemma path_transfer:
  assumes "\<And>p. p \<in> entries s \<Longrightarrow> par p = 0 \<Longrightarrow> par' p = 0"
    and "\<And>p q. p \<in> entries s \<Longrightarrow> q \<in> entries s \<Longrightarrow> par p = fid s q \<Longrightarrow>
      \<exists>r \<in> entries s. par' p = fid s r \<and> par' r = par' q \<and> fhash s r = fhash s q"
  shows "fpath s par p hs \<Longrightarrow> fpath s par' p hs"
proof (induction rule: hash_path.induct)
  case (hash_path_root p)
  then show ?case using assms(1) hash_path.hash_path_root [of p "entries s" par'] by simp
next
  case (hash_path_child q hs p)
  obtain r where r: "r \<in> entries s" "par' p = fid s r" "par' r = par' q" "fhash s r = fhash s q"
    using assms(2) hash_path_child.hyps(2,3) path_entry [OF hash_path_child.hyps(1)] by blast
  show ?case
    using hash_path.hash_path_child [OF path_sibling [OF hash_path_child.IH r(1,3,4)] hash_path_child.hyps(2) r(2)] .
qed

lemma path_relinked:
  assumes f: "forest s lv par" and ab: "a \<in> entries s" "b \<in> entries s" "par a = par b" "fhash s a = fhash s b"
  shows "fpath s (relinked s (fid s a) (fid s b) par) p hs \<longleftrightarrow> fpath s par p hs"
proof -
  define par' where "par' = relinked s (fid s a) (fid s b) par"
  have par': "par' q = (if par q = fid s a then fid s b else par q)" if "q \<in> entries s" for q
    using that by (simp add: par'_def relinked_def)
  have zero: "q \<in> entries s \<Longrightarrow> par' q = 0 \<longleftrightarrow> par q = 0" for q using f ab by (auto simp: par' forest_def)
  have "par a \<noteq> fid s a" "par a \<noteq> fid s b" using f ab by (force simp: forest_def)+
  then have same: "par' a = par a" "par' b = par b" using ab by (simp_all add: par')
  have inj: "fid s x = fid s y \<Longrightarrow> x \<in> entries s \<Longrightarrow> y \<in> entries s \<Longrightarrow> x = y" for x y
    using f by (auto simp: forest_def dest: inj_onD)
  have "\<exists>r \<in> entries s. par' p = fid s r \<and> par' r = par' q \<and> fhash s r = fhash s q"
    if "p \<in> entries s" "q \<in> entries s" "par p = fid s q" for p q
  proof (cases "q = a")
    case True
    then show ?thesis using that ab same by (intro bexI [of _ b]) (simp_all add: par')
  next
    case False
    then have "par p \<noteq> fid s a" using inj that ab(1) by metis
    then show ?thesis using that by (intro bexI [of _ q]) (simp_all add: par')
  qed
  moreover have "\<exists>r \<in> entries s. par p = fid s r \<and> par r = par q \<and> fhash s r = fhash s q"
    if "p \<in> entries s" "q \<in> entries s" "par' p = fid s q" for p q
  proof (cases "par p = fid s a")
    case True
    then have "q = b" using inj that ab(2) par' by metis
    then show ?thesis using True ab by blast
  next
    case False
    then show ?thesis using that par' by auto
  qed
  ultimately show ?thesis
    unfolding par'_def [symmetric] using path_transfer [of s par par'] path_transfer [of s par' par] zero by blast
qed

section \<open>One turn\<close>

definition merge_inv :: "datacenter \<Rightarrow> (int \<Rightarrow> nat) \<Rightarrow> ptr set \<Rightarrow> (ptr \<Rightarrow> int) \<Rightarrow> (ptr \<Rightarrow> bool) \<Rightarrow> bool" where
  "merge_inv s lv X par del \<longleftrightarrow> forest s lv par \<and> covered s par del \<and> childless s X par del"

text \<open>From one state to a later one: marks stay, parents down to level \<open>n\<close> stay, paths stay.\<close>

definition merge_mono ::
  "datacenter \<Rightarrow> (int \<Rightarrow> nat) \<Rightarrow> nat \<Rightarrow> (ptr \<Rightarrow> int) \<Rightarrow> (ptr \<Rightarrow> bool) \<Rightarrow> (ptr \<Rightarrow> int) \<Rightarrow> (ptr \<Rightarrow> bool) \<Rightarrow> bool" where
  "merge_mono s lv n par del par' del' \<longleftrightarrow>
     (\<forall>p \<in> entries s. del p \<longrightarrow> del' p) \<and> (\<forall>p \<in> entries s. lv (fid s p) \<le> n \<longrightarrow> par' p = par p) \<and>
     (\<forall>p hs. fpath s par' p hs \<longleftrightarrow> fpath s par p hs)"

lemma merge_mono_refl [simp]: "merge_mono s lv n par del par del"
  by (simp add: merge_mono_def)

lemma merge_mono_trans:
  assumes "merge_mono s lv n par del par' del'" and "merge_mono s lv m par' del' par'' del''" and "n \<le> m"
  shows "merge_mono s lv n par del par'' del''"
proof -
  have "par'' p = par p" if "p \<in> entries s" "lv (fid s p) \<le> n" for p
    using assms that by (simp add: merge_mono_def)
  then show ?thesis using assms(1,2) by (simp add: merge_mono_def)
qed

lemma relink_inv:
  assumes inv: "merge_inv s lv (X \<union> Y) par del" "Y \<subseteq> {a}"
    and ab: "a \<in> entries s" "b \<in> entries s" "par a = n" "par b = n" "fhash s a = fhash s b" "pos s a < pos s b"
  shows "merge_inv s lv (insert b X) (relinked s (fid s a) (fid s b) par) (del(a := True))"
    and "merge_mono s lv (Suc (lv n)) par del (relinked s (fid s a) (fid s b) par) (del(a := True))"
proof -
  define par' where "par' = relinked s (fid s a) (fid s b) par"
  have f: "forest s lv par" and cov: "covered s par del" and ch: "childless s (X \<union> Y) par del"
    using inv(1) by (auto simp: merge_inv_def)
  have par': "par' q = (if par q = fid s a then fid s b else par q)" if "q \<in> entries s" for q
    using that by (simp add: par'_def relinked_def)
  have lv: "lv (fid s q) = Suc (lv (par q))" "fid s q \<noteq> 0" if "q \<in> entries s" for q using f that by (auto simp: forest_def)
  have inj: "fid s x = fid s y \<Longrightarrow> x \<in> entries s \<Longrightarrow> y \<in> entries s \<Longrightarrow> x = y" for x y
    using f by (auto simp: forest_def dest: inj_onD)
  have frame: "par' q = par q" if "q \<in> entries s" "lv (fid s q) \<le> Suc (lv n)" for q
    using that lv(1) [OF ab(1)] lv(1) [OF that(1)] ab(3) by (auto simp: par')
  have "forest s lv par'" using f lv ab by (auto simp: forest_def par')
  moreover have "covered s par' (del(a := True))"
    unfolding covered_def
  proof (intro ballI impI)
    fix p assume p: "p \<in> entries s" "(del(a := True)) p"
    have "\<exists>q \<in> entries s. par q = par p \<and> fhash s q = fhash s p \<and> pos s p < pos s q"
    proof (cases "p = a")
      case True
      then show ?thesis using ab by (intro bexI [of _ b]) simp_all
    next
      case False
      then show ?thesis using cov p by (simp add: covered_def)
    qed
    then obtain q where "q \<in> entries s" "par q = par p" "fhash s q = fhash s p" "pos s p < pos s q" by blast
    then show "\<exists>q \<in> entries s. par' q = par' p \<and> fhash s q = fhash s p \<and> pos s p < pos s q"
      using p(1) by (intro bexI [of _ q]) (simp_all add: par')
  qed
  moreover have "childless s (insert b X) par' (del(a := True))"
    unfolding childless_def
  proof (intro ballI impI)
    fix p q assume p: "p \<in> entries s" "(del(a := True)) p" "p \<notin> insert b X" and q: "q \<in> entries s"
    have "fid s b \<noteq> fid s p" using inj ab(2) p by auto
    moreover have "par q \<noteq> fid s p" if "p \<noteq> a" using ch p q that inv(2) by (auto simp: childless_def)
    ultimately show "par' q \<noteq> fid s p" using q by (auto simp: par')
  qed
  ultimately show "merge_inv s lv (insert b X) (relinked s (fid s a) (fid s b) par) (del(a := True))"
    by (simp add: merge_inv_def par'_def)
  have "fpath s par' p hs \<longleftrightarrow> fpath s par p hs" for p hs
    using path_relinked [OF f ab(1,2) _ ab(5)] ab(3,4) by (simp add: par'_def)
  then show "merge_mono s lv (Suc (lv n)) par del (relinked s (fid s a) (fid s b) par) (del(a := True))"
    using frame by (simp add: merge_mono_def par'_def)
qed

lemma last_alive:
  assumes "merge_inv s lv X par del" and "a \<in> entries s"
    and "\<And>q. q \<in> entries s \<Longrightarrow> par q = par a \<Longrightarrow> fhash s q = fhash s a \<Longrightarrow> \<not> pos s a < pos s q"
  shows "\<not> del a"
  using assms by (auto simp: merge_inv_def covered_def)

section \<open>The order of the siblings\<close>

definition hash_order :: "datacenter \<Rightarrow> ptr \<Rightarrow> ptr \<Rightarrow> bool" where
  "hash_order s p q \<longleftrightarrow> fhash s p < fhash s q \<or> fhash s p = fhash s q \<and> pos s p < pos s q"

lemma insort_hash_order:
  assumes "sorted_wrt (hash_order s) ys" and "\<And>y. y \<in> set ys \<Longrightarrow> pos s x < pos s y"
  shows "sorted_wrt (hash_order s) (insort_key (\<lambda>p. uint (fhash s p)) x ys)"
  using assms
proof (induction ys)
  case (Cons y ys)
  have "hash_order s x z" if "uint (fhash s x) \<le> uint (fhash s y)" "z \<in> set (y # ys)" for z
  proof -
    have "fhash s x \<le> fhash s y" using that(1) by (simp add: word_le_def)
    then show ?thesis using that(2) Cons.prems by (auto simp: hash_order_def)
  qed
  moreover have "hash_order s y x" if "\<not> uint (fhash s x) \<le> uint (fhash s y)"
    using that by (simp add: hash_order_def word_less_def)
  ultimately show ?case using Cons by (auto simp: set_insort_key)
qed simp

lemma sort_hash_order:
  "sorted_wrt (\<lambda>p q. pos s p < pos s q) xs \<Longrightarrow> sorted_wrt (hash_order s) (sort_key (\<lambda>p. uint (fhash s p)) xs)"
  by (induction xs) (auto intro: insort_hash_order)

lemma pos_nth:
  assumes "distinct (m_vFavoriteLineData s)" and "i < length (m_vFavoriteLineData s)"
  shows "pos s (m_vFavoriteLineData s ! i) = i"
proof -
  have "takeWhile (\<lambda>q. q \<noteq> m_vFavoriteLineData s ! i) (m_vFavoriteLineData s) = take i (m_vFavoriteLineData s)"
    using assms by (intro takeWhile_eq_take_P_nth) (auto simp: nth_eq_iff_index_eq)
  then show ?thesis using assms(2) by (simp add: pos_def)
qed

lemma vec_pos_sorted: "dc_ok s \<Longrightarrow> sorted_wrt (\<lambda>p q. pos s p < pos s q) (m_vFavoriteLineData s)"
  using pos_nth [OF dc_ok_distinct] by (auto simp: sorted_wrt_iff_nth_less)

lemma siblings_sorted:
  assumes "dc_ok s"
  shows "sorted_wrt (hash_order s) (sort_key (\<lambda>p. uint (fhash s p)) (filter P (m_vFavoriteLineData s)))"
  by (rule sort_hash_order [OF sorted_wrt_filter [OF vec_pos_sorted [OF assms]]])

lemma hash_order_next:
  assumes "sorted_wrt (hash_order s) vec" and "i < j" and "j < length vec" and "fhash s (vec ! i) = fhash s (vec ! j)"
  shows "fhash s (vec ! Suc i) = fhash s (vec ! i)"
proof -
  have ord: "hash_order s (vec ! a) (vec ! b)" if "a < b" "b < length vec" for a b
    using assms(1) that by (simp add: sorted_wrt_iff_nth_less)
  show ?thesis
  proof (cases "Suc i = j")
    case False
    then have "hash_order s (vec ! i) (vec ! Suc i)" "hash_order s (vec ! Suc i) (vec ! j)" using ord assms(2,3) by auto
    then show ?thesis using assms(4) by (auto simp: hash_order_def)
  qed (use assms(4) in simp)
qed

lemma hash_order_pos:
  assumes "sorted_wrt (hash_order s) vec" and "i < length vec" and "j < length vec"
    and "fhash s (vec ! i) = fhash s (vec ! j)" and "pos s (vec ! i) < pos s (vec ! j)"
  shows "i < j"
proof (rule ccontr)
  assume "\<not> i < j"
  moreover have "i \<noteq> j" using assms(5) by auto
  ultimately have "hash_order s (vec ! j) (vec ! i)" using assms(1,2) by (simp add: sorted_wrt_iff_nth_less)
  then show False using assms(4,5) by (auto simp: hash_order_def)
qed

section \<open>The loop over the siblings\<close>

text \<open>The one entry that may be deleted and still have children before turn \<open>i\<close>.\<close>

definition pending :: "datacenter \<Rightarrow> ptr list \<Rightarrow> nat \<Rightarrow> ptr set" where
  "pending s vec i = (if 0 < i \<and> fhash s (vec ! (i - 1)) = fhash s (vec ! i) then {vec ! i} else {})"

definition siblings :: "datacenter \<Rightarrow> int \<Rightarrow> (ptr \<Rightarrow> int) \<Rightarrow> ptr list \<Rightarrow> bool" where
  "siblings s n par vec \<longleftrightarrow> sorted_wrt (hash_order s) vec \<and> set vec = {p \<in> entries s. par p = n}"

definition loop_inv ::
  "datacenter \<Rightarrow> (int \<Rightarrow> nat) \<Rightarrow> int \<Rightarrow> ptr set \<Rightarrow> ptr list \<Rightarrow> (ptr \<Rightarrow> int) \<Rightarrow> (ptr \<Rightarrow> bool) \<Rightarrow> nat \<Rightarrow>
   (ptr \<Rightarrow> int) \<Rightarrow> (ptr \<Rightarrow> bool) \<Rightarrow> bool" where
  "loop_inv s lv n X vec par0 del0 i par del \<longleftrightarrow>
     merge_inv s lv (X \<union> pending s vec i) par del \<and> merge_mono s lv (Suc (lv n)) par0 del0 par del \<and>
     siblings s n par vec \<and> (\<forall>j < i. fhash s (vec ! j) = fhash s (vec ! Suc j) \<longrightarrow> del (vec ! j))"

lemma siblings_mono:
  assumes "siblings s n par vec" and "forest s lv par" and "forest s lv par'" and "merge_mono s lv (Suc (lv n)) par del par' del'"
  shows "siblings s n par' vec"
proof -
  have "par' p = n \<longleftrightarrow> par p = n" if "p \<in> entries s" for p
  proof -
    have "lv (fid s p) = Suc (lv (par p))" "lv (fid s p) = Suc (lv (par' p))" using assms(2,3) that by (simp_all add: forest_def)
    moreover have "lv (fid s p) \<le> Suc (lv n) \<Longrightarrow> par' p = par p" using assms(4) that by (simp add: merge_mono_def)
    ultimately show ?thesis by auto
  qed
  then show ?thesis using assms(1) by (auto simp: siblings_def)
qed

lemma run_end_alive:
  assumes "siblings s n par vec" and "merge_inv s lv X par del" and "i < length vec"
    and "Suc i = length vec \<or> fhash s (vec ! i) \<noteq> fhash s (vec ! Suc i)"
  shows "\<not> del (vec ! i)"
proof (rule last_alive [OF assms(2)])
  have ord: "sorted_wrt (hash_order s) vec" and vec: "set vec = {p \<in> entries s. par p = n}" using assms(1) by (auto simp: siblings_def)
  have i: "vec ! i \<in> set vec" using assms(3) by simp
  then show "vec ! i \<in> entries s" using vec by blast
  fix q assume q: "q \<in> entries s" "par q = par (vec ! i)" "fhash s q = fhash s (vec ! i)"
  then have "q \<in> set vec" using vec i by auto
  then obtain j where j: "j < length vec" "q = vec ! j" by (auto simp: in_set_conv_nth)
  show "\<not> pos s (vec ! i) < pos s q"
  proof
    assume "pos s (vec ! i) < pos s q"
    then have "i < j" using hash_order_pos [OF ord assms(3) j(1)] q(3) j(2) by simp
    then show False using hash_order_next [OF ord _ j(1), of i] q(3) j assms(4) by auto
  qed
qed

lemma drop_pending: "merge_inv s lv (X \<union> pending s vec i) par del \<Longrightarrow> \<not> del (vec ! i) \<Longrightarrow> merge_inv s lv X par del"
  by (auto simp: merge_inv_def childless_def pending_def split: if_splits)

text \<open>What the loop relies on in the recursive calls.\<close>

definition merges_below ::
  "datacenter \<Rightarrow> (int \<Rightarrow> nat) \<Rightarrow> int \<Rightarrow> (int \<Rightarrow> export_state \<Rightarrow> export_state outcome) \<Rightarrow> bool" where
  "merges_below s lv n rec_call \<longleftrightarrow>
     (\<forall>b X par del msgs. b \<in> entries s \<longrightarrow> lv (fid s b) = Suc (lv n) \<longrightarrow> merge_inv s lv X par del \<longrightarrow>
        (\<exists>msgs' par' del'. rec_call (fid s b) (msgs, with_forest s par del) = Inr (msgs', with_forest s par' del') \<and>
           merge_inv s lv X par' del' \<and> merge_mono s lv (Suc (Suc (lv n))) par del par' del'))"

lemma loop_turn:
  assumes ok: "dc_ok s" and inv: "loop_inv s lv n X vec par0 del0 i par del" and i: "Suc i < length vec"
    and rec: "merges_below s lv n rec_call"
  shows "\<exists>msgs' par' del'. merge_turn rec_call (m_vFavoriteLineData s) vec i (msgs, with_forest s par del) =
      Inr (msgs', with_forest s par' del') \<and> loop_inv s lv n X vec par0 del0 (Suc i) par' del'"
proof -
  define a b where "a = vec ! i" and "b = vec ! Suc i"
  have minv: "merge_inv s lv (X \<union> pending s vec i) par del" and mono: "merge_mono s lv (Suc (lv n)) par0 del0 par del"
    and sib: "siblings s n par vec" and dels: "\<And>j. j < i \<Longrightarrow> fhash s (vec ! j) = fhash s (vec ! Suc j) \<Longrightarrow> del (vec ! j)"
    using inv by (auto simp: loop_inv_def)
  have "a \<in> set vec" "b \<in> set vec" using i by (simp_all add: a_def b_def)
  then have ab: "a \<in> entries s" "b \<in> entries s" "par a = n" "par b = n" using sib by (auto simp: siblings_def)
  note turn = merge_turn_forest [OF ok, of vec i rec_call msgs par del, folded a_def b_def, OF ab(1,2)]
  show ?thesis
  proof (cases "fhash s a = fhash s b")
    case False
    then have "\<not> del a" using run_end_alive [OF sib minv, of i] i by (simp add: a_def b_def)
    then have "merge_inv s lv X par del" using drop_pending [OF minv] by (simp add: a_def)
    then have "loop_inv s lv n X vec par0 del0 (Suc i) par del"
      using False mono sib dels by (auto simp: loop_inv_def pending_def a_def b_def less_Suc_eq)
    then show ?thesis using turn False by auto
  next
    case True
    have "hash_order s a b" using sib i by (auto simp: siblings_def sorted_wrt_iff_nth_less a_def b_def)
    then have lt: "pos s a < pos s b" using True by (auto simp: hash_order_def)
    define par1 where "par1 = relinked s (fid s a) (fid s b) par"
    have "pending s vec i \<subseteq> {a}" by (simp add: pending_def a_def)
    note step = relink_inv [OF minv this ab True lt, folded par1_def]
    have "lv (fid s b) = Suc (lv n)" using minv ab by (auto simp: merge_inv_def forest_def)
    with rec ab(2) step(1) obtain msgs' par' del' where
      run: "rec_call (fid s b) (msgs, with_forest s par1 (del(a := True))) = Inr (msgs', with_forest s par' del')"
      and inv': "merge_inv s lv (insert b X) par' del'" and mono': "merge_mono s lv (Suc (Suc (lv n))) par1 (del(a := True)) par' del'"
      unfolding merges_below_def by blast
    have step2: "merge_mono s lv (Suc (lv n)) par del par' del'" using merge_mono_trans [OF step(2) mono'] by simp
    have vecE: "vec ! j \<in> entries s" if "j < length vec" for j using sib that nth_mem by (fastforce simp: siblings_def)
    have "del' (vec ! j)" if "j < Suc i" "fhash s (vec ! j) = fhash s (vec ! Suc j)" for j
      using that dels [of j] mono' vecE [of j] i by (auto simp: merge_mono_def a_def less_Suc_eq)
    moreover have "siblings s n par' vec"
      using siblings_mono [OF sib _ _ step2] minv inv' by (simp add: merge_inv_def)
    moreover have "pending s vec (Suc i) = {b}" using True by (simp add: pending_def a_def b_def)
    ultimately have "loop_inv s lv n X vec par0 del0 (Suc i) par' del'"
      using inv' merge_mono_trans [OF mono step2] by (simp add: loop_inv_def)
    then show ?thesis using turn True run by (auto simp: par1_def)
  qed
qed

section \<open>The recursion\<close>

lemma merge_loop:
  assumes ok: "dc_ok s" and sib: "siblings s n par vec" and inv: "merge_inv s lv X par del" and m: "m < length vec"
    and rec: "merges_below s lv n rec_call"
  shows "\<exists>msgs' par' del'. ofold (merge_turn rec_call (m_vFavoriteLineData s) vec) [0..<m] (msgs, with_forest s par del) =
      Inr (msgs', with_forest s par' del') \<and> loop_inv s lv n X vec par del m par' del'"
  using m
proof (induction m)
  case 0
  have "loop_inv s lv n X vec par del 0 par del" using sib inv by (simp add: loop_inv_def pending_def)
  then show ?case by auto
next
  case (Suc m)
  then obtain msgs' par' del' where run: "ofold (merge_turn rec_call (m_vFavoriteLineData s) vec) [0..<m] (msgs, with_forest s par del) =
      Inr (msgs', with_forest s par' del')" and "loop_inv s lv n X vec par del m par' del'" by auto
  from loop_turn [OF ok this(2) Suc.prems rec, of msgs'] obtain msgs'' par'' del'' where
    "merge_turn rec_call (m_vFavoriteLineData s) vec m (msgs', with_forest s par' del') = Inr (msgs'', with_forest s par'' del'')"
    "loop_inv s lv n X vec par del (Suc m) par'' del''" by blast
  then show ?case using run by (simp add: ofold_append) blast
qed

lemma loop_result:
  assumes "loop_inv s lv n X vec par del (length vec - 1) par' del'" and "vec \<noteq> []"
  shows "merge_inv s lv X par' del'"
    and "p \<in> entries s \<Longrightarrow> q \<in> entries s \<Longrightarrow> par' p = n \<Longrightarrow> par' q = n \<Longrightarrow> fhash s p = fhash s q \<Longrightarrow> pos s p < pos s q \<Longrightarrow> del' p"
proof -
  have inv: "merge_inv s lv (X \<union> pending s vec (length vec - 1)) par' del'" and sib: "siblings s n par' vec"
    and dels: "\<And>j. j < length vec - 1 \<Longrightarrow> fhash s (vec ! j) = fhash s (vec ! Suc j) \<Longrightarrow> del' (vec ! j)"
    using assms(1) by (auto simp: loop_inv_def)
  have "\<not> del' (vec ! (length vec - 1))" using run_end_alive [OF sib inv, of "length vec - 1"] assms(2) by simp
  then show "merge_inv s lv X par' del'" by (rule drop_pending [OF inv])
  assume pq: "p \<in> entries s" "q \<in> entries s" "par' p = n" "par' q = n" "fhash s p = fhash s q" "pos s p < pos s q"
  have ord: "sorted_wrt (hash_order s) vec" and "p \<in> set vec" "q \<in> set vec" using sib pq by (auto simp: siblings_def)
  then obtain i j where ij: "i < length vec" "p = vec ! i" "j < length vec" "q = vec ! j" by (auto simp: in_set_conv_nth)
  then have "i < j" using hash_order_pos [OF ord ij(1,3)] pq by simp
  then show "del' p" using hash_order_next [OF ord _ ij(3), of i] dels [of i] ij pq(5) by auto
qed

lemma Merge_forest:
  assumes ok: "dc_ok s" and K: "\<forall>p \<in> entries s. lv (fid s p) \<le> K"
  shows "merge_inv s lv X par del \<Longrightarrow> K - lv n < k \<Longrightarrow>
    \<exists>msgs' par' del'. Merge sort_key k (m_vFavoriteLineData s) n (msgs, with_forest s par del) =
        Inr (msgs', with_forest s par' del') \<and>
      merge_inv s lv X par' del' \<and> merge_mono s lv (Suc (lv n)) par del par' del' \<and>
      (\<forall>p \<in> entries s. \<forall>q \<in> entries s. par' p = n \<and> par' q = n \<and> fhash s p = fhash s q \<and> pos s p < pos s q \<longrightarrow> del' p)"
proof (induction k arbitrary: n par del X msgs)
  case (Suc k)
  define vec where "vec = sort_key (\<lambda>p. uint (fhash s p)) (filter (\<lambda>p. par p = n) (m_vFavoriteLineData s))"
  have sib: "siblings s n par vec"
    using siblings_sorted [OF ok] by (auto simp: siblings_def vec_def entries_def)
  have ids: "\<forall>p \<in> entries s. fid s p \<noteq> 0" using Suc.prems(1) by (simp add: merge_inv_def forest_def)
  have hash: "nHashId (fav (with_forest s par del) p) = fhash s p" for p by (simp add: with_forest_def)
  have step: "Merge sort_key (Suc k) (m_vFavoriteLineData s) n (msgs, with_forest s par del) =
    (if length vec > 1
     then ofold (merge_turn (Merge sort_key k (m_vFavoriteLineData s)) (m_vFavoriteLineData s) vec) [0..<length vec - 1]
       (msgs @ [ExInportProcess MergingFavorites], with_forest s par del)
     else Inr (msgs @ [ExInportProcess MergingFavorites], with_forest s par del))"
    by (simp add: push_message_def merge_collect_forest [OF ok ids] vec_def hash Let_def)
  show ?case
  proof (cases "length vec > 1")
    case True
    have "merges_below s lv n (Merge sort_key k (m_vFavoriteLineData s))"
      unfolding merges_below_def
    proof (intro allI impI)
      fix b X par del and msgs :: "plugin_message list"
      assume b: "b \<in> entries s" "lv (fid s b) = Suc (lv n)" "merge_inv s lv X par del"
      have "K - lv (fid s b) < k" using K b(1,2) Suc.prems(2) by fastforce
      from Suc.IH [OF b(3) this, of msgs] show "\<exists>msgs' par' del'.
          Merge sort_key k (m_vFavoriteLineData s) (fid s b) (msgs, with_forest s par del) = Inr (msgs', with_forest s par' del') \<and>
          merge_inv s lv X par' del' \<and> merge_mono s lv (Suc (Suc (lv n))) par del par' del'"
        unfolding b(2) by blast
    qed
    moreover have "length vec - 1 < length vec" using True by simp
    ultimately obtain msgs' par' del' where loop: "Merge sort_key (Suc k) (m_vFavoriteLineData s) n (msgs, with_forest s par del) =
        Inr (msgs', with_forest s par' del')" and inv: "loop_inv s lv n X vec par del (length vec - 1) par' del'"
      using merge_loop [OF ok sib Suc.prems(1), of "length vec - 1" "Merge sort_key k (m_vFavoriteLineData s)"
          "msgs @ [ExInportProcess MergingFavorites]"] True unfolding step by (simp only: if_True) blast
    have "vec \<noteq> []" using True by auto
    note res = loop_result [OF inv this]
    show ?thesis using loop inv res unfolding loop_inv_def by blast
  next
    case False
    have "p = q" if "p \<in> entries s" "q \<in> entries s" "par p = n" "par q = n" for p q
    proof -
      have "p \<in> set vec" "q \<in> set vec" using sib that by (auto simp: siblings_def)
      then show ?thesis using False by (cases vec) auto
    qed
    then show ?thesis using step False Suc.prems(1) by fastforce
  qed
qed simp

section \<open>Nothing is lost by a stable sort\<close>

lemma living_path:
  assumes "childless s {} par del" and "fpath s par p hs" and "\<not> del p"
  shows "hash_path {p \<in> entries s. \<not> del p} (fid s) par (fhash s) p hs"
  using assms(2,3)
proof induction
  case (hash_path_root p)
  then show ?case using hash_path.hash_path_root [of p "{p \<in> entries s. \<not> del p}" par "fid s" "fhash s"] by simp
next
  case (hash_path_child q hs p)
  have "\<not> del q" using assms(1) hash_path_child.hyps path_entry [OF hash_path_child.hyps(1)] by (auto simp: childless_def)
  then show ?case
    using hash_path.hash_path_child [OF hash_path_child.IH, of p] hash_path_child.hyps(2,3) hash_path_child.prems by simp
qed

lemma living_representative:
  assumes "covered s par del" and "p \<in> entries s"
  shows "\<exists>q \<in> entries s. par q = par p \<and> fhash s q = fhash s p \<and> \<not> del q"
proof -
  define S where "S = {q \<in> entries s. par q = par p \<and> fhash s q = fhash s p}"
  have "finite S" "p \<in> S" using assms(2) by (simp_all add: S_def entries_def)
  then obtain q where q: "q \<in> S" "\<forall>r \<in> S. pos s r \<le> pos s q"
    using Max_in [of "pos s ` S"] Max_ge [of "pos s ` S"] by (metis (no_types, lifting) empty_iff finite_imageI imageE imageI)
  then have "\<not> del q" using assms(1) by (fastforce simp: covered_def S_def)
  then show ?thesis using q(1) by (auto simp: S_def)
qed

lemma hash_path_subset:
  assumes "hash_path E ids par hash p hs" and "E \<subseteq> F" and "\<And>q. q \<in> E \<Longrightarrow> ids q = ids' q \<and> par q = par' q \<and> hash q = hash' q"
  shows "hash_path F ids' par' hash' p hs"
  using assms(1)
proof induction
  case (hash_path_root p)
  then show ?case using assms(2,3) hash_path.hash_path_root [of p F par' ids' hash'] by auto
next
  case (hash_path_child q hs p)
  have "q \<in> E" using hash_path_child.hyps(1) by (rule hash_path.cases) auto
  then show ?case
    using assms(2,3) hash_path_child.hyps hash_path.hash_path_child [OF hash_path_child.IH, of p] by (metis subset_iff)
qed

lemma living_paths_all:
  assumes "merge_inv s lv {} par del"
  shows "{hs. \<exists>p. hash_path {p \<in> entries s. \<not> del p} (fid s) par (fhash s) p hs} = {hs. \<exists>p. fpath s par p hs}"
proof (intro set_eqI iffI; clarify)
  fix hs p assume "hash_path {p \<in> entries s. \<not> del p} (fid s) par (fhash s) p hs"
  then have "fpath s par p hs" by (rule hash_path_subset) auto
  then show "\<exists>p. fpath s par p hs" by blast
next
  fix hs p assume p: "fpath s par p hs"
  have inv: "covered s par del" "childless s {} par del" using assms by (simp_all add: merge_inv_def)
  obtain q where "q \<in> entries s" "par q = par p" "fhash s q = fhash s p" "\<not> del q"
    using living_representative [OF inv(1) path_entry [OF p]] by blast
  then show "\<exists>p. hash_path {p \<in> entries s. \<not> del p} (fid s) par (fhash s) p hs"
    using living_path [OF inv(2) path_sibling [OF p]] by blast
qed

lemma living_paths_forest:
  "living_paths (with_forest s par del) = {hs. \<exists>p. hash_path {p \<in> entries s. \<not> del p} (fid s) par (fhash s) p hs}"
proof -
  have E: "{p \<in> entries (with_forest s par del). \<not> bDelete (fav (with_forest s par del) p)} = {p \<in> entries s. \<not> del p}"
    by (auto simp: entries_def with_forest_def)
  have f: "fid (with_forest s par del) q = fid s q \<and> nPid (fav (with_forest s par del) q) = par q \<and>
      fhash (with_forest s par del) q = fhash s q" if "q \<in> {p \<in> entries s. \<not> del p}" for q
    using that by (simp add: fav_forest)
  show ?thesis
    unfolding living_paths_def E
    using hash_path_subset [OF _ order_refl, where E = "{p \<in> entries s. \<not> del p}"] f by (intro Collect_cong ex_cong1 iffI) (metis (no_types, lifting))+
qed

locale stable_sort = std_sort +
  assumes srt_stable: "filter (\<lambda>y. k y = a) (srt k xs) = filter (\<lambda>y. k y = a) xs"
begin

lemma srt_is_sort_key: "srt k xs = sort_key k xs"
  using srt_mset srt_sorted srt_stable by (intro properties_for_sort_key [symmetric]) (auto simp: eq_commute)

end

interpretation sort_key: stable_sort "sort_key :: ('a \<Rightarrow> int) \<Rightarrow> 'a list \<Rightarrow> 'a list"
  by unfold_locales (simp add: sort_key_stable)


text \<open>Facts about all entries of a sample vector.\<close>

lemma sample_entries: "entries (sample_dc xs) = Suc ` {..<length xs}"
proof -
  have "[1..<length xs + 1] = map Suc [0..<length xs]" by (simp add: map_Suc_upt)
  then show ?thesis by (simp add: entries_def sample_dc_def lessThan_atLeast0)
qed

lemma sample_fav: "i < length xs \<Longrightarrow> fav (sample_dc xs) (Suc i) = xs ! i"
  by (simp add: sample_dc_def)

lemma sample_all: "(\<forall>p \<in> entries (sample_dc xs). Q (fav (sample_dc xs) p)) \<longleftrightarrow> list_all Q xs"
  by (auto simp: sample_entries sample_fav list_all_length)

lemma sample_ex: "(\<exists>p \<in> entries (sample_dc xs). Q (fav (sample_dc xs) p)) \<longleftrightarrow> list_ex Q xs"
  by (auto simp: sample_entries sample_fav list_ex_length)

lemma sample_inj: "inj_on (\<lambda>p. nId (fav (sample_dc xs) p)) (entries (sample_dc xs)) \<longleftrightarrow> distinct (map nId xs)"
  by (auto simp: sample_entries sample_fav inj_on_def distinct_conv_nth)

lemma sample_forest:
  "forest (sample_dc xs) lv (\<lambda>p. nPid (fav (sample_dc xs) p)) \<longleftrightarrow>
     distinct (map nId xs) \<and> list_all (\<lambda>d. nId d \<noteq> 0 \<and> lv (nId d) = Suc (lv (nPid d))) xs"
  unfolding forest_def sample_inj sample_all [of xs "\<lambda>d. nId d \<noteq> 0 \<and> lv (nId d) = Suc (lv (nPid d))"] ..

definition sample_level :: "int \<Rightarrow> nat" where
  "sample_level i = (if i = 0 then 0 else if i < 11 then 1 else 2)"


end
