(* ===== verification/PlugIn_Module.thy ===== *)
theory PlugIn_Module
  imports PlugIn_Merge
begin

text \<open>
  The plug-in module, \<open>src/src/PlugIn/PlugInModule.cpp\<close>: loading the plug-in DLLs, dropping those whose browser is not
  installed, and the export and import threads.  A plug-in is what the interface \<open>IPlugIn\<close> of
  \<open>src/include/PlugIn.h\<close> shows of it; a DLL is what Windows and its two exports answer.
\<close>

section \<open>Plug-ins and DLLs\<close>

text \<open>\<open>ExportFavoriteData\<close> is given the pointers from its offset on and the number of its favourites, which it may change;
  it fills the records through the pointers.\<close>

record IPlugIn =
  plug_id :: nat
  plug_Load :: bool
  plug_IsWorked :: bool
  GetFavoriteCount :: int
  ExportFavoriteData :: "ptr list \<Rightarrow> int \<Rightarrow> datacenter \<Rightarrow> (bool \<times> int \<times> datacenter) outcome"
  ImportFavoriteData :: "ptr list \<Rightarrow> int \<Rightarrow> datacenter \<Rightarrow> (int \<times> int \<times> datacenter) outcome"

record IPlugInFactory =
  QueryPlugInCounter :: "nat option"
  QueryPlugInPoint :: "nat \<Rightarrow> IPlugIn list option"

record plugin_dll =
  GetPlugInFactory :: "IPlugInFactory option option"
  ReleasePlugInFactory :: bool

datatype load_failure =
  LoadLibraryFailed | NoGetPlugInFactory | NoReleasePlugInFactory | FactoryNull | CounterFailed | PointFailed

datatype EThreadDoing = DoNone | DoExport | DoImport

record plugin_module =
  m_vPlugInFactory :: "IPlugInFactory list"
  m_vPlugInModuleInfo :: "IPlugIn list list"
  m_vPlugIns :: "IPlugIn list"
  m_eThreadToDoing :: EThreadDoing
  m_nSumFavorite :: int
  m_pExportFavThread :: bool
  m_pImportFavThread :: bool
  load_failures :: "load_failure list"

definition PlugInModule :: plugin_module where
  "PlugInModule =
     \<lparr>m_vPlugInFactory = [], m_vPlugInModuleInfo = [], m_vPlugIns = [], m_eThreadToDoing = DoNone, m_nSumFavorite = 0,
      m_pExportFavThread = False, m_pImportFavThread = False, load_failures = []\<rparr>"

definition DllPlugInList :: "wstring list" where
  "DllPlugInList = [wide ''SogouPlugIn.dll'', wide ''360PlugIn.dll'']"

section \<open>Loading\<close>

definition load_failed :: "load_failure \<Rightarrow> plugin_module \<Rightarrow> plugin_module" where
  "load_failed f s = s\<lparr>load_failures := load_failures s @ [f]\<rparr>"

text \<open>One turn of the loop over the DLLs.  With no plug-ins in the DLL \<open>pvPlugIn[0]\<close> is out of range.\<close>

definition load_dll :: "(wstring \<Rightarrow> plugin_dll option) \<Rightarrow> wstring \<Rightarrow> plugin_module \<Rightarrow> plugin_module outcome" where
  "load_dll LoadLibrary strPlugInPath s =
     (case LoadLibrary strPlugInPath of
        None \<Rightarrow> Inr (load_failed LoadLibraryFailed s)
      | Some dll \<Rightarrow>
          (case GetPlugInFactory dll of
             None \<Rightarrow> Inr (load_failed NoGetPlugInFactory s)
           | Some pFactory \<Rightarrow>
               if \<not> ReleasePlugInFactory dll then Inr (load_failed NoReleasePlugInFactory s)
               else
                 (case pFactory of
                    None \<Rightarrow> Inr (load_failed FactoryNull s)
                  | Some f \<Rightarrow>
                      (let s1 = s\<lparr>m_vPlugInFactory := m_vPlugInFactory s @ [f]\<rparr> in
                       case QueryPlugInCounter f of
                         None \<Rightarrow> Inr (load_failed CounterFailed s1)
                       | Some nPlugNum \<Rightarrow>
                           if nPlugNum = 0 then Inl OutOfRange
                           else
                             (case QueryPlugInPoint f nPlugNum of
                                None \<Rightarrow> Inr (load_failed PointFailed s1)
                              | Some pvPlugIn \<Rightarrow>
                                  Inr (s1\<lparr>m_vPlugIns := m_vPlugIns s1 @ filter plug_Load pvPlugIn,
                                          m_vPlugInModuleInfo := m_vPlugInModuleInfo s1 @ [pvPlugIn]\<rparr>))))))"

definition OnEvent_LoadAllPlugin ::
  "wstring \<Rightarrow> (wstring \<Rightarrow> plugin_dll option) \<Rightarrow> plugin_module \<Rightarrow> (plugin_module \<times> plugin_message list) outcome" where
  "OnEvent_LoadAllPlugin strPath LoadLibrary s =
     obind (ofold (load_dll LoadLibrary) (map (\<lambda>n. strPath @ [0x5C] @ wide ''PlugIn'' @ [0x5C] @ n) DllPlugInList)
              (s\<lparr>m_vPlugInFactory := [], m_vPlugIns := [], m_vPlugInModuleInfo := []\<rparr>))
       (\<lambda>t. Inr (t, [CheckIsWorkedEvent, ExInportProcess LoadingPlugIns]))"

text \<open>The erasing loop of \<open>OnEvent_CheckPlugInWorked\<close>; then the export thread is started anew.\<close>

fun erase_idle :: "IPlugIn list \<Rightarrow> IPlugIn list" where
  "erase_idle [] = []"
| "erase_idle (p # ps) = (if plug_IsWorked p then p # erase_idle ps else erase_idle ps)"

definition OnEvent_CheckPlugInWorked :: "plugin_module \<Rightarrow> plugin_module \<times> plugin_message list" where
  "OnEvent_CheckPlugInWorked s =
     (s\<lparr>m_vPlugIns := erase_idle (m_vPlugIns s), m_eThreadToDoing := DoExport, m_pExportFavThread := True\<rparr>,
      [LoadAllPlugInFinished, ExInportProcess CheckingPlugIns])"

definition OnEvent_BeginToSync :: "plugin_module \<Rightarrow> plugin_module" where
  "OnEvent_BeginToSync s = s\<lparr>m_eThreadToDoing := DoImport, m_pImportFavThread := True\<rparr>"

definition OnService_GetAvailablePlugIns :: "plugin_module \<Rightarrow> IPlugIn list" where
  "OnService_GetAvailablePlugIns s = m_vPlugIns s"

text \<open>The calls that \<open>Unload\<close> makes: of every plug-in, then of every DLL that was loaded.\<close>

datatype unload_call = CallUnLoad nat | CallReleaseFactory

definition plugin_Unload :: "plugin_module \<Rightarrow> unload_call list" where
  "plugin_Unload s = map (\<lambda>p. CallUnLoad (plug_id p)) (m_vPlugIns s) @ map (\<lambda>_. CallReleaseFactory) (m_vPlugInModuleInfo s)"

section \<open>Exporting\<close>

text \<open>The sum of the counts, in a 32-bit integer.\<close>

definition sum_counts :: "IPlugIn list \<Rightarrow> int" where
  "sum_counts ps = fold (\<lambda>p n. if GetFavoriteCount p = 0 then n else wrap32 (n + GetFavoriteCount p)) ps 0"

definition export_one :: "IPlugIn \<Rightarrow> export_state \<times> int \<Rightarrow> (export_state \<times> int) outcome" where
  "export_one pPlugIn x =
     (case x of (y, nCurrentOffset) \<Rightarrow>
        if GetFavoriteCount pPlugIn = 0 then Inr x
        else
          let y1 = push_message (ExportBegin (plug_id pPlugIn)) y in
          obind (vec_at (snd y1) nCurrentOffset) (\<lambda>_.
          obind (ExportFavoriteData pPlugIn (drop (nat nCurrentOffset) (m_vFavoriteLineData (snd y1))) (GetFavoriteCount pPlugIn) (snd y1))
            (\<lambda>(bRet, n, t).
               if \<not> bRet then Inr (push_message (ExportEnd (plug_id pPlugIn) n False) (fst y1, t), nCurrentOffset)
               else Inr (push_message (ExportEnd (plug_id pPlugIn) n True) (fst y1, t), wrap32 (nCurrentOffset + n)))))"

text \<open>The loop that erases; on a NULL pointer it neither erases nor goes on.\<close>

fun erase_deleted :: "datacenter \<Rightarrow> ptr list \<Rightarrow> ptr list outcome" where
  "erase_deleted s [] = Inr []"
| "erase_deleted s (p # ps) =
     (if p = 0 then Inl NoReturn
      else obind (deref s p) (\<lambda>d.
        obind (erase_deleted s ps) (\<lambda>qs. Inr (if bDelete d \<or> szTitle d = [] then qs else p # qs))))"

text \<open>From \<open>Merge\<close> to the end of \<open>DoExportThread\<close>; the result is \<open>m_nSumFavorite\<close> with the messages and the data.\<close>

definition export_finish ::
  "((ptr \<Rightarrow> int) \<Rightarrow> ptr list \<Rightarrow> ptr list) \<Rightarrow> nat \<Rightarrow> export_state \<Rightarrow> (int \<times> export_state) outcome" where
  "export_finish srt fuel y =
     obind (Merge srt fuel (m_vFavoriteLineData (snd y)) 0 y) (\<lambda>(msgs, t).
     obind (erase_deleted t (m_vFavoriteLineData t)) (\<lambda>v.
       let t1 = t\<lparr>m_vFavoriteLineData := v\<rparr>; n = int (length v) in
       if n = 0 then Inr (n, push_message ExportAllFinished (msgs, t1))
       else
         obind (sort_favorites srt t1) (\<lambda>t2.
         obind (OnService_ReArrangeFavorite t2) (\<lambda>(t3, _).
         obind (sort_favorites srt t3) (\<lambda>t4.
           Inr (n, push_message ExportAllFinished (msgs, t4)))))))"

definition DoExportThread ::
  "((ptr \<Rightarrow> int) \<Rightarrow> ptr list \<Rightarrow> ptr list) \<Rightarrow> nat \<Rightarrow> int \<Rightarrow> plugin_module \<Rightarrow> export_state \<Rightarrow> (plugin_module \<times> export_state) outcome" where
  "DoExportThread srt fuel now s x =
     (let y = push_message (ExInportProcess ExportingFavorites) x;
          y1 = (fst y, (snd y)\<lparr>m_vFavoriteLineData := []\<rparr>);
          n = sum_counts (m_vPlugIns s) in
      if n = 0 then Inr (s\<lparr>m_nSumFavorite := 0\<rparr>, push_message ExportAllFinished y1)
      else
        obind (OnService_InitFavoriteData now n (snd y1)) (\<lambda>t.
        obind (ofold export_one (m_vPlugIns s) ((fst y1, t), 0)) (\<lambda>(y2, _).
        obind (export_finish srt fuel y2) (\<lambda>(m, y3). Inr (s\<lparr>m_nSumFavorite := m\<rparr>, y3)))))"

section \<open>Importing\<close>

definition import_one :: "IPlugIn \<Rightarrow> export_state \<Rightarrow> export_state outcome" where
  "import_one pPlugIn y =
     (let y1 = push_message (ImportBegin (plug_id pPlugIn)) y; v = m_vFavoriteLineData (snd y1) in
      obind (ImportFavoriteData pPlugIn v (int (length v)) (snd y1)) (\<lambda>(nRet, n, t).
        Inr (push_message (ImportEnd (plug_id pPlugIn) n nRet) (fst y1, t))))"

definition DoImportThread :: "plugin_module \<Rightarrow> export_state \<Rightarrow> export_state outcome" where
  "DoImportThread s x =
     (let y = push_message ImportPreBegin x in
      if m_vFavoriteLineData (snd y) = [] then Inr y
      else
        obind (OnService_ReArrangeFavorite (snd y)) (\<lambda>(t, _).
        obind (ofold import_one (m_vPlugIns s) (fst y, t)) (\<lambda>z. Inr (push_message ImportAllFinished z))))"

definition plugin_Run ::
  "((ptr \<Rightarrow> int) \<Rightarrow> ptr list \<Rightarrow> ptr list) \<Rightarrow> nat \<Rightarrow> int \<Rightarrow> plugin_module \<Rightarrow> export_state \<Rightarrow> (plugin_module \<times> export_state) outcome" where
  "plugin_Run srt fuel now s x =
     (case m_eThreadToDoing s of
        DoExport \<Rightarrow> obind (DoExportThread srt fuel now s x) (\<lambda>(t, y). Inr (t\<lparr>m_eThreadToDoing := DoNone\<rparr>, y))
      | DoImport \<Rightarrow> obind (DoImportThread s x) (\<lambda>y. Inr (s\<lparr>m_eThreadToDoing := DoNone\<rparr>, y))
      | DoNone \<Rightarrow> Inr (s, x))"

section \<open>The vector after an export\<close>

lemma hash_path_rename:
  assumes "hash_path E ids par hash p hs" and "\<And>p. p \<in> E \<Longrightarrow> par p = 0 \<Longrightarrow> par' p = 0"
    and "\<And>p q. p \<in> E \<Longrightarrow> q \<in> E \<Longrightarrow> par p = ids q \<Longrightarrow> par' p = ids' q" and "\<And>p. p \<in> E \<Longrightarrow> hash' p = hash p"
  shows "hash_path E ids' par' hash' p hs"
  using assms(1)
proof induction
  case (hash_path_root p)
  then show ?case using assms(2,4) hash_path.hash_path_root [of p E par' ids' hash'] by simp
next
  case (hash_path_child q hs p)
  have "q \<in> E" using hash_path_child.hyps(1) by (rule hash_path.cases) auto
  then show ?case using assms(3,4) hash_path_child.hyps hash_path.hash_path_child [OF hash_path_child.IH, of p] by simp
qed

definition rooted :: "datacenter \<Rightarrow> bool" where
  "rooted s \<longleftrightarrow> (\<forall>p \<in> entries s. nPid (fav s p) = 0 \<or> (\<exists>q \<in> entries s. nPid (fav s p) = nId (fav s q)))"

lemma favorite_paths_vec:
  "set v = entries s \<Longrightarrow> favorite_paths (s\<lparr>m_vFavoriteLineData := v\<rparr>) = favorite_paths s"
  by (simp add: favorite_paths_def entries_def)

lemma new_pid_zero:
  assumes "\<And>i. i < m \<Longrightarrow> nPid (entry s j) \<noteq> nId (entry s i)"
  shows "new_pid s j m = 0"
  using assms by (induction m) simp_all

text \<open>What renumbering does to the entries: the links between them stay, and so does everything but ids and parents.\<close>

definition renames :: "datacenter \<Rightarrow> (ptr \<Rightarrow> FavoriteLineData option) \<Rightarrow> bool" where
  "renames s h \<longleftrightarrow>
     (\<forall>p. h p = None \<longleftrightarrow> dc_heap s p = None) \<and>
     (\<forall>p \<in> entries s.
        (nPid (the (h p)) = 0 \<longleftrightarrow> nPid (fav s p) = 0) \<and> nHashId (the (h p)) = fhash s p \<and> bDelete (the (h p)) = bDelete (fav s p) \<and>
        (\<forall>q \<in> entries s. nPid (the (h p)) = nId (the (h q)) \<longleftrightarrow> nPid (fav s p) = fid s q))"

lemma renumbered_dom:
  assumes "dc_ok s" and "renumbered s q m h"
  shows "h p = None \<longleftrightarrow> dc_heap s p = None"
proof (cases "p \<in> set (m_vFavoriteLineData s)")
  case True
  then obtain i where "i < length (m_vFavoriteLineData s)" "p = m_vFavoriteLineData s ! i" by (auto simp: in_set_conv_nth)
  then have "h p \<noteq> None" using assms(2) by (simp add: renumbered_def)
  then show ?thesis using heap_ok [OF assms(1) True] by (metis option.distinct(1))
next
  case False
  then show ?thesis using assms(2) by (simp add: renumbered_def)
qed

lemma rearrange_renames:
  assumes ok: "dc_ok s" and "inj_on (fid s) (entries s)" and "\<forall>p \<in> entries s. fid s p \<noteq> 0" and "rooted s"
    and h: "renumbered s (map (\<lambda>j. (int j + 1, new_pid s j (length (m_vFavoriteLineData s)))) [0..<length (m_vFavoriteLineData s)])
      (length (m_vFavoriteLineData s)) h"
  shows "renames s h"
proof -
  let ?v = "m_vFavoriteLineData s"
  let ?n = "length ?v"
  have hit: "h (?v ! i) = Some ((entry s i)\<lparr>nId := int i + 1, nPid := new_pid s i ?n\<rparr>)" if "i < ?n" for i
    using h that by (simp add: renumbered_def)
  have "distinct (map (fid s) ?v)" using dc_ok_distinct [OF ok] assms(2) by (simp add: distinct_map entries_def)
  note link = new_pid_hit [OF this _ order_refl]
  have idx: "\<exists>i < ?n. p = ?v ! i" if "p \<in> entries s" for p using that by (auto simp: entries_def in_set_conv_nth)
  have zero: "nPid (the (h p)) = 0 \<longleftrightarrow> nPid (fav s p) = 0" if p: "p \<in> entries s" for p
  proof -
    obtain i where i: "i < ?n" "p = ?v ! i" using idx [OF p] by blast
    show ?thesis
    proof (cases "nPid (fav s p) = 0")
      case True
      then have "new_pid s i ?n = 0" using assms(3) i by (intro new_pid_zero) (auto simp: entries_def)
      then show ?thesis using True i by (simp add: hit)
    next
      case False
      then obtain j where "j < ?n" "nPid (entry s i) = nId (entry s j)"
        using assms(4) p i idx unfolding rooted_def by metis
      then have "new_pid s i ?n = int j + 1" using link by blast
      then show ?thesis using False i by (simp add: hit)
    qed
  qed
  have "nPid (the (h p)) = nId (the (h q)) \<longleftrightarrow> nPid (fav s p) = fid s q" if pq: "p \<in> entries s" "q \<in> entries s" for p q
  proof -
    obtain i j where "i < ?n" "p = ?v ! i" "j < ?n" "q = ?v ! j" using idx [OF pq(1)] idx [OF pq(2)] by blast
    then show ?thesis using link by (simp add: hit)
  qed
  moreover have "nHashId (the (h p)) = fhash s p \<and> bDelete (the (h p)) = bDelete (fav s p)" if p: "p \<in> entries s" for p
  proof -
    obtain i where "i < ?n" "p = ?v ! i" using idx [OF p] by blast
    then show ?thesis by (simp add: hit)
  qed
  ultimately show ?thesis using zero renumbered_dom [OF ok h] unfolding renames_def by blast
qed

lemma renames_paths:
  assumes "renames s h"
  shows "favorite_paths (s\<lparr>dc_heap := h\<rparr>) = favorite_paths s"
proof -
  have "hash_path (entries s) (\<lambda>p. nId (the (h p))) (\<lambda>p. nPid (the (h p))) (\<lambda>p. nHashId (the (h p))) p hs"
    if "fpath s (\<lambda>p. nPid (fav s p)) p hs" for p hs
    by (rule hash_path_rename [OF that]) (use assms in \<open>simp_all add: renames_def\<close>)
  moreover have "fpath s (\<lambda>p. nPid (fav s p)) p hs"
    if "hash_path (entries s) (\<lambda>p. nId (the (h p))) (\<lambda>p. nPid (the (h p))) (\<lambda>p. nHashId (the (h p))) p hs" for p hs
    by (rule hash_path_rename [OF that]) (use assms in \<open>simp_all add: renames_def\<close>)
  ultimately have "(\<exists>p. hash_path (entries s) (\<lambda>p. nId (the (h p))) (\<lambda>p. nPid (the (h p))) (\<lambda>p. nHashId (the (h p))) p hs) \<longleftrightarrow>
      (\<exists>p. fpath s (\<lambda>p. nPid (fav s p)) p hs)" for hs by blast
  then show ?thesis by (simp add: favorite_paths_def entries_def)
qed

lemma renames_ok: "dc_ok s \<Longrightarrow> renames s h \<Longrightarrow> dc_ok (s\<lparr>dc_heap := h\<rparr>)"
  by (simp add: dc_ok_def dc_wf_def no_nulls_def renames_def)

lemma erase_deleted_ok:
  assumes "dc_ok s" and "set ps \<subseteq> entries s"
  shows "erase_deleted s ps = Inr (filter (\<lambda>p. \<not> bDelete (fav s p) \<and> szTitle (fav s p) \<noteq> []) ps)"
  using assms(2)
proof (induction ps)
  case (Cons p ps)
  then have "p \<noteq> 0" "deref s p = Inr (fav s p)"
    using entries_nonnull [OF assms(1)] deref_ok [OF assms(1)] by (auto simp: entries_def)
  then show ?case using Cons by simp
qed simp

lemma forest_ok_wf: "dc_ok s \<Longrightarrow> dc_ok (with_forest s par del)"
proof -
  assume ok: "dc_ok s"
  then have "dc_heap (with_forest s par del) p = None \<longleftrightarrow> dc_heap s p = None" for p
    using heap_ok [OF ok, of p] by (auto simp: with_forest_def entries_def)
  moreover have "m_vFavoriteLineData (with_forest s par del) = m_vFavoriteLineData s" "next_ptr (with_forest s par del) = next_ptr s"
    by (simp_all add: with_forest_def)
  ultimately show ?thesis using ok by (simp add: dc_ok_def dc_wf_def no_nulls_def)
qed

lemma sub_vector_ok: "dc_ok s \<Longrightarrow> dc_ok (s\<lparr>m_vFavoriteLineData := filter P (m_vFavoriteLineData s)\<rparr>)"
  using dc_ok_distinct [of s] by (auto simp: dc_ok_def dc_wf_def no_nulls_def)

text \<open>Sorting, renumbering and sorting again.\<close>

lemma sort_number_sort:
  assumes srt: "std_sort srt" and ok: "dc_ok s" and ne: "m_vFavoriteLineData s \<noteq> []"
    and ids: "inj_on (fid s) (entries s)" "\<forall>p \<in> entries s. fid s p \<noteq> 0" and "rooted s"
  shows "\<exists>s1 s2 s3. sort_favorites srt s = Inr s1 \<and>
    OnService_ReArrangeFavorite s1 = Inr (s2, int (length (m_vFavoriteLineData s))) \<and> sort_favorites srt s2 = Inr s3 \<and>
    dc_ok s3 \<and> mset (m_vFavoriteLineData s3) = mset (m_vFavoriteLineData s) \<and> favorite_paths s3 = favorite_paths s \<and>
    sorted (map (\<lambda>p. nPid (fav s3 p)) (m_vFavoriteLineData s3)) \<and> (\<forall>p \<in> entries s. bDelete (fav s3 p) = bDelete (fav s p))"
proof -
  define s1 where "s1 = s\<lparr>m_vFavoriteLineData := srt (\<lambda>p. nPid (fav s p)) (m_vFavoriteLineData s)\<rparr>"
  note so = sorted_add [OF srt ok, folded s1_def]
  have E: "entries s1 = entries s" using mset_eq_setD [OF so(3)] by (simp add: entries_def)
  have ne1: "m_vFavoriteLineData s1 \<noteq> []" "length (m_vFavoriteLineData s1) = length (m_vFavoriteLineData s)"
    using ne mset_eq_length [OF so(3)] by auto
  obtain h where h: "OnService_ReArrangeFavorite s1 = Inr (s1\<lparr>dc_heap := h\<rparr>, int (length (m_vFavoriteLineData s)))" and "renames s1 h"
    using ReArrange_eq [OF so(1) ne1(1)] rearrange_renames [OF so(1)] ids \<open>rooted s\<close> ne1(2) so(4) E by (auto simp: rooted_def)
  define s2 where "s2 = s1\<lparr>dc_heap := h\<rparr>"
  have ok2: "dc_ok s2" and paths: "favorite_paths s2 = favorite_paths s1"
    using renames_ok [OF so(1)] renames_paths \<open>renames s1 h\<close> by (auto simp: s2_def)
  have vec2: "m_vFavoriteLineData s2 = m_vFavoriteLineData s1" by (simp add: s2_def)
  define s3 where "s3 = s2\<lparr>m_vFavoriteLineData := srt (\<lambda>p. nPid (fav s2 p)) (m_vFavoriteLineData s2)\<rparr>"
  note so3 = sorted_add [OF srt ok2, folded s3_def]
  have "favorite_paths s3 = favorite_paths s2"
    unfolding s3_def using mset_eq_setD [OF so3(3)] by (intro favorite_paths_vec) (simp add: entries_def s3_def)
  moreover have "favorite_paths s1 = favorite_paths s"
    unfolding s1_def using E by (intro favorite_paths_vec) (simp add: entries_def s1_def)
  moreover have "bDelete (fav s3 p) = bDelete (fav s p)" if "p \<in> entries s" for p
    using \<open>renames s1 h\<close> that E so(4) by (simp add: renames_def s3_def s2_def)
  moreover have "sort_favorites srt s = Inr s1" "sort_favorites srt s2 = Inr s3"
    using sort_favorites_ok [OF ok] sort_favorites_ok [OF ok2] by (simp_all add: s1_def s3_def)
  ultimately show ?thesis using h so(3) so3 vec2 paths unfolding s2_def [symmetric] by metis
qed

lemma rooted_path:
  assumes "forest s lv (\<lambda>p. nPid (fav s p))" and "rooted s" and "p \<in> entries s"
  shows "\<exists>hs. fpath s (\<lambda>p. nPid (fav s p)) p hs"
  using assms(3)
proof (induction "lv (fid s p)" arbitrary: p rule: less_induct)
  case less
  show ?case
  proof (cases "nPid (fav s p) = 0")
    case True
    then show ?thesis using hash_path_root [of p "entries s" "\<lambda>p. nPid (fav s p)"] less.prems by blast
  next
    case False
    then obtain q where q: "q \<in> entries s" "nPid (fav s p) = fid s q" using assms(2) less.prems by (auto simp: rooted_def)
    then have "lv (fid s q) < lv (fid s p)" using assms(1) less.prems by (simp add: forest_def)
    then obtain hs where "fpath s (\<lambda>p. nPid (fav s p)) q hs" using less.hyps q(1) by blast
    then show ?thesis using hash_path_child less.prems q(2) by metis
  qed
qed

text \<open>The merged vector without its deleted entries.\<close>

lemma merged_vector:
  assumes ok: "dc_ok s" and inv: "merge_inv s lv {} par del" and titles: "\<forall>p \<in> entries s. szTitle (fav s p) \<noteq> []"
    and paths: "\<And>p hs. fpath s par p hs \<longleftrightarrow> fpath s (\<lambda>p. nPid (fav s p)) p hs"
    and all: "\<And>p. p \<in> entries s \<Longrightarrow> \<exists>hs. fpath s par p hs" and ne: "m_vFavoriteLineData s \<noteq> []"
  defines "t \<equiv> with_forest s par del"
  defines "t1 \<equiv> t\<lparr>m_vFavoriteLineData := filter (\<lambda>p. \<not> del p) (m_vFavoriteLineData s)\<rparr>"
  shows "erase_deleted t (m_vFavoriteLineData t) = Inr (m_vFavoriteLineData t1)" and "dc_ok t1" and "m_vFavoriteLineData t1 \<noteq> []"
    and "inj_on (fid t1) (entries t1)" and "\<forall>p \<in> entries t1. fid t1 p \<noteq> 0" and "rooted t1" and "favorite_paths t1 = favorite_paths s"
    and "\<forall>p \<in> entries t1. \<not> bDelete (fav t1 p)"
proof -
  have vec: "m_vFavoriteLineData t = m_vFavoriteLineData s" and E1: "entries t1 = {p \<in> entries s. \<not> del p}"
    by (auto simp: t_def t1_def with_forest_def entries_def)
  have fav: "fav t1 p = (fav s p)\<lparr>nPid := par p, bDelete := del p\<rparr>" "fav t p = (fav s p)\<lparr>nPid := par p, bDelete := del p\<rparr>" if "p \<in> entries s" for p
    using fav_forest [OF that] by (simp_all add: t1_def t_def)
  have f: "forest s lv par" and cov: "covered s par del" and ch: "childless s {} par del" using inv by (simp_all add: merge_inv_def)
  have "erase_deleted t (m_vFavoriteLineData t) =
      Inr (filter (\<lambda>p. \<not> bDelete (fav t p) \<and> szTitle (fav t p) \<noteq> []) (m_vFavoriteLineData t))"
    using forest_ok_wf [OF ok] by (intro erase_deleted_ok) (simp_all add: t_def entries_def)
  also have "filter (\<lambda>p. \<not> bDelete (fav t p) \<and> szTitle (fav t p) \<noteq> []) (m_vFavoriteLineData t) = m_vFavoriteLineData t1"
    unfolding vec using fav titles by (auto simp: t1_def entries_def intro!: filter_cong)
  finally show "erase_deleted t (m_vFavoriteLineData t) = Inr (m_vFavoriteLineData t1)" .
  show "dc_ok t1" using sub_vector_ok [OF forest_ok_wf [OF ok]] by (simp add: t1_def t_def with_forest_def)
  obtain p where "p \<in> entries s" using ne by (cases "m_vFavoriteLineData s") (auto simp: entries_def)
  then show "m_vFavoriteLineData t1 \<noteq> []"
    using living_representative [OF cov] by (auto simp: t1_def filter_empty_conv entries_def)
  show "inj_on (fid t1) (entries t1)" "\<forall>p \<in> entries t1. fid t1 p \<noteq> 0"
    using f fav E1 by (auto simp: forest_def inj_on_def)
  show "\<forall>p \<in> entries t1. \<not> bDelete (fav t1 p)" using E1 fav by auto
  have "\<exists>q \<in> entries t1. par p = fid s q" if p: "p \<in> entries s" "par p \<noteq> 0" for p
  proof -
    obtain hs where "fpath s par p hs" using all p(1) by blast
    then obtain q gs where q: "fpath s par q gs" "par p = fid s q" using p(2) by cases auto
    then have "\<not> del q" using ch p(1) path_entry [OF q(1)] by (auto simp: childless_def)
    then show ?thesis using q(2) path_entry [OF q(1)] E1 by auto
  qed
  then show "rooted t1" using fav E1 unfolding rooted_def by fastforce
  have "favorite_paths t1 = living_paths t"
  proof -
    have "entries t1 = {p \<in> entries t. \<not> bDelete (fav t p)}" using E1 fav(2) vec by (auto simp: entries_def)
    then show ?thesis by (simp add: favorite_paths_def living_paths_def) (simp add: t1_def)
  qed
  then show "favorite_paths t1 = favorite_paths s"
    using living_paths_all [OF inv] paths by (simp add: t_def living_paths_forest favorite_paths_def)
qed


text \<open>The same folder with the same link in two browsers.\<close>

definition titled :: "FavoriteLineData \<Rightarrow> FavoriteLineData" where
  "titled d = d\<lparr>szTitle := [0x54]\<rparr>"

definition two_browsers :: "FavoriteLineData list" where
  "two_browsers = map titled [hashed 7 (sample_folder 1 0), hashed 7 (sample_folder 2 0), hashed 5 (sample_url 11 1), hashed 5 (sample_url 12 2)]"


section \<open>Loading\<close>

text \<open>The plug-ins a DLL offers, if loading it gets that far.\<close>

definition offered :: "(wstring \<Rightarrow> plugin_dll option) \<Rightarrow> wstring \<Rightarrow> IPlugIn list" where
  "offered LoadLibrary path =
     (case LoadLibrary path of
        Some dll \<Rightarrow>
          (case GetPlugInFactory dll of
             Some (Some f) \<Rightarrow>
               if ReleasePlugInFactory dll then
                 (case QueryPlugInCounter f of
                    Some n \<Rightarrow> (case QueryPlugInPoint f n of Some ps \<Rightarrow> ps | None \<Rightarrow> [])
                  | None \<Rightarrow> [])
               else []
           | _ \<Rightarrow> [])
      | None \<Rightarrow> [])"

definition no_empty_dll :: "(wstring \<Rightarrow> plugin_dll option) \<Rightarrow> bool" where
  "no_empty_dll LoadLibrary \<longleftrightarrow>
     (\<forall>path dll f. LoadLibrary path = Some dll \<longrightarrow> GetPlugInFactory dll = Some (Some f) \<longrightarrow> QueryPlugInCounter f \<noteq> Some 0)"

lemma load_dll_ok:
  assumes "no_empty_dll LoadLibrary"
  shows "\<exists>t. load_dll LoadLibrary path s = Inr t \<and> m_vPlugIns t = m_vPlugIns s @ filter plug_Load (offered LoadLibrary path)"
proof (cases "\<exists>dll f. LoadLibrary path = Some dll \<and> GetPlugInFactory dll = Some (Some f) \<and> ReleasePlugInFactory dll")
  case True
  then obtain dll f where dll: "LoadLibrary path = Some dll" "GetPlugInFactory dll = Some (Some f)" "ReleasePlugInFactory dll" by blast
  then have "QueryPlugInCounter f \<noteq> Some 0" using assms by (simp add: no_empty_dll_def)
  then show ?thesis
    by (cases "QueryPlugInCounter f"; cases "QueryPlugInPoint f (the (QueryPlugInCounter f))")
      (auto simp: load_dll_def offered_def dll load_failed_def Let_def)
next
  case False
  then consider "LoadLibrary path = None" | dll where "LoadLibrary path = Some dll" "GetPlugInFactory dll = None"
    | dll where "LoadLibrary path = Some dll" "GetPlugInFactory dll = Some None"
    | dll f where "LoadLibrary path = Some dll" "GetPlugInFactory dll = Some (Some f)" "\<not> ReleasePlugInFactory dll"
    by (metis option.exhaust)
  then show ?thesis by cases (auto simp: load_dll_def offered_def load_failed_def)
qed

lemma load_loop:
  assumes "no_empty_dll LoadLibrary"
  shows "\<exists>t. ofold (load_dll LoadLibrary) paths s = Inr t \<and>
    m_vPlugIns t = m_vPlugIns s @ filter plug_Load (concat (map (offered LoadLibrary) paths))"
proof (induction paths arbitrary: s)
  case (Cons path paths)
  obtain t where t: "load_dll LoadLibrary path s = Inr t" "m_vPlugIns t = m_vPlugIns s @ filter plug_Load (offered LoadLibrary path)"
    using load_dll_ok [OF assms] by blast
  then show ?case using Cons.IH [of t] by auto
qed simp

text \<open>
  Note: Loading skips every DLL that fails at any of its six checks and goes on with the next; afterwards the module has exactly the
  plug-ins of the others that could be loaded, in the order of the DLLs, and checking which browsers are installed keeps those that work.
\<close>

theorem loaded_plugins:
  assumes "no_empty_dll LoadLibrary"
  shows "\<exists>t. OnEvent_LoadAllPlugin path LoadLibrary s = Inr (t, [CheckIsWorkedEvent, ExInportProcess LoadingPlugIns]) \<and>
    m_vPlugIns (fst (OnEvent_CheckPlugInWorked t)) =
      filter (\<lambda>p. plug_Load p \<and> plug_IsWorked p)
        (concat (map (\<lambda>n. offered LoadLibrary (path @ [0x5C] @ wide ''PlugIn'' @ [0x5C] @ n)) DllPlugInList))"
proof -
  have erase: "erase_idle ps = filter plug_IsWorked ps" for ps by (induction ps) auto
  obtain t where "ofold (load_dll LoadLibrary) (map (\<lambda>n. path @ [0x5C] @ wide ''PlugIn'' @ [0x5C] @ n) DllPlugInList)
      (s\<lparr>m_vPlugInFactory := [], m_vPlugIns := [], m_vPlugInModuleInfo := []\<rparr>) = Inr t"
    "m_vPlugIns t = filter plug_Load (concat (map (\<lambda>n. offered LoadLibrary (path @ [0x5C] @ wide ''PlugIn'' @ [0x5C] @ n)) DllPlugInList))"
    using load_loop [OF assms, of "map (\<lambda>n. path @ [0x5C] @ wide ''PlugIn'' @ [0x5C] @ n) DllPlugInList"
        "s\<lparr>m_vPlugInFactory := [], m_vPlugIns := [], m_vPlugInModuleInfo := []\<rparr>"] by (auto simp: comp_def)
  then show ?thesis
    by (intro exI [of _ t]) (simp add: OnEvent_LoadAllPlugin_def OnEvent_CheckPlugInWorked_def erase conj_commute)
qed

definition sample_dll :: "wstring \<Rightarrow> plugin_dll option" where
  "sample_dll path =
     (if path = [0x5C] @ wide ''PlugIn'' @ [0x5C] @ wide ''360PlugIn.dll''
      then Some \<lparr>GetPlugInFactory = Some (Some \<lparr>QueryPlugInCounter = Some 1, QueryPlugInPoint = (\<lambda>_. Some
        [\<lparr>plug_id = 6, plug_Load = True, plug_IsWorked = True, GetFavoriteCount = 0,
          ExportFavoriteData = (\<lambda>_ n s. Inr (True, n, s)), ImportFavoriteData = (\<lambda>_ n s. Inr (0, n, s))\<rparr>])\<rparr>),
        ReleasePlugInFactory = True\<rparr>
      else None)"

theorem loaded_plugins_witness:
  "\<exists>t. OnEvent_LoadAllPlugin [] sample_dll PlugInModule = Inr (t, [CheckIsWorkedEvent, ExInportProcess LoadingPlugIns]) \<and>
    map plug_id (m_vPlugIns (fst (OnEvent_CheckPlugInWorked t))) = [6]"
proof -
  have "no_empty_dll sample_dll" by (auto simp: no_empty_dll_def sample_dll_def)
  from loaded_plugins [OF this, of "[]" PlugInModule] obtain t where
    t: "OnEvent_LoadAllPlugin [] sample_dll PlugInModule = Inr (t, [CheckIsWorkedEvent, ExInportProcess LoadingPlugIns])"
      "m_vPlugIns (fst (OnEvent_CheckPlugInWorked t)) = filter (\<lambda>p. plug_Load p \<and> plug_IsWorked p)
        (concat (map (\<lambda>n. offered sample_dll ([] @ [0x5C] @ wide ''PlugIn'' @ [0x5C] @ n)) DllPlugInList))" by blast
  have "wide ''SogouPlugIn.dll'' \<noteq> wide ''360PlugIn.dll''" by code_simp
  then have "offered sample_dll ([] @ [0x5C] @ wide ''PlugIn'' @ [0x5C] @ wide ''SogouPlugIn.dll'') = []"
    "map plug_id (filter (\<lambda>p. plug_Load p \<and> plug_IsWorked p) (offered sample_dll ([] @ [0x5C] @ wide ''PlugIn'' @ [0x5C] @ wide ''360PlugIn.dll''))) = [6]"
    by (simp_all add: offered_def sample_dll_def)
  then show ?thesis using t by (intro exI [of _ t]) (simp add: DllPlugInList_def)
qed

end
