(* ===== verification/CRC_Hash.thy ===== *)
theory CRC_Hash
  imports Prelude
begin

text \<open>
  \<open>CCRCHash\<close> of \<open>src/src/Utility/CRCHash.cpp\<close>, which computes the hash that decides whether two favourites are the same: a
  table-driven checksum.  The table is built with mirrored words; the result is the standard CRC-32, which the
  second half defines bit by bit.
\<close>

section \<open>The class\<close>

text \<open>\<open>Reflect\<close>: one turn of the loop moves the lowest bit of \<open>ulRef\<close> to position \<open>ch - i\<close>.\<close>

fun reflect_loop :: "nat \<Rightarrow> u32 \<Rightarrow> u32 \<Rightarrow> u32" where
  "reflect_loop 0 ulRef ulValue = ulValue"
| "reflect_loop (Suc k) ulRef ulValue =
     reflect_loop k (drop_bit 1 ulRef) (if ulRef AND 1 \<noteq> 0 then ulValue OR push_bit k 1 else ulValue)"

definition Reflect :: "u32 \<Rightarrow> nat \<Rightarrow> u32" where
  "Reflect ulRef ch = reflect_loop ch ulRef 0"

definition ulPolynomial :: u32 where "ulPolynomial = 0x04C11DB7"

text \<open>One turn of the inner loop of \<open>InitCRC32Table\<close>, and an entry of the table.\<close>

definition table_turn :: "u32 \<Rightarrow> u32" where
  "table_turn t = push_bit 1 t XOR (if t AND push_bit 31 1 \<noteq> 0 then ulPolynomial else 0)"

definition table_entry :: "nat \<Rightarrow> u32" where
  "table_entry i = Reflect ((table_turn ^^ 8) (push_bit 24 (Reflect (of_nat i) 8))) 32"

definition InitCRC32Table :: "u32 list" where
  "InitCRC32Table = map table_entry [0..<256]"

text \<open>\<open>m_ulTable\<close> is the table of the object.\<close>

definition crc_turn :: "u32 list \<Rightarrow> u8 \<Rightarrow> u32 \<Rightarrow> u32" where
  "crc_turn m_ulTable b ulCRC = drop_bit 8 ulCRC XOR m_ulTable ! unat ((ulCRC AND 0xFF) XOR ucast b)"

definition GetCRC :: "u32 list \<Rightarrow> bytes \<Rightarrow> u32" where
  "GetCRC m_ulTable byData = fold (crc_turn m_ulTable) byData 0xFFFFFFFF XOR 0xFFFFFFFF"

text \<open>\<open>GetHash\<close> returns whether it has written, and what; \<open>None\<close> stands for NULL.\<close>

definition GetHash :: "u32 list \<Rightarrow> bytes option \<Rightarrow> u32 option \<Rightarrow> nat \<Rightarrow> bool \<times> u32 option" where
  "GetHash m_ulTable byInData pbyOutHash dwOutLen =
     (case (byInData, pbyOutHash) of
        (Some bs, Some h) \<Rightarrow> if bs \<noteq> [] \<and> 4 \<le> dwOutLen then (True, Some (GetCRC m_ulTable bs)) else (False, Some h)
      | _ \<Rightarrow> (False, pbyOutHash))"

section \<open>CRC-32, bit by bit\<close>

definition crc_bit :: "u32 \<Rightarrow> u32" where
  "crc_bit c = drop_bit 1 c XOR (if bit c 0 then 0xEDB88320 else 0)"

definition crc32 :: "bytes \<Rightarrow> u32" where
  "crc32 bs = fold (\<lambda>b c. (crc_bit ^^ 8) (c XOR ucast b)) bs 0xFFFFFFFF XOR 0xFFFFFFFF"

section \<open>Mirrored words\<close>

lemma bit_reflect_loop:
  "n < 32 \<Longrightarrow> bit (reflect_loop k r v) n \<longleftrightarrow> bit v n \<or> n < k \<and> bit r (k - 1 - n)"
proof (induction k arbitrary: r v)
  case (Suc k)
  have "bit (push_bit k 1 :: u32) n \<longleftrightarrow> n = k" using Suc.prems by (auto simp: bit_simps)
  moreover have "r AND 1 \<noteq> 0 \<longleftrightarrow> bit r 0" by (simp add: and_one_eq bit_0 odd_iff_mod_2_eq_one)
  moreover have "n < k \<Longrightarrow> Suc (k - 1 - n) = k - n" by arith
  ultimately show ?case using Suc by (auto simp: bit_simps less_Suc_eq)
qed simp

lemma bit_Reflect: "n < 32 \<Longrightarrow> bit (Reflect x k) n \<longleftrightarrow> n < k \<and> bit x (k - 1 - n)"
  by (simp add: Reflect_def bit_reflect_loop)

lemma Reflect_xor: "Reflect (x XOR y) 32 = Reflect x 32 XOR Reflect y 32"
  by (rule word32_eqI) (simp add: bit_Reflect bit_xor_iff)

lemma Reflect_zero: "Reflect 0 32 = 0"
  by (rule word32_eqI) (simp add: bit_Reflect)

lemma bit_push_1: "bit (push_bit 1 (t :: u32)) n \<longleftrightarrow> 0 < n \<and> n < 32 \<and> bit t (n - 1)"
  by (subst bit_push_bit_iff) auto

lemma Reflect_push: "Reflect (push_bit 1 t) 32 = drop_bit 1 (Reflect t 32)"
proof (rule word32_eqI, intro ballI)
  fix n :: nat assume "n \<in> {..<32}"
  then have n: "n < 32" by simp
  show "bit (Reflect (push_bit 1 t) 32) n = bit (drop_bit 1 (Reflect t 32)) n"
  proof (cases "n = 31")
    case True
    then show ?thesis using n bit_imp_le_length [of "Reflect t 32" 32] unfolding bit_Reflect [OF n] bit_push_1 bit_drop_bit_eq comp_def by auto
  next
    case False
    then have "1 + n < 32" using n by simp
    then show ?thesis unfolding bit_Reflect [OF n] bit_push_1 bit_drop_bit_eq comp_def bit_Reflect [OF \<open>1 + n < 32\<close>] by auto
  qed
qed

lemma Reflect_polynomial: "Reflect ulPolynomial 32 = 0xEDB88320"
  by (rule word32_eqI) (simp add: bit_Reflect ulPolynomial_def lessThan_nat_numeral lessThan_Suc)

lemma top_bit: "t AND push_bit 31 1 \<noteq> 0 \<longleftrightarrow> bit (t :: u32) 31"
proof -
  have "t AND push_bit 31 1 = push_bit 31 (of_bool (bit t 31))"
    by (rule word32_eqI) (simp add: bit_simps lessThan_nat_numeral lessThan_Suc)
  then show ?thesis by simp
qed

lemma Reflect_turn: "Reflect (table_turn t) 32 = crc_bit (Reflect t 32)"
proof -
  have "Reflect (if b then ulPolynomial else 0) 32 = (if b then 0xEDB88320 else 0)" for b
    by (simp add: Reflect_polynomial Reflect_zero)
  moreover have "bit (Reflect t 32) 0 = bit t 31" by (simp add: bit_Reflect)
  ultimately show ?thesis unfolding table_turn_def crc_bit_def top_bit Reflect_xor Reflect_push by simp
qed

lemma Reflect_turns: "Reflect ((table_turn ^^ k) t) 32 = (crc_bit ^^ k) (Reflect t 32)"
  by (induction k) (simp_all add: Reflect_turn)

lemma Reflect_byte:
  assumes "i < 256"
  shows "Reflect (push_bit 24 (Reflect (of_nat i) 8)) 32 = of_nat i"
proof (rule word32_eqI, intro ballI)
  fix n :: nat assume "n \<in> {..<32}"
  then have n: "n < 32" by simp
  have "take_bit 8 i = i" using assms by (simp add: take_bit_nat_eq_self)
  then have "bit i n \<Longrightarrow> n < 8" by (metis bit_take_bit_iff)
  then show "bit (Reflect (push_bit 24 (Reflect (of_nat i) 8)) 32) n = bit (of_nat i :: u32) n"
    using n by (auto simp: bit_Reflect bit_simps)
qed

lemma table_bits: "i < 256 \<Longrightarrow> InitCRC32Table ! i = (crc_bit ^^ 8) (of_nat i)"
  by (simp add: InitCRC32Table_def table_entry_def Reflect_turns Reflect_byte)

section \<open>Eight bits at once\<close>

lemma crc_bit_xor: "crc_bit (x XOR y) = crc_bit x XOR crc_bit y"
  by (rule word32_eqI) (auto simp: crc_bit_def bit_simps)

lemma crc_bits_xor: "(crc_bit ^^ k) (x XOR y) = (crc_bit ^^ k) x XOR (crc_bit ^^ k) y"
  by (induction k) (simp_all add: crc_bit_xor)

lemma crc_bits_high: "k \<le> 8 \<Longrightarrow> (crc_bit ^^ k) (push_bit 8 w) = drop_bit k (push_bit 8 w)"
proof (induction k)
  case (Suc k)
  have "\<not> bit (drop_bit k (push_bit 8 w)) 0" using Suc.prems by (simp add: bit_simps)
  then show ?case using Suc by (simp add: crc_bit_def drop_bit_drop_bit)
qed simp

lemma drop_push_drop: "drop_bit 8 (push_bit 8 (drop_bit 8 (c :: u32))) = drop_bit 8 c"
  by (rule word32_eqI) (auto simp: bit_simps dest: bit_imp_le_length)

lemma crc_turn_bits: "crc_turn InitCRC32Table b c = (crc_bit ^^ 8) (c XOR ucast b)"
proof -
  let ?x = "(c AND 0xFF) XOR ucast b :: u32"
  have "?x = take_bit 8 ?x" by (rule word32_eqI) (auto simp: and_FF bit_simps byte_no_high_bit not_less)
  then have "unat ?x = take_bit 8 (unat ?x)" by (metis unsigned_take_bit_eq)
  then have "unat ?x < 2 ^ 8" by (metis take_bit_nat_less_exp)
  then have "unat ?x < 256" by simp
  then have "crc_turn InitCRC32Table b c = drop_bit 8 c XOR (crc_bit ^^ 8) ?x"
    by (simp add: crc_turn_def table_bits)
  also have "drop_bit 8 c = (crc_bit ^^ 8) (push_bit 8 (drop_bit 8 c))" by (simp add: crc_bits_high drop_push_drop)
  also have "(crc_bit ^^ 8) (push_bit 8 (drop_bit 8 c)) XOR (crc_bit ^^ 8) ?x =
      (crc_bit ^^ 8) (push_bit 8 (drop_bit 8 c) XOR ?x)" by (simp only: crc_bits_xor)
  also have "push_bit 8 (drop_bit 8 c) XOR ?x = c XOR ucast b"
    by (rule word32_eqI) (auto simp: and_FF bit_simps)
  finally show ?thesis .
qed

text \<open>
  C33: The table-driven checksum is the CRC-32 of the bytes, computed bit by bit with the mirrored polynomial; \<open>GetHash\<close> writes it exactly
  when it is given a buffer that is not empty and room for four bytes, and writes nothing otherwise.
\<close>

theorem crc_is_crc32:
  "GetHash InitCRC32Table (Some bs) (Some h) n = (if bs \<noteq> [] \<and> 4 \<le> n then (True, Some (crc32 bs)) else (False, Some h))"
proof -
  have "crc_turn InitCRC32Table = (\<lambda>b c. (crc_bit ^^ 8) (c XOR ucast b))" using crc_turn_bits by blast
  then show ?thesis by (simp add: GetHash_def GetCRC_def crc32_def)
qed

end
