(* ===== verification/Tx_Config.thy ===== *)
theory Tx_Config
  imports Std_Map
begin

text \<open>
  The configuration file, \<open>src/src/Utility/TxConfig.cpp\<close>: a map from names to values that is written to and read from a packed
  binary format, with keys and values masked by their lengths.  Both directions work on a buffer with explicit offsets, as the code
  does with pointers to packed structures: an item has its flag at 0, the length of the key at 1, the key at 3, behind it
  the length of the value and the value.
\<close>

unbundle bit_operations_syntax

section \<open>Buffers\<close>

definition get8 :: "bytes \<Rightarrow> nat \<Rightarrow> u8 outcome" where
  "get8 buf i = (if i < length buf then Inr (buf ! i) else Inl OutOfRange)"

definition mk16 :: "u8 \<Rightarrow> u8 \<Rightarrow> u16" where
  "mk16 b0 b1 = ucast b0 OR push_bit 8 (ucast b1)"

definition st16 :: "u16 \<Rightarrow> bytes" where
  "st16 w = [ucast w, ucast (drop_bit 8 w)]"

definition get16 :: "bytes \<Rightarrow> nat \<Rightarrow> u16 outcome" where
  "get16 buf i = (if i + 1 < length buf then Inr (mk16 (buf ! i) (buf ! (i + 1))) else Inl OutOfRange)"

definition get32 :: "bytes \<Rightarrow> nat \<Rightarrow> u32 outcome" where
  "get32 buf i = (if i + 3 < length buf then Inr (ld32 buf i) else Inl OutOfRange)"

definition put :: "nat \<Rightarrow> bytes \<Rightarrow> bytes \<Rightarrow> bytes outcome" where
  "put i bs buf =
     (if i + length bs \<le> length buf then Inr (take i buf @ bs @ drop (i + length bs) buf) else Inl OutOfRange)"

text \<open>The masking loops: \<open>n\<close> bytes from \<open>i\<close> on.\<close>

definition mask_bytes :: "u8 \<Rightarrow> nat \<Rightarrow> nat \<Rightarrow> bytes \<Rightarrow> bytes outcome" where
  "mask_bytes x i n buf =
     ofold (\<lambda>j buf. obind (get8 buf (i + j)) (\<lambda>b. put (i + j) [x XOR NOT b] buf)) [0..<n] buf"

definition key_mask :: "u16 \<Rightarrow> u8" where
  "key_mask wKeyLen = ucast wKeyLen XOR ucast (drop_bit 8 wKeyLen)"

definition value_mask :: "u32 \<Rightarrow> u8" where
  "value_mask dwValueLen = byte_at 0 dwValueLen XOR byte_at 1 dwValueLen"

section \<open>Reading\<close>

definition TX_CONFIG_MAGIC :: u16 where "TX_CONFIG_MAGIC = 0x4454"
definition TX_ITEM_FLAG :: u8 where "TX_ITEM_FLAG = 9"
definition SZ_KEY :: nat where "SZ_KEY = 260"

text \<open>\<open>wcscpy_s\<close> into \<open>n\<close> characters: the source up to its terminator, or a run-time error when it does not fit; \<open>n\<close>
  characters are looked at.\<close>

fun wcscpy_s :: "nat \<Rightarrow> bytes \<Rightarrow> nat \<Rightarrow> wstring outcome" where
  "wcscpy_s 0 buf i = Inl OutOfRange"
| "wcscpy_s (Suc n) buf i =
     obind (get16 buf i) (\<lambda>c. if c = 0 then Inr [] else obind (wcscpy_s n buf (i + 2)) (\<lambda>s. Inr (c # s)))"

definition read_key :: "bytes \<Rightarrow> nat \<Rightarrow> u16 \<Rightarrow> wstring outcome" where
  "read_key buf i wKeyLen =
     obind (wcscpy_s (SZ_KEY - 1) buf i) (\<lambda>s.
       if unat wKeyLen div 2 < SZ_KEY then Inr (take (unat wKeyLen div 2) s) else Inl OutOfRange)"

type_synonym key_values = "(wstring \<times> bytes) list"

text \<open>One item at offset \<open>pItem\<close>; the result has the next offset.\<close>

definition parse_item :: "nat \<times> bytes \<times> key_values \<Rightarrow> (nat \<times> bytes \<times> key_values) outcome" where
  "parse_item = (\<lambda>(pItem, buf, m).
     obind (get16 buf (pItem + 1)) (\<lambda>wKeyLen.
     obind (mask_bytes (key_mask wKeyLen) (pItem + 3) (unat wKeyLen) buf) (\<lambda>buf.
     let pTemp = pItem + 3 + unat wKeyLen in
     obind (get32 buf pTemp) (\<lambda>dwValueLen.
     obind (mask_bytes (value_mask dwValueLen) (pTemp + 4) (unat dwValueLen) buf) (\<lambda>buf.
     obind (read_key buf (pItem + 3) wKeyLen) (\<lambda>szKey.
       Inr (pTemp + 4 + unat dwValueLen, buf,
            map_put (\<lambda>k. k) szKey (take (unat dwValueLen) (drop (pTemp + 4) buf)) m)))))))"

definition ParseConfig :: "bytes \<Rightarrow> key_values \<Rightarrow> (bool \<times> key_values) outcome" where
  "ParseConfig buf m =
     obind (get16 buf 0) (\<lambda>wMagic.
       if wMagic \<noteq> TX_CONFIG_MAGIC then Inr (False, m)
       else
         obind (get16 buf 4) (\<lambda>wNumOfItems.
         obind (ofold (\<lambda>_. parse_item) [0..<unat wNumOfItems] (6, buf, m)) (\<lambda>(_, _, m).
           Inr (True, m))))"

text \<open>The form for a file: \<open>None\<close> when it cannot be opened.\<close>

definition ParseConfig_file :: "bytes option \<Rightarrow> key_values \<Rightarrow> (bool \<times> key_values) outcome" where
  "ParseConfig_file configFile m =
     (case configFile of None \<Rightarrow> Inl NullDeref | Some content \<Rightarrow> ParseConfig content m)"

definition GetValue :: "wstring \<Rightarrow> key_values \<Rightarrow> bytes" where
  "GetValue strKey m = (case map_of m strKey of Some v \<Rightarrow> v | None \<Rightarrow> [])"

definition SetValue :: "wstring \<Rightarrow> bytes \<Rightarrow> key_values \<Rightarrow> key_values" where
  "SetValue strKey strValue m = map_put (\<lambda>k. k) strKey strValue m"

section \<open>Writing\<close>

definition config_size :: "key_values \<Rightarrow> nat" where
  "config_size m = 6 + sum_list (map (\<lambda>(strKey, strValue). 9 - 2 + length strKey * 2 + length strValue) m)"

definition wide_bytes :: "wstring \<Rightarrow> bytes" where
  "wide_bytes s = concat (map st16 s)"

definition make_item :: "wstring \<times> bytes \<Rightarrow> nat \<times> bytes \<Rightarrow> (nat \<times> bytes) outcome" where
  "make_item = (\<lambda>(strKey, strValue) (pItem, buf).
     let wKeyLen = of_nat (length strKey * 2) :: u16; dwValueLen = of_nat (length strValue) :: u32;
         pTemp = pItem + 3 + unat wKeyLen in
     obind (put pItem [TX_ITEM_FLAG] buf) (\<lambda>buf.
     obind (put (pItem + 1) (st16 wKeyLen) buf) (\<lambda>buf.
     obind (put (pItem + 3) (wide_bytes strKey) buf) (\<lambda>buf.
     obind (mask_bytes (key_mask wKeyLen) (pItem + 3) (unat wKeyLen) buf) (\<lambda>buf.
     obind (put pTemp (st32 dwValueLen) buf) (\<lambda>buf.
     obind (put (pTemp + 4) strValue buf) (\<lambda>buf.
     obind (mask_bytes (value_mask dwValueLen) (pTemp + 4) (unat dwValueLen) buf) (\<lambda>buf.
       Inr (pTemp + 4 + unat dwValueLen, buf)))))))))"

text \<open>\<open>fresh\<close> is what \<open>new BYTE[configSize]\<close> returns, \<open>opened\<close> whether the file could be opened.  The result is that of the
  function and what is written.\<close>

definition MakeConfig :: "(nat \<Rightarrow> bytes) \<Rightarrow> bool \<Rightarrow> key_values \<Rightarrow> (bool \<times> bytes option) outcome" where
  "MakeConfig fresh opened m =
     (if m = [] then Inr (False, None)
      else
        obind (put 2 [1] (fresh (config_size m))) (\<lambda>buf.
        obind (put 3 [1] buf) (\<lambda>buf.
        obind (put 4 (st16 (of_nat (length m))) buf) (\<lambda>buf.
        obind (put 0 (st16 TX_CONFIG_MAGIC) buf) (\<lambda>buf.
        obind (ofold make_item m (6, buf)) (\<lambda>(_, buf).
          if opened then Inr (True, Some buf) else Inl NullDeref))))))"

section \<open>Buffers in pieces\<close>

lemma get16_at: "get16 (ps @ b0 # b1 # qs) (length ps) = Inr (mk16 b0 b1)"
  by (simp add: get16_def nth_append)

lemma get32_at: "get32 (ps @ st32 w @ qs) (length ps) = Inr w"
  by (simp add: get32_def st32_def ld32_def nth_append)

lemma mk16_st16: "mk16 (ucast w) (ucast (drop_bit 8 w)) = w"
  by (rule bit_word_eqI) (auto simp: mk16_def bit_simps)

lemma put_at: "length xs = length bs \<Longrightarrow> put (length ps) bs (ps @ xs @ qs) = Inr (ps @ bs @ qs)"
  by (simp add: put_def)

lemma ofold_snoc: "ofold f (xs @ [x]) s = obind (ofold f xs s) (f x)"
proof -
  have "obind r (\<lambda>s. obind (f x s) Inr) = obind r (f x)" for r by (cases r; cases "f x (projr r)") auto
  then show ?thesis by (simp add: ofold_append comp_def) (simp add: obind_def split: sum.split)
qed

lemma mask_at:
  assumes "n \<le> length xs"
  shows "mask_bytes x (length ps) n (ps @ xs @ qs) = Inr (ps @ map (\<lambda>b. x XOR NOT b) (take n xs) @ drop n xs @ qs)"
  using assms
proof (induction n)
  case 0
  then show ?case by (simp add: mask_bytes_def)
next
  case (Suc n)
  let ?f = "\<lambda>b. x XOR NOT b"
  obtain b ys where split: "drop n xs = b # ys" "xs ! n = b" using Suc.prems by (metis Cons_nth_drop_Suc Suc_le_lessD)
  have ys: "ys = drop (Suc n) xs" using split(1) by (metis drop_Suc list.sel(3) tl_drop)
  have tk: "take (Suc n) xs = take n xs @ [b]" using Suc.prems split(2) by (simp add: take_Suc_conv_app_nth)
  have "mask_bytes x (length ps) (Suc n) (ps @ xs @ qs) =
      obind (get8 (ps @ map ?f (take n xs) @ b # ys @ qs) (length ps + n)) (\<lambda>c. put (length ps + n) [?f c] (ps @ map ?f (take n xs) @ b # ys @ qs))"
    using Suc split(1) by (simp add: mask_bytes_def ofold_snoc)
  also have "\<dots> = Inr (ps @ map ?f (take n xs) @ [?f b] @ ys @ qs)"
    using put_at [of "[b]" "[?f b]" "ps @ map ?f (take n xs)" "ys @ qs"] Suc.prems by (simp add: get8_def nth_append)
  finally show ?case using tk ys by simp
qed

lemma mask_all: "mask_bytes x (length ps) (length xs) (ps @ xs @ qs) = Inr (ps @ map (\<lambda>b. x XOR NOT b) xs @ qs)"
  using mask_at [of "length xs" xs x ps qs] by simp

lemma mask_twice: "map ((\<lambda>b. x XOR NOT b) \<circ> (\<lambda>b. x XOR NOT b)) xs = (xs :: bytes)"
proof -
  have "x XOR NOT (x XOR NOT b) = b" for b :: u8 by (rule bit_word_eqI) (auto simp: bit_simps)
  then show ?thesis by (simp add: comp_def)
qed

lemma length_wide_bytes [simp]: "length (wide_bytes s) = length s * 2"
  by (induction s) (simp_all add: wide_bytes_def st16_def)

section \<open>Items\<close>

definition item :: "wstring \<times> bytes \<Rightarrow> bytes" where
  "item = (\<lambda>(k, v). TX_ITEM_FLAG # st16 (of_nat (length k * 2)) @ map (\<lambda>b. key_mask (of_nat (length k * 2)) XOR NOT b) (wide_bytes k) @
     st32 (of_nat (length v)) @ map (\<lambda>b. value_mask (of_nat (length v)) XOR NOT b) v)"

definition plain_item :: "wstring \<times> bytes \<Rightarrow> bytes" where
  "plain_item = (\<lambda>(k, v). TX_ITEM_FLAG # st16 (of_nat (length k * 2)) @ wide_bytes k @ st32 (of_nat (length v)) @ v)"

lemma length_st16 [simp]: "length (st16 w) = 2"
  by (simp add: st16_def)

lemma length_item: "length (item (k, v)) = 7 + length k * 2 + length v" "length (plain_item (k, v)) = 7 + length k * 2 + length v"
  by (simp_all add: item_def plain_item_def)

lemma unat_key_len: "length k * 2 < 2 ^ 16 \<Longrightarrow> unat (of_nat (length k * 2) :: u16) = length k * 2"
  using take_bit_nat_eq_self [of "length k * 2" 16] by (simp add: unsigned_of_nat del: of_nat_mult)

lemma unat_value_len: "length v < 2 ^ 32 \<Longrightarrow> unat (of_nat (length v) :: u32) = length v"
  using take_bit_nat_eq_self [of "length v" 32] by (simp add: unsigned_of_nat)

lemma cut: "n \<le> length xs \<Longrightarrow> \<exists>ys zs. xs = ys @ zs \<and> length ys = n"
  by (metis append_take_drop_id length_take min_absorb2)

lemma make_item_at:
  assumes "length k * 2 < 2 ^ 16" and "length v < 2 ^ 32" and "length junk = length (item (k, v))"
  shows "make_item (k, v) (length ps, ps @ junk @ qs) = Inr (length ps + length (item (k, v)), ps @ item (k, v) @ qs)"
proof -
  define kl :: u16 where "kl = of_nat (length k * 2)"
  define vl :: u32 where "vl = of_nat (length v)"
  have len: "unat kl = length k * 2" "unat vl = length v"
    using unat_key_len [OF assms(1)] unat_value_len [OF assms(2)] unfolding kl_def vl_def by blast+
  have n: "length junk = 1 + (2 + (length k * 2 + (4 + length v)))" using assms(3) by (simp add: length_item)
  obtain j0 r0 where j0: "junk = j0 @ r0" "length j0 = 1" using cut [of 1 junk] n by auto
  obtain j1 r1 where j1: "r0 = j1 @ r1" "length j1 = 2" using cut [of 2 r0] n j0 by auto
  obtain j2 r2 where j2: "r1 = j2 @ r2" "length j2 = length k * 2" using cut [of "length k * 2" r1] n j0 j1 by auto
  obtain j3 j4 where j3: "r2 = j3 @ j4" "length j3 = 4" using cut [of 4 r2] n j0 j1 j2 by auto
  have j4: "length j4 = length v" using n j0 j1 j2 j3 by simp
  let ?f = "[TX_ITEM_FLAG]" and ?l = "st16 kl" and ?k = "map (\<lambda>b. key_mask kl XOR NOT b) (wide_bytes k)" and ?m = "st32 vl"
  have 1: "put (length ps) ?f (ps @ junk @ qs) = Inr (ps @ ?f @ r0 @ qs)"
    using put_at [of j0 ?f ps "r0 @ qs"] j0 by simp
  have 2: "put (length ps + 1) ?l (ps @ ?f @ r0 @ qs) = Inr (ps @ ?f @ ?l @ r1 @ qs)"
    using put_at [of j1 ?l "ps @ ?f" "r1 @ qs"] j1 by simp
  have 3: "put (length ps + 3) (wide_bytes k) (ps @ ?f @ ?l @ r1 @ qs) = Inr (ps @ ?f @ ?l @ wide_bytes k @ r2 @ qs)"
    using put_at [of j2 "wide_bytes k" "ps @ ?f @ ?l" "r2 @ qs"] j2 by simp
  have 4: "mask_bytes (key_mask kl) (length ps + 3) (length k * 2) (ps @ ?f @ ?l @ wide_bytes k @ r2 @ qs) = Inr (ps @ ?f @ ?l @ ?k @ r2 @ qs)"
    using mask_all [of "key_mask kl" "ps @ ?f @ ?l" "wide_bytes k" "r2 @ qs"] by simp
  have o5: "length ps + 3 + length k * 2 = length (ps @ ?f @ ?l @ ?k)" and o6: "length ps + 3 + length k * 2 + 4 = length (ps @ ?f @ ?l @ ?k @ ?m)"
    by simp_all
  have 5: "put (length ps + 3 + length k * 2) ?m (ps @ ?f @ ?l @ ?k @ r2 @ qs) = Inr (ps @ ?f @ ?l @ ?k @ ?m @ j4 @ qs)"
    unfolding o5 using put_at [of j3 ?m "ps @ ?f @ ?l @ ?k" "j4 @ qs"] j3 by simp
  have 6: "put (length ps + 3 + length k * 2 + 4) v (ps @ ?f @ ?l @ ?k @ ?m @ j4 @ qs) = Inr (ps @ ?f @ ?l @ ?k @ ?m @ v @ qs)"
    unfolding o6 using put_at [of j4 v "ps @ ?f @ ?l @ ?k @ ?m" qs] j4 by simp
  have 7: "mask_bytes (value_mask vl) (length ps + 3 + length k * 2 + 4) (length v) (ps @ ?f @ ?l @ ?k @ ?m @ v @ qs) =
      Inr (ps @ ?f @ ?l @ ?k @ ?m @ map (\<lambda>b. value_mask vl XOR NOT b) v @ qs)"
    unfolding o6 using mask_all [of "value_mask vl" "ps @ ?f @ ?l @ ?k @ ?m" v qs] by simp
  have "item (k, v) = ?f @ ?l @ ?k @ ?m @ map (\<lambda>b. value_mask vl XOR NOT b) v" by (simp add: item_def kl_def vl_def)
  then show ?thesis
    unfolding make_item_def prod.case Let_def kl_def [symmetric] vl_def [symmetric] len by (simp only: 1 2 3 4 5 6 7 obind_simps) simp
qed

lemma get16_st16: "get16 (ps @ st16 w @ qs) (length ps) = Inr w"
  using get16_at [of ps "ucast w" "ucast (drop_bit 8 w)" qs] by (simp add: st16_def mk16_st16)

text \<open>The copy of the key runs on into the length of the value, whose upper half ends it.\<close>

lemma wcscpy_key:
  "0 \<notin> set k \<Longrightarrow> length k \<le> n \<Longrightarrow>
     wcscpy_s n (ps @ wide_bytes k @ qs) (length ps) =
       obind (wcscpy_s (n - length k) (ps @ wide_bytes k @ qs) (length ps + length k * 2)) (\<lambda>s. Inr (k @ s))"
proof (induction k arbitrary: n ps)
  case Nil
  show ?case by (cases "wcscpy_s n (ps @ wide_bytes [] @ qs) (length ps)") simp_all
next
  case (Cons c k)
  then obtain n' where n: "n = Suc n'" by (cases n) auto
  have "wcscpy_s n' ((ps @ st16 c) @ wide_bytes k @ qs) (length (ps @ st16 c)) =
      obind (wcscpy_s (n' - length k) ((ps @ st16 c) @ wide_bytes k @ qs) (length (ps @ st16 c) + length k * 2)) (\<lambda>s. Inr (k @ s))"
    using Cons n by (intro Cons.IH) auto
  moreover have "wide_bytes (c # k) = st16 c @ wide_bytes k" by (simp add: wide_bytes_def)
  ultimately show ?case using Cons.prems n get16_st16 [of ps c "wide_bytes k @ qs"] by (simp add: obind_assoc algebra_simps)
qed

lemma wcscpy_length:
  assumes "vl < 2 ^ 16" and "2 \<le> n"
  shows "\<exists>s. wcscpy_s n (ps @ st32 vl @ qs) (length ps) = Inr s"
proof -
  obtain m where n: "n = Suc (Suc m)" using assms(2) by (metis add_2_eq_Suc le_Suc_ex)
  have "unat vl < 2 ^ 16" using assms(1) by (simp add: word_less_nat_alt)
  then have "unat (drop_bit 16 vl) = 0" "unat (drop_bit 24 vl) = 0" by (simp_all add: drop_bit_eq_div unat_div)
  then have hi: "byte_at 2 vl = 0" "byte_at 3 vl = 0" by (simp_all add: byte_at_def unsigned_eq_0_iff)
  have "get16 ((ps @ [byte_at 0 vl, byte_at 1 vl]) @ byte_at 2 vl # byte_at 3 vl # qs) (length (ps @ [byte_at 0 vl, byte_at 1 vl])) = Inr 0"
    unfolding get16_at hi by (simp add: mk16_def)
  then show ?thesis using get16_at [of ps "byte_at 0 vl" "byte_at 1 vl" "byte_at 2 vl # byte_at 3 vl # qs"] n by (simp add: st32_def)
qed

lemma read_key_at:
  assumes "0 \<notin> set k" and "length k \<le> 257" and "length v < 2 ^ 16"
  shows "read_key (ps @ wide_bytes k @ st32 (of_nat (length v)) @ qs) (length ps) (of_nat (length k * 2)) = Inr k"
proof -
  have kl: "unat (of_nat (length k * 2) :: u16) = length k * 2" using assms(2) by (intro unat_key_len) simp
  have "(of_nat (length v) :: u32) < 2 ^ 16" using assms(3) unat_value_len [of v] by (simp add: word_less_nat_alt)
  moreover have "2 \<le> 259 - length k" using assms(2) by simp
  ultimately obtain s where s: "wcscpy_s (259 - length k) ((ps @ wide_bytes k) @ st32 (of_nat (length v)) @ qs) (length (ps @ wide_bytes k)) = Inr s"
    using wcscpy_length by blast
  then have "wcscpy_s (SZ_KEY - 1) (ps @ wide_bytes k @ st32 (of_nat (length v)) @ qs) (length ps) = Inr (k @ s)"
    using wcscpy_key [of k 259 ps "st32 (of_nat (length v)) @ qs"] assms(1,2) by (simp add: SZ_KEY_def)
  then show ?thesis using kl assms(2) unfolding read_key_def by (simp add: SZ_KEY_def del: of_nat_mult)
qed

text \<open>What can be written and read back: names without a terminator in them and of at most 257 characters, values shorter than
  64 KB.\<close>

definition writable :: "wstring \<times> bytes \<Rightarrow> bool" where
  "writable = (\<lambda>(k, v). 0 \<notin> set k \<and> length k \<le> 257 \<and> length v < 2 ^ 16)"

lemma parse_item_at:
  assumes "writable (k, v)"
  shows "parse_item (length ps, ps @ item (k, v) @ qs, m) =
    Inr (length ps + length (item (k, v)), ps @ plain_item (k, v) @ qs, map_put (\<lambda>k. k) k v m)"
proof -
  have w: "0 \<notin> set k" "length k \<le> 257" "length v < 2 ^ 16" using assms by (simp_all add: writable_def)
  define kl :: u16 where "kl = of_nat (length k * 2)"
  define vl :: u32 where "vl = of_nat (length v)"
  have len: "unat kl = length k * 2" "unat vl = length v"
    using unat_key_len [of k] unat_value_len [of v] w unfolding kl_def vl_def by simp_all
  let ?f = "[TX_ITEM_FLAG]" and ?l = "st16 kl" and ?k = "map (\<lambda>b. key_mask kl XOR NOT b) (wide_bytes k)" and ?m = "st32 vl"
    and ?v = "map (\<lambda>b. value_mask vl XOR NOT b) v"
  have item: "item (k, v) = ?f @ ?l @ ?k @ ?m @ ?v" "plain_item (k, v) = ?f @ ?l @ wide_bytes k @ ?m @ v"
    by (simp_all add: item_def plain_item_def kl_def vl_def)
  have 1: "get16 (ps @ (?f @ ?l @ ?k @ ?m @ ?v) @ qs) (length ps + 1) = Inr kl"
    using get16_st16 [of "ps @ ?f" kl "?k @ ?m @ ?v @ qs"] by simp
  have 2: "mask_bytes (key_mask kl) (length ps + 3) (length k * 2) (ps @ (?f @ ?l @ ?k @ ?m @ ?v) @ qs) =
      Inr (ps @ ?f @ ?l @ wide_bytes k @ ?m @ ?v @ qs)"
    using mask_all [of "key_mask kl" "ps @ ?f @ ?l" ?k "?m @ ?v @ qs"] mask_twice [of "key_mask kl" "wide_bytes k"] by simp
  have o3: "length ps + 3 + length k * 2 = length (ps @ ?f @ ?l @ wide_bytes k)"
    and o4: "length ps + 3 + length k * 2 + 4 = length (ps @ ?f @ ?l @ wide_bytes k @ ?m)" by simp_all
  have 3: "get32 (ps @ ?f @ ?l @ wide_bytes k @ ?m @ ?v @ qs) (length ps + 3 + length k * 2) = Inr vl"
    unfolding o3 using get32_at [of "ps @ ?f @ ?l @ wide_bytes k" vl "?v @ qs"] by simp
  have 4: "mask_bytes (value_mask vl) (length ps + 3 + length k * 2 + 4) (length v) (ps @ ?f @ ?l @ wide_bytes k @ ?m @ ?v @ qs) =
      Inr (ps @ ?f @ ?l @ wide_bytes k @ ?m @ v @ qs)"
    unfolding o4 using mask_all [of "value_mask vl" "ps @ ?f @ ?l @ wide_bytes k @ ?m" ?v qs] mask_twice [of "value_mask vl" v] by simp
  have 5: "read_key (ps @ ?f @ ?l @ wide_bytes k @ ?m @ v @ qs) (length ps + 3) kl = Inr k"
    using read_key_at [OF w, of "ps @ ?f @ ?l" "v @ qs"] by (simp add: kl_def vl_def)
  have d: "drop (length xs) (xs @ ys) = ys" for xs ys :: bytes by simp
  have 6: "take (length v) (drop (length ps + 3 + length k * 2 + 4) (ps @ ?f @ ?l @ wide_bytes k @ ?m @ v @ qs)) = v"
    unfolding o4 using d [of "ps @ ?f @ ?l @ wide_bytes k @ ?m" "v @ qs"] by (simp only: append_assoc) simp
  show ?thesis unfolding item
    unfolding parse_item_def prod.case by (simp only: 1 obind_simps len Let_def 2 3 4 5 6) simp
qed

lemma make_items:
  assumes "list_all writable ms" and "length junk = length (concat (map item ms))"
  shows "ofold make_item ms (length ps, ps @ junk @ qs) = Inr (length ps + length junk, ps @ concat (map item ms) @ qs)"
  using assms
proof (induction ms arbitrary: ps junk)
  case (Cons kv ms)
  obtain k v where kv: "kv = (k, v)" by (cases kv)
  obtain j r where j: "junk = j @ r" "length j = length (item kv)" using cut [of "length (item kv)" junk] Cons.prems(2) by auto
  have "make_item kv (length ps, ps @ j @ r @ qs) = Inr (length (ps @ item kv), (ps @ item kv) @ r @ qs)"
    using make_item_at [of k v j ps "r @ qs"] Cons.prems(1) j(2) by (simp add: kv writable_def)
  then show ?case using Cons.IH [of r "ps @ item kv"] Cons.prems j by (simp add: add.assoc)
qed simp

lemma parse_items:
  assumes "list_all writable ms" and "length is = length ms"
  shows "\<exists>buf. ofold (\<lambda>_. parse_item) is (length ps, ps @ concat (map item ms) @ qs, m) =
    Inr (length ps + length (concat (map item ms)), buf, fold (\<lambda>(k, v). map_put (\<lambda>k. k) k v) ms m)"
  using assms
proof (induction ms arbitrary: "is" ps m)
  case (Cons kv ms)
  obtain k v where kv: "kv = (k, v)" by (cases kv)
  obtain i is' where is': "is = i # is'" "length is' = length ms" using Cons.prems(2) by (cases "is") auto
  have "parse_item (length ps, ps @ item kv @ concat (map item ms) @ qs, m) =
      Inr (length (ps @ plain_item kv), (ps @ plain_item kv) @ concat (map item ms) @ qs, map_put (\<lambda>k. k) k v m)"
    using parse_item_at [of k v ps "concat (map item ms) @ qs" m] Cons.prems(1) by (simp add: kv length_item)
  then show ?case using Cons.IH [of is' "ps @ plain_item kv" "map_put (\<lambda>k. k) k v m"] Cons.prems(1) is'
    by (simp add: kv length_item add.assoc)
qed simp

section \<open>Round trip\<close>

lemma put_last: "\<forall>x \<in> set xs. fst x < k \<Longrightarrow> map_put (\<lambda>k. k) k v xs = xs @ [(k, v)]" for k :: wstring
  by (induction xs) (auto dest: less_not_sym)

lemma fold_put_sorted:
  "map_sorted (\<lambda>k. k) (xs @ ms) \<Longrightarrow> fold (\<lambda>(k, v). map_put (\<lambda>k. k) k v) ms xs = xs @ ms" for xs :: key_values
proof (induction ms arbitrary: xs)
  case (Cons kv ms)
  obtain k v where kv: "kv = (k, v)" by (cases kv)
  have "\<forall>x \<in> set xs. fst x < k" using Cons.prems kv by (auto simp: map_sorted_def sorted_wrt_append)
  then show ?case using Cons.IH [of "xs @ [kv]"] Cons.prems kv by (simp add: put_last)
qed simp

lemma config_size_items: "config_size m = 6 + length (concat (map item m))"
  by (induction m) (auto simp: config_size_def length_item split_beta)

definition config_header :: "key_values \<Rightarrow> bytes" where
  "config_header m = st16 TX_CONFIG_MAGIC @ [1, 1] @ st16 (of_nat (length m))"

lemma MakeConfig_bytes:
  assumes "m \<noteq> []" and "list_all writable m" and "\<And>n. length (fresh n) = n"
  shows "MakeConfig fresh True m = Inr (True, Some (config_header m @ concat (map item m)))"
proof -
  have "length (fresh (config_size m)) = 6 + length (concat (map item m))" using assms(3) config_size_items by simp
  then obtain h junk where h: "fresh (config_size m) = h @ junk" "length h = 6" using cut [of 6 "fresh (config_size m)"] by auto
  then have junk: "length junk = length (concat (map item m))" using assms(3) config_size_items by (metis add_left_cancel length_append)
  obtain h0 h1 h2 h3 h4 h5 where hs: "h = [h0, h1, h2, h3, h4, h5]"
    using h(2) by (auto simp: length_Suc_conv eval_nat_numeral)
  have "ofold make_item m (6, config_header m @ junk) = Inr (6 + length junk, config_header m @ concat (map item m))"
    using make_items [OF assms(2) junk, of "config_header m" "[]"] by (simp add: config_header_def)
  moreover have "put 2 [1] (h @ junk) = Inr ([h0, h1, 1, h3, h4, h5] @ junk)" "put 3 [1] ([h0, h1, 1, h3, h4, h5] @ junk) = Inr ([h0, h1, 1, 1, h4, h5] @ junk)"
    "put 4 (st16 w) ([h0, h1, 1, 1, h4, h5] @ junk) = Inr ([h0, h1, 1, 1] @ st16 w @ junk)"
    "put 0 (st16 x) ([h0, h1, 1, 1] @ st16 w @ junk) = Inr (st16 x @ [1, 1] @ st16 w @ junk)" for w x
    by (simp_all add: put_def hs st16_def eval_nat_numeral)
  ultimately show ?thesis using assms(1) unfolding MakeConfig_def h(1) by (simp add: config_header_def)
qed

text \<open>
  C35: A configuration with at least one and at most 65535 names, each without terminators and of at most 257 characters, and
  with values below 64 KB, is written to a file that reads back as the same configuration, whatever was in the memory of the buffer.
\<close>

theorem config_roundtrip:
  assumes "m \<noteq> []" and "length m < 2 ^ 16" and "map_sorted (\<lambda>k. k) m" and "list_all writable m" and "\<forall>n. length (fresh n) = n"
  shows "\<exists>content. MakeConfig fresh True m = Inr (True, Some content) \<and> ParseConfig_file (Some content) [] = Inr (True, m)"
proof -
  let ?c = "config_header m @ concat (map item m)"
  have n: "unat (of_nat (length m) :: u16) = length m"
    using take_bit_nat_eq_self [of "length m" 16] assms(2) by (simp add: unsigned_of_nat)
  have "get16 ?c 0 = Inr TX_CONFIG_MAGIC" using get16_st16 [of "[]" TX_CONFIG_MAGIC] by (simp add: config_header_def)
  moreover have "get16 ?c 4 = Inr (of_nat (length m))"
    using get16_st16 [of "st16 TX_CONFIG_MAGIC @ [1, 1]" "of_nat (length m)"] by (simp add: config_header_def eval_nat_numeral)
  moreover obtain buf where "ofold (\<lambda>_. parse_item) [0..<length m] (6, ?c, []) =
      Inr (6 + length (concat (map item m)), buf, m)"
    using parse_items [OF assms(4), of "[0..<length m]" "config_header m" "[]" "[]"] fold_put_sorted [of "[]" m] assms(3)
    by (auto simp: config_header_def)
  ultimately have "ParseConfig ?c [] = Inr (True, m)" by (simp add: ParseConfig_def n)
  then show ?thesis using MakeConfig_bytes [OF assms(1,4)] assms(5) by (simp add: ParseConfig_file_def)
qed

definition sample_config :: key_values where
  "sample_config = [(map of_char ''AutoUpdate'', [49]), (map of_char ''User'', [97, 98, 0, 99])]"

theorem config_roundtrip_witness:
  "\<exists>content. MakeConfig (\<lambda>n. replicate n 0xCD) True sample_config = Inr (True, Some content) \<and>
     ParseConfig_file (Some content) [] = Inr (True, sample_config)"
proof -
  have "map_sorted (\<lambda>k. k) sample_config" by code_simp
  moreover have "list_all writable sample_config" by (simp add: sample_config_def writable_def)
  ultimately show ?thesis by (intro config_roundtrip) (simp_all add: sample_config_def)
qed

end
