(* ===== verification/Base64_Coding.thy ===== *)
theory Base64_Coding
  imports Prelude
begin

text \<open>
  \<open>CBase64Coding\<close> of \<open>src/src/Utility/HttpClient/src/Base64Coding.cpp\<close>: the two encoders and the decoder, with the
  arithmetic as the compiler does it: a \<open>char\<close> is signed and is promoted to a 32-bit \<open>int\<close> before it is shifted.  The encoders
  are compared with the encoding by groups of six bits, and the decoder inverts them.
\<close>

section \<open>Tables and loops\<close>

definition bytes_of_string :: "string \<Rightarrow> bytes" where
  "bytes_of_string s = map of_char s"

definition Base64Table :: bytes where
  "Base64Table = bytes_of_string ''ABCDEFGHIJKLMNOPQRSTUVWXYZabcdefghijklmnopqrstuvwxyz0123456789+/''"

definition fillchar :: u8 where "fillchar = 61"

text \<open>The entries of the decoding table after the cast to \<open>char\<close>; \<open>np\<close> becomes -1.\<close>

definition np :: u8 where "np = 255"

definition DecodeTable :: bytes where
  "DecodeTable =
     [np, np, np, np, np, np, np, np, np, np,
      np, np, np, np, np, np, np, np, np, np,
      np, np, np, np, np, np, np, np, np, np,
      np, np, np, np, np, np, np, np, np, np,
      np, np, np, 62, np, np, np, 63, 52, 53,
      54, 55, 56, 57, 58, 59, 60, 61, np, np,
      np, np, np, np, np, 0, 1, 2, 3, 4,
      5, 6, 7, 8, 9, 10, 11, 12, 13, 14,
      15, 16, 17, 18, 19, 20, 21, 22, 23, 24,
      25, np, np, np, np, np, np, 26, 27, 28,
      29, 30, 31, 32, 33, 34, 35, 36, 37, 38,
      39, 40, 41, 42, 43, 44, 45, 46, 47, 48,
      49, 50, 51, np, np, np, np, np, np, np,
      np, np, np, np, np, np, np, np, np, np,
      np, np, np, np, np, np, np, np, np, np,
      np, np, np, np, np, np, np, np, np, np,
      np, np, np, np, np, np, np, np, np, np,
      np, np, np, np, np, np, np, np, np, np,
      np, np, np, np, np, np, np, np, np, np,
      np, np, np, np, np, np, np, np, np, np,
      np, np, np, np, np, np, np, np, np, np,
      np, np, np, np, np, np, np, np, np, np,
      np, np, np, np, np, np, np, np, np, np,
      np, np, np, np, np, np, np, np, np, np,
      np, np, np, np, np, np, np, np, np, np,
      np, np, np, np, np, np]"

text \<open>A \<open>char\<close> in an expression, and the result of one stored in a \<open>char\<close>.\<close>

definition promote :: "u8 \<Rightarrow> i32" where "promote c = scast c"

definition to_char :: "i32 \<Rightarrow> u8" where "to_char w = ucast w"

definition shr :: "u8 \<Rightarrow> nat \<Rightarrow> i32" where "shr c n = signed_drop_bit n (promote c)"

definition shl :: "u8 \<Rightarrow> nat \<Rightarrow> i32" where "shl c n = push_bit n (promote c)"

text \<open>One turn of the encoding loop: the four characters appended and the index after the turn.  \<open>rd\<close> reads a
  byte, \<open>None\<close> for a read behind the end.\<close>

definition encode_turn :: "(nat \<Rightarrow> u8 option) \<Rightarrow> nat \<Rightarrow> nat \<Rightarrow> (nat \<times> bytes) option" where
  "encode_turn rd len i =
     Option.bind (rd i) (\<lambda>d0.
       let c0 = to_char (shr d0 2 AND 0x3F); c1 = to_char (shl d0 4 AND 0x3F) in
       if i + 1 < len then
         Option.bind (rd (i + 1)) (\<lambda>d1.
           let c1 = to_char (promote c1 OR (shr d1 4 AND 0x0F)); c2 = to_char (shl d1 2 AND 0x3F) in
           if i + 2 < len then
             Option.bind (rd (i + 2)) (\<lambda>d2.
               let c2 = to_char (promote c2 OR (shr d2 6 AND 0x03)); c3 = to_char (promote d2 AND 0x3F) in
               Some (i + 3, [Base64Table ! unat c0, Base64Table ! unat c1, Base64Table ! unat c2, Base64Table ! unat c3]))
           else Some (i + 3, [Base64Table ! unat c0, Base64Table ! unat c1, Base64Table ! unat c2, fillchar]))
       else Some (i + 3, [Base64Table ! unat c0, Base64Table ! unat c1, fillchar, fillchar]))"

lemma encode_turn_index: "encode_turn rd len i = Some (j, cs) \<Longrightarrow> j = i + 3"
  by (auto simp: encode_turn_def Let_def bind_eq_Some_conv split: if_splits)

function encode_loop :: "(nat \<Rightarrow> u8 option) \<Rightarrow> nat \<Rightarrow> nat \<Rightarrow> bytes \<Rightarrow> bytes option" where
  "encode_loop rd len i ret =
     (if i < len then
        (case encode_turn rd len i of None \<Rightarrow> None | Some (j, cs) \<Rightarrow> encode_loop rd len j (ret @ cs))
      else Some ret)"
  by auto
termination
  by (relation "measure (\<lambda>(rd, len, i, ret). len - i)") (auto dest: encode_turn_index)

declare encode_loop.simps [simp del]

definition read_at :: "bytes \<Rightarrow> nat \<Rightarrow> u8 option" where
  "read_at xs i = (if i < length xs then Some (xs ! i) else None)"

definition Encode :: "bytes \<Rightarrow> bytes option" where
  "Encode data = encode_loop (read_at data) (length data) 0 []"

text \<open>The form for a buffer; \<open>len\<close> is compared as unsigned.\<close>

definition Encode_buffer :: "bytes \<Rightarrow> i32 \<Rightarrow> bytes option" where
  "Encode_buffer source len = encode_loop (read_at source) (unat len) 0 []"

text \<open>One turn of the decoding loop: the bytes appended, and the next index or \<open>None\<close> for \<open>break\<close>.  \<open>data[len]\<close> of a
  constant string is 0.\<close>

definition char_at :: "bytes \<Rightarrow> nat \<Rightarrow> u8" where
  "char_at data i = (if i < length data then data ! i else 0)"

definition decode_turn :: "bytes \<Rightarrow> nat \<Rightarrow> bytes \<times> nat option" where
  "decode_turn data i =
     (let c = DecodeTable ! unat (char_at data i); c1 = DecodeTable ! unat (char_at data (i + 1));
          b0 = to_char (shl c 2 OR (shr c1 4 AND 0x3)) in
      if i + 2 < length data then
        if char_at data (i + 2) = fillchar then ([b0], None)
        else
          let c = DecodeTable ! unat (char_at data (i + 2)); b1 = to_char ((shl c1 4 AND 0xF0) OR (shr c 2 AND 0xF)) in
          if i + 3 < length data then
            if char_at data (i + 3) = fillchar then ([b0, b1], None)
            else
              let c1 = DecodeTable ! unat (char_at data (i + 3)); b2 = to_char ((shl c 6 AND 0xC0) OR promote c1) in
              ([b0, b1, b2], Some (i + 4))
          else ([b0, b1], Some (i + 4))
      else ([b0], Some (i + 4)))"

lemma decode_turn_index: "decode_turn data i = (cs, Some j) \<Longrightarrow> j = i + 4"
  by (auto simp: decode_turn_def Let_def split: if_splits)

function decode_loop :: "bytes \<Rightarrow> nat \<Rightarrow> bytes \<Rightarrow> bytes" where
  "decode_loop data i ret =
     (if i < length data then
        (case decode_turn data i of (cs, None) \<Rightarrow> ret @ cs | (cs, Some j) \<Rightarrow> decode_loop data j (ret @ cs))
      else ret)"
  by auto
termination
  by (relation "measure (\<lambda>(data, i, ret). length data - i)") (auto dest: decode_turn_index [OF sym])

declare decode_loop.simps [simp del]

definition Decode :: "bytes \<Rightarrow> bytes" where
  "Decode data = decode_loop data 0 []"

section \<open>Bits of the characters\<close>

lemma u8_eqI:
  fixes a b :: u8
  assumes "bit a 0 = bit b 0" "bit a 1 = bit b 1" "bit a 2 = bit b 2" "bit a 3 = bit b 3"
    and "bit a 4 = bit b 4" "bit a 5 = bit b 5" "bit a 6 = bit b 6" "bit a 7 = bit b 7"
  shows "a = b"
proof (rule bit_word_eqI)
  fix n assume "n < LENGTH(8)"
  then have "n = 0 \<or> n = 1 \<or> n = 2 \<or> n = 3 \<or> n = 4 \<or> n = 5 \<or> n = 6 \<or> n = 7" by auto
  then show "bit a n = bit b n" using assms by auto
qed

lemma bit_promote: "n < 32 \<Longrightarrow> bit (promote c) n = bit c (min n 7)"
  by (auto simp: promote_def bit_simps min_def)

lemma bit_promote8: "n < 8 \<Longrightarrow> bit (promote c) n = bit c n"
  by (simp add: bit_promote min_absorb1)

lemma bit_shr: "n < 8 \<Longrightarrow> k < 8 \<Longrightarrow> bit (shr c k) n = bit c (min (k + n) 7)"
  by (auto simp: shr_def bit_signed_drop_bit_iff bit_promote)

lemma bit_shl: "n < 8 \<Longrightarrow> k < 8 \<Longrightarrow> bit (shl c k) n \<longleftrightarrow> k \<le> n \<and> bit c (n - k)"
  by (auto simp: shl_def bit_push_bit_iff bit_promote8)

lemma bit_to_char: "bit (to_char w) n \<longleftrightarrow> n < 8 \<and> bit w n"
  by (auto simp: to_char_def bit_simps)

lemmas char_bits = bit_to_char bit_and_iff bit_or_iff bit_shr bit_shl bit_promote8

section \<open>Encoding by groups of six bits\<close>

definition octet_bits :: "u8 \<Rightarrow> bool list" where
  "octet_bits b = map (bit b) [7, 6, 5, 4, 3, 2, 1, 0]"

definition sextet :: "bool list \<Rightarrow> u8" where
  "sextet bs = horner_sum of_bool 2 (rev bs)"

function sextets :: "bool list \<Rightarrow> u8 list" where
  "sextets bs = (if bs = [] then [] else sextet (take 6 (bs @ replicate 5 False)) # sextets (drop 6 bs))"
  by auto
termination
  by (relation "measure length") auto

declare sextets.simps [simp del]

definition base64 :: "bytes \<Rightarrow> bytes" where
  "base64 xs =
     (let cs = map (\<lambda>v. Base64Table ! unat v) (sextets (concat (map octet_bits xs)))
      in cs @ replicate ((4 - length cs mod 4) mod 4) fillchar)"

text \<open>The same by groups of three bytes.\<close>

definition symbol :: "u8 \<Rightarrow> u8" where "symbol v = Base64Table ! unat v"

definition e0 :: "u8 \<Rightarrow> u8" where "e0 a = to_char (shr a 2 AND 0x3F)"
definition e1 :: "u8 \<Rightarrow> u8 \<Rightarrow> u8" where "e1 a b = to_char (promote (to_char (shl a 4 AND 0x3F)) OR (shr b 4 AND 0x0F))"
definition e2 :: "u8 \<Rightarrow> u8 \<Rightarrow> u8" where "e2 b c = to_char (promote (to_char (shl b 2 AND 0x3F)) OR (shr c 6 AND 0x03))"
definition e3 :: "u8 \<Rightarrow> u8" where "e3 c = to_char (promote c AND 0x3F)"

fun groups :: "bytes \<Rightarrow> bytes" where
  "groups [] = []"
| "groups [a] = [symbol (e0 a), symbol (e1 a 0), fillchar, fillchar]"
| "groups [a, b] = [symbol (e0 a), symbol (e1 a b), symbol (e2 b 0), fillchar]"
| "groups (a # b # c # xs) = symbol (e0 a) # symbol (e1 a b) # symbol (e2 b c) # symbol (e3 c) # groups xs"

lemma last_chars: "to_char (shl a 4 AND 0x3F) = e1 a 0" "to_char (shl b 2 AND 0x3F) = e2 b 0"
  by (rule u8_eqI; simp add: e1_def e2_def char_bits)+

lemma read_drop: "drop i xs = ys \<Longrightarrow> ys \<noteq> [] \<Longrightarrow> k < length ys \<Longrightarrow> read_at xs (i + k) = Some (ys ! k)"
  by (auto simp: read_at_def)

lemma encode_turn_drop:
  "drop i xs = [a] \<Longrightarrow> encode_turn (read_at xs) (length xs) i = Some (i + 3, [symbol (e0 a), symbol (e1 a 0), fillchar, fillchar])"
  "drop i xs = [a, b] \<Longrightarrow>
     encode_turn (read_at xs) (length xs) i = Some (i + 3, [symbol (e0 a), symbol (e1 a b), symbol (e2 b 0), fillchar])"
  "drop i xs = a # b # c # ys \<Longrightarrow>
     encode_turn (read_at xs) (length xs) i = Some (i + 3, [symbol (e0 a), symbol (e1 a b), symbol (e2 b c), symbol (e3 c)])"
proof -
  have len: "length xs = i + length zs" if "drop i xs = zs" "zs \<noteq> []" for zs
    using that by (metis add_diff_inverse_nat drop_all length_drop nat_le_linear not_less)
  show "encode_turn (read_at xs) (length xs) i = Some (i + 3, [symbol (e0 a), symbol (e1 a 0), fillchar, fillchar])" if "drop i xs = [a]"
    using read_drop [OF that, of 0] len [OF that]
    by (simp add: encode_turn_def Let_def last_chars symbol_def e0_def [symmetric])
  show "encode_turn (read_at xs) (length xs) i = Some (i + 3, [symbol (e0 a), symbol (e1 a b), symbol (e2 b 0), fillchar])" if "drop i xs = [a, b]"
    using read_drop [OF that, of 0] read_drop [OF that, of 1] len [OF that]
    by (simp add: encode_turn_def Let_def symbol_def e0_def [symmetric] e1_def [symmetric] last_chars(2))
  show "encode_turn (read_at xs) (length xs) i = Some (i + 3, [symbol (e0 a), symbol (e1 a b), symbol (e2 b c), symbol (e3 c)])"
    if "drop i xs = a # b # c # ys"
    using read_drop [OF that, of 0] read_drop [OF that, of 1] read_drop [OF that, of 2] len [OF that]
    by (simp add: encode_turn_def Let_def symbol_def e0_def [symmetric] e1_def [symmetric] e2_def [symmetric] e3_def [symmetric])
qed

lemma encode_loop_next:
  "encode_turn (read_at xs) (length xs) i = Some (i + 3, cs) \<Longrightarrow> i < length xs \<Longrightarrow>
     encode_loop (read_at xs) (length xs) i ret = encode_loop (read_at xs) (length xs) (i + 3) (ret @ cs)"
  by (simp add: encode_loop.simps [of _ _ i])

lemma encode_loop_groups: "encode_loop (read_at xs) (length xs) i ret = Some (ret @ groups (drop i xs))"
proof (induction "drop i xs" arbitrary: i ret rule: groups.induct)
  case 1
  then show ?case by (simp add: encode_loop.simps)
next
  case (2 a)
  note d = 2 [symmetric]
  have "i < length xs" "length xs \<le> i + 3" using arg_cong [OF d, of length] by auto
  then show ?case using encode_loop_next [OF encode_turn_drop(1) [OF d]] d by (simp add: encode_loop.simps [of _ _ "i + 3"])
next
  case (3 a b)
  note d = 3 [symmetric]
  have "i < length xs" "length xs \<le> i + 3" using arg_cong [OF d, of length] by auto
  then show ?case using encode_loop_next [OF encode_turn_drop(2) [OF d]] d by (simp add: encode_loop.simps [of _ _ "i + 3"])
next
  case (4 a b c ys)
  note d = 4(2) [symmetric]
  have "i < length xs" using arg_cong [OF d, of length] by auto
  moreover have "ys = drop (i + 3) xs" using arg_cong [OF d, of "drop 3"] by (simp add: add.commute)
  ultimately show ?case using encode_loop_next [OF encode_turn_drop(3) [OF d]] 4(1) d by simp
qed

lemma Encode_groups: "Encode data = Some (groups data)"
  by (simp add: Encode_def encode_loop_groups)

section \<open>The groups are those of the standard\<close>

lemma bit_sextet: "bit (sextet bs) n \<longleftrightarrow> n < 8 \<and> n < length bs \<and> rev bs ! n"
  by (auto simp: sextet_def bit_horner_sum_bit_word_iff)

lemma sextets_6: "sextets (b0 # b1 # b2 # b3 # b4 # b5 # bs) = sextet [b0, b1, b2, b3, b4, b5] # sextets bs"
  by (simp add: sextets.simps [of "_ # _"] eval_nat_numeral)

lemma sextets_short: "sextets [] = []" "sextets [b0, b1] = [sextet [b0, b1, False, False, False, False]]"
    "sextets [b0, b1, b2, b3] = [sextet [b0, b1, b2, b3, False, False]]"
  by (simp_all add: sextets.simps eval_nat_numeral)

lemma group_sextets:
  "sextet [bit a 7, bit a 6, bit a 5, bit a 4, bit a 3, bit a 2] = e0 a"
  "sextet [bit a 1, bit a 0, bit b 7, bit b 6, bit b 5, bit b 4] = e1 a b"
  "sextet [bit b 3, bit b 2, bit b 1, bit b 0, bit c 7, bit c 6] = e2 b c"
  "sextet [bit c 5, bit c 4, bit c 3, bit c 2, bit c 1, bit c 0] = e3 c"
  by (rule u8_eqI; simp add: e0_def e1_def e2_def e3_def char_bits bit_sextet)+

lemma last_sextets:
  "sextet [bit a 1, bit a 0, False, False, False, False] = e1 a 0"
  "sextet [bit b 3, bit b 2, bit b 1, bit b 0, False, False] = e2 b 0"
  using group_sextets(2) [of a 0] group_sextets(3) [of b 0] by simp_all

lemma replicate_few: "replicate 1 x = [x]" "replicate 2 x = [x, x]"
  by (simp_all add: numeral_2_eq_2)

lemma groups_base64: "groups xs = base64 xs"
proof (induction xs rule: groups.induct)
  case (4 a b c xs)
  then show ?case
    by (simp add: base64_def Let_def octet_bits_def sextets_6 group_sextets symbol_def del: One_nat_def)
qed (simp_all add: base64_def Let_def octet_bits_def sextets_6 sextets_short group_sextets last_sextets symbol_def numeral_2_eq_2 [symmetric] replicate_few del: One_nat_def)

lemma encode_turn_cong: "i < len \<Longrightarrow> (\<And>j. j < len \<Longrightarrow> rd j = rd' j) \<Longrightarrow> encode_turn rd len i = encode_turn rd' len i"
  by (simp add: encode_turn_def cong: Option.bind_cong if_cong)

lemma encode_loop_cong: "(\<And>j. j < len \<Longrightarrow> rd j = rd' j) \<Longrightarrow> encode_loop rd len i ret = encode_loop rd' len i ret"
proof (induction rd len i ret rule: encode_loop.induct)
  case (1 rd len i ret)
  show ?case
  proof (cases "i < len")
    case True
    then have "encode_turn rd len i = encode_turn rd' len i" using encode_turn_cong 1(2) by blast
    then show ?thesis using True 1 by (auto simp: encode_loop.simps [of _ len i] split: option.split)
  qed (simp add: encode_loop.simps)
qed

text \<open>
  C34: \<open>Encode\<close> never reads behind its argument and computes the Base64 encoding of the standard: the bits of the bytes, most
  significant first, in groups of six, the last one filled with zeros, each written with its character, and filled up with the fill
  character to a multiple of four.  The form for a buffer does the same for the first \<open>len\<close> bytes when the buffer has as many.
\<close>

theorem base64_is_rfc4648:
  "Encode data = Some (base64 data) \<and> (unat len \<le> length source \<longrightarrow> Encode_buffer source len = Some (base64 (take (unat len) source)))"
proof (intro conjI impI)
  show "Encode data = Some (base64 data)" by (simp add: Encode_groups groups_base64)
  assume len: "unat len \<le> length source"
  let ?xs = "take (unat len) source"
  have "encode_loop (read_at source) (unat len) 0 [] = encode_loop (read_at ?xs) (unat len) 0 []"
    using len by (intro encode_loop_cong) (simp add: read_at_def)
  also have "\<dots> = Some (groups ?xs)" using encode_loop_groups [of ?xs 0 "[]"] len by (simp add: min_absorb2)
  finally show "Encode_buffer source len = Some (base64 ?xs)" by (simp add: Encode_buffer_def groups_base64)
qed

theorem base64_is_rfc4648_witness:
  "Encode (bytes_of_string ''foob'') = Some (base64 (bytes_of_string ''foob'')) \<and>
   Encode_buffer (bytes_of_string ''foobar'') 4 = Some (base64 (bytes_of_string ''foob'')) \<and>
   base64 (bytes_of_string ''foob'') = bytes_of_string ''Zm9vYg==''"
proof -
  have "base64 (bytes_of_string ''foob'') = bytes_of_string ''Zm9vYg==''" by code_simp
  then show ?thesis using base64_is_rfc4648 [of "bytes_of_string ''foob''" 4 "bytes_of_string ''foobar''"]
    by (simp add: bytes_of_string_def)
qed

section \<open>Decoding\<close>

lemma decode_symbols: "list_all (\<lambda>n. DecodeTable ! unat (Base64Table ! n) = of_nat n \<and> Base64Table ! n \<noteq> fillchar) [0..<64]"
proof -
  have tab: "Base64Table = [65, 66, 67, 68, 69, 70, 71, 72, 73, 74, 75, 76, 77, 78, 79, 80, 81, 82, 83, 84, 85, 86, 87, 88, 89, 90,
      97, 98, 99, 100, 101, 102, 103, 104, 105, 106, 107, 108, 109, 110, 111, 112, 113, 114, 115, 116, 117, 118, 119, 120, 121, 122,
      48, 49, 50, 51, 52, 53, 54, 55, 56, 57, 43, 47]" by code_simp
  have upt: "[0..<64] = [0, 1, 2, 3, 4, 5, 6, 7, 8, 9, 10, 11, 12, 13, 14, 15, 16, 17, 18, 19, 20, 21, 22, 23, 24, 25, 26, 27, 28, 29, 30, 31, 32, 33, 34, 35, 36, 37, 38, 39, 40, 41, 42, 43, 44, 45, 46, 47, 48, 49, 50, 51, 52, 53, 54, 55, 56, 57, 58, 59, 60, 61, 62, 63]" by code_simp
  show ?thesis unfolding tab upt fillchar_def list.pred_inject by (intro conjI TrueI) (simp_all add: DecodeTable_def)
qed

lemma decode_sym: "v < 64 \<Longrightarrow> DecodeTable ! unat (symbol v) = v" "v < 64 \<Longrightarrow> symbol v \<noteq> fillchar"
proof -
  assume "v < 64"
  then have "unat v < 64" by (simp add: word_less_nat_alt)
  then have "unat v \<in> set [0..<64]" by simp
  then show "DecodeTable ! unat (symbol v) = v" "symbol v \<noteq> fillchar" using decode_symbols unfolding list_all_iff symbol_def by fastforce+
qed

lemma small_sextet: "\<not> bit v 6 \<Longrightarrow> \<not> bit v 7 \<Longrightarrow> v < (64 :: u8)"
proof -
  assume "\<not> bit v 6" "\<not> bit v 7"
  then have "take_bit 6 v = v" by (intro u8_eqI) (simp_all add: bit_take_bit_iff)
  moreover have "unat (take_bit 6 v) < 2 ^ 6" by (simp only: unsigned_take_bit_eq take_bit_nat_less_exp)
  ultimately show ?thesis by (simp add: word_less_nat_alt)
qed

lemma groups_small: "e0 a < 64" "e1 a b < 64" "e2 b c < 64" "e3 c < 64"
  by (rule small_sextet; simp add: e0_def e1_def e2_def e3_def char_bits)+

lemma rejoin:
  "to_char (shl (e0 a) 2 OR (shr (e1 a b) 4 AND 0x3)) = a"
  "to_char ((shl (e1 a b) 4 AND 0xF0) OR (shr (e2 b c) 2 AND 0xF)) = b"
  "to_char ((shl (e2 b c) 6 AND 0xC0) OR promote (e3 c)) = c"
  by (rule u8_eqI; simp add: e0_def e1_def e2_def e3_def char_bits)+

lemma decode_groups: "decode_loop (ps @ groups xs) (length ps) ret = ret @ xs"
proof (induction xs arbitrary: ps ret rule: groups.induct)
  case (4 a b c xs)
  let ?g = "[symbol (e0 a), symbol (e1 a b), symbol (e2 b c), symbol (e3 c)]"
  have "decode_turn (ps @ groups (a # b # c # xs)) (length ps) = ([a, b, c], Some (length ps + 4))"
    by (simp add: decode_turn_def Let_def char_at_def nth_append decode_sym groups_small rejoin)
  moreover have "length (ps @ ?g) = length ps + 4" by simp
  ultimately show ?case using 4 [of "ps @ ?g" "ret @ [a, b, c]", unfolded \<open>length (ps @ ?g) = length ps + 4\<close>]
    by (simp add: decode_loop.simps [of _ "length ps"])
qed (simp_all add: decode_loop.simps decode_turn_def Let_def char_at_def nth_append decode_sym groups_small rejoin)

text \<open>
  Note: What \<open>Encode\<close> returns, \<open>Decode\<close> turns back into the original bytes, whatever they are.
\<close>

theorem base64_roundtrip: "map_option Decode (Encode data) = Some data"
  using decode_groups [of "[]" data "[]"] by (simp add: Encode_groups Decode_def)

end
