(* ===== verification/Mime_Types.thy ===== *)
theory Mime_Types
  imports Base64_Coding "HOL-Library.List_Lexorder"
begin

text \<open>
  The table of file suffixes and MIME types of \<open>src/src/Utility/HttpClient/src/HttpCli.cpp\<close> and \<open>getMimeType\<close>, which looks a
  file name up in it.
\<close>

section \<open>The table\<close>

definition mimetype_0 :: "(string \<times> string) list" where
  "mimetype_0 =
    [(''.3dm'', ''x-world/x-3dmf''),
     (''.3dmf'', ''x-world/x-3dmf''),
     (''.a'', ''application/octet-stream''),
     (''.aab'', ''application/x-authorware-bin''),
     (''.aam'', ''application/x-authorware-map''),
     (''.aas'', ''application/x-authorware-seg''),
     (''.abc'', ''text/vnd.abc''),
     (''.acgi'', ''text/html''),
     (''.afl'', ''video/animaflex''),
     (''.ai'', ''application/postscript''),
     (''.aif'', ''audio/aiff''),
     (''.aifc'', ''audio/aiff''),
     (''.aiff'', ''audio/aiff''),
     (''.aim'', ''application/x-aim''),
     (''.aip'', ''text/x-audiosoft-intra''),
     (''.ani'', ''application/x-navi-animation''),
     (''.aos'', ''application/x-nokia-9000-communicator-add-on-software''),
     (''.aps'', ''application/mime''),
     (''.arc'', ''application/octet-stream''),
     (''.arj'', ''application/arj''),
     (''.art'', ''image/x-jg''),
     (''.asf'', ''video/x-ms-asf''),
     (''.asm'', ''text/x-asm''),
     (''.asp'', ''text/asp''),
     (''.asx'', ''video/x-ms-asf''),
     (''.au'', ''audio/basic''),
     (''.avi'', ''video/avi''),
     (''.avs'', ''video/avs-video''),
     (''.bcpio'', ''application/x-bcpio''),
     (''.bin'', ''application/octet-stream''),
     (''.bm'', ''image/bmp''),
     (''.bmp'', ''image/bmp''),
     (''.boo'', ''application/book''),
     (''.book'', ''application/book''),
     (''.boz'', ''application/x-bzip2''),
     (''.bsh'', ''application/x-bsh''),
     (''.bz'', ''application/x-bzip''),
     (''.bz2'', ''application/x-bzip2''),
     (''.c'', ''text/plain''),
     (''.c++'', ''text/plain''),
     (''.cat'', ''application/vnd.ms-pki.seccat''),
     (''.cc'', ''text/plain''),
     (''.ccad'', ''application/clariscad''),
     (''.cco'', ''application/x-cocoa''),
     (''.cdf'', ''application/cdf''),
     (''.cer'', ''application/pkix-cert''),
     (''.cha'', ''application/x-chat''),
     (''.chat'', ''application/x-chat''),
     (''.class'', ''application/java''),
     (''.com'', ''application/octet-stream''),
     (''.conf'', ''text/plain''),
     (''.cpio'', ''application/x-cpio''),
     (''.cpp'', ''text/x-c''),
     (''.cpt'', ''application/x-cpt''),
     (''.crl'', ''application/pkcs-crl''),
     (''.crt'', ''application/pkix-cert''),
     (''.csh'', ''application/x-csh''),
     (''.css'', ''text/css''),
     (''.cxx'', ''text/plain''),
     (''.dcr'', ''application/x-director''),
     (''.deepv'', ''application/x-deepv''),
     (''.def'', ''text/plain''),
     (''.der'', ''application/x-x509-ca-cert''),
     (''.dif'', ''video/x-dv''),
     (''.dir'', ''application/x-director''),
     (''.dl'', ''video/dl''),
     (''.doc'', ''application/msword''),
     (''.dot'', ''application/msword''),
     (''.dp'', ''application/commonground''),
     (''.drw'', ''application/drafting''),
     (''.dump'', ''application/octet-stream''),
     (''.dv'', ''video/x-dv''),
     (''.dvi'', ''application/x-dvi''),
     (''.dwf'', ''model/vnd.dwf''),
     (''.dwg'', ''image/vnd.dwg'')]"

definition mimetype_1 :: "(string \<times> string) list" where
  "mimetype_1 =
    [(''.dxf'', ''image/vnd.dwg''),
     (''.dxr'', ''application/x-director''),
     (''.el'', ''text/x-script.elisp''),
     (''.elc'', ''application/x-elc''),
     (''.env'', ''application/x-envoy''),
     (''.eps'', ''application/postscript''),
     (''.es'', ''application/x-esrehber''),
     (''.etx'', ''text/x-setext''),
     (''.evy'', ''application/envoy''),
     (''.exe'', ''application/octet-stream''),
     (''.f'', ''text/plain''),
     (''.f77'', ''text/x-fortran''),
     (''.f90'', ''text/plain''),
     (''.fdf'', ''application/vnd.fdf''),
     (''.fif'', ''image/fif''),
     (''.fli'', ''video/fli''),
     (''.flo'', ''image/florian''),
     (''.flx'', ''text/vnd.fmi.flexstor''),
     (''.fmf'', ''video/x-atomic3d-feature''),
     (''.for'', ''text/x-fortran''),
     (''.fpx'', ''image/vnd.fpx''),
     (''.frl'', ''application/freeloader''),
     (''.funk'', ''audio/make''),
     (''.g'', ''text/plain''),
     (''.g3'', ''image/g3fax''),
     (''.gif'', ''image/gif''),
     (''.gl'', ''video/gl''),
     (''.gsd'', ''audio/x-gsm''),
     (''.gsm'', ''audio/x-gsm''),
     (''.gsp'', ''application/x-gsp''),
     (''.gss'', ''application/x-gss''),
     (''.gtar'', ''application/x-gtar''),
     (''.gz'', ''application/x-gzip''),
     (''.gzip'', ''application/x-gzip''),
     (''.h'', ''text/plain''),
     (''.hdf'', ''application/x-hdf''),
     (''.help'', ''application/x-helpfile''),
     (''.hgl'', ''application/vnd.hp-hpgl''),
     (''.hh'', ''text/plain''),
     (''.hlb'', ''text/x-script''),
     (''.hlp'', ''application/hlp''),
     (''.hpg'', ''application/vnd.hp-hpgl''),
     (''.hpgl'', ''application/vnd.hp-hpgl''),
     (''.hqx'', ''application/binhex''),
     (''.hta'', ''application/hta''),
     (''.htc'', ''text/x-component''),
     (''.htm'', ''text/html''),
     (''.html'', ''text/html''),
     (''.htmls'', ''text/html''),
     (''.htt'', ''text/webviewhtml''),
     (''.htx'', ''text/html''),
     (''.ice'', ''x-conference/x-cooltalk''),
     (''.ico'', ''image/x-icon''),
     (''.idc'', ''text/plain''),
     (''.ief'', ''image/ief''),
     (''.iefs'', ''image/ief''),
     (''.iges'', ''application/iges''),
     (''.igs'', ''application/iges''),
     (''.ima'', ''application/x-ima''),
     (''.imap'', ''application/x-httpd-imap''),
     (''.inf'', ''application/inf''),
     (''.ins'', ''application/x-internett-signup''),
     (''.ip'', ''application/x-ip2''),
     (''.isu'', ''video/x-isvideo''),
     (''.it'', ''audio/it''),
     (''.iv'', ''application/x-inventor''),
     (''.ivr'', ''i-world/i-vrml''),
     (''.ivy'', ''application/x-livescreen''),
     (''.jam'', ''audio/x-jam''),
     (''.jav'', ''text/plain''),
     (''.java'', ''text/plain''),
     (''.jcm'', ''application/x-java-commerce''),
     (''.jfif'', ''image/jpeg''),
     (''.jfif-tbnl'', ''image/jpeg''),
     (''.jpe'', ''image/jpeg'')]"

definition mimetype_2 :: "(string \<times> string) list" where
  "mimetype_2 =
    [(''.jpeg'', ''image/jpeg''),
     (''.jpg'', ''image/jpeg''),
     (''.jps'', ''image/x-jps''),
     (''.js'', ''application/x-javascript''),
     (''.jut'', ''image/jutvision''),
     (''.kar'', ''audio/midi''),
     (''.ksh'', ''application/x-ksh''),
     (''.la'', ''audio/nspaudio''),
     (''.lam'', ''audio/x-liveaudio''),
     (''.latex'', ''application/x-latex''),
     (''.lha'', ''application/octet-stream''),
     (''.lhx'', ''application/octet-stream''),
     (''.list'', ''text/plain''),
     (''.lma'', ''audio/nspaudio''),
     (''.log'', ''text/plain''),
     (''.lsp'', ''application/x-lisp''),
     (''.lst'', ''text/plain''),
     (''.lsx'', ''text/x-la-asf''),
     (''.ltx'', ''application/x-latex''),
     (''.lzh'', ''application/octet-stream''),
     (''.lzx'', ''application/octet-stream''),
     (''.m'', ''text/plain''),
     (''.m1v'', ''video/mpeg''),
     (''.m2a'', ''audio/mpeg''),
     (''.m2v'', ''video/mpeg''),
     (''.m3u'', ''audio/x-mpequrl''),
     (''.man'', ''application/x-troff-man''),
     (''.map'', ''application/x-navimap''),
     (''.mar'', ''text/plain''),
     (''.mbd'', ''application/mbedlet''),
     (''.mc$'', ''application/x-magic-cap-package-1.0''),
     (''.mcd'', ''application/mcad''),
     (''.mcf'', ''text/mcf''),
     (''.mcp'', ''application/netmc''),
     (''.me'', ''application/x-troff-me''),
     (''.mht'', ''message/rfc822''),
     (''.mhtml'', ''message/rfc822''),
     (''.mid'', ''audio/midi''),
     (''.midi'', ''audio/midi''),
     (''.mif'', ''application/x-mif''),
     (''.mime'', ''message/rfc822''),
     (''.mjf'', ''audio/x-vnd.audioexplosion.mjuicemediafile''),
     (''.mjpg'', ''video/x-motion-jpeg''),
     (''.mm'', ''application/base64''),
     (''.mme'', ''application/base64''),
     (''.mod'', ''audio/mod''),
     (''.moov'', ''video/quicktime''),
     (''.mov'', ''video/quicktime''),
     (''.movie'', ''video/x-sgi-movie''),
     (''.mp2'', ''audio/mpeg''),
     (''.mp3'', ''audio/mpeg''),
     (''.mpa'', ''audio/mpeg''),
     (''.mpc'', ''application/x-project''),
     (''.mpe'', ''video/mpeg''),
     (''.mpeg'', ''video/mpeg''),
     (''.mpg'', ''video/mpeg''),
     (''.mpga'', ''audio/mpeg''),
     (''.mpp'', ''application/vnd.ms-project''),
     (''.mpt'', ''application/vnd.ms-project''),
     (''.mpv'', ''application/vnd.ms-project''),
     (''.mpx'', ''application/vnd.ms-project''),
     (''.mrc'', ''application/marc''),
     (''.ms'', ''application/x-troff-ms''),
     (''.mv'', ''video/x-sgi-movie''),
     (''.my'', ''audio/make''),
     (''.mzz'', ''application/x-vnd.audioexplosion.mzz''),
     (''.nap'', ''image/naplps''),
     (''.naplps'', ''image/naplps''),
     (''.nc'', ''application/x-netcdf''),
     (''.ncm'', ''application/vnd.nokia.configuration-message''),
     (''.nif'', ''image/x-niff''),
     (''.niff'', ''image/x-niff''),
     (''.nix'', ''application/x-mix-transfer''),
     (''.nsc'', ''application/x-conference''),
     (''.nvd'', ''application/x-navidoc'')]"

definition mimetype_3 :: "(string \<times> string) list" where
  "mimetype_3 =
    [(''.o'', ''application/octet-stream''),
     (''.oda'', ''application/oda''),
     (''.omc'', ''application/x-omc''),
     (''.omcd'', ''application/x-omcdatamaker''),
     (''.omcr'', ''application/x-omcregerator''),
     (''.p'', ''text/x-pascal''),
     (''.p10'', ''application/pkcs10''),
     (''.p12'', ''application/pkcs-12''),
     (''.p7a'', ''application/x-pkcs7-signature''),
     (''.p7c'', ''application/pkcs7-mime''),
     (''.p7m'', ''application/pkcs7-mime''),
     (''.p7r'', ''application/x-pkcs7-certreqresp''),
     (''.p7s'', ''application/pkcs7-signature''),
     (''.part'', ''application/pro_eng''),
     (''.pas'', ''text/pascal''),
     (''.pbm'', ''image/x-portable-bitmap''),
     (''.pcl'', ''application/vnd.hp-pcl''),
     (''.pct'', ''image/x-pict''),
     (''.pcx'', ''image/x-pcx''),
     (''.pdb'', ''chemical/x-pdb''),
     (''.pdf'', ''application/pdf''),
     (''.pfunk'', ''audio/make''),
     (''.pgm'', ''image/x-portable-greymap''),
     (''.pic'', ''image/pict''),
     (''.pict'', ''image/pict''),
     (''.pkg'', ''application/x-newton-compatible-pkg''),
     (''.pko'', ''application/vnd.ms-pki.pko''),
     (''.pl'', ''text/plain''),
     (''.plx'', ''application/x-pixclscript''),
     (''.pm'', ''image/x-xpixmap''),
     (''.pm4'', ''application/x-pagemaker''),
     (''.pm5'', ''application/x-pagemaker''),
     (''.png'', ''image/png''),
     (''.pnm'', ''application/x-portable-anymap''),
     (''.pot'', ''application/vnd.ms-powerpoint''),
     (''.pov'', ''model/x-pov''),
     (''.ppa'', ''application/vnd.ms-powerpoint''),
     (''.ppm'', ''image/x-portable-pixmap''),
     (''.pps'', ''application/vnd.ms-powerpoint''),
     (''.ppt'', ''application/vnd.ms-powerpoint''),
     (''.ppz'', ''application/vnd.ms-powerpoint''),
     (''.pre'', ''application/x-freelance''),
     (''.prt'', ''application/pro_eng''),
     (''.ps'', ''application/postscript''),
     (''.psd'', ''application/octet-stream''),
     (''.pvu'', ''paleovu/x-pv''),
     (''.pwz'', ''application/vnd.ms-powerpoint''),
     (''.py'', ''text/x-script.phyton''),
     (''.pyc'', ''applicaiton/x-bytecode.python''),
     (''.qcp'', ''audio/vnd.qcelp''),
     (''.qd3'', ''x-world/x-3dmf''),
     (''.qd3d'', ''x-world/x-3dmf''),
     (''.qif'', ''image/x-quicktime''),
     (''.qt'', ''video/quicktime''),
     (''.qtc'', ''video/x-qtc''),
     (''.qti'', ''image/x-quicktime''),
     (''.qtif'', ''image/x-quicktime''),
     (''.ra'', ''audio/x-pn-realaudio''),
     (''.ram'', ''audio/x-pn-realaudio''),
     (''.ras'', ''application/x-cmu-raster''),
     (''.rast'', ''image/cmu-raster''),
     (''.rexx'', ''text/x-script.rexx''),
     (''.rf'', ''image/vnd.rn-realflash''),
     (''.rgb'', ''image/x-rgb''),
     (''.rm'', ''application/vnd.rn-realmedia''),
     (''.rmi'', ''audio/mid''),
     (''.rmm'', ''audio/x-pn-realaudio''),
     (''.rmp'', ''audio/x-pn-realaudio''),
     (''.rng'', ''application/ringing-tones''),
     (''.rnx'', ''application/vnd.rn-realplayer''),
     (''.roff'', ''application/x-troff''),
     (''.rp'', ''image/vnd.rn-realpix''),
     (''.rpm'', ''audio/x-pn-realaudio-plugin''),
     (''.rt'', ''text/richtext''),
     (''.rtf'', ''text/richtext'')]"

definition mimetype_4 :: "(string \<times> string) list" where
  "mimetype_4 =
    [(''.rtx'', ''text/richtext''),
     (''.rv'', ''video/vnd.rn-realvideo''),
     (''.s'', ''text/x-asm''),
     (''.s3m'', ''audio/s3m''),
     (''.saveme'', ''application/octet-stream''),
     (''.sbk'', ''application/x-tbook''),
     (''.scm'', ''application/x-lotusscreencam''),
     (''.sdml'', ''text/plain''),
     (''.sdp'', ''application/sdp''),
     (''.sdr'', ''application/sounder''),
     (''.sea'', ''application/sea''),
     (''.set'', ''application/set''),
     (''.sgm'', ''text/sgml''),
     (''.sgml'', ''text/sgml''),
     (''.sh'', ''application/x-sh''),
     (''.shar'', ''application/x-shar''),
     (''.shtml'', ''text/html''),
     (''.sid'', ''audio/x-psid''),
     (''.sit'', ''application/x-sit''),
     (''.skd'', ''application/x-koan''),
     (''.skm'', ''application/x-koan''),
     (''.skp'', ''application/x-koan''),
     (''.skt'', ''application/x-koan''),
     (''.sl'', ''application/x-seelogo''),
     (''.smi'', ''application/smil''),
     (''.smil'', ''application/smil''),
     (''.snd'', ''audio/basic''),
     (''.sol'', ''application/solids''),
     (''.spc'', ''text/x-speech''),
     (''.spl'', ''application/futuresplash''),
     (''.spr'', ''application/x-sprite''),
     (''.sprite'', ''application/x-sprite''),
     (''.src'', ''application/x-wais-source''),
     (''.ssi'', ''text/x-server-parsed-html''),
     (''.ssm'', ''application/streamingmedia''),
     (''.sst'', ''application/vnd.ms-pki.certstore''),
     (''.step'', ''application/step''),
     (''.stl'', ''application/sla''),
     (''.stp'', ''application/step''),
     (''.sv4cpio'', ''application/x-sv4cpio''),
     (''.sv4crc'', ''application/x-sv4crc''),
     (''.svf'', ''image/vnd.dwg''),
     (''.svr'', ''application/x-world''),
     (''.swf'', ''application/x-shockwave-flash''),
     (''.t'', ''application/x-troff''),
     (''.talk'', ''text/x-speech''),
     (''.tar'', ''application/x-tar''),
     (''.tbk'', ''application/toolbook''),
     (''.tcl'', ''application/x-tcl''),
     (''.tcsh'', ''text/x-script.tcsh''),
     (''.tex'', ''application/x-tex''),
     (''.texi'', ''application/x-texinfo''),
     (''.texinfo'', ''application/x-texinfo''),
     (''.text'', ''text/plain''),
     (''.tgz'', ''application/x-compressed''),
     (''.tif'', ''image/tiff''),
     (''.tiff'', ''image/tiff''),
     (''.tr'', ''application/x-troff''),
     (''.tsi'', ''audio/tsp-audio''),
     (''.tsp'', ''application/dsptype''),
     (''.tsv'', ''text/tab-separated-values''),
     (''.turbot'', ''image/florian''),
     (''.txt'', ''text/plain''),
     (''.uil'', ''text/x-uil''),
     (''.uni'', ''text/uri-list''),
     (''.unis'', ''text/uri-list''),
     (''.unv'', ''application/i-deas''),
     (''.uri'', ''text/uri-list''),
     (''.uris'', ''text/uri-list''),
     (''.ustar'', ''application/x-ustar''),
     (''.uu'', ''application/octet-stream''),
     (''.uue'', ''text/x-uuencode''),
     (''.vcd'', ''application/x-cdlink''),
     (''.vcs'', ''text/x-vcalendar''),
     (''.vda'', ''application/vda'')]"

definition mimetype_5 :: "(string \<times> string) list" where
  "mimetype_5 =
    [(''.vdo'', ''video/vdo''),
     (''.vew'', ''application/groupwise''),
     (''.viv'', ''video/vivo''),
     (''.vivo'', ''video/vivo''),
     (''.vmd'', ''application/vocaltec-media-desc''),
     (''.vmf'', ''application/vocaltec-media-file''),
     (''.voc'', ''audio/voc''),
     (''.vos'', ''video/vosaic''),
     (''.vox'', ''audio/voxware''),
     (''.vqe'', ''audio/x-twinvq-plugin''),
     (''.vqf'', ''audio/x-twinvq''),
     (''.vql'', ''audio/x-twinvq-plugin''),
     (''.vrml'', ''application/x-vrml''),
     (''.vrt'', ''x-world/x-vrt''),
     (''.vsd'', ''application/x-visio''),
     (''.vst'', ''application/x-visio''),
     (''.vsw'', ''application/x-visio''),
     (''.w60'', ''application/wordperfect6.0''),
     (''.w61'', ''application/wordperfect6.1''),
     (''.w6w'', ''application/msword''),
     (''.wav'', ''audio/wav''),
     (''.wb1'', ''application/x-qpro''),
     (''.wbmp'', ''image/vnd.wap.wbmp''),
     (''.web'', ''application/vnd.xara''),
     (''.wiz'', ''application/msword''),
     (''.wk1'', ''application/x-123''),
     (''.wmf'', ''windows/metafile''),
     (''.wml'', ''text/vnd.wap.wml''),
     (''.wmlc'', ''application/vnd.wap.wmlc''),
     (''.wmls'', ''text/vnd.wap.wmlscript''),
     (''.wmlsc'', ''application/vnd.wap.wmlscriptc''),
     (''.word'', ''application/msword''),
     (''.wp'', ''application/wordperfect''),
     (''.wp5'', ''application/wordperfect''),
     (''.wp6'', ''application/wordperfect''),
     (''.wpd'', ''application/wordperfect''),
     (''.wq1'', ''application/x-lotus''),
     (''.wri'', ''application/mswrite''),
     (''.wrl'', ''application/x-world''),
     (''.wrz'', ''x-world/x-vrml''),
     (''.wsc'', ''text/scriplet''),
     (''.wsrc'', ''application/x-wais-source''),
     (''.wtk'', ''application/x-wintalk''),
     (''.xbm'', ''image/x-xbitmap''),
     (''.xdr'', ''video/x-amt-demorun''),
     (''.xgz'', ''xgl/drawing''),
     (''.xif'', ''image/vnd.xiff''),
     (''.xl'', ''application/excel''),
     (''.xla'', ''application/vnd.ms-excel''),
     (''.xlb'', ''application/vnd.ms-excel''),
     (''.xlc'', ''application/vnd.ms-excel''),
     (''.xld'', ''application/vnd.ms-excel''),
     (''.xlk'', ''application/vnd.ms-excel''),
     (''.xll'', ''application/vnd.ms-excel''),
     (''.xlm'', ''application/vnd.ms-excel''),
     (''.xls'', ''application/vnd.ms-excel''),
     (''.xlt'', ''application/vnd.ms-excel''),
     (''.xlv'', ''application/vnd.ms-excel''),
     (''.xlw'', ''application/vnd.ms-excel''),
     (''.xm'', ''audio/xm''),
     (''.xml'', ''application/xml''),
     (''.xmz'', ''xgl/movie''),
     (''.xpix'', ''application/x-vnd.ls-xpix''),
     (''.xpm'', ''image/xpm''),
     (''.x-png'', ''image/png''),
     (''.xsr'', ''video/x-amt-showrun''),
     (''.xwd'', ''image/x-xwd''),
     (''.xyz'', ''chemical/x-pdb''),
     (''.z'', ''application/x-compressed''),
     (''.zip'', ''application/zip''),
     (''.zoo'', ''application/octet-stream''),
     (''.zsh'', ''text/x-script.zsh'')]"

definition mimetype :: "(string \<times> string) list" where
  "mimetype = mimetype_0 @ mimetype_1 @ mimetype_2 @ mimetype_3 @ mimetype_4 @ mimetype_5"

lemmas mimetype_parts = mimetype_0_def mimetype_1_def mimetype_2_def mimetype_3_def mimetype_4_def mimetype_5_def

section \<open>Lookup\<close>

text \<open>A C string is a byte list with no zero; \<open>strstr s "."\<close> is the part of \<open>s\<close> from the first dot on, or NULL.\<close>

definition strstr_dot :: "bytes \<Rightarrow> bytes option" where
  "strstr_dot s = (case dropWhile (\<lambda>c. c \<noteq> 46) s of [] \<Rightarrow> None | r \<Rightarrow> Some r)"

definition DEFAULT_MIME :: bytes where "DEFAULT_MIME = bytes_of_string ''application/octet-stream''"

fun mime_find :: "(string \<times> string) list \<Rightarrow> bytes \<Rightarrow> bytes" where
  "mime_find [] s = DEFAULT_MIME"
| "mime_find ((suffix, mime) # rest) s =
     (if s = bytes_of_string suffix then bytes_of_string mime else mime_find rest s)"

lemma mime_find_short:
  "list_all (\<lambda>(a, b). length b \<le> 80) tab \<Longrightarrow> length (mime_find tab s) \<le> 80"
  by (induction tab s rule: mime_find.induct) (auto simp: bytes_of_string_def DEFAULT_MIME_def)

lemma mimetype_short: "list_all (\<lambda>(a, b). length b \<le> 80) mimetype"
  unfolding mimetype_def list_all_append by (intro conjI) (simp_all add: mimetype_parts)

text \<open>The search starts five characters before the end: a shorter name is read before its first character, and a name with
  no dot there makes \<open>strcmp\<close> read through NULL.\<close>

definition getMimeType :: "bytes \<Rightarrow> bytes outcome" where
  "getMimeType name =
     (if length name < 5 then Inl OutOfRange
      else case strstr_dot (drop (length name - 5) name) of
             None \<Rightarrow> Inl NullDeref
           | Some file_suffix \<Rightarrow> Inr (mime_find mimetype file_suffix))"

lemma getMimeType_short: "getMimeType name = Inr mime \<Longrightarrow> length mime \<le> 80"
  using mime_find_short [OF mimetype_short] by (auto simp: getMimeType_def split: if_splits option.splits)

section \<open>What the lookup finds\<close>

text \<open>The suffixes are in the alphabetical order of the table, with the hyphen between \<open>q\<close> and \<open>r\<close>; so they are distinct.\<close>

definition suffix_key :: "string \<Rightarrow> nat list" where
  "suffix_key = map (\<lambda>c. if c = CHR ''-'' then 227 else 2 * of_char c)"

lemma mimetype_increasing: "successively (<) (map (\<lambda>(a, b). suffix_key a) mimetype)"
  unfolding mimetype_def map_append successively_append_iff
  by (intro conjI) (simp_all add: mimetype_parts suffix_key_def)

lemma mimetype_distinct: "distinct (map fst mimetype)"
proof -
  have "sorted_wrt (<) (map (\<lambda>(a, b). suffix_key a) mimetype)"
    using mimetype_increasing by (simp add: successively_conv_sorted_wrt)
  then have "distinct (map suffix_key (map fst mimetype))"
    by (simp add: strict_sorted_iff comp_def case_prod_unfold)
  then show ?thesis unfolding distinct_map by simp
qed

lemma mimetype_one_dot: "list_all (\<lambda>(a, b). a \<noteq> [] \<and> hd a = CHR ''.'' \<and> CHR ''.'' \<notin> set (tl a)) mimetype"
  unfolding mimetype_def list_all_append by (intro conjI) (simp_all add: mimetype_parts)

lemma byte_of_char_eq: "(of_char c :: u8) = of_char d \<longleftrightarrow> c = d"
proof
  assume "(of_char c :: u8) = of_char d"
  then have "(word_of_nat (of_char c) :: u8) = word_of_nat (of_char d)" by (simp add: of_nat_of_char)
  then have "(of_char c :: nat) mod 256 = of_char d mod 256" by (simp add: word_of_nat_eq_iff take_bit_eq_mod)
  then show "c = d" by simp
qed simp

lemma mime_find_unique:
  assumes "distinct (map fst tab)" and "(suffix, mime) \<in> set tab"
  shows "mime_find tab (bytes_of_string suffix) = bytes_of_string mime"
  using assms
proof (induction tab)
  case (Cons e tab)
  have "bytes_of_string suffix = bytes_of_string a \<longleftrightarrow> suffix = a" for a
    unfolding bytes_of_string_def by (rule inj_map_eq_map) (simp add: inj_on_def byte_of_char_eq)
  then show ?case using Cons by (cases e) force
qed simp

text \<open>A suffix with its dot in front: what \<open>strstr\<close> finds in the last five characters.\<close>

lemma dot_not_in: "CHR ''.'' \<notin> set s \<Longrightarrow> 46 \<notin> set (bytes_of_string s)"
proof -
  have "of_char c = (46 :: u8) \<longleftrightarrow> c = CHR ''.''" for c
    using byte_of_char_eq [of c "CHR ''.''"] by simp
  then show "CHR ''.'' \<notin> set s \<Longrightarrow> 46 \<notin> set (bytes_of_string s)" by (force simp: bytes_of_string_def)
qed

lemma strstr_dot_found:
  assumes "46 \<notin> set stem"
  shows "strstr_dot (stem @ 46 # rest) = Some (46 # rest)"
proof -
  have "dropWhile (\<lambda>c. c \<noteq> 46) (stem @ 46 # rest) = 46 # rest" using assms by (induction stem) auto
  then show ?thesis by (simp add: strstr_dot_def)
qed

lemma strstr_dot_none: "46 \<notin> set s \<Longrightarrow> strstr_dot s = None"
  by (induction s) (auto simp: strstr_dot_def)

lemma getMimeType_found:
  assumes "(suffix, mime) \<in> set mimetype" and "46 \<notin> set stem" and "5 \<le> length stem + length suffix" and "length suffix \<le> 5"
  shows "getMimeType (stem @ bytes_of_string suffix) = Inr (bytes_of_string mime)"
proof -
  obtain tail where suffix: "suffix = CHR ''.'' # tail"
    using mimetype_one_dot assms(1) by (cases suffix) (auto simp: list_all_iff)
  let ?name = "stem @ bytes_of_string suffix"
  have bytes: "bytes_of_string suffix = 46 # bytes_of_string tail" and len: "length (bytes_of_string suffix) = length suffix"
    by (simp_all add: bytes_of_string_def suffix)
  then have "drop (length ?name - 5) ?name = drop (length stem + length suffix - 5) stem @ 46 # bytes_of_string tail"
    using assms(3,4) by (simp add: bytes [symmetric])
  moreover have "46 \<notin> set (drop (length stem + length suffix - 5) stem)" using assms(2) by (meson in_set_dropD)
  ultimately have "strstr_dot (drop (length ?name - 5) ?name) = Some (bytes_of_string suffix)"
    using strstr_dot_found bytes by metis
  then show ?thesis
    using assms(3) mime_find_unique [OF mimetype_distinct assms(1)] by (simp add: getMimeType_def len)
qed

lemma getMimeType_missed:
  assumes "(suffix, mime) \<in> set mimetype" and "5 < length suffix"
  shows "getMimeType (stem @ bytes_of_string suffix) = Inl NullDeref"
proof -
  obtain tail where suffix: "suffix = CHR ''.'' # tail" and tail: "CHR ''.'' \<notin> set tail"
    using mimetype_one_dot assms(1) by (cases suffix) (auto simp: list_all_iff)
  let ?name = "stem @ bytes_of_string suffix"
  have len: "length (bytes_of_string suffix) = length suffix" by (simp add: bytes_of_string_def)
  then have "drop (length ?name - 5) ?name = drop (length suffix - 6) (bytes_of_string tail)"
    using assms(2) by (simp add: suffix bytes_of_string_def drop_Cons')
  moreover have "46 \<notin> set (drop (length suffix - 6) (bytes_of_string tail))"
    using dot_not_in [OF tail] by (meson in_set_dropD)
  ultimately show ?thesis using assms(2) by (simp add: getMimeType_def len strstr_dot_none)
qed

text \<open>
  Note: The type of a file whose name ends in a suffix of the table and has no other dot, and has five or
  more characters, is the one the table gives, when the suffix with its dot has at most five characters.  With a longer suffix, such as
  \<open>.class\<close> or \<open>.latex\<close>, the search, which starts five characters before the end, misses the dot and the lookup reads through NULL.
\<close>

theorem mime_type_of_suffix:
  assumes "(suffix, mime) \<in> set mimetype" and "46 \<notin> set stem" and "5 \<le> length stem + length suffix"
  shows "getMimeType (stem @ bytes_of_string suffix) =
    (if length suffix \<le> 5 then Inr (bytes_of_string mime) else Inl NullDeref)"
  using getMimeType_found [OF assms] getMimeType_missed [OF assms(1)] by simp

theorem mime_type_of_suffix_witness:
  "getMimeType (bytes_of_string ''icon.zip'') = Inr (bytes_of_string ''application/zip'') \<and>
   getMimeType (bytes_of_string ''A.class'') = Inl NullDeref"
proof -
  have "(''.zip'', ''application/zip'') \<in> set mimetype_5" by (simp add: mimetype_5_def)
  moreover have "(''.class'', ''application/java'') \<in> set mimetype_0" by (simp add: mimetype_0_def)
  ultimately have "(''.zip'', ''application/zip'') \<in> set mimetype" "(''.class'', ''application/java'') \<in> set mimetype"
    by (simp_all add: mimetype_def)
  then show ?thesis
    using mime_type_of_suffix [of "''.zip''" "''application/zip''" "bytes_of_string ''icon''"]
      mime_type_of_suffix [of "''.class''" "''application/java''" "bytes_of_string ''A''"]
    by (simp add: bytes_of_string_def)
qed

end
