(* ===== verification/Transfer_Task.thy ===== *)
theory Transfer_Task
  imports Prelude
begin

text \<open>
  One HTTP transfer of the library behind the Web module, \<open>src/src/Utility/HttpClient/src/task.cpp\<close>: the states a task
  goes through from \<open>TSK_IDLE\<close> to \<open>TSK_FINISHED\<close> or \<open>TSK_ERROR\<close>, the limits on connection attempts, redirections and
  idle time, and the figures the callbacks report.  The connection object \<open>THttpCli\<close> is the network: what its calls
  answer in one visit of the worker is the record \<open>hcp_answers\<close>, an argument of every operation that calls it.
\<close>

type_synonym u64 = "64 word"

section \<open>Codes\<close>

datatype RET_CODE =
    RET_OK | RET_PARSE_RESQ_FAIL | RET_READ_RESQ_FAIL | RET_NEWDIRECTION | RET_CLOSE | RET_SOCKET_CREATE_FAIL
  | RET_CONNECT_TIMEOUT | RET_SOCKET_CLOSE | RET_SOCKET_ERROR | RET_SOCKET_FINISH | RET_SOCKET_CONTINUE
  | RET_PROXY_BEGIN_AUTH | RET_PROXY_DOING_AUTH | RET_PROXY_AUTH_UNSUPPORTED | RET_SOCKET_CONNECT_FAIL | RET_SOCKET_SELECT_FAIL
  | RET_NO_SOCKET_READY | RET_SOCKET_HOST_ERROR | RET_PROXY_RESQ_CHECK_FAIL | RET_PROXYTYPE_INVALID | RET_HTTP_ERR
  | RET_NO_FILE | RET_NO_MEMORY | RET_FILE_READ | RET_FILE_CANNOT_OPEN | RET_FILE_CHANGED
  | RET_POSTPARAM_TYPE_INVALID | RET_FAIL | RET_RETRY | RET_WORKER_STOPED

definition RET_CODES :: "RET_CODE list" where
  "RET_CODES =
     [RET_OK, RET_PARSE_RESQ_FAIL, RET_READ_RESQ_FAIL, RET_NEWDIRECTION, RET_CLOSE, RET_SOCKET_CREATE_FAIL,
      RET_CONNECT_TIMEOUT, RET_SOCKET_CLOSE, RET_SOCKET_ERROR, RET_SOCKET_FINISH, RET_SOCKET_CONTINUE,
      RET_PROXY_BEGIN_AUTH, RET_PROXY_DOING_AUTH, RET_PROXY_AUTH_UNSUPPORTED, RET_SOCKET_CONNECT_FAIL, RET_SOCKET_SELECT_FAIL,
      RET_NO_SOCKET_READY, RET_SOCKET_HOST_ERROR, RET_PROXY_RESQ_CHECK_FAIL, RET_PROXYTYPE_INVALID, RET_HTTP_ERR,
      RET_NO_FILE, RET_NO_MEMORY, RET_FILE_READ, RET_FILE_CANNOT_OPEN, RET_FILE_CHANGED,
      RET_POSTPARAM_TYPE_INVALID, RET_FAIL, RET_RETRY, RET_WORKER_STOPED]"

definition ret_value :: "RET_CODE \<Rightarrow> int" where
  "ret_value r = int (length (takeWhile (\<lambda>c. c \<noteq> r) RET_CODES))"

text \<open>The values of \<open>enum ERR_TASK\<close> the library and its clients use.\<close>

definition ERR_TASK_FULL :: int where "ERR_TASK_FULL = 1"
definition ERR_TASK_PROXY_AUTH_FAIL :: int where "ERR_TASK_PROXY_AUTH_FAIL = 3"
definition ERR_TASK_MGR_NOT_START :: int where "ERR_TASK_MGR_NOT_START = 5"
definition ERR_TASK_UNKNOWN_STATUS :: int where "ERR_TASK_UNKNOWN_STATUS = 9"
definition ERR_TASK_NOT_EXIST :: int where "ERR_TASK_NOT_EXIST = 10"
definition ERR_TASK_SOCKET_SEND :: int where "ERR_TASK_SOCKET_SEND = 11"
definition ERR_TASK_SOCKET_RECV :: int where "ERR_TASK_SOCKET_RECV = 12"
definition ERR_TASK_CONNECT_FAIL :: int where "ERR_TASK_CONNECT_FAIL = 13"
definition ERR_TASK_REDIRECTION_EXCEED :: int where "ERR_TASK_REDIRECTION_EXCEED = 14"
definition ERR_TASK_REDIRECTION_NOTARGET :: int where "ERR_TASK_REDIRECTION_NOTARGET = 15"
definition ERR_TASK_PARSE_RESQ_FAIL :: int where "ERR_TASK_PARSE_RESQ_FAIL = 16"
definition ERR_TASK_READ_RESQ_FAIL :: int where "ERR_TASK_READ_RESQ_FAIL = 17"
definition ERR_TASK_PARAM_URL :: int where "ERR_TASK_PARAM_URL = 18"
definition ERR_TASK_PARAM_CALLBACK :: int where "ERR_TASK_PARAM_CALLBACK = 20"
definition ERR_TASK_PARAM_POSTPARAM_NONE :: int where "ERR_TASK_PARAM_POSTPARAM_NONE = 21"
definition ERR_TASK_PARAM_POSTPARAM_EXCEED :: int where "ERR_TASK_PARAM_POSTPARAM_EXCEED = 22"
definition ERR_TASK_PARAM_POSTPARAM_NAME :: int where "ERR_TASK_PARAM_POSTPARAM_NAME = 23"
definition ERR_TASK_PARAM_POSTPARAM_LEN :: int where "ERR_TASK_PARAM_POSTPARAM_LEN = 24"
definition ERR_TASK_PARAM_POSTPARAM_VALUE :: int where "ERR_TASK_PARAM_POSTPARAM_VALUE = 25"
definition ERR_TASK_PARAM_POSTPARAM_FILENOTEXIST :: int where "ERR_TASK_PARAM_POSTPARAM_FILENOTEXIST = 26"
definition ERR_TASK_POSTPARAM_TYPE_INVALID :: int where "ERR_TASK_POSTPARAM_TYPE_INVALID = 27"
definition ERR_TASK_OPTION_SIZE_INVALID :: int where "ERR_TASK_OPTION_SIZE_INVALID = 28"
definition ERR_TASK_NO_FILE :: int where "ERR_TASK_NO_FILE = 29"
definition ERR_TASK_NO_MEMORY :: int where "ERR_TASK_NO_MEMORY = 30"
definition ERR_TASK_FILE_READ :: int where "ERR_TASK_FILE_READ = 31"
definition ERR_TASK_FILE_CANNOT_OPEN :: int where "ERR_TASK_FILE_CANNOT_OPEN = 32"
definition ERR_TASK_FILE_CHANGED :: int where "ERR_TASK_FILE_CHANGED = 33"
definition ERR_TASK_TIMEOUT :: int where "ERR_TASK_TIMEOUT = 34"
definition ERR_TASK_WRITE_FILE_ERROR :: int where "ERR_TASK_WRITE_FILE_ERROR = 35"

lemmas err_values =
  ERR_TASK_FULL_def ERR_TASK_PROXY_AUTH_FAIL_def ERR_TASK_MGR_NOT_START_def ERR_TASK_UNKNOWN_STATUS_def
  ERR_TASK_NOT_EXIST_def ERR_TASK_SOCKET_SEND_def ERR_TASK_SOCKET_RECV_def ERR_TASK_CONNECT_FAIL_def
  ERR_TASK_REDIRECTION_EXCEED_def ERR_TASK_REDIRECTION_NOTARGET_def ERR_TASK_PARSE_RESQ_FAIL_def
  ERR_TASK_READ_RESQ_FAIL_def ERR_TASK_PARAM_URL_def ERR_TASK_PARAM_CALLBACK_def ERR_TASK_PARAM_POSTPARAM_NONE_def
  ERR_TASK_PARAM_POSTPARAM_EXCEED_def ERR_TASK_PARAM_POSTPARAM_NAME_def ERR_TASK_PARAM_POSTPARAM_LEN_def
  ERR_TASK_PARAM_POSTPARAM_VALUE_def ERR_TASK_PARAM_POSTPARAM_FILENOTEXIST_def ERR_TASK_POSTPARAM_TYPE_INVALID_def
  ERR_TASK_OPTION_SIZE_INVALID_def ERR_TASK_NO_FILE_def ERR_TASK_NO_MEMORY_def ERR_TASK_FILE_READ_def
  ERR_TASK_FILE_CANNOT_OPEN_def ERR_TASK_FILE_CHANGED_def ERR_TASK_TIMEOUT_def ERR_TASK_WRITE_FILE_ERROR_def

fun ret_to_err :: "RET_CODE \<Rightarrow> int" where
  "ret_to_err RET_NO_FILE = ERR_TASK_NO_FILE"
| "ret_to_err RET_NO_MEMORY = ERR_TASK_NO_MEMORY"
| "ret_to_err RET_FILE_READ = ERR_TASK_FILE_READ"
| "ret_to_err RET_FILE_CANNOT_OPEN = ERR_TASK_FILE_CANNOT_OPEN"
| "ret_to_err RET_FILE_CHANGED = ERR_TASK_FILE_CHANGED"
| "ret_to_err RET_POSTPARAM_TYPE_INVALID = ERR_TASK_POSTPARAM_TYPE_INVALID"
| "ret_to_err r = ret_value r"

section \<open>State of a task\<close>

datatype TASK_TYPE = TASK_DOWNLOAD | TASK_QUERY | TASK_UPLOAD | TASK_BINARY | TASK_HEAD | TASK_BUTT

datatype TaskStatus =
    TSK_IDLE | TSK_CONNECT | TSK_CONNECTWAIT | TSK_AUTH | TSK_START | TSK_RUNNING | TSK_FINISHED | TSK_ERROR | TSK_UNKNOWN

definition MAX_REDIRECTIONS :: nat where "MAX_REDIRECTIONS = 5"
definition MAX_RETRY_CONNECT :: nat where "MAX_RETRY_CONNECT = 3"
definition MAX_CONNECT_TIMEOUT :: u64 where "MAX_CONNECT_TIMEOUT = 30"

text \<open>\<open>TaskInfo\<close> is what a callback sees.  \<open>contentLength\<close> and \<open>remainTime\<close> are signed 64-bit values, kept as words;
  \<open>ti_hdrLen\<close> stands for \<open>htrequest->GetAllHdrLen()\<close>, and \<open>ti_respData\<close> for the vector \<open>respData\<close> points to.\<close>

record TaskInfo =
  ti_taskType :: TASK_TYPE
  ti_contentLength :: u64
  ti_doneSize :: u64
  ti_transferSpeed :: u64
  ti_remainTime :: u64
  ti_startTime :: u64
  ti_endTime :: u64
  ti_errcode :: int
  ti_httpCode :: u32
  ti_hdrLen :: u64
  ti_respData :: bytes

text \<open>\<open>respData\<close> of a task points to its own vector from the constructor to the destructor, so it is a byte list here.
  The request buffer is kept as its two sizes.\<close>

record 'p TTask =
  tk_url :: bytes
  task_type :: TASK_TYPE
  tk_postParams :: "'p option"
  tk_useProxy :: bool
  taskState :: TaskStatus
  errcode :: int
  taskInfo :: TaskInfo
  timeoutlimit :: int
  last_active_time :: u64
  dataClean :: bool
  connectTimes :: nat
  redirectionTimes :: nat
  shouldGetFileInfo :: bool
  tk_del :: bool
  respHeadCompleted :: bool
  respContentCompleted :: bool
  headcomplete_set :: bool
  dataChanged :: bool
  postDataSize :: u64
  requestSize :: u64
  requestSentSize :: u64
  respDataContent :: bytes

text \<open>The answers of the network during one visit: the clock, the status code, the result of each call of
  \<open>THttpCli\<close> the visit may make, the sizes and the bytes received, and the socket.\<close>

record hcp_answers =
  an_now :: u64
  an_status :: u32
  an_hdrLen :: u64
  an_fd :: int
  an_connect :: RET_CODE
  an_check :: RET_CODE
  an_proxyAuth :: RET_CODE
  an_recvAuth :: RET_CODE
  an_build :: "RET_CODE \<times> u64"
  an_send :: "RET_CODE \<times> u64"
  an_head :: RET_CODE
  an_contentLen :: u64
  an_location :: "bytes option"
  an_ntlmProxy :: bool
  an_ntlm :: RET_CODE
  an_recv :: "RET_CODE \<times> bytes"

definition TTask_init :: "bytes \<Rightarrow> TASK_TYPE \<Rightarrow> bool \<Rightarrow> 'p TTask" where
  "TTask_init url ty proxy =
     \<lparr>tk_url = url, task_type = ty, tk_postParams = None, tk_useProxy = proxy, taskState = TSK_UNKNOWN, errcode = 0,
      taskInfo = \<lparr>ti_taskType = ty, ti_contentLength = -1, ti_doneSize = 0, ti_transferSpeed = 0, ti_remainTime = 0,
        ti_startTime = 0, ti_endTime = 0, ti_errcode = 0, ti_httpCode = 0, ti_hdrLen = 0, ti_respData = []\<rparr>,
      timeoutlimit = 0, last_active_time = 0, dataClean = False, connectTimes = 0, redirectionTimes = 0,
      shouldGetFileInfo = True, tk_del = False, respHeadCompleted = False, respContentCompleted = False,
      headcomplete_set = False, dataChanged = False, postDataSize = 0, requestSize = 0, requestSentSize = 0,
      respDataContent = []\<rparr>"

section \<open>Operations\<close>

definition task_error :: "int \<Rightarrow> 'p TTask \<Rightarrow> 'p TTask" where
  "task_error e t = t\<lparr>taskState := TSK_ERROR, errcode := e\<rparr>"

definition touch :: "hcp_answers \<Rightarrow> 'p TTask \<Rightarrow> 'p TTask" where
  "touch a t = t\<lparr>last_active_time := an_now a\<rparr>"

definition onConnected :: "hcp_answers \<Rightarrow> 'p TTask \<Rightarrow> 'p TTask" where
  "onConnected a t0 =
     (let t = touch a t0 in
      if an_check a = RET_OK then t\<lparr>taskState := (if tk_useProxy t then TSK_AUTH else TSK_START)\<rparr> else t)"

text \<open>\<open>an_connect\<close> is the answer of \<open>ConnectProxyHost\<close> or \<open>Connect\<close>.  Only a refused attempt and success are told
  apart here: the other codes leave the task in \<open>TSK_CONNECT\<close>.\<close>

definition tryConnect :: "hcp_answers \<Rightarrow> 'p TTask \<Rightarrow> RET_CODE \<times> 'p TTask" where
  "tryConnect a t0 =
     (let t = touch a (t0\<lparr>taskInfo := (taskInfo t0)\<lparr>ti_startTime := an_now a\<rparr>\<rparr>) in
      if MAX_RETRY_CONNECT \<le> connectTimes t then (RET_FAIL, task_error ERR_TASK_CONNECT_FAIL t)
      else
        let t1 = t\<lparr>connectTimes := connectTimes t + 1\<rparr>; ret = an_connect a in
        (ret, if ret = RET_OK then onConnected a t1
              else if ret = RET_SOCKET_CONTINUE then t1\<lparr>taskState := TSK_CONNECTWAIT\<rparr>
              else t1))"

definition checkConnectTimeout :: "hcp_answers \<Rightarrow> 'p TTask \<Rightarrow> RET_CODE \<times> 'p TTask" where
  "checkConnectTimeout a t =
     (if an_now a - ti_startTime (taskInfo t) > MAX_CONNECT_TIMEOUT
      then (RET_CONNECT_TIMEOUT, t\<lparr>taskState := TSK_CONNECT\<rparr>) else (RET_OK, t))"

definition tryAuth :: "hcp_answers \<Rightarrow> 'p TTask \<Rightarrow> RET_CODE \<times> 'p TTask" where
  "tryAuth a t0 =
     (let t = touch a t0; ret = an_proxyAuth a in
      (ret, if ret = RET_OK then t\<lparr>taskState := TSK_START\<rparr>
            else if ret \<noteq> RET_PROXY_DOING_AUTH \<and> ret \<noteq> RET_PROXY_BEGIN_AUTH then task_error ERR_TASK_CONNECT_FAIL t
            else t))"

definition onAuthResp :: "hcp_answers \<Rightarrow> 'p TTask \<Rightarrow> RET_CODE \<times> 'p TTask" where
  "onAuthResp a t0 =
     (let t = touch a t0; ret = an_recvAuth a in
      (ret, if ret = RET_OK then t\<lparr>taskState := TSK_START\<rparr>
            else if ret = RET_PROXY_DOING_AUTH then t
            else task_error ERR_TASK_PROXY_AUTH_FAIL t))"

text \<open>\<open>an_build\<close> is the answer of \<open>generateSendDataBuffer\<close> with the size of the request; \<open>setHttpHeader\<close> always
  answers \<open>RET_OK\<close>.\<close>

definition sendHttpReq :: "hcp_answers \<Rightarrow> 'p TTask \<Rightarrow> RET_CODE \<times> 'p TTask" where
  "sendHttpReq a t0 =
     (let t = t0\<lparr>shouldGetFileInfo := False\<rparr> in
      if fst (an_build a) \<noteq> RET_OK then (fst (an_build a), touch a (task_error (ret_to_err (fst (an_build a))) t))
      else
        let t1 = t\<lparr>requestSize := snd (an_build a)\<rparr>; (ret, n) = an_send a in
        (ret, if ret = RET_SOCKET_FINISH \<or> ret = RET_SOCKET_CONTINUE
              then touch a (t1\<lparr>taskState := TSK_RUNNING, requestSentSize := n\<rparr>)
              else touch a (task_error ERR_TASK_SOCKET_SEND t1)))"

definition sendHttpReqContinue :: "hcp_answers \<Rightarrow> 'p TTask \<Rightarrow> RET_CODE \<times> 'p TTask" where
  "sendHttpReqContinue a t =
     (let (ret, n) = an_send a in
      (ret, if ret = RET_SOCKET_FINISH \<or> ret = RET_SOCKET_CONTINUE
            then touch a (t\<lparr>requestSentSize := requestSentSize t + n\<rparr>)
            else touch a (task_error ERR_TASK_SOCKET_SEND t)))"

text \<open>The head of the response.  \<open>an_ntlmProxy\<close> is the test for an HTTP proxy with a domain, \<open>an_ntlm\<close> the answer of
  \<open>processNtlmAuth\<close>.  The new address replaces the one of the task.\<close>

definition processHttpRespHead :: "hcp_answers \<Rightarrow> 'p TTask \<Rightarrow> RET_CODE \<times> 'p TTask" where
  "processHttpRespHead a t0 =
     (let t = touch a t0 in
      if an_head a = RET_OK then
        let t1 = t\<lparr>respHeadCompleted := True,
              taskInfo := (taskInfo t)\<lparr>ti_contentLength := (if an_contentLen a = 0 then -1 else an_contentLen a)\<rparr>\<rparr> in
        if task_type t = TASK_HEAD then (RET_SOCKET_FINISH, t1\<lparr>taskState := TSK_FINISHED, respContentCompleted := True\<rparr>)
        else (RET_OK, t1)
      else if an_head a = RET_NEWDIRECTION then
        (case an_location a of
           None \<Rightarrow> (RET_CLOSE, task_error ERR_TASK_REDIRECTION_NOTARGET t)
         | Some l \<Rightarrow>
             if l = [] then (RET_CLOSE, task_error ERR_TASK_REDIRECTION_NOTARGET t)
             else (RET_NEWDIRECTION, t\<lparr>tk_url := l, taskState := TSK_CONNECT, shouldGetFileInfo := True,
                     redirectionTimes := redirectionTimes t + 1\<rparr>))
      else if an_head a = RET_PROXY_AUTH_UNSUPPORTED then
        (if an_ntlmProxy a \<and> an_ntlm a = RET_OK
         then (RET_PROXY_DOING_AUTH, t\<lparr>taskState := TSK_START, shouldGetFileInfo := True\<rparr>)
         else (RET_CLOSE, task_error ERR_TASK_READ_RESQ_FAIL t))
      else if an_head a = RET_SOCKET_CONTINUE then (RET_SOCKET_CONTINUE, t)
      else if an_head a = RET_PARSE_RESQ_FAIL then (RET_CLOSE, task_error ERR_TASK_PARSE_RESQ_FAIL t)
      else (RET_CLOSE, task_error ERR_TASK_READ_RESQ_FAIL t))"

text \<open>The bytes \<open>DirectRecvData\<close> appends come with its answer; the size it is told does not limit them.\<close>

definition getRealData :: "hcp_answers \<Rightarrow> 'p TTask \<Rightarrow> RET_CODE \<times> 'p TTask" where
  "getRealData a t0 =
     (let (ret, bs) = an_recv a; t = touch a (t0\<lparr>respDataContent := respDataContent t0 @ bs\<rparr>) in
      (ret, if ret = RET_SOCKET_ERROR then task_error ERR_TASK_SOCKET_RECV t
            else if ret = RET_SOCKET_FINISH then t\<lparr>taskState := TSK_FINISHED, respContentCompleted := True\<rparr>
            else t))"

definition processHttpResp :: "hcp_answers \<Rightarrow> 'p TTask \<Rightarrow> RET_CODE \<times> 'p TTask" where
  "processHttpResp a t = (if respHeadCompleted t then getRealData a t else processHttpRespHead a t)"

text \<open>The comparison with \<open>timeoutlimit\<close> is unsigned; it is positive there.\<close>

definition checkTimeOut :: "hcp_answers \<Rightarrow> 'p TTask \<Rightarrow> 'p TTask" where
  "checkTimeOut a t =
     (if timeoutlimit t > 0 then
        let last_time = an_now a - last_active_time t;
            t1 = (if last_time = 0
                  then t\<lparr>taskInfo := (taskInfo t)\<lparr>ti_transferSpeed := 0, ti_remainTime := -1\<rparr>\<rparr> else t) in
        if word_of_int (timeoutlimit t) \<le> last_time then task_error ERR_TASK_TIMEOUT t1 else t1
      else t)"

definition rate_of :: "u64 \<Rightarrow> u64 \<Rightarrow> u64 \<Rightarrow> TaskInfo \<Rightarrow> TaskInfo" where
  "rate_of whole shown last_time i =
     (let speed = ti_doneSize i div last_time in
      i\<lparr>ti_transferSpeed := speed,
        ti_remainTime := (if shown \<noteq> 0 \<and> speed > 0 then (whole - ti_doneSize i) div speed else -1)\<rparr>)"

text \<open>\<open>shown\<close> is nonzero when the total is known: a positive content length, or a request that has been built.\<close>

definition updateTaskInfo :: "hcp_answers \<Rightarrow> 'p TTask \<Rightarrow> 'p TTask" where
  "updateTaskInfo a t =
     (let last0 = an_now a - ti_startTime (taskInfo t);
          i = (taskInfo t)\<lparr>ti_httpCode := an_status a, ti_errcode := errcode t, ti_endTime := an_now a,
                 ti_hdrLen := an_hdrLen a, ti_respData := respDataContent t\<rparr>;
          i1 = (if last0 = 0 then i\<lparr>ti_transferSpeed := 0, ti_remainTime := -1\<rparr> else i);
          last_time = (if last0 = 0 then 1 else last0);
          size = word_of_nat (length (respDataContent t));
          known = (if sint (ti_contentLength i1) > 0 then 1 else 0) in
      if taskState t = TSK_ERROR then t\<lparr>dataChanged := False, taskInfo := i1\<rparr>
      else
        case task_type t of
          TASK_HEAD \<Rightarrow>
            t\<lparr>dataChanged := (ti_doneSize i1 \<noteq> size), taskInfo := i1\<lparr>ti_doneSize := size, ti_remainTime := -1\<rparr>\<rparr>
        | TASK_UPLOAD \<Rightarrow>
            t\<lparr>dataChanged := (ti_doneSize i1 \<noteq> requestSentSize t),
              taskInfo := rate_of (requestSize t) (requestSize t) last_time (i1\<lparr>ti_doneSize := requestSentSize t\<rparr>)\<rparr>
        | TASK_BINARY \<Rightarrow>
            t\<lparr>dataChanged := (ti_doneSize i1 \<noteq> requestSentSize t),
              taskInfo := rate_of (requestSize t) (requestSize t) last_time (i1\<lparr>ti_doneSize := requestSentSize t\<rparr>)\<rparr>
        | TASK_BUTT \<Rightarrow>
            t\<lparr>dataChanged := (ti_doneSize i1 \<noteq> size),
              taskInfo := rate_of (ti_contentLength i1) known last_time (i1\<lparr>ti_doneSize := size\<rparr>)\<rparr>
        | _ \<Rightarrow>
            if dataClean t then
              t\<lparr>dataChanged := (size \<noteq> 0),
                taskInfo := rate_of (ti_contentLength i1) known last_time (i1\<lparr>ti_doneSize := ti_doneSize i1 + size\<rparr>)\<rparr>
            else
              t\<lparr>dataChanged := (ti_doneSize i1 \<noteq> size),
                taskInfo := rate_of (ti_contentLength i1) known last_time (i1\<lparr>ti_doneSize := size\<rparr>)\<rparr>)"

end
