(* ===== verification/Http_Post.thy ===== *)
theory Http_Post
  imports Mime_Types Transfer_Task
begin

text \<open>
  The parameters of a POST request and the body that is built from them: \<open>POST_PARAMS\<close> and \<open>taskParamCheck\<close> of
  \<open>src/src/Utility/HttpClient/src/httpmanager.cpp\<close>, which computes the length announced to the server, and the part of
  \<open>THttpCli::BuildHttpRequest\<close> (\<open>HttpCli.cpp\<close>) that writes the body behind the header.  The files a parameter may name are
  the record \<open>file_system\<close>.
\<close>

section \<open>POST_PARAMS\<close>

datatype PARAM_TYPE = PARAM_TEXT | PARAM_BINARY | PARAM_FILENAME

text \<open>The text of a name or of a text buffer is a C string: the bytes before the terminating zero, which is not kept.
  \<open>paramBuffer\<close> is NULL only after \<open>delete_param\<close> has freed it.\<close>

record POST_PARAM =
  paramName :: bytes
  paramBuffer :: bytes
  paramBufferLen :: u32
  paramType :: PARAM_TYPE

type_synonym POST_PARAMS = "POST_PARAM list"

definition c_text :: "bytes \<Rightarrow> bytes" where
  "c_text b = takeWhile (\<lambda>c. c \<noteq> 0) b"

definition MAX_PARAM_NAME_LEN :: nat where "MAX_PARAM_NAME_LEN = 64"

text \<open>\<open>buffer\<close> is the memory the caller passes: up to its first zero for text and file names, \<open>bufferLen\<close> bytes
  otherwise, which must be there.\<close>

definition add_param :: "bytes \<Rightarrow> bytes \<Rightarrow> u32 \<Rightarrow> PARAM_TYPE \<Rightarrow> POST_PARAMS \<Rightarrow> POST_PARAMS outcome" where
  "add_param name buffer bufferLen ty ps =
     (let n = take MAX_PARAM_NAME_LEN (c_text name) in
      case ty of
        PARAM_FILENAME \<Rightarrow>
          Inr (ps @ [\<lparr>paramName = n, paramBuffer = c_text buffer, paramBufferLen = bufferLen, paramType = ty\<rparr>])
      | PARAM_TEXT \<Rightarrow>
          Inr (ps @ [\<lparr>paramName = n, paramBuffer = c_text buffer,
                 paramBufferLen = word_of_nat (length (c_text buffer) + 1), paramType = ty\<rparr>])
      | PARAM_BINARY \<Rightarrow>
          if length buffer < unat bufferLen then Inl OutOfRange
          else Inr (ps @ [\<lparr>paramName = n, paramBuffer = take (unat bufferLen) buffer, paramBufferLen = bufferLen,
                 paramType = ty\<rparr>]))"

definition POST_PARAMS_copy :: "POST_PARAMS \<Rightarrow> POST_PARAMS outcome" where
  "POST_PARAMS_copy ps =
     ofold (\<lambda>p. add_param (paramName p) (paramBuffer p) (paramBufferLen p) (paramType p)) ps []"

fun is_uploadtype :: "POST_PARAMS \<Rightarrow> bool" where
  "is_uploadtype [] = False"
| "is_uploadtype (p # ps) =
     (if paramType p = PARAM_FILENAME \<or> paramType p = PARAM_BINARY then True else is_uploadtype ps)"

fun delete_param :: "bytes \<Rightarrow> POST_PARAMS \<Rightarrow> bool \<times> POST_PARAMS" where
  "delete_param name [] = (False, [])"
| "delete_param name (p # ps) =
     (if name = paramName p then (True, ps)
      else let (b, qs) = delete_param name ps in (b, p # qs))"

text \<open>What \<open>add_param\<close> makes.\<close>

definition param_wf :: "POST_PARAM \<Rightarrow> bool" where
  "param_wf p \<longleftrightarrow>
     0 \<notin> set (paramName p) \<and> length (paramName p) \<le> MAX_PARAM_NAME_LEN \<and>
     (case paramType p of
        PARAM_FILENAME \<Rightarrow> 0 \<notin> set (paramBuffer p)
      | PARAM_TEXT \<Rightarrow> 0 \<notin> set (paramBuffer p) \<and> paramBufferLen p = word_of_nat (length (paramBuffer p) + 1)
      | PARAM_BINARY \<Rightarrow> length (paramBuffer p) = unat (paramBufferLen p))"

lemma c_text_id: "0 \<notin> set s \<Longrightarrow> c_text s = s"
  by (auto simp: c_text_def takeWhile_eq_all_conv)

lemma c_text_no_zero [simp]: "0 \<notin> set (c_text s)"
  by (auto simp: c_text_def dest: set_takeWhileD)

lemma c_text_take [simp]: "0 \<notin> set (take k (c_text s))"
  using c_text_no_zero in_set_takeD by metis

lemma add_param_wf: "add_param n b l ty ps = Inr qs \<Longrightarrow> \<forall>p \<in> set ps. param_wf p \<Longrightarrow> \<forall>p \<in> set qs. param_wf p"
  by (auto simp: add_param_def param_wf_def Let_def split: PARAM_TYPE.splits if_splits)

lemma copy_from:
  "\<forall>p \<in> set ps. param_wf p \<Longrightarrow>
   ofold (\<lambda>p. add_param (paramName p) (paramBuffer p) (paramBufferLen p) (paramType p)) ps qs = Inr (qs @ ps)"
proof (induction ps arbitrary: qs)
  case (Cons p ps)
  then have "add_param (paramName p) (paramBuffer p) (paramBufferLen p) (paramType p) qs = Inr (qs @ [p])"
    by (auto simp: add_param_def param_wf_def c_text_id split: PARAM_TYPE.splits)
  then show ?case using Cons by simp
qed simp

lemma copy_wf: "\<forall>p \<in> set ps. param_wf p \<Longrightarrow> POST_PARAMS_copy ps = Inr ps"
  by (simp add: POST_PARAMS_copy_def copy_from)

section \<open>Templates and files\<close>

definition CRLF :: bytes where "CRLF = [13, 10]"
definition quote :: bytes where "quote = [34]"

text \<open>The templates of \<open>HttpCli.h\<close>, with the arguments of \<open>%s\<close> put in, and the lengths of what is fixed in them.\<close>

definition template_text :: "bytes \<Rightarrow> bytes" where
  "template_text name =
     bytes_of_string ''Content-Disposition: form-data; name='' @ quote @ name @ quote @ CRLF @ CRLF"

definition template_binary :: "bytes \<Rightarrow> bytes" where
  "template_binary name =
     bytes_of_string ''Content-Disposition: form-data; name='' @ quote @ name @ quote @
     bytes_of_string ''; filename='' @ quote @ bytes_of_string ''partfile.tmp'' @ quote @ CRLF @
     bytes_of_string ''Content-Type: application/octet-stream'' @ CRLF @ CRLF"

definition template_file :: "bytes \<Rightarrow> bytes \<Rightarrow> bytes \<Rightarrow> bytes" where
  "template_file name file mime =
     bytes_of_string ''Content-Disposition: form-data; name='' @ quote @ name @ quote @
     bytes_of_string ''; filename='' @ quote @ file @ quote @ CRLF @
     bytes_of_string ''Content-Type: '' @ mime @ CRLF @ CRLF"

definition HTTP_POSTPARAM_BROUNDARY_FIXLEN :: nat where "HTTP_POSTPARAM_BROUNDARY_FIXLEN = 31"
definition POSTPARAM_TEMPLATE_TEXT_LEN :: nat where "POSTPARAM_TEMPLATE_TEXT_LEN = 43"
definition POSTPARAM_TEMPLATE_BINARY_LEN :: nat where "POSTPARAM_TEMPLATE_BINARY_LEN = 108"
definition POSTPARAM_TEMPLATE_FILE_LEN :: nat where "POSTPARAM_TEMPLATE_FILE_LEN = 72"

lemma template_lengths [simp]:
  "length (template_text n) = POSTPARAM_TEMPLATE_TEXT_LEN + length n"
  "length (template_binary n) = POSTPARAM_TEMPLATE_BINARY_LEN + length n"
  "length (template_file n f m) = POSTPARAM_TEMPLATE_FILE_LEN + length n + length f + length m"
  by (simp_all add: template_text_def template_binary_def template_file_def CRLF_def quote_def bytes_of_string_def
      POSTPARAM_TEMPLATE_TEXT_LEN_def POSTPARAM_TEMPLATE_BINARY_LEN_def POSTPARAM_TEMPLATE_FILE_LEN_def)

text \<open>\<open>fs_file\<close>: the contents of the files that exist; \<open>fs_open\<close>: those \<open>fopen\<close> opens for update; \<open>fs_read\<close>: those that
  can be read to the end.\<close>

record file_system =
  fs_file :: "bytes \<Rightarrow> bytes option"
  fs_open :: "bytes \<Rightarrow> bool"
  fs_read :: "bytes \<Rightarrow> bool"

text \<open>\<open>getPostBoundary\<close>: the fixed start, then the clock in sixteen hexadecimal digits; \<open>%x\<close> prints 32 bits.\<close>

definition hex_digit :: "u32 \<Rightarrow> u8" where
  "hex_digit d = (if d < 10 then 48 + ucast d else 87 + ucast d)"

definition print_016x :: "u32 \<Rightarrow> bytes" where
  "print_016x v = replicate 8 48 @ map (\<lambda>k. hex_digit (drop_bit (4 * k) v AND 15)) [7, 6, 5, 4, 3, 2, 1, 0]"

definition getPostBoundary :: "u32 \<Rightarrow> bytes" where
  "getPostBoundary now = bytes_of_string ''----BOUNDARY_0x'' @ print_016x now"

lemma boundary_length [simp]: "length (getPostBoundary now) = HTTP_POSTPARAM_BROUNDARY_FIXLEN"
  by (simp add: getPostBoundary_def print_016x_def bytes_of_string_def HTTP_POSTPARAM_BROUNDARY_FIXLEN_def)

section \<open>The announced length\<close>

text \<open>One turn of the loop of \<open>taskParamCheck\<close>: the code the check answers, 0 to go on, and the size so far.  The file is
  sent from offset \<open>paramBufferLen\<close>.\<close>

definition check_param :: "file_system \<Rightarrow> POST_PARAM \<Rightarrow> u64 \<Rightarrow> (int \<times> u64) outcome" where
  "check_param fs p sz =
     (let name = paramName p; b = paramBuffer p; len = paramBufferLen p;
          fixed = HTTP_POSTPARAM_BROUNDARY_FIXLEN + 2 in
      if name = [] then Inr (ERR_TASK_PARAM_POSTPARAM_NAME, sz)
      else if len = 0 \<and> paramType p = PARAM_BINARY then Inr (ERR_TASK_PARAM_POSTPARAM_LEN, sz)
      else
        case paramType p of
          PARAM_TEXT \<Rightarrow>
            Inr (0, sz + word_of_nat (fixed + POSTPARAM_TEMPLATE_TEXT_LEN + length name + length b + 2))
        | PARAM_FILENAME \<Rightarrow>
            if b = [] then Inr (ERR_TASK_PARAM_POSTPARAM_VALUE, sz)
            else (case fs_file fs b of
                    None \<Rightarrow> Inr (ERR_TASK_PARAM_POSTPARAM_FILENOTEXIST, sz)
                  | Some contents \<Rightarrow>
                      if len > 0 \<and> length contents \<le> unat len then Inr (ERR_TASK_PARAM_POSTPARAM_VALUE, sz)
                      else
                        obind (getMimeType b) (\<lambda>mime.
                          Inr (0, sz + word_of_nat (fixed + POSTPARAM_TEMPLATE_FILE_LEN + length name + length b +
                                 length mime + (length contents - unat len) + 2))))
        | PARAM_BINARY \<Rightarrow>
            Inr (0, sz + word_of_nat (fixed + POSTPARAM_TEMPLATE_BINARY_LEN + length name + unat len + 2)))"

fun check_params :: "file_system \<Rightarrow> POST_PARAMS \<Rightarrow> u64 \<Rightarrow> (int \<times> u64) outcome" where
  "check_params fs [] sz = Inr (0, sz)"
| "check_params fs (p # ps) sz =
     obind (check_param fs p sz) (\<lambda>(ret, sz'). if ret \<noteq> 0 then Inr (ret, sz') else check_params fs ps sz')"

text \<open>\<open>callbacks_set\<close>: the finish and error callbacks are there.  The sizes of \<open>OPTIONS\<close> are unsigned.  The single parameter
  of a \<open>TASK_BINARY\<close> is looked for at index 1.\<close>

definition taskParamCheck ::
  "file_system \<Rightarrow> bytes \<Rightarrow> TASK_TYPE \<Rightarrow> POST_PARAMS option \<Rightarrow> bool \<Rightarrow> u64 \<Rightarrow> u64 \<Rightarrow> (int \<times> u64) outcome" where
  "taskParamCheck fs url ty params callbacks_set startSize endSize =
     (let options = (\<lambda>sz.
            if (startSize \<noteq> 0 \<or> endSize \<noteq> 0) \<and> startSize > endSize \<and> endSize \<noteq> 0
            then Inr (ERR_TASK_OPTION_SIZE_INVALID, sz) else Inr (0, sz)) in
      if url = [] then Inr (ERR_TASK_PARAM_URL, 0)
      else if \<not> callbacks_set then Inr (ERR_TASK_PARAM_CALLBACK, 0)
      else if ty = TASK_UPLOAD \<or> ty = TASK_QUERY then
        (case params of
           None \<Rightarrow> Inr (ERR_TASK_PARAM_POSTPARAM_NONE, 0)
         | Some ps \<Rightarrow>
             obind (check_params fs ps 0) (\<lambda>(ret, sz).
               if ret \<noteq> 0 then Inr (ret, sz)
               else options (sz + word_of_nat (HTTP_POSTPARAM_BROUNDARY_FIXLEN + 4))))
      else if ty = TASK_BINARY then
        (case params of
           None \<Rightarrow> Inr (ERR_TASK_PARAM_POSTPARAM_NONE, 0)
         | Some ps \<Rightarrow>
             if length ps \<noteq> 1 then Inr (ERR_TASK_PARAM_POSTPARAM_EXCEED, 0) else Inl OutOfRange)
      else options 0)"

section \<open>The body\<close>

text \<open>The request buffer: what has been written, and the bytes allocated for it.  \<open>checkBufLen\<close> doubles the buffer once
  when it is too small (\<open>realloc\<close> gives what it is asked for); a write beyond the end is a fault.  \<open>tempBuf\<close> has
  \<open>MAX_BUFFER_LEN\<close> bytes, and \<open>sprintf\<close> writes a zero behind the text.\<close>

type_synonym buffer = "bytes \<times> nat"

definition MAX_BUFFER_LEN :: nat where "MAX_BUFFER_LEN = 64000"

definition checkBufLen :: "nat \<Rightarrow> buffer \<Rightarrow> buffer" where
  "checkBufLen needSize b = (if needSize > snd b then (fst b, snd b * 2) else b)"

definition buf_write :: "bytes \<Rightarrow> buffer \<Rightarrow> buffer outcome" where
  "buf_write bs b = (if length (fst b) + length bs > snd b then Inl OutOfRange else Inr (fst b @ bs, snd b))"

definition temp_text :: "bytes \<Rightarrow> bytes outcome" where
  "temp_text bs = (if length bs + 1 > MAX_BUFFER_LEN then Inl OutOfRange else Inr bs)"

definition build_text :: "bytes \<Rightarrow> POST_PARAM \<Rightarrow> buffer \<Rightarrow> (RET_CODE \<times> buffer) outcome" where
  "build_text boundary p b =
     obind (temp_text (boundary @ CRLF @ template_text (paramName p) @ paramBuffer p @ CRLF)) (\<lambda>t.
     obind (buf_write t (checkBufLen (length (fst b) + length t) b)) (\<lambda>b'. Inr (RET_OK, b')))"

definition build_file :: "file_system \<Rightarrow> bytes \<Rightarrow> POST_PARAM \<Rightarrow> buffer \<Rightarrow> (RET_CODE \<times> buffer) outcome" where
  "build_file fs boundary p b =
     (let len = unat (paramBufferLen p); name = paramBuffer p in
      obind (getMimeType name) (\<lambda>mime.
      obind (temp_text (boundary @ CRLF @ template_file (paramName p) name mime)) (\<lambda>t.
        case fs_file fs name of
          None \<Rightarrow> Inr (RET_NO_FILE, b)
        | Some contents \<Rightarrow>
            if len > 0 \<and> length contents \<le> len then Inr (RET_FILE_READ, b)
            else
              obind (buf_write t (checkBufLen (length (fst b) + length t + (length contents - len)) b)) (\<lambda>b1.
                if \<not> fs_open fs name then Inr (RET_FILE_CANNOT_OPEN, b1)
                else obind (buf_write (drop len contents) b1) (\<lambda>b2.
                  if \<not> fs_read fs name then Inr (RET_FILE_READ, b2)
                  else obind (buf_write CRLF b2) (\<lambda>b3. Inr (RET_OK, b3)))))))"

text \<open>The zero \<open>sprintf\<close> puts behind the last line end of a binary parameter must fit too.\<close>

definition build_binary :: "bytes \<Rightarrow> POST_PARAM \<Rightarrow> buffer \<Rightarrow> (RET_CODE \<times> buffer) outcome" where
  "build_binary boundary p b =
     obind (temp_text (boundary @ CRLF @ template_binary (paramName p))) (\<lambda>t.
     obind (buf_write t b) (\<lambda>b1.
     obind (buf_write (take (unat (paramBufferLen p)) (paramBuffer p)) b1) (\<lambda>b2.
     obind (buf_write (CRLF @ [0]) b2) (\<lambda>_.
     obind (buf_write CRLF b2) (\<lambda>b3. Inr (RET_OK, b3))))))"

definition build_param :: "file_system \<Rightarrow> bytes \<Rightarrow> POST_PARAM \<Rightarrow> buffer \<Rightarrow> (RET_CODE \<times> buffer) outcome" where
  "build_param fs boundary p b =
     (case paramType p of
        PARAM_TEXT \<Rightarrow> build_text boundary p b
      | PARAM_FILENAME \<Rightarrow> build_file fs boundary p b
      | PARAM_BINARY \<Rightarrow> build_binary boundary p b)"

fun build_params :: "file_system \<Rightarrow> bytes \<Rightarrow> POST_PARAMS \<Rightarrow> buffer \<Rightarrow> (RET_CODE \<times> buffer) outcome" where
  "build_params fs boundary [] b = Inr (RET_OK, b)"
| "build_params fs boundary (p # ps) b =
     obind (build_param fs boundary p b) (\<lambda>(ret, b'). if ret \<noteq> RET_OK then Inr (ret, b') else build_params fs boundary ps b')"

definition build_post :: "file_system \<Rightarrow> bytes \<Rightarrow> POST_PARAMS \<Rightarrow> buffer \<Rightarrow> (RET_CODE \<times> buffer) outcome" where
  "build_post fs boundary ps b =
     obind (build_params fs boundary ps b) (\<lambda>(ret, b1).
       if ret \<noteq> RET_OK then Inr (ret, b1)
       else
         obind (temp_text (boundary @ bytes_of_string ''--'' @ CRLF)) (\<lambda>t.
         obind (buf_write t (checkBufLen (length (fst b1) + length t) b1)) (\<lambda>b2. Inr (RET_OK, b2))))"

section \<open>The body has the announced length\<close>

text \<open>The bytes a parameter contributes, and when the writer can put them down: the fixed text fits the local buffer, the
  file opens and reads.\<close>

definition param_body :: "file_system \<Rightarrow> bytes \<Rightarrow> POST_PARAM \<Rightarrow> bytes" where
  "param_body fs boundary p =
     (case paramType p of
        PARAM_TEXT \<Rightarrow> boundary @ CRLF @ template_text (paramName p) @ paramBuffer p @ CRLF
      | PARAM_FILENAME \<Rightarrow>
          boundary @ CRLF @ template_file (paramName p) (paramBuffer p) (projr (getMimeType (paramBuffer p))) @
          drop (unat (paramBufferLen p)) (the (fs_file fs (paramBuffer p))) @ CRLF
      | PARAM_BINARY \<Rightarrow> boundary @ CRLF @ template_binary (paramName p) @ paramBuffer p @ CRLF)"

definition post_body :: "file_system \<Rightarrow> bytes \<Rightarrow> POST_PARAMS \<Rightarrow> bytes" where
  "post_body fs boundary ps = concat (map (param_body fs boundary) ps) @ boundary @ bytes_of_string ''--'' @ CRLF"

definition writable :: "file_system \<Rightarrow> POST_PARAM \<Rightarrow> bool" where
  "writable fs p \<longleftrightarrow>
     (case paramType p of
        PARAM_TEXT \<Rightarrow> length (paramName p) + length (paramBuffer p) < 63900
      | PARAM_FILENAME \<Rightarrow>
          length (paramName p) + length (paramBuffer p) < 63800 \<and> fs_open fs (paramBuffer p) \<and> fs_read fs (paramBuffer p)
      | PARAM_BINARY \<Rightarrow> True)"

lemma param_length:
  "length (param_body fs (getPostBoundary now) p) =
     HTTP_POSTPARAM_BROUNDARY_FIXLEN + 2 + length (paramName p) + 2 +
     (case paramType p of
        PARAM_TEXT \<Rightarrow> POSTPARAM_TEMPLATE_TEXT_LEN + length (paramBuffer p)
      | PARAM_FILENAME \<Rightarrow>
          POSTPARAM_TEMPLATE_FILE_LEN + length (paramBuffer p) + length (projr (getMimeType (paramBuffer p))) +
          (length (the (fs_file fs (paramBuffer p))) - unat (paramBufferLen p))
      | PARAM_BINARY \<Rightarrow> POSTPARAM_TEMPLATE_BINARY_LEN + length (paramBuffer p))"
  by (simp add: param_body_def CRLF_def split: PARAM_TYPE.split)

text \<open>A parameter that passes the check: its size is the one announced, and its file is there.\<close>

definition file_ok :: "file_system \<Rightarrow> POST_PARAM \<Rightarrow> bool" where
  "file_ok fs p \<longleftrightarrow> paramType p = PARAM_FILENAME \<longrightarrow>
     (\<exists>contents mime. fs_file fs (paramBuffer p) = Some contents \<and> getMimeType (paramBuffer p) = Inr mime \<and>
        (unat (paramBufferLen p) = 0 \<or> unat (paramBufferLen p) < length contents))"

lemma err_nonzero [simp]:
  "ERR_TASK_PARAM_POSTPARAM_NAME \<noteq> 0" "ERR_TASK_PARAM_POSTPARAM_LEN \<noteq> 0" "ERR_TASK_PARAM_POSTPARAM_VALUE \<noteq> 0"
  "ERR_TASK_PARAM_POSTPARAM_FILENOTEXIST \<noteq> 0" "ERR_TASK_PARAM_URL \<noteq> 0" "ERR_TASK_OPTION_SIZE_INVALID \<noteq> 0"
  by (simp_all add: err_values)

lemma word_gt_0_unat: "0 < (w :: 'a::len word) \<longleftrightarrow> unat w \<noteq> 0"
  by (simp add: unat_eq_0 word_neq_0_conv)

lemma check_param_ok:
  assumes "check_param fs p sz = Inr (0, sz')" and "param_wf p"
  shows "sz' = sz + word_of_nat (length (param_body fs (getPostBoundary now) p)) \<and> file_ok fs p"
proof (cases "paramType p")
  case PARAM_FILENAME
  then show ?thesis
    using assms by (auto simp: check_param_def file_ok_def param_length obind_eq_Inr_iff word_gt_0_unat ac_simps Let_def
        split: if_splits option.splits)
qed (use assms in \<open>auto simp: check_param_def file_ok_def param_length param_wf_def ac_simps Let_def split: if_splits\<close>)

lemma check_params_ok:
  assumes "check_params fs ps sz = Inr (0, sz')" and "\<forall>p \<in> set ps. param_wf p"
  shows "sz' = sz + word_of_nat (length (concat (map (param_body fs (getPostBoundary now)) ps))) \<and> (\<forall>p \<in> set ps. file_ok fs p)"
  using assms
proof (induction ps arbitrary: sz)
  case (Cons p ps)
  from Cons.prems(1) obtain r sz1 where "check_param fs p sz = Inr (r, sz1)" and "r = 0" and "check_params fs ps sz1 = Inr (0, sz')"
    by (auto simp: obind_eq_Inr_iff split: if_splits)
  then show ?case
    using Cons.IH [of sz1] Cons.prems(2) check_param_ok [of fs p sz sz1 now] by simp
qed simp

lemma build_param_ok:
  assumes "param_wf p" and "file_ok fs p" and "writable fs p"
    and "length w + length (param_body fs (getPostBoundary now) p) < cap"
  shows "build_param fs (getPostBoundary now) p (w, cap) = Inr (RET_OK, (w @ param_body fs (getPostBoundary now) p, cap))"
proof (cases "paramType p")
  case PARAM_TEXT
  then show ?thesis
    using assms(3,4) by (simp add: build_param_def build_text_def temp_text_def buf_write_def checkBufLen_def param_length
        writable_def MAX_BUFFER_LEN_def param_body_def HTTP_POSTPARAM_BROUNDARY_FIXLEN_def POSTPARAM_TEMPLATE_TEXT_LEN_def CRLF_def)
next
  case PARAM_BINARY
  then show ?thesis
    using assms(1,4) by (simp add: build_param_def build_binary_def temp_text_def buf_write_def param_length param_wf_def
        MAX_BUFFER_LEN_def param_body_def HTTP_POSTPARAM_BROUNDARY_FIXLEN_def POSTPARAM_TEMPLATE_BINARY_LEN_def
        MAX_PARAM_NAME_LEN_def CRLF_def)
next
  case PARAM_FILENAME
  then obtain contents mime where f: "fs_file fs (paramBuffer p) = Some contents" "getMimeType (paramBuffer p) = Inr mime"
    "unat (paramBufferLen p) = 0 \<or> unat (paramBufferLen p) < length contents"
    using assms(2) by (auto simp: file_ok_def)
  then show ?thesis
    using assms(3,4) PARAM_FILENAME getMimeType_short [OF f(2)]
    by (auto simp: build_param_def build_file_def temp_text_def buf_write_def checkBufLen_def param_length
        writable_def MAX_BUFFER_LEN_def param_body_def HTTP_POSTPARAM_BROUNDARY_FIXLEN_def POSTPARAM_TEMPLATE_FILE_LEN_def
        CRLF_def Let_def)
qed

lemma build_params_ok:
  assumes "\<forall>p \<in> set ps. param_wf p \<and> file_ok fs p \<and> writable fs p"
    and "length w + length (concat (map (param_body fs (getPostBoundary now)) ps)) < cap"
  shows "build_params fs (getPostBoundary now) ps (w, cap) =
     Inr (RET_OK, (w @ concat (map (param_body fs (getPostBoundary now)) ps), cap))"
  using assms
proof (induction ps arbitrary: w)
  case (Cons p ps)
  have "build_param fs (getPostBoundary now) p (w, cap) = Inr (RET_OK, (w @ param_body fs (getPostBoundary now) p, cap))"
    by (rule build_param_ok) (use Cons.prems in auto)
  then show ?case using Cons.IH [of "w @ param_body fs (getPostBoundary now) p"] Cons.prems by simp
qed simp

lemma build_post_ok:
  assumes "\<forall>p \<in> set ps. param_wf p \<and> file_ok fs p \<and> writable fs p"
    and "length w + length (post_body fs (getPostBoundary now) ps) < cap"
  shows "build_post fs (getPostBoundary now) ps (w, cap) = Inr (RET_OK, (w @ post_body fs (getPostBoundary now) ps, cap))"
  using assms build_params_ok [of ps fs w now cap]
  by (simp add: build_post_def post_body_def temp_text_def buf_write_def checkBufLen_def MAX_BUFFER_LEN_def
      HTTP_POSTPARAM_BROUNDARY_FIXLEN_def CRLF_def bytes_of_string_def)

text \<open>
  Note: The announced length of a POST request is the length of the body.  When the check of a query or an
  upload accepts its parameters with the size \<open>n\<close>, the files can still be opened and read when the request is built, the texts fit the
  local buffer of 64000 bytes and the body is shorter than \<open>2 ^ 64\<close>, then a buffer of the length of the header, \<open>n\<close> and one
  takes the whole body with no write beyond its end and no reallocation, and the body has \<open>n\<close> bytes.
\<close>

theorem content_length_exact:
  assumes "taskParamCheck fs url ty (Some ps) True startSize endSize = Inr (0, n)" and "ty = TASK_QUERY \<or> ty = TASK_UPLOAD"
    and "\<forall>p \<in> set ps. param_wf p \<and> writable fs p" and "length (post_body fs (getPostBoundary now) ps) < 2 ^ 64"
  shows "build_post fs (getPostBoundary now) ps (head, length head + unat n + 1) =
      Inr (RET_OK, (head @ post_body fs (getPostBoundary now) ps, length head + unat n + 1)) \<and>
    length (post_body fs (getPostBoundary now) ps) = unat n"
proof -
  obtain m where m: "check_params fs ps 0 = Inr (0, m)" "n = m + word_of_nat (HTTP_POSTPARAM_BROUNDARY_FIXLEN + 4)"
    using assms(1,2) by (auto simp: taskParamCheck_def obind_eq_Inr_iff Let_def split: if_splits)
  then have n: "n = word_of_nat (length (post_body fs (getPostBoundary now) ps))" and files: "\<forall>p \<in> set ps. file_ok fs p"
    using check_params_ok [OF m(1), of now] assms(3) by (auto simp: post_body_def CRLF_def bytes_of_string_def)
  then have "unat n = length (post_body fs (getPostBoundary now) ps)"
    using assms(4) by (simp add: unat_of_nat take_bit_nat_eq_self)
  then show ?thesis using build_post_ok [of ps fs head now] assms(3) files by simp
qed

text \<open>An upload of a text field and a file, sent from its second byte.\<close>

definition example_files :: file_system where
  "example_files =
     \<lparr>fs_file = (\<lambda>f. if f = bytes_of_string ''a/b.zip'' then Some [80, 75, 3, 4] else None), fs_open = (\<lambda>_. True),
      fs_read = (\<lambda>_. True)\<rparr>"

definition example_params :: POST_PARAMS where
  "example_params =
     [\<lparr>paramName = bytes_of_string ''osVersion'', paramBuffer = bytes_of_string ''6.1'', paramBufferLen = 4, paramType = PARAM_TEXT\<rparr>,
      \<lparr>paramName = bytes_of_string ''icon'', paramBuffer = bytes_of_string ''a/b.zip'', paramBufferLen = 1, paramType = PARAM_FILENAME\<rparr>]"

lemma example_mime: "getMimeType [97, 47, 98, 46, 122, 105, 112] = Inr (bytes_of_string ''application/zip'')"
proof -
  have "(''.zip'', ''application/zip'') \<in> set mimetype_5" by (simp add: mimetype_5_def)
  then have "(''.zip'', ''application/zip'') \<in> set mimetype" by (simp add: mimetype_def)
  then have "getMimeType (bytes_of_string ''a/b'' @ bytes_of_string ''.zip'') = Inr (bytes_of_string ''application/zip'')"
    by (rule getMimeType_found) (simp_all add: bytes_of_string_def)
  then show ?thesis by (simp add: bytes_of_string_def)
qed

lemma example_check: "taskParamCheck example_files [104] TASK_UPLOAD (Some example_params) True 0 0 = Inr (0, 261)"
  by (simp add: taskParamCheck_def example_params_def example_files_def check_param_def example_mime bytes_of_string_def
      HTTP_POSTPARAM_BROUNDARY_FIXLEN_def POSTPARAM_TEMPLATE_TEXT_LEN_def POSTPARAM_TEMPLATE_FILE_LEN_def)

theorem content_length_exact_witness:
  "build_post example_files (getPostBoundary 0) example_params ([13, 10], 264) =
      Inr (RET_OK, ([13, 10] @ post_body example_files (getPostBoundary 0) example_params, 264)) \<and>
    length (post_body example_files (getPostBoundary 0) example_params) = 261"
proof -
  have wf: "\<forall>p \<in> set example_params. param_wf p \<and> writable example_files p"
    by (simp add: example_params_def example_files_def param_wf_def writable_def bytes_of_string_def MAX_PARAM_NAME_LEN_def)
  have "length (post_body example_files (getPostBoundary 0) example_params) < 2 ^ 64"
    by (simp add: post_body_def param_length example_params_def example_files_def example_mime bytes_of_string_def
        HTTP_POSTPARAM_BROUNDARY_FIXLEN_def POSTPARAM_TEMPLATE_TEXT_LEN_def POSTPARAM_TEMPLATE_FILE_LEN_def CRLF_def)
  then show ?thesis
    using content_length_exact [OF example_check _ wf, where head = "[13, 10]" and now = 0] by simp
qed

end
