(* ===== verification/Transfer_Queue.thy ===== *)
theory Transfer_Queue
  imports Http_Post Std_Map
begin

text \<open>
  The transfer library as its clients see it: \<open>TranferManager\<close> (\<open>src/src/Utility/HttpClient/src/httpmanager.cpp\<close>), which puts tasks
  into an array of 1024 slots, and \<open>TTransferWorker\<close> (\<open>transferworker.cpp\<close>), the thread that visits the slots, moves
  each task one step on and calls the client back.  The client is a type \<open>'c\<close> with its callbacks; what the network answers during a scan is
  a function from slots to \<open>hcp_answers\<close>.  A scan is one step: calls from the other thread happen between scans.
\<close>

section \<open>State\<close>

definition MAX_TASKQUE_SIZE :: nat where "MAX_TASKQUE_SIZE = 1024"
definition MAX_RUN_TASK :: nat where "MAX_RUN_TASK = 32"

type_synonym task = "POST_PARAMS TTask"

record task_counts =
  runningCount :: nat
  startingCount :: nat
  waittingCount :: nat
  connectingCount :: nat
  finishCount :: nat
  errorCount :: nat
  unkownCount :: nat

text \<open>\<open>pWorker\<close> tells whether the manager has a worker; the worker's own fields are part of the same record.  Socket sets are lists
  without repetition.\<close>

record transfer =
  mgrStarted :: bool
  tm_useProxy :: bool
  pWorker :: bool
  taskQue :: "task option list"
  curPos :: nat
  maxPos :: nat
  w_stop :: bool
  counts :: task_counts
  maxRunTaskNum :: nat
  s_t_map :: "(int \<times> nat) list"
  readfds :: "int list"
  writefds :: "int list"
  maxfd :: int

record OPTIONS =
  tasktimeout :: u32
  startSize :: u64
  endSize :: u64
  opt_dataClean :: bool

definition OPTIONS_init :: OPTIONS where
  "OPTIONS_init = \<lparr>tasktimeout = 0, startSize = 0, endSize = 0, opt_dataClean = False\<rparr>"

text \<open>The callbacks of a client; their results are not used.\<close>

record 'c CALL_BACK_S =
  cb_init :: "nat \<Rightarrow> TaskInfo \<Rightarrow> 'c \<Rightarrow> 'c"
  cb_headcomplete :: "nat \<Rightarrow> TaskInfo \<Rightarrow> 'c \<Rightarrow> 'c"
  cb_process :: "nat \<Rightarrow> TaskInfo \<Rightarrow> 'c \<Rightarrow> 'c"
  cb_finish :: "nat \<Rightarrow> TaskInfo \<Rightarrow> 'c \<Rightarrow> 'c"
  cb_error :: "nat \<Rightarrow> TaskInfo \<Rightarrow> 'c \<Rightarrow> 'c"

definition no_counts :: task_counts where
  "no_counts = \<lparr>runningCount = 0, startingCount = 0, waittingCount = 0, connectingCount = 0, finishCount = 0, errorCount = 0,
     unkownCount = 0\<rparr>"

section \<open>TranferManager\<close>

definition TranferManager :: transfer where
  "TranferManager =
     \<lparr>mgrStarted = False, tm_useProxy = False, pWorker = False, taskQue = replicate MAX_TASKQUE_SIZE None, curPos = 0, maxPos = 0,
      w_stop = False, counts = no_counts, maxRunTaskNum = MAX_RUN_TASK, s_t_map = [], readfds = [], writefds = [], maxfd = 0\<rparr>"

text \<open>\<open>wsa\<close> and \<open>thread\<close>: the socket library starts with version 2.2, and the thread starts.  The constructor of the worker empties
  the slots.\<close>

definition start :: "bool \<Rightarrow> bool \<Rightarrow> transfer \<Rightarrow> int \<times> transfer" where
  "start wsa thread m =
     (if mgrStarted m then (6, m)
      else if \<not> wsa then (7, m)
      else
        let m1 = m\<lparr>pWorker := True, taskQue := replicate MAX_TASKQUE_SIZE None, curPos := 0, maxPos := 0, w_stop := False,
              counts := no_counts, s_t_map := [], readfds := [], writefds := [], maxfd := 0\<rparr> in
        if \<not> thread then (4, m1) else (0, m1\<lparr>mgrStarted := True\<rparr>))"

text \<open>The loop goes round the array once, from \<open>curPos\<close>; \<open>None\<close> says that the fuel is used up.\<close>

fun find_from :: "nat \<Rightarrow> 'a option list \<Rightarrow> nat \<Rightarrow> nat \<Rightarrow> nat option option" where
  "find_from 0 q cur i = None"
| "find_from (Suc n) q cur i =
     (if q ! i = None then Some (Some i)
      else let j = (if i + 1 = MAX_TASKQUE_SIZE then 0 else i + 1) in
           if j = cur then Some None else find_from n q cur j)"

definition findTaskPos :: "transfer \<Rightarrow> int \<times> transfer" where
  "findTaskPos m =
     (case find_from MAX_TASKQUE_SIZE (taskQue m) (curPos m) (curPos m) of
        Some (Some i) \<Rightarrow> (int i, m\<lparr>curPos := (i + 1) mod MAX_TASKQUE_SIZE, maxPos := (if i > maxPos m then i else maxPos m)\<rparr>)
      | _ \<Rightarrow> (-1, m))"

definition new_task ::
  "u64 \<Rightarrow> bytes \<Rightarrow> TASK_TYPE \<Rightarrow> bool \<Rightarrow> POST_PARAMS option \<Rightarrow> u64 \<Rightarrow> OPTIONS \<Rightarrow> task" where
  "new_task now url ty proxy params n opts =
     (TTask_init url ty proxy)\<lparr>tk_postParams := params, headcomplete_set := True, postDataSize := n,
        timeoutlimit := sint (tasktimeout opts), dataClean := opt_dataClean opts, taskState := TSK_IDLE, last_active_time := now\<rparr>"

text \<open>The client passes all five callbacks.\<close>

definition addTask ::
  "file_system \<Rightarrow> u64 \<Rightarrow> bytes \<Rightarrow> TASK_TYPE \<Rightarrow> POST_PARAMS option \<Rightarrow> OPTIONS \<Rightarrow> transfer \<Rightarrow> (int \<times> transfer) outcome" where
  "addTask fs now url ty params opts m =
     obind (taskParamCheck fs url ty params True (startSize opts) (endSize opts)) (\<lambda>(ret, n).
       if ret \<noteq> 0 then Inr (- ret, m)
       else if \<not> mgrStarted m then Inr (- ERR_TASK_MGR_NOT_START, m)
       else
         obind (case params of None \<Rightarrow> Inr None | Some ps \<Rightarrow> obind (POST_PARAMS_copy ps) (\<lambda>qs. Inr (Some qs))) (\<lambda>copy.
           let (pos, m1) = findTaskPos m in
           if pos < 0 then Inr (- ERR_TASK_FULL, m1)
           else Inr (pos, m1\<lparr>taskQue := (taskQue m1)[nat pos := Some (new_task now url ty (tm_useProxy m) copy n opts)]\<rparr>)))"

definition mark_del :: "task \<Rightarrow> task" where
  "mark_del t = t\<lparr>tk_del := True\<rparr>"

definition cancelTask :: "nat \<Rightarrow> transfer \<Rightarrow> (int \<times> transfer) outcome" where
  "cancelTask taskID m =
     (if \<not> mgrStarted m then Inr (ERR_TASK_MGR_NOT_START, m)
      else if length (taskQue m) \<le> taskID then Inl OutOfRange
      else case taskQue m ! taskID of
             Some t \<Rightarrow> Inr (0, m\<lparr>taskQue := (taskQue m)[taskID := Some (mark_del t)]\<rparr>)
           | None \<Rightarrow> Inr (ERR_TASK_NOT_EXIST, m))"

definition tm_clear :: "transfer \<Rightarrow> int \<times> transfer" where
  "tm_clear m =
     (if \<not> mgrStarted m then (ERR_TASK_MGR_NOT_START, m)
      else (0, m\<lparr>taskQue := map (map_option mark_del) (taskQue m)\<rparr>))"

definition tm_stop :: "transfer \<Rightarrow> int \<times> transfer" where
  "tm_stop m =
     (let ret = (if mgrStarted m then 0 else ERR_TASK_MGR_NOT_START) in
      (ret, if pWorker m then (snd (tm_clear m))\<lparr>w_stop := True, pWorker := False, mgrStarted := False\<rparr> else m))"

section \<open>TTransferWorker\<close>

definition clearTaskInfo :: "hcp_answers \<Rightarrow> nat \<Rightarrow> transfer \<Rightarrow> transfer" where
  "clearTaskInfo a i m =
     (case taskQue m ! i of
        None \<Rightarrow> m
      | Some t \<Rightarrow>
          m\<lparr>readfds := removeAll (an_fd a) (readfds m), writefds := removeAll (an_fd a) (writefds m),
            s_t_map := filter (\<lambda>(fd, tid). fd \<noteq> an_fd a) (s_t_map m), taskQue := (taskQue m)[i := None]\<rparr>)"

definition set_task :: "nat \<Rightarrow> task \<Rightarrow> transfer \<Rightarrow> transfer" where
  "set_task i t m = m\<lparr>taskQue := (taskQue m)[i := Some t]\<rparr>"

definition watch_task :: "hcp_answers \<Rightarrow> nat \<Rightarrow> transfer \<Rightarrow> transfer" where
  "watch_task a i m = m\<lparr>s_t_map := map_put (\<lambda>k. k) (an_fd a) i (s_t_map m)\<rparr>"

definition watch_read :: "hcp_answers \<Rightarrow> transfer \<Rightarrow> transfer" where
  "watch_read a m = m\<lparr>readfds := List.insert (an_fd a) (readfds m), maxfd := max (maxfd m) (an_fd a)\<rparr>"

definition watch_write :: "hcp_answers \<Rightarrow> transfer \<Rightarrow> transfer" where
  "watch_write a m = m\<lparr>writefds := List.insert (an_fd a) (writefds m), maxfd := max (maxfd m) (an_fd a)\<rparr>"

text \<open>The state of a scan: the worker, the client, the counters of this scan and the places left for new connections.\<close>

type_synonym 'c scan = "transfer \<times> 'c \<times> task_counts \<times> nat"

definition scan_idle :: "nat \<Rightarrow> task \<Rightarrow> 'c scan \<Rightarrow> 'c scan" where
  "scan_idle i t = (\<lambda>(m, c, k, room).
     let k1 = k\<lparr>waittingCount := waittingCount k + 1\<rparr> in
     if room > 0 \<and> length (s_t_map m) < 64 then (set_task i (t\<lparr>taskState := TSK_CONNECT\<rparr>) m, c, k1, room - 1)
     else (m, c, k1, room))"

definition scan_connect :: "hcp_answers \<Rightarrow> nat \<Rightarrow> task \<Rightarrow> 'c scan \<Rightarrow> 'c scan" where
  "scan_connect a i t = (\<lambda>(m, c, k, room).
     let (ret, t1) = tryConnect a t; m1 = set_task i t1 m in
     (if ret = RET_SOCKET_CONTINUE then watch_write a (watch_task a i m1)
      else if ret = RET_OK then watch_task a i m1 else m1, c, k, room))"

definition scan_connectwait :: "hcp_answers \<Rightarrow> nat \<Rightarrow> task \<Rightarrow> 'c scan \<Rightarrow> 'c scan" where
  "scan_connectwait a i t = (\<lambda>(m, c, k, room).
     let (ret, t1) = checkConnectTimeout a t; m1 = set_task i t1 m in
     (if ret = RET_CONNECT_TIMEOUT
      then m1\<lparr>writefds := removeAll (an_fd a) (writefds m1), s_t_map := filter (\<lambda>(fd, tid). fd \<noteq> an_fd a) (s_t_map m1)\<rparr>
      else m1, c, k\<lparr>connectingCount := connectingCount k + 1\<rparr>, room))"

definition scan_auth :: "hcp_answers \<Rightarrow> nat \<Rightarrow> task \<Rightarrow> 'c scan \<Rightarrow> 'c scan" where
  "scan_auth a i t = (\<lambda>(m, c, k, room).
     let (ret, t1) = tryAuth a t; m1 = set_task i t1 m in
     (if ret = RET_PROXY_BEGIN_AUTH then watch_read a m1 else m1, c, k, room))"

definition scan_start :: "'c CALL_BACK_S \<Rightarrow> hcp_answers \<Rightarrow> nat \<Rightarrow> task \<Rightarrow> 'c scan \<Rightarrow> 'c scan" where
  "scan_start cb a i t = (\<lambda>(m, c, k, room).
     let k1 = k\<lparr>startingCount := startingCount k + 1\<rparr> in
     if MAX_REDIRECTIONS \<le> redirectionTimes t then (set_task i (task_error ERR_TASK_REDIRECTION_EXCEED t) m, c, k1, room)
     else if shouldGetFileInfo t then
       let (ret, t1) = sendHttpReq a t; m1 = set_task i t1 m in
       (if ret = RET_SOCKET_FINISH then watch_read a m1
        else if ret = RET_SOCKET_CONTINUE then watch_write a m1 else m1, c, k1, room)
     else
       let t1 = updateTaskInfo a t in
       (set_task i t1 m, if tk_del t1 then c else cb_init cb i (taskInfo t1) c, k1, room))"

definition scan_running :: "'c CALL_BACK_S \<Rightarrow> hcp_answers \<Rightarrow> nat \<Rightarrow> task \<Rightarrow> 'c scan \<Rightarrow> 'c scan" where
  "scan_running cb a i t = (\<lambda>(m, c, k, room).
     let t1 = updateTaskInfo a t; k1 = k\<lparr>runningCount := runningCount k + 1\<rparr> in
     if dataChanged t1 then
       (set_task i (if dataClean t1 then t1\<lparr>respDataContent := []\<rparr> else t1) m,
        if tk_del t1 then c else cb_process cb i (taskInfo t1) c, k1, room)
     else (set_task i t1 m, c, k1, room))"

text \<open>The last callback of a task, and the end of it.\<close>

definition scan_last ::
  "(nat \<Rightarrow> TaskInfo \<Rightarrow> 'c \<Rightarrow> 'c) \<Rightarrow> (task_counts \<Rightarrow> task_counts) \<Rightarrow> hcp_answers \<Rightarrow> nat \<Rightarrow> task \<Rightarrow> 'c scan \<Rightarrow> 'c scan" where
  "scan_last f count a i t = (\<lambda>(m, c, k, room).
     let t1 = updateTaskInfo a t in
     (clearTaskInfo a i m, if tk_del t1 then c else f i (taskInfo t1) c, count k, room))"

definition scan_state :: "'c CALL_BACK_S \<Rightarrow> hcp_answers \<Rightarrow> nat \<Rightarrow> task \<Rightarrow> 'c scan \<Rightarrow> 'c scan" where
  "scan_state cb a i t =
     (case taskState t of
        TSK_IDLE \<Rightarrow> scan_idle i t
      | TSK_CONNECT \<Rightarrow> scan_connect a i t
      | TSK_CONNECTWAIT \<Rightarrow> scan_connectwait a i t
      | TSK_AUTH \<Rightarrow> scan_auth a i t
      | TSK_START \<Rightarrow> scan_start cb a i t
      | TSK_RUNNING \<Rightarrow> scan_running cb a i t
      | TSK_FINISHED \<Rightarrow> scan_last (cb_finish cb) (\<lambda>k. k\<lparr>finishCount := finishCount k + 1\<rparr>) a i t
      | TSK_ERROR \<Rightarrow> scan_last (cb_error cb) (\<lambda>k. k\<lparr>errorCount := errorCount k + 1\<rparr>) a i t
      | TSK_UNKNOWN \<Rightarrow>
          scan_last (cb_error cb) (\<lambda>k. k\<lparr>unkownCount := unkownCount k + 1\<rparr>) a i (t\<lparr>errcode := ERR_TASK_UNKNOWN_STATUS\<rparr>))"

definition scan_slot :: "'c CALL_BACK_S \<Rightarrow> (nat \<Rightarrow> hcp_answers) \<Rightarrow> nat \<Rightarrow> 'c scan \<Rightarrow> 'c scan" where
  "scan_slot cb ans i st =
     (case taskQue (fst st) ! i of
        None \<Rightarrow> st
      | Some t0 \<Rightarrow>
          let t = (if taskState t0 \<noteq> TSK_IDLE then checkTimeOut (ans i) t0 else t0);
              st1 = (set_task i t (fst st), snd st) in
          if tk_del t then (clearTaskInfo (ans i) i (fst st1), snd st1)
          else scan_state cb (ans i) i t st1)"

definition remainposition :: "transfer \<Rightarrow> nat" where
  "remainposition m =
     maxRunTaskNum m - (runningCount (counts m) + startingCount (counts m) + finishCount (counts m) + errorCount (counts m) +
       unkownCount (counts m) + connectingCount (counts m))"

text \<open>A worker told to stop leaves the scan at once and keeps its counters.\<close>

definition scanTaskQue :: "'c CALL_BACK_S \<Rightarrow> (nat \<Rightarrow> hcp_answers) \<Rightarrow> transfer \<times> 'c \<Rightarrow> transfer \<times> 'c" where
  "scanTaskQue cb ans = (\<lambda>(m, c).
     if w_stop m then (m, c)
     else
       let (m1, c1, k, room) = fold (scan_slot cb ans) [0..<maxPos m + 1] (m, c, no_counts, remainposition m) in
       (m1\<lparr>counts := k\<rparr>, c1))"

text \<open>One socket of the map in \<open>scanIO\<close>: \<open>rd\<close> and \<open>wr\<close> are the sockets \<open>select\<close> found ready; the sockets to take out of the map are
  collected.  A slot whose task is gone is read through NULL.\<close>

type_synonym 'c io = "transfer \<times> 'c \<times> int list"

definition io_write :: "hcp_answers \<Rightarrow> int \<Rightarrow> nat \<Rightarrow> task \<Rightarrow> 'c io \<Rightarrow> 'c io" where
  "io_write a fd tid t = (\<lambda>(m, c, gone).
     let (ret, t1) = sendHttpReqContinue a t; m1 = set_task tid t1 m in
     if ret = RET_SOCKET_FINISH
     then (m1\<lparr>readfds := List.insert (an_fd a) (readfds m1), writefds := removeAll fd (writefds m1)\<rparr>, c, gone)
     else if ret = RET_SOCKET_CONTINUE then (m1, c, gone)
     else (m1\<lparr>writefds := removeAll fd (writefds m1)\<rparr>, c, fd # gone))"

definition io_read :: "'c CALL_BACK_S \<Rightarrow> hcp_answers \<Rightarrow> int \<Rightarrow> nat \<Rightarrow> task \<Rightarrow> 'c io \<Rightarrow> 'c io" where
  "io_read cb a fd tid t = (\<lambda>(m, c, gone).
     let (ret, t1) = processHttpResp a t; m1 = set_task tid t1 m in
     if ret \<noteq> RET_OK \<and> ret \<noteq> RET_SOCKET_CONTINUE
     then (m1\<lparr>readfds := removeAll fd (readfds m1)\<rparr>, c, if ret = RET_PROXY_DOING_AUTH then gone else fd # gone)
     else if \<not> tk_del t1 \<and> respHeadCompleted t1 \<and> headcomplete_set t1 then
       let t2 = updateTaskInfo a t1 in
       (set_task tid (t2\<lparr>headcomplete_set := False\<rparr>) m1, cb_headcomplete cb tid (taskInfo t2) c, gone)
     else (m1, c, gone))"

definition io_auth :: "hcp_answers \<Rightarrow> int \<Rightarrow> nat \<Rightarrow> task \<Rightarrow> 'c io \<Rightarrow> 'c io" where
  "io_auth a fd tid t = (\<lambda>(m, c, gone).
     let (ret, t1) = onAuthResp a t; m1 = set_task tid t1 m in
     (if ret \<noteq> RET_PROXY_DOING_AUTH then m1\<lparr>readfds := removeAll fd (readfds m1)\<rparr> else m1, c, gone))"

definition io_connected :: "hcp_answers \<Rightarrow> int \<Rightarrow> nat \<Rightarrow> task \<Rightarrow> 'c io \<Rightarrow> 'c io" where
  "io_connected a fd tid t = (\<lambda>(m, c, gone).
     let m1 = set_task tid (onConnected a t) m in (m1\<lparr>writefds := removeAll fd (writefds m1)\<rparr>, c, gone))"

definition scan_socket ::
  "'c CALL_BACK_S \<Rightarrow> (nat \<Rightarrow> hcp_answers) \<Rightarrow> int list \<Rightarrow> int list \<Rightarrow> int \<times> nat \<Rightarrow> 'c io \<Rightarrow> 'c io outcome" where
  "scan_socket cb ans rd wr = (\<lambda>(fd, tid) st.
     case taskQue (fst st) ! tid of
       None \<Rightarrow> Inl NullDeref
     | Some t \<Rightarrow>
         if taskState t \<notin> {TSK_CONNECTWAIT, TSK_AUTH, TSK_START, TSK_RUNNING} then Inr st
         else if fd \<in> set wr \<and> taskState t = TSK_CONNECTWAIT then Inr (io_connected (ans tid) fd tid t st)
         else
           let st1 = (if fd \<in> set wr then io_write (ans tid) fd tid t st else st) in
           (case taskQue (fst st1) ! tid of
              None \<Rightarrow> Inl NullDeref
            | Some t1 \<Rightarrow>
                if fd \<notin> set rd then Inr st1
                else if taskState t1 = TSK_AUTH then Inr (io_auth (ans tid) fd tid t1 st1)
                else Inr (io_read cb (ans tid) fd tid t1 st1)))"

text \<open>\<open>nreadys\<close> is what \<open>select\<close> answers.\<close>

definition scanIO ::
  "'c CALL_BACK_S \<Rightarrow> (nat \<Rightarrow> hcp_answers) \<Rightarrow> int \<Rightarrow> int list \<Rightarrow> int list \<Rightarrow> transfer \<times> 'c \<Rightarrow> (RET_CODE \<times> transfer \<times> 'c) outcome" where
  "scanIO cb ans nreadys rd wr = (\<lambda>(m, c).
     if readfds m = [] \<and> writefds m = [] \<and> s_t_map m = [] then Inr (RET_NO_SOCKET_READY, m, c)
     else if nreadys > 0 then
       (if w_stop m \<and> s_t_map m \<noteq> [] then Inr (RET_WORKER_STOPED, m, c)
        else obind (ofold (scan_socket cb ans rd wr) (s_t_map m) (m, c, [])) (\<lambda>(m1, c1, gone).
          Inr (RET_OK, m1\<lparr>s_t_map := filter (\<lambda>(fd, tid). fd \<notin> set gone) (s_t_map m1)\<rparr>, c1)))
     else if nreadys = 0 then Inr (RET_NO_SOCKET_READY, m, c)
     else Inr (RET_SOCKET_SELECT_FAIL, m, c))"

text \<open>The end of \<open>run\<close>: a worker that has been stopped frees its tasks.\<close>

definition worker_cleanup :: "(nat \<Rightarrow> hcp_answers) \<Rightarrow> transfer \<Rightarrow> transfer" where
  "worker_cleanup ans m = (fold (\<lambda>i. clearTaskInfo (ans i) i) [0..<MAX_TASKQUE_SIZE] m)\<lparr>s_t_map := []\<rparr>"

section \<open>The slots\<close>

definition transfer_wf :: "transfer \<Rightarrow> bool" where
  "transfer_wf m \<longleftrightarrow> length (taskQue m) = MAX_TASKQUE_SIZE \<and> curPos m < MAX_TASKQUE_SIZE \<and> maxPos m < MAX_TASKQUE_SIZE \<and>
     (\<forall>i < MAX_TASKQUE_SIZE. taskQue m ! i \<noteq> None \<longrightarrow> i \<le> maxPos m)"

lemma start_wf: "transfer_wf TranferManager" "transfer_wf m \<Longrightarrow> transfer_wf (snd (start wsa thread m))"
  by (auto simp: transfer_wf_def TranferManager_def start_def Let_def MAX_TASKQUE_SIZE_def)

lemma find_from_spec:
  assumes "cur < MAX_TASKQUE_SIZE" and "k < MAX_TASKQUE_SIZE"
    and "\<And>j. j < k \<Longrightarrow> q ! ((cur + j) mod MAX_TASKQUE_SIZE) \<noteq> None"
  shows "\<exists>r. find_from (MAX_TASKQUE_SIZE - k) q cur ((cur + k) mod MAX_TASKQUE_SIZE) = Some r \<and>
    (case r of Some i \<Rightarrow> i < MAX_TASKQUE_SIZE \<and> q ! i = None | None \<Rightarrow> \<forall>i < MAX_TASKQUE_SIZE. q ! i \<noteq> None)"
  using assms
proof (induction "MAX_TASKQUE_SIZE - k" arbitrary: k)
  case (Suc n)
  let ?i = "(cur + k) mod MAX_TASKQUE_SIZE"
  have n: "MAX_TASKQUE_SIZE - k = Suc n" using Suc.hyps(2) by simp
  have i: "?i < MAX_TASKQUE_SIZE" by (simp add: MAX_TASKQUE_SIZE_def)
  have j: "(if ?i + 1 = MAX_TASKQUE_SIZE then 0 else ?i + 1) = (cur + Suc k) mod MAX_TASKQUE_SIZE"
    using i by (simp add: mod_Suc)
  show ?case
  proof (cases "q ! ?i = None")
    case True
    then show ?thesis using i by (simp add: n)
  next
    case False
    have seen: "q ! ((cur + j) mod MAX_TASKQUE_SIZE) \<noteq> None" if "j < Suc k" for j
      using that Suc.prems(3) False less_Suc_eq by metis
    show ?thesis
    proof (cases "Suc k < MAX_TASKQUE_SIZE")
      case True
      have "(cur + Suc k) mod MAX_TASKQUE_SIZE \<noteq> cur"
        using Suc.prems(1) True by (auto simp: mod_if MAX_TASKQUE_SIZE_def split: if_splits)
      moreover have "MAX_TASKQUE_SIZE - Suc k = n" using n by simp
      ultimately show ?thesis
        using Suc.hyps(1) [of "Suc k"] Suc.prems(1) True seen False j by (simp add: n Let_def)
    next
      case False
      then have k: "Suc k = MAX_TASKQUE_SIZE" using Suc.prems(2) by simp
      have "q ! i \<noteq> None" if i: "i < MAX_TASKQUE_SIZE" for i
      proof -
        have "(cur + (i + MAX_TASKQUE_SIZE - cur) mod MAX_TASKQUE_SIZE) mod MAX_TASKQUE_SIZE = i"
          using i Suc.prems(1) by (simp add: mod_add_right_eq)
        moreover have "(i + MAX_TASKQUE_SIZE - cur) mod MAX_TASKQUE_SIZE < Suc k" by (simp add: k MAX_TASKQUE_SIZE_def)
        ultimately show ?thesis using seen by metis
      qed
      moreover have "(cur + Suc k) mod MAX_TASKQUE_SIZE = cur" using Suc.prems(1) by (simp add: k)
      ultimately show ?thesis using \<open>q ! ?i \<noteq> None\<close> j by (auto simp: n Let_def)
    qed
  qed
qed simp

lemma findTaskPos_cases:
  assumes "transfer_wf m"
  obtains (full) "findTaskPos m = (-1, m)" "\<forall>i < MAX_TASKQUE_SIZE. taskQue m ! i \<noteq> None"
  | (free) i where "i < MAX_TASKQUE_SIZE" "taskQue m ! i = None"
      "findTaskPos m = (int i, m\<lparr>curPos := (i + 1) mod MAX_TASKQUE_SIZE, maxPos := max i (maxPos m)\<rparr>)"
proof -
  have cur: "curPos m < MAX_TASKQUE_SIZE" using assms by (simp add: transfer_wf_def)
  obtain r where r: "find_from MAX_TASKQUE_SIZE (taskQue m) (curPos m) (curPos m) = Some r"
    "case r of Some i \<Rightarrow> i < MAX_TASKQUE_SIZE \<and> taskQue m ! i = None | None \<Rightarrow> \<forall>i < MAX_TASKQUE_SIZE. taskQue m ! i \<noteq> None"
    using find_from_spec [OF cur, of 0 "taskQue m"] cur by auto
  show thesis
  proof (cases r)
    case None
    then show thesis using r by (intro full) (simp_all add: findTaskPos_def)
  next
    case (Some i)
    then show thesis using r by (intro free [of i]) (auto simp: findTaskPos_def max_def)
  qed
qed

lemma findTaskPos_wf: "transfer_wf m \<Longrightarrow> transfer_wf (snd (findTaskPos m))"
  by (cases rule: findTaskPos_cases [of m]) (auto simp: transfer_wf_def MAX_TASKQUE_SIZE_def le_max_iff_disj)

lemma cancelTask_wf: "transfer_wf m \<Longrightarrow> cancelTask i m = Inr (r, m') \<Longrightarrow> transfer_wf m'"
  by (auto simp: transfer_wf_def cancelTask_def nth_list_update split: if_splits option.splits)

lemma cancelTask_ok: "transfer_wf m \<Longrightarrow> i < MAX_TASKQUE_SIZE \<Longrightarrow> \<exists>r m'. cancelTask i m = Inr (r, m')"
  by (auto simp: transfer_wf_def cancelTask_def split: option.splits)

lemma stop_wf: "transfer_wf m \<Longrightarrow> transfer_wf (snd (tm_stop m))"
  by (auto simp: transfer_wf_def tm_stop_def tm_clear_def Let_def)

text \<open>What a refused task leaves, and what an accepted one does: the error codes are the negated ones of the check.\<close>

lemma param_errors:
  assumes "check_params fs ps sz = Inr (r, n)"
  shows "r = 0 \<or> 18 \<le> r"
  using assms
proof (induction ps arbitrary: sz)
  case (Cons p ps)
  have "r' = 0 \<or> 18 \<le> r'" if "check_param fs p sz = Inr (r', m)" for r' m
    using that by (auto simp: check_param_def Let_def err_values obind_eq_Inr_iff split: if_splits PARAM_TYPE.splits option.splits)
  then show ?case using Cons by (auto simp: obind_eq_Inr_iff split: if_splits)
qed simp

lemma check_errors: "taskParamCheck fs url ty params b s e = Inr (r, n) \<Longrightarrow> r = 0 \<or> 18 \<le> r"
  by (auto simp: taskParamCheck_def Let_def err_values obind_eq_Inr_iff dest: param_errors split: if_splits option.splits)

lemma addTask_cases:
  assumes "transfer_wf m" and "addTask fs now url ty params opts m = Inr (ret, m')"
  obtains (refused) "ret < 0" "ret \<noteq> - ERR_TASK_FULL" "m' = m"
  | (full) "ret = - ERR_TASK_FULL" "m' = m" "\<forall>i < MAX_TASKQUE_SIZE. taskQue m ! i \<noteq> None"
  | (taken) i n copy where "ret = int i" "i < MAX_TASKQUE_SIZE" "taskQue m ! i = None"
      "m' = m\<lparr>curPos := (i + 1) mod MAX_TASKQUE_SIZE, maxPos := max i (maxPos m),
         taskQue := (taskQue m)[i := Some (new_task now url ty (tm_useProxy m) copy n opts)]\<rparr>"
proof -
  obtain r n where check: "taskParamCheck fs url ty params True (startSize opts) (endSize opts) = Inr (r, n)"
    using assms(2) by (auto simp: addTask_def obind_eq_Inr_iff)
  show thesis
  proof (cases "r \<noteq> 0 \<or> \<not> mgrStarted m")
    case True
    then show thesis using assms(2) check check_errors [OF check] refused
      by (auto simp: addTask_def ERR_TASK_MGR_NOT_START_def ERR_TASK_FULL_def split: if_splits)
  next
    case False
    show thesis
    proof (cases rule: findTaskPos_cases [OF assms(1)])
      case 1
      then show thesis using assms(2) check False full
        by (auto simp: addTask_def obind_eq_Inr_iff Let_def split: option.splits if_splits)
    next
      case (2 i)
      then show thesis using assms(2) check False taken [of i]
        by (auto simp: addTask_def obind_eq_Inr_iff Let_def split: option.splits if_splits)
    qed
  qed
qed

lemma addTask_wf:
  assumes "transfer_wf m" and "addTask fs now url ty params opts m = Inr (ret, m')"
  shows "transfer_wf m'"
proof (cases rule: addTask_cases [OF assms])
  case (3 i n copy)
  then show ?thesis using assms(1)
    by (auto simp: transfer_wf_def MAX_TASKQUE_SIZE_def nth_list_update le_max_iff_disj)
qed (use assms(1) in simp_all)

text \<open>
  Note: A task that is accepted gets a slot that was free, and no other slot changes; a task is refused as too
  many only when all 1024 slots are taken, and no refusal changes a slot.  The search for the slot always ends.
\<close>

theorem task_slot_allocated:
  assumes "transfer_wf m" and "addTask fs now url ty params opts m = Inr (ret, m')"
  shows "transfer_wf m' \<and>
    (if 0 \<le> ret
     then nat ret < MAX_TASKQUE_SIZE \<and> taskQue m ! nat ret = None \<and>
       (\<exists>n copy. taskQue m' = (taskQue m)[nat ret := Some (new_task now url ty (tm_useProxy m) copy n opts)])
     else taskQue m' = taskQue m \<and> (ret = - ERR_TASK_FULL \<longrightarrow> (\<forall>i < MAX_TASKQUE_SIZE. taskQue m ! i \<noteq> None)))"
  using addTask_wf [OF assms]
  by (cases rule: addTask_cases [OF assms]) (auto simp: ERR_TASK_FULL_def)

definition started_transfer :: transfer where
  "started_transfer = snd (start True True TranferManager)"

definition first_task :: task where
  "first_task = new_task 7 [104] TASK_DOWNLOAD False None 0 OPTIONS_init"

lemma started_wf: "transfer_wf started_transfer"
  unfolding started_transfer_def by (rule start_wf(2)) (rule start_wf(1))

lemma started_add:
  "addTask fs 7 [104] TASK_DOWNLOAD None OPTIONS_init started_transfer =
     Inr (0, started_transfer\<lparr>curPos := 1, maxPos := 0, taskQue := (taskQue started_transfer)[0 := Some first_task]\<rparr>)"
proof -
  have m: "mgrStarted started_transfer" "taskQue started_transfer ! 0 = None" "curPos started_transfer = 0" "maxPos started_transfer = 0"
    "\<not> tm_useProxy started_transfer"
    by (simp_all add: started_transfer_def start_def TranferManager_def MAX_TASKQUE_SIZE_def Let_def)
  then have "find_from MAX_TASKQUE_SIZE (taskQue started_transfer) 0 0 = Some (Some 0)"
    by (simp add: MAX_TASKQUE_SIZE_def find_from.simps(2) [of 1023, simplified])
  then have "findTaskPos started_transfer = (0, started_transfer\<lparr>curPos := 1, maxPos := 0\<rparr>)"
    using m by (simp add: findTaskPos_def MAX_TASKQUE_SIZE_def)
  then show ?thesis using m by (simp add: addTask_def taskParamCheck_def OPTIONS_init_def first_task_def Let_def)
qed

theorem task_slot_allocated_witness:
  "taskQue started_transfer ! 0 = None \<and>
   (\<exists>n copy. (taskQue started_transfer)[0 := Some first_task] =
      (taskQue started_transfer)[0 := Some (new_task 7 [104] TASK_DOWNLOAD (tm_useProxy started_transfer) copy n OPTIONS_init)])"
  using task_slot_allocated [OF started_wf started_add [of undefined]] by simp

section \<open>What a scan reports\<close>

datatype report = ReportInit | ReportHead | ReportProcess | ReportFinish | ReportError

type_synonym report_log = "(report \<times> nat \<times> TaskInfo) list"

text \<open>A client that writes down its callbacks.\<close>

definition log_callbacks :: "report_log CALL_BACK_S" where
  "log_callbacks =
     (let f = (\<lambda>r i info log. log @ [(r, i, info)]) in
      \<lparr>cb_init = f ReportInit, cb_headcomplete = f ReportHead, cb_process = f ReportProcess, cb_finish = f ReportFinish,
       cb_error = f ReportError\<rparr>)"

lemma log_callbacks_simps [simp]:
  "cb_init log_callbacks i info log = log @ [(ReportInit, i, info)]"
  "cb_headcomplete log_callbacks i info log = log @ [(ReportHead, i, info)]"
  "cb_process log_callbacks i info log = log @ [(ReportProcess, i, info)]"
  "cb_finish log_callbacks i info log = log @ [(ReportFinish, i, info)]"
  "cb_error log_callbacks i info log = log @ [(ReportError, i, info)]"
  by (simp_all add: log_callbacks_def Let_def)

lemmas scan_defs =
  scan_idle_def scan_connect_def scan_connectwait_def scan_auth_def scan_start_def scan_running_def scan_last_def
  set_task_def watch_task_def watch_read_def watch_write_def clearTaskInfo_def

text \<open>A visit changes no slot but its own, and puts no task into an empty slot.\<close>

definition visits :: "nat \<Rightarrow> transfer \<Rightarrow> transfer \<Rightarrow> bool" where
  "visits i m m' \<longleftrightarrow>
     length (taskQue m') = length (taskQue m) \<and> (\<forall>j. j \<noteq> i \<longrightarrow> taskQue m' ! j = taskQue m ! j) \<and>
     (i < length (taskQue m) \<longrightarrow> taskQue m ! i = None \<longrightarrow> taskQue m' ! i = None) \<and>
     curPos m' = curPos m \<and> maxPos m' = maxPos m \<and> w_stop m' = w_stop m \<and> mgrStarted m' = mgrStarted m"

lemma visits_wf: "visits i m m' \<Longrightarrow> transfer_wf m \<Longrightarrow> transfer_wf m'"
  unfolding visits_def transfer_wf_def by metis

lemma scan_state_visits:
  assumes "taskQue m ! i \<noteq> None"
  shows "visits i m (fst (scan_state cb a i t (m, c, k, room)))"
  using assms
  by (auto simp: visits_def scan_state_def scan_defs Let_def case_prod_unfold split: TaskStatus.splits option.splits)

lemma visits_trans: "visits i m m' \<Longrightarrow> visits i m' m'' \<Longrightarrow> visits i m m''"
  by (simp add: visits_def)

lemma scan_slot_visits:
  assumes "i < length (taskQue (fst st))"
  shows "visits i (fst st) (fst (scan_slot cb ans i st))"
proof (cases "taskQue (fst st) ! i")
  case None
  then show ?thesis by (simp add: scan_slot_def visits_def)
next
  case (Some t0)
  obtain m c k room where st: "st = (m, c, k, room)" by (cases st)
  define t where "t = (if taskState t0 \<noteq> TSK_IDLE then checkTimeOut (ans i) t0 else t0)"
  have m: "visits i m (set_task i t m)" using Some by (simp add: st visits_def set_task_def)
  have "visits i (set_task i t m) (fst (scan_state cb (ans i) i t (set_task i t m, c, k, room)))"
    by (rule scan_state_visits) (use assms in \<open>simp add: st set_task_def\<close>)
  moreover have "visits i (set_task i t m) (clearTaskInfo (ans i) i (set_task i t m))"
    by (auto simp: visits_def clearTaskInfo_def split: option.split)
  ultimately show ?thesis using Some visits_trans [OF m] by (simp add: scan_slot_def st t_def [symmetric] Let_def)
qed

text \<open>The slots of a scan are visited in order: the slots behind the last one visited are as before.\<close>

lemma fold_scan_visits:
  assumes "b \<le> length (taskQue (fst st))"
  shows "length (taskQue (fst (fold (scan_slot cb ans) [a..<b] st))) = length (taskQue (fst st)) \<and>
    (\<forall>j. j < a \<or> b \<le> j \<longrightarrow> taskQue (fst (fold (scan_slot cb ans) [a..<b] st)) ! j = taskQue (fst st) ! j)"
  using assms
proof (induction b)
  case (Suc b)
  show ?case
  proof (cases "a \<le> b")
    case True
    let ?st = "fold (scan_slot cb ans) [a..<b] st"
    have "length (taskQue (fst ?st)) = length (taskQue (fst st))"
      "\<And>j. j < a \<or> b \<le> j \<Longrightarrow> taskQue (fst ?st) ! j = taskQue (fst st) ! j" using Suc by auto
    moreover have "visits b (fst ?st) (fst (scan_slot cb ans b ?st))"
      by (rule scan_slot_visits) (use Suc in simp)
    ultimately show ?thesis using True by (auto simp: visits_def)
  qed simp
qed simp

lemma fold_scan_wf:
  assumes "transfer_wf (fst st)" and "b \<le> MAX_TASKQUE_SIZE"
  shows "transfer_wf (fst (fold (scan_slot cb ans) [0..<b] st)) \<and>
    maxPos (fst (fold (scan_slot cb ans) [0..<b] st)) = maxPos (fst st)"
  using assms(2)
proof (induction b)
  case (Suc b)
  let ?st = "fold (scan_slot cb ans) [0..<b] st"
  have "b < length (taskQue (fst ?st))" using Suc by (simp add: transfer_wf_def)
  then have step: "visits b (fst ?st) (fst (scan_slot cb ans b ?st))" by (rule scan_slot_visits)
  moreover have "transfer_wf (fst ?st)" "maxPos (fst ?st) = maxPos (fst st)" using Suc by simp_all
  ultimately show ?case using visits_wf [OF step] by (simp add: visits_def)
qed (use assms(1) in simp)

lemma transfer_wf_counts [simp]: "transfer_wf (m\<lparr>counts := k\<rparr>) = transfer_wf m"
  by (simp add: transfer_wf_def)

lemma scanTaskQue_fst:
  "fst (scanTaskQue cb ans (m, c)) =
     (if w_stop m then m
      else (fst (fold (scan_slot cb ans) [0..<maxPos m + 1] (m, c, no_counts, remainposition m)))
        \<lparr>counts := fst (snd (snd (fold (scan_slot cb ans) [0..<maxPos m + 1] (m, c, no_counts, remainposition m))))\<rparr>)"
  by (simp add: scanTaskQue_def case_prod_unfold Let_def)

lemma scanTaskQue_snd:
  "snd (scanTaskQue cb ans (m, c)) =
     (if w_stop m then c
      else fst (snd (fold (scan_slot cb ans) [0..<maxPos m + 1] (m, c, no_counts, remainposition m))))"
  by (simp add: scanTaskQue_def case_prod_unfold Let_def)

lemma scanTaskQue_wf: "transfer_wf m \<Longrightarrow> transfer_wf (fst (scanTaskQue cb ans (m, c)))"
  using fold_scan_wf [of "(m, c, no_counts, remainposition m)" "maxPos m + 1" cb ans]
  by (simp add: scanTaskQue_fst transfer_wf_def [of m] Suc_leI del: upt_Suc)

text \<open>What a client keeps under its callbacks it keeps under a scan.\<close>

locale transfer_client =
  fixes cb :: "'c CALL_BACK_S" and inv :: "'c \<Rightarrow> bool"
  assumes init_inv: "inv c \<Longrightarrow> inv (cb_init cb i info c)"
    and headcomplete_inv: "inv c \<Longrightarrow> inv (cb_headcomplete cb i info c)"
    and process_inv: "inv c \<Longrightarrow> inv (cb_process cb i info c)"
    and finish_inv: "inv c \<Longrightarrow> inv (cb_finish cb i info c)"
    and error_inv: "inv c \<Longrightarrow> inv (cb_error cb i info c)"
begin

lemma scan_slot_inv: "inv (fst (snd st)) \<Longrightarrow> inv (fst (snd (scan_slot cb ans i st)))"
  by (auto simp: scan_slot_def scan_state_def scan_idle_def scan_connect_def scan_connectwait_def scan_auth_def scan_start_def
      scan_running_def scan_last_def Let_def case_prod_unfold init_inv process_inv finish_inv error_inv
      split: option.splits TaskStatus.splits)

lemma fold_scan_inv: "inv (fst (snd st)) \<Longrightarrow> inv (fst (snd (fold (scan_slot cb ans) js st)))"
  by (induction js arbitrary: st) (simp_all add: scan_slot_inv)

lemma scan_inv: "inv c \<Longrightarrow> inv (snd (scanTaskQue cb ans (m, c)))"
  using fold_scan_inv [of "(m, c, no_counts, remainposition m)" ans "[0..<maxPos m + 1]"]
  by (simp add: scanTaskQue_snd del: upt_Suc)

lemma scan_socket_inv:
  assumes "inv (fst (snd st))" and "scan_socket cb ans rd wr e st = Inr st'"
  shows "inv (fst (snd st'))"
  using assms by (auto simp: scan_socket_def io_connected_def io_write_def io_auth_def io_read_def Let_def case_prod_unfold
      headcomplete_inv split: option.splits if_splits)

lemma scanIO_inv:
  assumes "inv c" and "scanIO cb ans n rd wr (m, c) = Inr (r, m', c')"
  shows "inv c'"
proof -
  have "inv (fst (snd st'))" if "ofold (scan_socket cb ans rd wr) xs (m, c, []) = Inr st'" for xs st'
    by (rule ofold_invariant [OF that]) (use assms(1) scan_socket_inv in auto)
  then show ?thesis using assms
    by (fastforce simp: scanIO_def obind_eq_Inr_iff split: if_splits)
qed

end

definition reports_of :: "nat \<Rightarrow> report_log \<Rightarrow> report_log" where
  "reports_of i log = filter (\<lambda>(r, j, info). j = i) log"

lemma reports_of_append [simp]:
  "reports_of i (xs @ ys) = reports_of i xs @ reports_of i ys" "reports_of i [(r, j, info)] = (if j = i then [(r, j, info)] else [])"
  "reports_of i [] = []"
  by (simp_all add: reports_of_def)

lemma scan_state_reports:
  "j \<noteq> i \<Longrightarrow> reports_of i (fst (snd (scan_state log_callbacks a j t (m, c, k, room)))) = reports_of i c"
  by (cases "taskState t")
    (simp_all add: scan_state_def scan_idle_def scan_connect_def scan_connectwait_def scan_auth_def scan_start_def
      scan_running_def scan_last_def Let_def case_prod_unfold)

lemma scan_slot_reports:
  "j \<noteq> i \<Longrightarrow> reports_of i (fst (snd (scan_slot log_callbacks ans j st))) = reports_of i (fst (snd st))"
  using scan_state_reports [of j i "ans j"] by (cases st) (auto simp: scan_slot_def Let_def split: option.split)

lemma fold_scan_reports:
  "i \<notin> set js \<Longrightarrow> reports_of i (fst (snd (fold (scan_slot log_callbacks ans) js st))) = reports_of i (fst (snd st))"
  by (induction js arbitrary: st) (simp_all add: scan_slot_reports)

text \<open>The visit of a task that has come to its end: the last callback, and the slot is free.\<close>

definition after_timeout :: "hcp_answers \<Rightarrow> task \<Rightarrow> task" where
  "after_timeout a t = (if taskState t \<noteq> TSK_IDLE then checkTimeOut a t else t)"

definition last_report :: "hcp_answers \<Rightarrow> nat \<Rightarrow> task \<Rightarrow> report \<times> nat \<times> TaskInfo" where
  "last_report a i t =
     (if taskState t = TSK_FINISHED then ReportFinish else ReportError, i, taskInfo (updateTaskInfo a t))"

lemma update_keeps_del [simp]: "tk_del (updateTaskInfo a t) = tk_del t" "tk_del (after_timeout a t) = tk_del t"
  by (simp_all add: updateTaskInfo_def after_timeout_def checkTimeOut_def task_error_def Let_def split: TASK_TYPE.split)

lemma scan_slot_last:
  assumes "taskQue (fst st) ! i = Some t" and "i < length (taskQue (fst st))" and "\<not> tk_del t"
    and "taskState (after_timeout (ans i) t) \<in> {TSK_FINISHED, TSK_ERROR}"
  shows "taskQue (fst (scan_slot log_callbacks ans i st)) ! i = None \<and>
    fst (snd (scan_slot log_callbacks ans i st)) = fst (snd st) @ [last_report (ans i) i (after_timeout (ans i) t)]"
proof -
  obtain m c k room where st: "st = (m, c, k, room)" by (cases st)
  have "\<not> tk_del (after_timeout (ans i) t)" using assms(3) by simp
  then show ?thesis using assms(1,2,4)
    by (auto simp: scan_slot_def st Let_def after_timeout_def [symmetric] scan_state_def scan_last_def clearTaskInfo_def
        set_task_def last_report_def)
qed

text \<open>
  C18: A task that is finished or has failed when its slot is visited, the idle time of this visit included,
  and has not been cancelled, gets in that scan exactly one callback, the finish callback with the figures of the task or the error callback,
  under its own number, and its slot is free afterwards.
\<close>

theorem task_reported_once:
  assumes "transfer_wf m" and "\<not> w_stop m" and "i < MAX_TASKQUE_SIZE" and "taskQue m ! i = Some t" and "\<not> tk_del t"
    and "taskState (after_timeout (ans i) t) \<in> {TSK_FINISHED, TSK_ERROR}"
  shows "taskQue (fst (scanTaskQue log_callbacks ans (m, []))) ! i = None \<and>
    reports_of i (snd (scanTaskQue log_callbacks ans (m, []))) = [last_report (ans i) i (after_timeout (ans i) t)]"
proof -
  let ?f = "scan_slot log_callbacks ans"
  let ?st = "(m, [], no_counts, remainposition m)"
  let ?a = "fold ?f [0..<i] ?st"
  let ?b = "?f i ?a"
  have i: "i \<le> maxPos m" and len: "length (taskQue m) = MAX_TASKQUE_SIZE" and top: "maxPos m < MAX_TASKQUE_SIZE"
    using assms(1,3,4) by (auto simp: transfer_wf_def)
  have split: "fold ?f [0..<maxPos m + 1] ?st = fold ?f [i + 1..<maxPos m + 1] ?b"
    using upt_add_eq_append [of 0 i "maxPos m + 1 - i"] upt_conv_Cons [of i "maxPos m + 1"] i by simp
  have a: "taskQue (fst ?a) ! i = Some t" "length (taskQue (fst ?a)) = MAX_TASKQUE_SIZE"
    using fold_scan_visits [of i ?st log_callbacks ans 0] assms(3,4) len by simp_all
  have b: "taskQue (fst ?b) ! i = None" "fst (snd ?b) = fst (snd ?a) @ [last_report (ans i) i (after_timeout (ans i) t)]"
    using scan_slot_last [of ?a i t ans] a assms(3,5,6) by simp_all
  have "length (taskQue (fst ?b)) = MAX_TASKQUE_SIZE"
    using scan_slot_visits [of i ?a log_callbacks ans] a(2) assms(3) by (simp add: visits_def)
  then have "taskQue (fst (fold ?f [i + 1..<maxPos m + 1] ?b)) ! i = None"
    using fold_scan_visits [of "maxPos m + 1" ?b log_callbacks ans "i + 1"] b(1) top by simp
  moreover have "reports_of i (fst (snd (fold ?f [i + 1..<maxPos m + 1] ?b))) = [last_report (ans i) i (after_timeout (ans i) t)]"
    using fold_scan_reports [of i "[i + 1..<maxPos m + 1]" ans ?b] fold_scan_reports [of i "[0..<i]" ans ?st] b(2)
    by (simp add: last_report_def del: upt_Suc)
  ultimately show ?thesis
    unfolding scanTaskQue_fst scanTaskQue_snd split using assms(2) by simp
qed

text \<open>A download that has been silent for its 30 seconds.\<close>

definition silent_answers :: hcp_answers where
  "silent_answers =
     \<lparr>an_now = 130, an_status = 200, an_hdrLen = 0, an_fd = 5, an_connect = RET_SOCKET_CONTINUE, an_check = RET_OK, an_proxyAuth = RET_OK,
      an_recvAuth = RET_OK, an_build = (RET_OK, 64), an_send = (RET_SOCKET_FINISH, 64), an_head = RET_OK, an_contentLen = 9,
      an_location = None, an_ntlmProxy = False, an_ntlm = RET_OK, an_recv = (RET_SOCKET_CONTINUE, [])\<rparr>"

definition silent_task :: task where
  "silent_task =
     (new_task 100 [104] TASK_DOWNLOAD False None 0 (OPTIONS_init\<lparr>tasktimeout := 30\<rparr>))\<lparr>taskState := TSK_RUNNING\<rparr>"

definition silent_transfer :: transfer where
  "silent_transfer = TranferManager\<lparr>mgrStarted := True, pWorker := True, taskQue := (replicate MAX_TASKQUE_SIZE None)[0 := Some silent_task]\<rparr>"

theorem task_reported_once_witness:
  "taskQue (fst (scanTaskQue log_callbacks (\<lambda>_. silent_answers) (silent_transfer, []))) ! 0 = None \<and>
   reports_of 0 (snd (scanTaskQue log_callbacks (\<lambda>_. silent_answers) (silent_transfer, []))) =
     [(ReportError, 0, taskInfo (updateTaskInfo silent_answers (after_timeout silent_answers silent_task)))] \<and>
   ti_errcode (taskInfo (updateTaskInfo silent_answers (after_timeout silent_answers silent_task))) = ERR_TASK_TIMEOUT"
proof -
  have late: "taskState (after_timeout silent_answers silent_task) = TSK_ERROR" "errcode (after_timeout silent_answers silent_task) = ERR_TASK_TIMEOUT"
    "\<not> tk_del silent_task"
    by (simp_all add: after_timeout_def silent_task_def silent_answers_def checkTimeOut_def new_task_def TTask_init_def OPTIONS_init_def
        task_error_def Let_def)
  have "transfer_wf silent_transfer" "\<not> w_stop silent_transfer" "taskQue silent_transfer ! 0 = Some silent_task"
    by (auto simp: transfer_wf_def silent_transfer_def TranferManager_def MAX_TASKQUE_SIZE_def nth_list_update)
  then show ?thesis
    using task_reported_once [of silent_transfer 0 silent_task "\<lambda>_. silent_answers"] late
    by (simp add: last_report_def MAX_TASKQUE_SIZE_def updateTaskInfo_def Let_def)
qed

section \<open>The limits on connections and redirections\<close>

text \<open>The states of the library that a client and the network can bring about.\<close>

inductive transfer_reach :: "'c CALL_BACK_S \<Rightarrow> transfer \<times> 'c \<Rightarrow> bool" for cb where
  reach_new: "transfer_reach cb (TranferManager, c)"
| reach_start: "transfer_reach cb (m, c) \<Longrightarrow> transfer_reach cb (snd (start wsa thread m), c)"
| reach_add: "transfer_reach cb (m, c) \<Longrightarrow> addTask fs now url ty params opts m = Inr (r, m') \<Longrightarrow> transfer_reach cb (m', c)"
| reach_cancel: "transfer_reach cb (m, c) \<Longrightarrow> cancelTask i m = Inr (r, m') \<Longrightarrow> transfer_reach cb (m', c)"
| reach_stop: "transfer_reach cb (m, c) \<Longrightarrow> transfer_reach cb (snd (tm_stop m), c)"
| reach_client: "transfer_reach cb (m, c) \<Longrightarrow> transfer_reach cb (m, c')"
| reach_scan: "transfer_reach cb (m, c) \<Longrightarrow> transfer_reach cb (scanTaskQue cb ans (m, c))"
| reach_io: "transfer_reach cb (m, c) \<Longrightarrow> scanIO cb ans n rd wr (m, c) = Inr (r, m', c') \<Longrightarrow> transfer_reach cb (m', c')"

text \<open>A task past its connection has made more attempts than redirections.\<close>

definition past_connect :: "task \<Rightarrow> bool" where
  "past_connect t \<longleftrightarrow> connectTimes t \<le> MAX_RETRY_CONNECT \<and> redirectionTimes t < connectTimes t"

definition task_ok :: "task \<Rightarrow> bool" where
  "task_ok t \<longleftrightarrow> connectTimes t \<le> MAX_RETRY_CONNECT \<and> redirectionTimes t \<le> connectTimes t \<and>
     (taskState t \<in> {TSK_CONNECTWAIT, TSK_AUTH, TSK_START, TSK_RUNNING} \<longrightarrow> past_connect t)"

definition tasks_ok :: "transfer \<Rightarrow> bool" where
  "tasks_ok m \<longleftrightarrow> (\<forall>i < length (taskQue m). \<forall>t. taskQue m ! i = Some t \<longrightarrow> task_ok t)"

lemma past_connect_ok: "past_connect t \<Longrightarrow> task_ok t"
  by (simp add: past_connect_def task_ok_def)

lemmas task_ops_defs =
  tryConnect_def onConnected_def checkConnectTimeout_def tryAuth_def sendHttpReq_def checkTimeOut_def
  task_error_def touch_def Let_def

lemma update_counts [simp]:
  "connectTimes (updateTaskInfo a t) = connectTimes t" "redirectionTimes (updateTaskInfo a t) = redirectionTimes t"
  "taskState (updateTaskInfo a t) = taskState t"
  by (simp_all add: updateTaskInfo_def Let_def split: TASK_TYPE.split)

lemma task_ops_ok:
  "task_ok t \<Longrightarrow> taskState t = TSK_CONNECT \<Longrightarrow> task_ok (snd (tryConnect a t))"
  "task_ok t \<Longrightarrow> task_ok (snd (checkConnectTimeout a t))"
  "task_ok t \<Longrightarrow> taskState t = TSK_AUTH \<Longrightarrow> task_ok (snd (tryAuth a t))"
  "task_ok t \<Longrightarrow> taskState t = TSK_START \<Longrightarrow> task_ok (snd (sendHttpReq a t))"
  "task_ok t \<Longrightarrow> task_ok (checkTimeOut a t)"
  "task_ok t \<Longrightarrow> task_ok (updateTaskInfo a t)"
  by (auto simp: task_ok_def past_connect_def task_ops_defs case_prod_unfold)

lemma io_ops_ok:
  "past_connect t \<Longrightarrow> past_connect (onConnected a t)"
  "past_connect t \<Longrightarrow> past_connect (snd (sendHttpReqContinue a t))"
  "past_connect t \<Longrightarrow> past_connect (snd (onAuthResp a t))"
  "past_connect t \<Longrightarrow> task_ok (snd (processHttpResp a t))"
  by (auto simp: past_connect_def task_ok_def onConnected_def sendHttpReqContinue_def onAuthResp_def processHttpResp_def
      getRealData_def processHttpRespHead_def task_error_def touch_def Let_def case_prod_unfold split: option.split)

lemma nth_update_at: "j < length xs \<Longrightarrow> xs[i := x] ! j = (if i = j then x else xs ! j)"
  by simp

lemma tasks_ok_set: "tasks_ok m \<Longrightarrow> task_ok t \<Longrightarrow> tasks_ok (set_task i t m)"
  by (auto simp: tasks_ok_def set_task_def nth_update_at split: if_splits)

lemma tasks_ok_fields [simp]:
  "tasks_ok (m\<lparr>counts := k\<rparr>) = tasks_ok m" "tasks_ok (m\<lparr>s_t_map := x\<rparr>) = tasks_ok m"
  "tasks_ok (m\<lparr>writefds := y\<rparr>) = tasks_ok m" "tasks_ok (m\<lparr>readfds := y\<rparr>) = tasks_ok m" "tasks_ok (m\<lparr>maxfd := z\<rparr>) = tasks_ok m"
  "tasks_ok (m\<lparr>w_stop := b1, pWorker := b2, mgrStarted := b3\<rparr>) = tasks_ok m"
  by (simp_all add: tasks_ok_def)

lemma tasks_ok_clear: "tasks_ok m \<Longrightarrow> tasks_ok (clearTaskInfo a i m)"
  by (auto simp: tasks_ok_def clearTaskInfo_def nth_update_at split: option.split if_splits)

lemma tasks_ok_watch [simp]:
  "tasks_ok (watch_task a i m) = tasks_ok m" "tasks_ok (watch_read a m) = tasks_ok m" "tasks_ok (watch_write a m) = tasks_ok m"
  by (simp_all add: tasks_ok_def watch_task_def watch_read_def watch_write_def)

lemma scan_state_ok:
  assumes "tasks_ok m" and "task_ok t"
  shows "tasks_ok (fst (scan_state cb a i t (m, c, k, room)))"
proof -
  have "task_ok (t\<lparr>taskState := TSK_CONNECT\<rparr>)" "task_ok (task_error e t)" "task_ok ((updateTaskInfo a t)\<lparr>respDataContent := []\<rparr>)" for e
    using assms(2) by (auto simp: task_ok_def past_connect_def task_error_def)
  then show ?thesis
    using assms task_ops_ok [OF assms(2), of a]
    by (cases "taskState t")
      (simp_all add: scan_state_def scan_idle_def scan_connect_def scan_connectwait_def scan_auth_def scan_start_def
        scan_running_def scan_last_def Let_def case_prod_unfold tasks_ok_set tasks_ok_clear)
qed

lemma scan_slot_ok:
  assumes "tasks_ok (fst st)" and "i < length (taskQue (fst st))"
  shows "tasks_ok (fst (scan_slot cb ans i st))"
proof (cases "taskQue (fst st) ! i")
  case (Some t0)
  obtain m c k room where st: "st = (m, c, k, room)" by (cases st)
  have "task_ok t0" using assms Some by (simp add: tasks_ok_def)
  then have "task_ok (if taskState t0 \<noteq> TSK_IDLE then checkTimeOut (ans i) t0 else t0)" by (simp add: task_ops_ok(5))
  then show ?thesis
    using Some assms(1) by (auto simp: scan_slot_def st Let_def intro!: tasks_ok_clear scan_state_ok tasks_ok_set)
qed (use assms(1) in \<open>simp add: scan_slot_def\<close>)

lemma fold_scan_ok:
  assumes "tasks_ok (fst st)" and "b \<le> length (taskQue (fst st))"
  shows "tasks_ok (fst (fold (scan_slot cb ans) [0..<b] st))"
  using assms(2)
proof (induction b)
  case (Suc b)
  let ?st = "fold (scan_slot cb ans) [0..<b] st"
  have "b < length (taskQue (fst ?st))" using fold_scan_visits [of b st cb ans 0] Suc.prems by simp
  then show ?case using scan_slot_ok [of ?st b] Suc by simp
qed (use assms(1) in simp)

lemma length_set_task [simp]: "length (taskQue (set_task i t m)) = length (taskQue m)"
  by (simp add: set_task_def)

lemma io_parts_ok:
  assumes "tasks_ok m" and "past_connect t"
  shows "tasks_ok (fst (io_connected a fd i t (m, c, gone)))" "tasks_ok (fst (io_write a fd i t (m, c, gone)))"
    "tasks_ok (fst (io_auth a fd i t (m, c, gone)))" "tasks_ok (fst (io_read cb a fd i t (m, c, gone)))"
proof -
  note ok = io_ops_ok(1-3) [OF assms(2), of a, THEN past_connect_ok] io_ops_ok(4) [OF assms(2), of a]
  have head: "task_ok ((updateTaskInfo a u)\<lparr>headcomplete_set := False\<rparr>)" if "task_ok u" for u
    using that by (simp add: task_ok_def past_connect_def)
  show "tasks_ok (fst (io_connected a fd i t (m, c, gone)))" "tasks_ok (fst (io_write a fd i t (m, c, gone)))"
    "tasks_ok (fst (io_auth a fd i t (m, c, gone)))" "tasks_ok (fst (io_read cb a fd i t (m, c, gone)))"
    using assms(1) ok head [OF ok(4)]
    by (simp_all add: io_connected_def io_write_def io_auth_def io_read_def Let_def case_prod_unfold tasks_ok_set)
qed

lemma io_parts_length:
  "length (taskQue (fst (io_connected a fd i t st))) = length (taskQue (fst st))"
  "length (taskQue (fst (io_write a fd i t st))) = length (taskQue (fst st))"
  "length (taskQue (fst (io_auth a fd i t st))) = length (taskQue (fst st))"
  "length (taskQue (fst (io_read cb a fd i t st))) = length (taskQue (fst st))"
  by (simp_all add: io_connected_def io_write_def io_auth_def io_read_def Let_def case_prod_unfold)

lemma io_write_task:
  "i < length (taskQue m) \<Longrightarrow> taskQue (fst (io_write a fd i t (m, c, gone))) ! i = Some (snd (sendHttpReqContinue a t))"
  by (simp add: io_write_def Let_def case_prod_unfold set_task_def)

lemma scan_socket_ok:
  assumes "tasks_ok (fst st)" and "snd e < length (taskQue (fst st))" and "scan_socket cb ans rd wr e st = Inr st'"
  shows "tasks_ok (fst st') \<and> length (taskQue (fst st')) = length (taskQue (fst st))"
proof -
  obtain fd i where e: "e = (fd, i)" by (cases e)
  obtain m c gone where st: "st = (m, c, gone)" by (cases st)
  have i: "i < length (taskQue m)" and m: "tasks_ok m" using assms(1,2) by (simp_all add: e st)
  obtain t where t: "taskQue m ! i = Some t" using assms(3) by (auto simp: scan_socket_def e st split: option.splits)
  show ?thesis
  proof (cases "taskState t \<in> {TSK_CONNECTWAIT, TSK_AUTH, TSK_START, TSK_RUNNING}")
    case True
    then have past: "past_connect t" using m i t by (auto simp: tasks_ok_def task_ok_def)
    define st1 where "st1 = (if fd \<in> set wr then io_write (ans i) fd i t st else st)"
    define t1 where "t1 = (if fd \<in> set wr then snd (sendHttpReqContinue (ans i) t) else t)"
    obtain m1 c1 gone1 where st1': "st1 = (m1, c1, gone1)" by (cases st1)
    have "taskQue (fst st1) ! i = Some t1" "past_connect t1" "tasks_ok (fst st1)" "length (taskQue (fst st1)) = length (taskQue m)"
      using io_write_task [OF i, of "ans i" fd t c gone] io_ops_ok(2) [OF past, of "ans i"]
        io_parts_ok(2) [OF m past, of "ans i" fd i c gone] io_parts_length(2) [of "ans i" fd i t st] t past m
      by (simp_all add: t1_def st1_def st)
    then have next_task: "taskQue m1 ! i = Some t1" "past_connect t1" "tasks_ok m1" "length (taskQue m1) = length (taskQue m)"
      by (simp_all add: st1')
    have "scan_socket cb ans rd wr e st =
       (if fd \<in> set wr \<and> taskState t = TSK_CONNECTWAIT then Inr (io_connected (ans i) fd i t st)
        else case taskQue (fst st1) ! i of
               None \<Rightarrow> Inl NullDeref
             | Some t1 \<Rightarrow>
                 if fd \<notin> set rd then Inr st1
                 else if taskState t1 = TSK_AUTH then Inr (io_auth (ans i) fd i t1 st1)
                 else Inr (io_read cb (ans i) fd i t1 st1))"
      unfolding scan_socket_def e st1_def Let_def st using t True by simp
    then have "st' = io_connected (ans i) fd i t st \<or> st' = st1 \<or> st' = io_auth (ans i) fd i t1 st1 \<or> st' = io_read cb (ans i) fd i t1 st1"
      using assms(3) next_task(1) by (auto simp: st1' split: if_splits)
    then show ?thesis
      using io_parts_ok(1) [OF m past] io_parts_ok(3,4) [OF next_task(3,2)] next_task(3,4)
        io_parts_length(1) [of "ans i" fd i t st] io_parts_length(3) [of "ans i" fd i t1 st1] io_parts_length(4) [of cb "ans i" fd i t1 st1]
      by (auto simp: st st1')
  qed (use assms t in \<open>auto simp: scan_socket_def e st\<close>)
qed

text \<open>The sockets of the map belong to slots.\<close>

definition sockets_ok :: "transfer \<Rightarrow> bool" where
  "sockets_ok m \<longleftrightarrow> (\<forall>(fd, i) \<in> set (s_t_map m). i < length (taskQue m))"

lemma map_put_set: "x \<in> set (map_put key k v xs) \<Longrightarrow> x = (k, v) \<or> x \<in> set xs"
  by (induction xs) (auto split: if_splits)

lemma sockets_ok_parts:
  "sockets_ok m \<Longrightarrow> sockets_ok (set_task i t m)" "sockets_ok m \<Longrightarrow> sockets_ok (clearTaskInfo a i m)"
  "sockets_ok m \<Longrightarrow> i < length (taskQue m) \<Longrightarrow> sockets_ok (watch_task a i m)"
  "sockets_ok m \<Longrightarrow> sockets_ok (watch_read a m)" "sockets_ok m \<Longrightarrow> sockets_ok (watch_write a m)"
  by (auto simp: sockets_ok_def set_task_def clearTaskInfo_def watch_task_def watch_read_def watch_write_def
      dest!: map_put_set split: option.split)

lemma sockets_ok_filter: "sockets_ok m \<Longrightarrow> sockets_ok (m\<lparr>writefds := x, s_t_map := filter P (s_t_map m)\<rparr>)"
  by (auto simp: sockets_ok_def)

lemma scan_state_sockets:
  assumes "sockets_ok m" and "i < length (taskQue m)"
  shows "sockets_ok (fst (scan_state cb a i t (m, c, k, room)))"
  by (cases "taskState t")
    (simp_all add: scan_state_def scan_idle_def scan_connect_def scan_connectwait_def scan_auth_def scan_start_def
      scan_running_def scan_last_def Let_def case_prod_unfold sockets_ok_parts sockets_ok_filter assms)

lemma scan_slot_sockets:
  assumes "sockets_ok (fst st)" and "i < length (taskQue (fst st))"
  shows "sockets_ok (fst (scan_slot cb ans i st))"
  using assms
  by (cases st) (auto simp: scan_slot_def Let_def split: option.split intro!: scan_state_sockets sockets_ok_parts)

lemma fold_scan_sockets:
  assumes "sockets_ok (fst st)" and "b \<le> length (taskQue (fst st))"
  shows "sockets_ok (fst (fold (scan_slot cb ans) [0..<b] st))"
  using assms(2)
proof (induction b)
  case (Suc b)
  let ?st = "fold (scan_slot cb ans) [0..<b] st"
  have "b < length (taskQue (fst ?st))" using fold_scan_visits [of b st cb ans 0] Suc.prems by simp
  then show ?case using scan_slot_sockets [of ?st b] Suc by simp
qed (use assms(1) in simp)

lemma io_parts_map:
  "s_t_map (fst (io_connected a fd i t st)) = s_t_map (fst st)" "s_t_map (fst (io_write a fd i t st)) = s_t_map (fst st)"
  "s_t_map (fst (io_auth a fd i t st)) = s_t_map (fst st)" "s_t_map (fst (io_read cb a fd i t st)) = s_t_map (fst st)"
  by (simp_all add: io_connected_def io_write_def io_auth_def io_read_def Let_def case_prod_unfold set_task_def)

lemma scan_socket_map: "scan_socket cb ans rd wr e st = Inr st' \<Longrightarrow> s_t_map (fst st') = s_t_map (fst st)"
  by (auto simp: scan_socket_def Let_def io_parts_map split: prod.splits option.splits if_splits)

lemma io_parts_visits:
  assumes "taskQue (fst st) ! i \<noteq> None"
  shows "visits i (fst st) (fst (io_connected a fd i t st))" "visits i (fst st) (fst (io_write a fd i t st))"
    "visits i (fst st) (fst (io_auth a fd i t st))" "visits i (fst st) (fst (io_read cb a fd i t st))"
  using assms
  by (simp_all add: visits_def io_connected_def io_write_def io_auth_def io_read_def Let_def case_prod_unfold set_task_def)

lemma scan_socket_visits:
  assumes "scan_socket cb ans rd wr e st = Inr st'"
  shows "visits (snd e) (fst st) (fst st')"
proof -
  obtain fd i where e: "e = (fd, i)" by (cases e)
  obtain t where t: "taskQue (fst st) ! i = Some t" using assms by (auto simp: scan_socket_def e split: option.splits)
  have same: "visits i (fst st) (fst st)" by (simp add: visits_def)
  define st1 where "st1 = (if fd \<in> set wr then io_write (ans i) fd i t st else st)"
  have st1: "visits i (fst st) (fst st1)" using io_parts_visits(2) [of st i] same t by (simp add: st1_def)
  show ?thesis
  proof (cases "st' = st \<or> st' = io_connected (ans i) fd i t st")
    case True
    then show ?thesis using same io_parts_visits(1) [of st i] t by (auto simp: e)
  next
    case False
    then obtain t1 where "taskQue (fst st1) ! i = Some t1"
      "st' = st1 \<or> st' = io_auth (ans i) fd i t1 st1 \<or> st' = io_read cb (ans i) fd i t1 st1"
      using assms t by (auto simp: scan_socket_def e st1_def [symmetric] Let_def split: if_splits option.splits)
    then show ?thesis using visits_trans [OF st1] io_parts_visits(3,4) [of st1 i] st1 by (auto simp: e)
  qed
qed

lemma scanIO_ok:
  assumes "transfer_wf m" and "tasks_ok m" and "sockets_ok m" and "scanIO cb ans n rd wr (m, c) = Inr (r, m', c')"
  shows "transfer_wf m' \<and> tasks_ok m' \<and> sockets_ok m'"
proof -
  let ?P = "\<lambda>st. transfer_wf (fst st) \<and> tasks_ok (fst st) \<and> s_t_map (fst st) = s_t_map m \<and> length (taskQue (fst st)) = length (taskQue m)"
  have "?P st'" if "ofold (scan_socket cb ans rd wr) (s_t_map m) (m, c, []) = Inr st'" for st'
  proof (rule ofold_invariant [OF that, of ?P])
    fix e st st' assume e: "e \<in> set (s_t_map m)" "?P st" "scan_socket cb ans rd wr e st = Inr st'"
    then have "snd e < length (taskQue (fst st))" using assms(3) by (auto simp: sockets_ok_def)
    then show "?P st'"
      using e scan_socket_ok [of st e cb ans rd wr st'] scan_socket_map [OF e(3)] visits_wf [OF scan_socket_visits [OF e(3)]] by simp
  qed (use assms(1,2) in simp)
  moreover have "transfer_wf (m1\<lparr>s_t_map := x\<rparr>) = transfer_wf m1" for m1 x by (simp add: transfer_wf_def)
  ultimately show ?thesis
    using assms by (fastforce simp: scanIO_def obind_eq_Inr_iff sockets_ok_def split: if_splits)
qed

lemma cancelTask_tasks:
  assumes "cancelTask i m = Inr (r, m')" and "tasks_ok m" and "sockets_ok m"
  shows "tasks_ok m' \<and> sockets_ok m'"
proof -
  have "task_ok (mark_del t)" if "task_ok t" for t using that by (simp add: task_ok_def past_connect_def mark_del_def)
  then show ?thesis
    using assms by (auto simp: cancelTask_def tasks_ok_def sockets_ok_def nth_update_at split: if_splits option.splits)
qed

lemma stop_tasks:
  assumes "tasks_ok m" and "sockets_ok m"
  shows "tasks_ok (snd (tm_stop m)) \<and> sockets_ok (snd (tm_stop m))"
proof -
  have "task_ok (mark_del t)" if "task_ok t" for t using that by (simp add: task_ok_def past_connect_def mark_del_def)
  then show ?thesis using assms by (auto simp: tm_stop_def tm_clear_def tasks_ok_def sockets_ok_def Let_def)
qed

lemma transfer_reach_ok:
  assumes "transfer_reach cb mc"
  shows "transfer_wf (fst mc) \<and> tasks_ok (fst mc) \<and> sockets_ok (fst mc)"
  using assms
proof induction
  case (reach_add m c fs now url ty params opts r m')
  have wf: "transfer_wf m" using reach_add.IH by simp
  show ?case
  proof (cases rule: addTask_cases [OF wf reach_add.hyps(2)])
    case (3 i n copy)
    have "task_ok (new_task now url ty (tm_useProxy m) copy n opts)"
      by (simp add: new_task_def TTask_init_def task_ok_def)
    then show ?thesis using 3 reach_add.IH addTask_wf [OF wf reach_add.hyps(2)]
      by (auto simp: tasks_ok_def sockets_ok_def nth_update_at split: if_splits)
  qed (use reach_add.IH in simp_all)
next
  case (reach_scan m c ans)
  let ?st = "(m, c, no_counts, remainposition m)"
  have "maxPos m + 1 \<le> length (taskQue m)" using reach_scan.IH by (simp add: transfer_wf_def)
  then have "tasks_ok (fst (fold (scan_slot cb ans) [0..<maxPos m + 1] ?st))"
    "sockets_ok (fst (fold (scan_slot cb ans) [0..<maxPos m + 1] ?st))"
    using reach_scan.IH fold_scan_ok [of ?st "maxPos m + 1" cb ans] fold_scan_sockets [of ?st "maxPos m + 1" cb ans] by simp_all
  moreover have "sockets_ok (x\<lparr>counts := k\<rparr>) = sockets_ok x" for x k by (simp add: sockets_ok_def)
  ultimately show ?case
    using reach_scan.IH scanTaskQue_wf [of m cb ans c] by (simp add: scanTaskQue_fst del: upt_Suc)
next
  case (reach_io m c ans n rd wr r m' c')
  then show ?case using scanIO_ok [of m cb ans n rd wr c r m' c'] by simp
next
  case (reach_cancel m c i r m')
  then show ?case using cancelTask_wf [of m i r m'] cancelTask_tasks [of i m r m'] by simp
next
  case (reach_stop m c)
  then show ?case using stop_wf [of m] stop_tasks [of m] by simp
next
  case (reach_start m c wsa thread)
  then show ?case using start_wf(2) [of m wsa thread]
    by (auto simp: start_def Let_def sockets_ok_def tasks_ok_def split: if_splits)
next
  case (reach_new c)
  have "tasks_ok TranferManager" "sockets_ok TranferManager" by (auto simp: sockets_ok_def tasks_ok_def TranferManager_def)
  then show ?case using start_wf(1) by simp
qed simp

text \<open>
  C40: Whatever the network and the client do, a task makes at most three attempts to connect, and every
  redirection needs one of them: a task that is about to send its request has been redirected at most twice.  The test against
  \<open>MAX_REDIRECTIONS\<close> is never true, and a third redirection ends as a failed connection.
\<close>

theorem redirections_cut_short:
  assumes "transfer_reach cb (m, c)" and "i < MAX_TASKQUE_SIZE" and "taskQue m ! i = Some t"
  shows "connectTimes t \<le> 3 \<and>
    (if taskState t = TSK_START then redirectionTimes t \<le> 2 else redirectionTimes t \<le> 3) \<and>
    (if taskState t = TSK_CONNECT \<and> redirectionTimes t = 3
     then taskState (snd (tryConnect a t)) = TSK_ERROR \<and> errcode (snd (tryConnect a t)) = ERR_TASK_CONNECT_FAIL else True)"
proof -
  have "task_ok t" using transfer_reach_ok [OF assms(1)] assms(2,3) by (simp add: tasks_ok_def transfer_wf_def)
  then show ?thesis
    by (auto simp: task_ok_def past_connect_def MAX_RETRY_CONNECT_def tryConnect_def task_error_def touch_def Let_def)
qed

theorem redirections_cut_short_witness:
  "connectTimes first_task \<le> 3 \<and> redirectionTimes first_task \<le> 3"
proof -
  let ?m = "started_transfer\<lparr>curPos := 1, maxPos := 0, taskQue := (taskQue started_transfer)[0 := Some first_task]\<rparr>"
  have "transfer_reach log_callbacks (started_transfer, [])"
    unfolding started_transfer_def by (rule reach_start [OF reach_new])
  then have "transfer_reach log_callbacks (?m, [])" by (rule reach_add) (rule started_add)
  moreover have "taskQue ?m ! 0 = Some first_task" using started_wf by (simp add: transfer_wf_def MAX_TASKQUE_SIZE_def)
  ultimately show ?thesis
    using redirections_cut_short [of log_callbacks ?m "[]" 0 first_task]
    by (simp add: MAX_TASKQUE_SIZE_def first_task_def new_task_def TTask_init_def)
qed

end
