(* ===== verification/Http_Client.thy ===== *)
theory Http_Client
  imports Transfer_Queue
begin

text \<open>
  The bookkeeping between the Web module and the transfer library: \<open>HTTPCONTEXT\<close> (\<open>src/src/Web/HttpContext.h\<close>), \<open>CHttpClient\<close>
  (\<open>HttpClient.cpp\<close>), which keeps the requests under way and the two maps between the numbers of requests and of tasks, and the
  callbacks the library calls (\<open>HttpHandler.cpp\<close>).  A context is owned by one place at a time, the queue of the request manager or
  \<open>m_mapRequest\<close>, so the pointers to it are the records themselves.  The callbacks and the calls of the main thread are single steps.
\<close>

section \<open>HTTPCONTEXT\<close>

datatype RequestType = ONCE_BUFFER | FRAG_BUFFER | ONCE_FILE

definition SUCCESS :: u8 where "SUCCESS = 1"
definition FAILED :: u8 where "FAILED = 0"
definition INVALID_RESP :: u32 where "INVALID_RESP = 0"
definition REPEATED_REQ :: u32 where "REPEATED_REQ = 1"
definition SUCCESS_RESP :: u32 where "SUCCESS_RESP = 2"

text \<open>\<open>hFileHandle\<close>: 0 is NULL, -1 is \<open>INVALID_HANDLE_VALUE\<close>.\<close>

record HTTPCONTEXT =
  uOpPolicy :: u32
  nEventValue :: u32
  strURL :: bytes
  eReqType :: RequestType
  pArgument :: "POST_PARAMS option"
  nTimeout :: u32
  wstrWritedFileName :: wstring
  bAllowRepeated :: bool
  uParam0 :: u64
  uParam1 :: u64
  uParam2 :: u64
  nReqSeq :: u32
  nTaskId :: u32
  uAddTime :: u64
  uEndTime :: u64
  nFailedTime :: u8
  nSpeed :: u32
  nRemainedTime :: u32
  uResult :: u8
  nErrorCode :: u32
  nHttpCode :: u32
  hFileHandle :: int
  nContentLength :: i32
  nFinishedLength :: i32
  strContentData :: bytes

definition HTTPCONTEXT_init :: "u64 \<Rightarrow> HTTPCONTEXT" where
  "HTTPCONTEXT_init now =
     \<lparr>uOpPolicy = SUCCESS_RESP, nEventValue = 0, strURL = [], eReqType = ONCE_BUFFER, pArgument = None, nTimeout = 30,
      wstrWritedFileName = [], bAllowRepeated = True, uParam0 = 0, uParam1 = 0, uParam2 = 0, nReqSeq = 0, nTaskId = 0,
      uAddTime = now, uEndTime = now, nFailedTime = 0, nSpeed = 0, nRemainedTime = 0, uResult = SUCCESS, nErrorCode = 0,
      nHttpCode = 200, hFileHandle = 0, nContentLength = 0, nFinishedLength = 0, strContentData = []\<rparr>"

text \<open>The constructor that takes the URL.\<close>

definition HTTPCONTEXT_url :: "u64 \<Rightarrow> bytes \<Rightarrow> HTTPCONTEXT" where
  "HTTPCONTEXT_url now url = (HTTPCONTEXT_init now)\<lparr>strURL := url, nTimeout := 0\<rparr>"

section \<open>Files\<close>

text \<open>The files opened so far: name, what has been written, and whether the handle is open.  Handle \<open>n + 1\<close> is entry \<open>n\<close>.
  \<open>CREATE_ALWAYS\<close> starts an empty file.  Whether \<open>CreateFile\<close> and \<open>WriteFile\<close> succeed is told by \<open>disk_answer\<close>; a write
  through a handle that is not open fails.\<close>

type_synonym disk = "(wstring \<times> bytes \<times> bool) list"

record disk_answer =
  create_ok :: bool
  write_ok :: bool

definition get_file_handle :: "disk_answer \<Rightarrow> wstring \<Rightarrow> disk \<Rightarrow> int \<times> disk" where
  "get_file_handle da name d = (if create_ok da then (int (length d) + 1, d @ [(name, [], True)]) else (-1, d))"

definition handle_open :: "int \<Rightarrow> disk \<Rightarrow> bool" where
  "handle_open h d \<longleftrightarrow> 0 < h \<and> h \<le> int (length d) \<and> snd (snd (d ! nat (h - 1)))"

definition WriteFile :: "disk_answer \<Rightarrow> int \<Rightarrow> bytes \<Rightarrow> disk \<Rightarrow> bool \<times> disk" where
  "WriteFile da h bs d =
     (if handle_open h d \<and> write_ok da
      then (True, d[nat (h - 1) := (let (name, old, op) = d ! nat (h - 1) in (name, old @ bs, op))])
      else (False, d))"

definition CloseHandle :: "int \<Rightarrow> disk \<Rightarrow> disk" where
  "CloseHandle h d =
     (if handle_open h d then d[nat (h - 1) := (let (name, old, op) = d ! nat (h - 1) in (name, old, False))] else d)"

section \<open>CHttpClient\<close>

record http_client =
  m_pTransferManager :: bool
  m_mapRequest :: "u32 \<Rightarrow> HTTPCONTEXT option"
  m_mapTaskid2Seqno :: "nat \<Rightarrow> u32 option"
  m_mapSeqNo2TaskId :: "u32 \<Rightarrow> nat option"
  m_lstResult :: "HTTPCONTEXT list"
  m_disk :: disk

type_synonym http = "transfer \<times> http_client"

text \<open>The constructor: \<open>wsa\<close> and \<open>thread\<close> decide whether the library starts.\<close>

definition CHttpClient :: "bool \<Rightarrow> bool \<Rightarrow> transfer \<Rightarrow> http" where
  "CHttpClient wsa thread m =
     (let (nRet, m1) = start wsa thread m in
      (m1, \<lparr>m_pTransferManager = (nRet = 0), m_mapRequest = (\<lambda>_. None), m_mapTaskid2Seqno = (\<lambda>_. None),
            m_mapSeqNo2TaskId = (\<lambda>_. None), m_lstResult = [], m_disk = []\<rparr>))"

definition GetContext :: "u32 \<Rightarrow> http_client \<Rightarrow> HTTPCONTEXT option" where
  "GetContext nSeqNo c = m_mapRequest c nSeqNo"

text \<open>The result is an \<open>int32\<close>; -1 for a task that is not known.\<close>

definition GetSeqNo :: "nat \<Rightarrow> http_client \<Rightarrow> u32" where
  "GetSeqNo taskid c = (case m_mapTaskid2Seqno c taskid of None \<Rightarrow> -1 | Some s \<Rightarrow> s)"

definition Cleanup :: "HTTPCONTEXT \<Rightarrow> http_client \<Rightarrow> http_client" where
  "Cleanup ctx c = c\<lparr>m_lstResult := m_lstResult c @ [ctx]\<rparr>"

definition ClearSeqIdMap :: "u32 \<Rightarrow> http \<Rightarrow> http outcome" where
  "ClearSeqIdMap nSeqNo = (\<lambda>(m, c).
     case m_mapSeqNo2TaskId c nSeqNo of
       None \<Rightarrow> Inr (m, c)
     | Some i \<Rightarrow>
         if \<not> m_pTransferManager c then Inl NullDeref
         else
           obind (cancelTask i m) (\<lambda>(r, m1).
             Inr (m1, c\<lparr>m_mapTaskid2Seqno := (m_mapTaskid2Seqno c)(i := None),
                        m_mapSeqNo2TaskId := (m_mapSeqNo2TaskId c)(nSeqNo := None)\<rparr>)))"

definition DeleteSeqNo :: "u32 \<Rightarrow> http \<Rightarrow> http outcome" where
  "DeleteSeqNo nSeqNo h =
     obind (ClearSeqIdMap nSeqNo h) (\<lambda>(m, c). Inr (m, c\<lparr>m_mapRequest := (m_mapRequest c)(nSeqNo := None)\<rparr>))"

definition CleanAll :: "http_client \<Rightarrow> http_client" where
  "CleanAll c =
     c\<lparr>m_mapRequest := (\<lambda>_. None), m_mapTaskid2Seqno := (\<lambda>_. None), m_mapSeqNo2TaskId := (\<lambda>_. None), m_lstResult := []\<rparr>"

definition request_options :: "HTTPCONTEXT \<Rightarrow> OPTIONS" where
  "request_options ctx =
     OPTIONS_init\<lparr>tasktimeout := nTimeout ctx, opt_dataClean := (eReqType ctx = ONCE_FILE \<or> eReqType ctx = FRAG_BUFFER)\<rparr>"

definition link_task :: "u32 \<Rightarrow> int \<Rightarrow> http_client \<Rightarrow> http_client" where
  "link_task nSeqNo ret c =
     c\<lparr>m_mapTaskid2Seqno := (m_mapTaskid2Seqno c)(nat ret \<mapsto> nSeqNo), m_mapSeqNo2TaskId := (m_mapSeqNo2TaskId c)(nSeqNo \<mapsto> nat ret)\<rparr>"

definition put_context :: "HTTPCONTEXT \<Rightarrow> http_client \<Rightarrow> http_client" where
  "put_context ctx c = c\<lparr>m_mapRequest := (m_mapRequest c)(nReqSeq ctx \<mapsto> ctx)\<rparr>"

text \<open>A new request.  \<open>fs\<close> are the files a parameter may name and \<open>now\<close> is the clock.\<close>

definition ReqURL :: "file_system \<Rightarrow> u64 \<Rightarrow> HTTPCONTEXT \<Rightarrow> http \<Rightarrow> (int \<times> http) outcome" where
  "ReqURL fs now ctx = (\<lambda>(m, c).
     if \<not> m_pTransferManager c then Inr (-1, m, c)
     else
       obind (addTask fs now (strURL ctx) TASK_DOWNLOAD None (request_options ctx) m) (\<lambda>(ret, m1).
         if ret < 0 then Inr (ret, m1, put_context ctx c)
         else Inr (0, m1, link_task (nReqSeq ctx) ret (put_context (ctx\<lparr>nTaskId := word_of_int ret\<rparr>) c))))"

definition ReqPostUrl :: "file_system \<Rightarrow> u64 \<Rightarrow> HTTPCONTEXT \<Rightarrow> http \<Rightarrow> (int \<times> http) outcome" where
  "ReqPostUrl fs now ctx = (\<lambda>(m, c).
     if \<not> m_pTransferManager c then Inr (-1, m, c)
     else
       case pArgument ctx of
         None \<Rightarrow> Inl NullDeref
       | Some ps \<Rightarrow>
           obind (addTask fs now (strURL ctx) (if is_uploadtype ps then TASK_UPLOAD else TASK_QUERY) (Some ps) (request_options ctx) m)
             (\<lambda>(ret, m1).
               if ret < 0 then Inr (ret, m1, put_context ctx c)
               else Inr (0, m1, link_task (nReqSeq ctx) ret (put_context (ctx\<lparr>nTaskId := word_of_int ret\<rparr>) c))))"

text \<open>A request made again: \<open>ctx\<close> is the copy that came back with the result; the number of failures goes to the context in the map, the
  number of the new task only to the copy, which is returned.\<close>

definition retry_with ::
  "file_system \<Rightarrow> u64 \<Rightarrow> TASK_TYPE \<Rightarrow> POST_PARAMS option \<Rightarrow> HTTPCONTEXT \<Rightarrow> http \<Rightarrow> (int \<times> HTTPCONTEXT \<times> http) outcome" where
  "retry_with fs now ty params ctx = (\<lambda>(m, c).
     if \<not> m_pTransferManager c then Inr (-1, ctx, m, c)
     else
       case GetContext (nReqSeq ctx) c of
         None \<Rightarrow> Inr (-1, ctx, m, c)
       | Some pCxt \<Rightarrow>
           let c1 = c\<lparr>m_mapRequest := (m_mapRequest c)(nReqSeq ctx \<mapsto> pCxt\<lparr>nFailedTime := nFailedTime ctx\<rparr>)\<rparr> in
           obind (addTask fs now (strURL ctx) ty params (request_options ctx) m) (\<lambda>(ret, m1).
             if ret < 0 then Inr (ret, ctx, m1, c1)
             else Inr (0, ctx\<lparr>nTaskId := word_of_int ret\<rparr>, m1, link_task (nReqSeq ctx) ret c1)))"

definition ReReqURL :: "file_system \<Rightarrow> u64 \<Rightarrow> HTTPCONTEXT \<Rightarrow> http \<Rightarrow> (int \<times> HTTPCONTEXT \<times> http) outcome" where
  "ReReqURL fs now ctx = retry_with fs now TASK_DOWNLOAD None ctx"

definition ReReqPostUrl :: "file_system \<Rightarrow> u64 \<Rightarrow> HTTPCONTEXT \<Rightarrow> http \<Rightarrow> (int \<times> HTTPCONTEXT \<times> http) outcome" where
  "ReReqPostUrl fs now ctx =
     retry_with fs now
       (if (case pArgument ctx of None \<Rightarrow> False | Some ps \<Rightarrow> is_uploadtype ps) then TASK_UPLOAD else TASK_QUERY) (pArgument ctx) ctx"

definition client_CancelTask :: "u32 \<Rightarrow> http \<Rightarrow> http outcome" where
  "client_CancelTask nSeqNo = (\<lambda>(m, c).
     let c1 = (case GetContext nSeqNo c of
                 Some ctx \<Rightarrow> if hFileHandle ctx \<noteq> 0 then c\<lparr>m_disk := CloseHandle (hFileHandle ctx) (m_disk c)\<rparr> else c
               | None \<Rightarrow> c) in
     case m_mapSeqNo2TaskId c1 nSeqNo of
       None \<Rightarrow> Inr (m, c1)
     | Some i \<Rightarrow>
         obind (if m_pTransferManager c1 then cancelTask i m else Inr (0, m)) (\<lambda>(r, m1).
           Inr (m1, c1\<lparr>m_mapSeqNo2TaskId := (m_mapSeqNo2TaskId c1)(nSeqNo := None),
                       m_mapTaskid2Seqno := (m_mapTaskid2Seqno c1)(i := None),
                       m_mapRequest := (m_mapRequest c1)(nSeqNo := None)\<rparr>)))"

text \<open>With no result there is, a new context marked \<open>INVALID_RESP\<close> is the answer.\<close>

definition RetriveResp :: "u64 \<Rightarrow> http_client \<Rightarrow> HTTPCONTEXT \<times> http_client" where
  "RetriveResp now c =
     (case m_lstResult c of
        [] \<Rightarrow> ((HTTPCONTEXT_init now)\<lparr>uOpPolicy := INVALID_RESP\<rparr>, c)
      | ctx # rest \<Rightarrow> (ctx, c\<lparr>m_lstResult := rest\<rparr>))"

section \<open>The callbacks\<close>

definition handle_init :: "nat \<Rightarrow> TaskInfo \<Rightarrow> http_client \<Rightarrow> http_client" where
  "handle_init taskid info c = c"

text \<open>What a callback does with the context of its task, if there is one.\<close>

definition on_context ::
  "(HTTPCONTEXT \<Rightarrow> http_client \<Rightarrow> http_client) \<Rightarrow> nat \<Rightarrow> http_client \<Rightarrow> http_client" where
  "on_context f taskid c =
     (if GetSeqNo taskid c \<noteq> -1
      then (case GetContext (GetSeqNo taskid c) c of None \<Rightarrow> c | Some ctx \<Rightarrow> f ctx c)
      else c)"

definition store_context :: "u32 \<Rightarrow> HTTPCONTEXT \<Rightarrow> http_client \<Rightarrow> http_client" where
  "store_context nSeqNo ctx c = c\<lparr>m_mapRequest := (m_mapRequest c)(nSeqNo \<mapsto> ctx)\<rparr>"

definition handle_headcomplete :: "nat \<Rightarrow> TaskInfo \<Rightarrow> http_client \<Rightarrow> http_client" where
  "handle_headcomplete taskid info c =
     on_context (\<lambda>ctx c.
       if eReqType ctx = ONCE_BUFFER then c
       else store_context (GetSeqNo taskid c) (ctx\<lparr>nContentLength := ucast (ti_contentLength info)\<rparr>) c) taskid c"

text \<open>The sizes of an upload do not count the header; the assignments cut 64 bits to 32.  \<open>clamp\<close>: \<open>handle_finish\<close> does not show
  negative sizes for a query.\<close>

definition record_sizes :: "bool \<Rightarrow> TaskInfo \<Rightarrow> HTTPCONTEXT \<Rightarrow> HTTPCONTEXT" where
  "record_sizes clamp info ctx =
     (let cut = (\<lambda>w :: i32. if clamp \<and> sint w < 0 then 0 else w) in
      if ti_taskType info = TASK_DOWNLOAD
      then ctx\<lparr>nFinishedLength := ucast (ti_doneSize info), nContentLength := ucast (ti_contentLength info)\<rparr>
      else if ti_taskType info = TASK_UPLOAD \<or> ti_taskType info = TASK_BINARY
      then ctx\<lparr>nFinishedLength := ucast (ti_doneSize info - ti_hdrLen info), nContentLength := ucast (ti_contentLength info - ti_hdrLen info)\<rparr>
      else ctx\<lparr>nFinishedLength := cut (ucast (ti_doneSize info)), nContentLength := cut (ucast (ti_contentLength info))\<rparr>)"

definition record_answer :: "bool \<Rightarrow> TaskInfo \<Rightarrow> HTTPCONTEXT \<Rightarrow> HTTPCONTEXT" where
  "record_answer clamp info ctx =
     (record_sizes clamp info (ctx\<lparr>uResult := SUCCESS, nHttpCode := ti_httpCode info, nErrorCode := word_of_int (ti_errcode info)\<rparr>))
       \<lparr>nSpeed := ucast (ti_transferSpeed info), nRemainedTime := ucast (ti_remainTime info)\<rparr>"

definition write_failed :: "HTTPCONTEXT \<Rightarrow> HTTPCONTEXT" where
  "write_failed ctx = ctx\<lparr>uResult := FAILED, nErrorCode := word_of_int ERR_TASK_WRITE_FILE_ERROR\<rparr>"

text \<open>The file is opened by the first write.\<close>

definition open_file :: "disk_answer \<Rightarrow> HTTPCONTEXT \<Rightarrow> disk \<Rightarrow> HTTPCONTEXT \<times> disk" where
  "open_file da ctx d =
     (if hFileHandle ctx = 0
      then let (h, d1) = get_file_handle da (wstrWritedFileName ctx) d in (ctx\<lparr>hFileHandle := h\<rparr>, d1)
      else (ctx, d))"

definition handle_process :: "(nat \<Rightarrow> disk_answer) \<Rightarrow> nat \<Rightarrow> TaskInfo \<Rightarrow> http_client \<Rightarrow> http_client" where
  "handle_process da taskid info c =
     on_context (\<lambda>ctx c.
       let seq = GetSeqNo taskid c; ctx1 = record_answer False info ctx in
       case eReqType ctx1 of
         ONCE_FILE \<Rightarrow>
           let (ctx2, d1) = open_file (da taskid) ctx1 (m_disk c);
               (ok, d2) = WriteFile (da taskid) (hFileHandle ctx2) (ti_respData info) d1;
               c1 = c\<lparr>m_disk := d2\<rparr> in
           if ok then store_context seq ctx2 c1 else Cleanup (write_failed ctx2) (store_context seq (write_failed ctx2) c1)
       | FRAG_BUFFER \<Rightarrow>
           let ctx2 = ctx1\<lparr>strContentData := ti_respData info, uParam0 := 0\<rparr> in Cleanup ctx2 (store_context seq ctx2 c)
       | ONCE_BUFFER \<Rightarrow> store_context seq ctx1 c) taskid c"

definition handle_finish :: "(nat \<Rightarrow> disk_answer) \<Rightarrow> nat \<Rightarrow> TaskInfo \<Rightarrow> http_client \<Rightarrow> http_client" where
  "handle_finish da taskid info c =
     on_context (\<lambda>ctx c.
       let seq = GetSeqNo taskid c; ctx1 = record_answer True info ctx in
       if eReqType ctx1 = ONCE_FILE then
         let (ctx2, d1) = open_file (da taskid) ctx1 (m_disk c);
             (ok, d2) = WriteFile (da taskid) (hFileHandle ctx2) (ti_respData info) d1;
             c1 = c\<lparr>m_disk := CloseHandle (hFileHandle ctx2) d2\<rparr>;
             ctx3 = ctx2\<lparr>hFileHandle := 0\<rparr> in
         if ok then Cleanup ctx3 (store_context seq ctx3 c1)
         else Cleanup (write_failed ctx3) (Cleanup (write_failed ctx3) (store_context seq (write_failed ctx3) c1))
       else
         let ctx2 = ctx1\<lparr>strContentData := ti_respData info, uParam2 := 1\<rparr> in Cleanup ctx2 (store_context seq ctx2 c)) taskid c"

definition handle_error :: "nat \<Rightarrow> TaskInfo \<Rightarrow> http_client \<Rightarrow> http_client" where
  "handle_error taskid info c =
     on_context (\<lambda>ctx c.
       let ctx1 = ctx\<lparr>uResult := FAILED, nHttpCode := ti_httpCode info, nErrorCode := word_of_int (ti_errcode info),
             nContentLength := ucast (ti_contentLength info), strContentData := strContentData ctx @ ti_respData info\<rparr> in
       Cleanup ctx1 (store_context (GetSeqNo taskid c) ctx1 c)) taskid c"

definition http_callbacks :: "(nat \<Rightarrow> disk_answer) \<Rightarrow> http_client CALL_BACK_S" where
  "http_callbacks da =
     \<lparr>cb_init = handle_init, cb_headcomplete = handle_headcomplete, cb_process = handle_process da, cb_finish = handle_finish da,
      cb_error = handle_error\<rparr>"

section \<open>The maps\<close>

text \<open>The map from tasks to requests is part of the inverse of the other, which leads to slots of the library and to requests that are
  kept; a context is kept under its own number.\<close>

definition client_ok :: "http_client \<Rightarrow> bool" where
  "client_ok c \<longleftrightarrow>
     (\<forall>i s. m_mapTaskid2Seqno c i = Some s \<longrightarrow> m_mapSeqNo2TaskId c s = Some i) \<and>
     (\<forall>s i. m_mapSeqNo2TaskId c s = Some i \<longrightarrow> i < MAX_TASKQUE_SIZE \<and> m_pTransferManager c \<and> m_mapRequest c s \<noteq> None) \<and>
     (\<forall>s ctx. m_mapRequest c s = Some ctx \<longrightarrow> nReqSeq ctx = s)"

definition http_ok :: "http \<Rightarrow> bool" where
  "http_ok h \<longleftrightarrow> transfer_wf (fst h) \<and> client_ok (snd h)"

lemma new_client_ok: "transfer_wf m \<Longrightarrow> http_ok (CHttpClient wsa thread m)"
  using start_wf(2) [of m wsa thread] by (simp add: http_ok_def client_ok_def CHttpClient_def case_prod_unfold Let_def)

lemma client_ok_fields [simp]:
  "client_ok (c\<lparr>m_lstResult := l\<rparr>) = client_ok c" "client_ok (c\<lparr>m_disk := d\<rparr>) = client_ok c"
  by (simp_all add: client_ok_def)

lemma Cleanup_ok [simp]: "client_ok (Cleanup ctx c) = client_ok c"
  by (simp add: Cleanup_def)

lemma store_context_ok: "client_ok c \<Longrightarrow> nReqSeq ctx = s \<Longrightarrow> client_ok (store_context s ctx c)"
  by (auto simp: client_ok_def store_context_def)

lemma ClearSeqIdMap_ok:
  assumes "http_ok h"
  obtains m c where "ClearSeqIdMap s h = Inr (m, c)" "http_ok (m, c)" "m_mapSeqNo2TaskId c s = None"
    "m_mapRequest c = m_mapRequest (snd h)" "m_lstResult c = m_lstResult (snd h)" "m_pTransferManager c = m_pTransferManager (snd h)"
    "m_disk c = m_disk (snd h)"
proof -
  obtain m c where h: "h = (m, c)" by (cases h)
  have ok: "transfer_wf m" "client_ok c" using assms by (simp_all add: http_ok_def h)
  show thesis
  proof (cases "m_mapSeqNo2TaskId c s")
    case None
    then show thesis using that [of m c] assms by (simp add: ClearSeqIdMap_def h)
  next
    case (Some i)
    then have i: "i < MAX_TASKQUE_SIZE" "m_pTransferManager c" using ok(2) by (auto simp: client_ok_def)
    obtain r m1 where m1: "cancelTask i m = Inr (r, m1)" using cancelTask_ok [OF ok(1) i(1)] by blast
    let ?c = "c\<lparr>m_mapTaskid2Seqno := (m_mapTaskid2Seqno c)(i := None), m_mapSeqNo2TaskId := (m_mapSeqNo2TaskId c)(s := None)\<rparr>"
    have "client_ok ?c" using ok(2) Some by (auto simp: client_ok_def)
    then show thesis using that [of m1 ?c] Some i(2) m1 cancelTask_wf [OF ok(1) m1] by (simp add: ClearSeqIdMap_def h http_ok_def)
  qed
qed

lemma DeleteSeqNo_ok:
  assumes "http_ok h"
  obtains h' where "DeleteSeqNo s h = Inr h'" "http_ok h'" "m_mapRequest (snd h') = (m_mapRequest (snd h))(s := None)"
    "m_lstResult (snd h') = m_lstResult (snd h)" "m_pTransferManager (snd h') = m_pTransferManager (snd h)"
    "m_disk (snd h') = m_disk (snd h)"
proof -
  obtain m c where c: "ClearSeqIdMap s h = Inr (m, c)" "http_ok (m, c)" "m_mapSeqNo2TaskId c s = None"
    "m_mapRequest c = m_mapRequest (snd h)" "m_lstResult c = m_lstResult (snd h)" "m_pTransferManager c = m_pTransferManager (snd h)"
    "m_disk c = m_disk (snd h)"
    using ClearSeqIdMap_ok [OF assms] by blast
  let ?c = "c\<lparr>m_mapRequest := (m_mapRequest c)(s := None)\<rparr>"
  have "http_ok (m, ?c)" using c(2,3) by (auto simp: http_ok_def client_ok_def)
  then show thesis using that [of "(m, ?c)"] c by (simp add: DeleteSeqNo_def)
qed

lemma link_ok:
  assumes "client_ok c" and "m_mapSeqNo2TaskId c s = None" and "0 \<le> ret" and "nat ret < MAX_TASKQUE_SIZE" and "m_pTransferManager c"
    and "m_mapRequest c s \<noteq> None"
  shows "client_ok (link_task s ret c)"
  using assms by (fastforce simp: client_ok_def link_task_def split: if_splits)

lemma put_context_ok: "client_ok c \<Longrightarrow> client_ok (put_context ctx c)"
  by (auto simp: client_ok_def put_context_def)

text \<open>The callbacks keep the maps, so a scan of the worker does.\<close>

lemma context_key: "client_ok c \<Longrightarrow> GetContext s c = Some ctx \<Longrightarrow> nReqSeq ctx = s"
  by (simp add: client_ok_def GetContext_def)

lemma record_answer_keeps [simp]:
  "nReqSeq (record_answer b info ctx) = nReqSeq ctx" "eReqType (record_answer b info ctx) = eReqType ctx"
  "hFileHandle (record_answer b info ctx) = hFileHandle ctx" "wstrWritedFileName (record_answer b info ctx) = wstrWritedFileName ctx"
  "nReqSeq (write_failed ctx) = nReqSeq ctx" "nReqSeq (fst (open_file da ctx d)) = nReqSeq ctx"
  "nFailedTime (record_answer b info ctx) = nFailedTime ctx" "strURL (record_answer b info ctx) = strURL ctx"
  by (simp_all add: record_answer_def record_sizes_def write_failed_def open_file_def Let_def case_prod_unfold)

lemma handlers_ok:
  assumes "client_ok c"
  shows "client_ok (handle_headcomplete i info c)" "client_ok (handle_process da i info c)"
    "client_ok (handle_finish da i info c)" "client_ok (handle_error i info c)"
proof -
  have key: "nReqSeq ctx = GetSeqNo i c" if "GetContext (GetSeqNo i c) c = Some ctx" for ctx
    using context_key [OF assms that] .
  have disk: "client_ok (store_context (GetSeqNo i c) ctx (c\<lparr>m_disk := d\<rparr>))" if "nReqSeq ctx = GetSeqNo i c" for ctx d
    using store_context_ok [of "c\<lparr>m_disk := d\<rparr>" ctx "GetSeqNo i c"] assms that by simp
  show "client_ok (handle_headcomplete i info c)"
    using assms key by (auto simp: handle_headcomplete_def on_context_def split: option.split intro!: store_context_ok)
  show "client_ok (handle_error i info c)"
    using assms key by (auto simp: handle_error_def on_context_def Let_def split: option.split intro!: store_context_ok)
  show "client_ok (handle_process da i info c)"
    using assms key disk
    by (auto simp: handle_process_def on_context_def Let_def case_prod_unfold split: option.split RequestType.split intro!: store_context_ok)
  show "client_ok (handle_finish da i info c)"
    using assms key disk
    by (auto simp: handle_finish_def on_context_def Let_def case_prod_unfold split: option.split intro!: store_context_ok)
qed

interpretation maps: transfer_client "http_callbacks da" client_ok
  by unfold_locales (simp_all add: http_callbacks_def handle_init_def handlers_ok)

section \<open>Downloads to a file\<close>

text \<open>Request \<open>s\<close> goes to a file whose handle is \<open>h\<close>, and task \<open>i\<close> is its transfer.\<close>

definition file_request :: "u32 \<Rightarrow> wstring \<Rightarrow> int \<Rightarrow> http_client \<Rightarrow> bool" where
  "file_request s name h c \<longleftrightarrow>
     s \<noteq> -1 \<and>
     (\<exists>ctx. m_mapRequest c s = Some ctx \<and> eReqType ctx = ONCE_FILE \<and> wstrWritedFileName ctx = name \<and> hFileHandle ctx = h)"

definition downloads :: "nat \<Rightarrow> u32 \<Rightarrow> wstring \<Rightarrow> int \<Rightarrow> http_client \<Rightarrow> bool" where
  "downloads i s name h c \<longleftrightarrow> m_mapTaskid2Seqno c i = Some s \<and> file_request s name h c"

definition disk_fine :: "nat \<Rightarrow> disk_answer" where
  "disk_fine i = \<lparr>create_ok = True, write_ok = True\<rparr>"

lemma on_context_hit:
  assumes "m_mapTaskid2Seqno c i = Some s" and "s \<noteq> -1" and "m_mapRequest c s = Some ctx"
  shows "on_context f i c = f ctx c" "GetSeqNo i c = s"
  using assms by (simp_all add: on_context_def GetSeqNo_def GetContext_def)

lemma process_first:
  assumes "downloads i s name 0 c"
  shows "downloads i s name (int (length (m_disk c)) + 1) (handle_process disk_fine i info c) \<and>
    m_disk (handle_process disk_fine i info c) = m_disk c @ [(name, ti_respData info, True)]"
proof -
  obtain ctx where c: "m_mapTaskid2Seqno c i = Some s" "s \<noteq> -1" "m_mapRequest c s = Some ctx" "eReqType ctx = ONCE_FILE"
    "wstrWritedFileName ctx = name" "hFileHandle ctx = 0" using assms by (auto simp: downloads_def file_request_def)
  then show ?thesis
    by (simp add: handle_process_def on_context_hit [OF c(1-3)] open_file_def get_file_handle_def WriteFile_def handle_open_def
        disk_fine_def store_context_def downloads_def file_request_def Let_def)
qed

lemma process_next:
  assumes "downloads i s name (int (length d) + 1) c" and "m_disk c = d @ [(name, x, True)]"
  shows "downloads i s name (int (length d) + 1) (handle_process disk_fine i info c) \<and>
    m_disk (handle_process disk_fine i info c) = d @ [(name, x @ ti_respData info, True)]"
proof -
  obtain ctx where c: "m_mapTaskid2Seqno c i = Some s" "s \<noteq> -1" "m_mapRequest c s = Some ctx" "eReqType ctx = ONCE_FILE"
    "wstrWritedFileName ctx = name" "hFileHandle ctx = int (length d) + 1" using assms(1) by (auto simp: downloads_def file_request_def)
  then show ?thesis
    by (simp add: handle_process_def on_context_hit [OF c(1-3)] open_file_def WriteFile_def handle_open_def assms(2)
        disk_fine_def store_context_def downloads_def file_request_def Let_def)
qed

lemma process_chunks:
  assumes "downloads i s name (int (length d) + 1) c" and "m_disk c = d @ [(name, x, True)]"
  shows "downloads i s name (int (length d) + 1) (fold (handle_process disk_fine i) infos c) \<and>
    m_disk (fold (handle_process disk_fine i) infos c) = d @ [(name, x @ concat (map ti_respData infos), True)]"
  using assms
proof (induction infos arbitrary: c x)
  case (Cons info infos)
  have "downloads i s name (int (length d) + 1) (handle_process disk_fine i info c)"
    "m_disk (handle_process disk_fine i info c) = d @ [(name, x @ ti_respData info, True)]"
    using process_next [OF Cons.prems] by auto
  from Cons.IH [OF this] show ?case by simp
qed simp

lemma finish_open:
  assumes "downloads i s name (int (length d) + 1) c" and "m_disk c = d @ [(name, x, True)]"
  shows "m_disk (handle_finish disk_fine i info c) = d @ [(name, x @ ti_respData info, False)]"
proof -
  obtain ctx where c: "m_mapTaskid2Seqno c i = Some s" "s \<noteq> -1" "m_mapRequest c s = Some ctx" "eReqType ctx = ONCE_FILE"
    "wstrWritedFileName ctx = name" "hFileHandle ctx = int (length d) + 1" using assms(1) by (auto simp: downloads_def file_request_def)
  then show ?thesis
    by (simp add: handle_finish_def on_context_hit [OF c(1-3)] open_file_def WriteFile_def CloseHandle_def handle_open_def assms(2)
        disk_fine_def store_context_def Cleanup_def Let_def)
qed

lemma finish_unopened:
  assumes "downloads i s name 0 c"
  shows "m_disk (handle_finish disk_fine i info c) = m_disk c @ [(name, ti_respData info, False)]"
proof -
  obtain ctx where c: "m_mapTaskid2Seqno c i = Some s" "s \<noteq> -1" "m_mapRequest c s = Some ctx" "eReqType ctx = ONCE_FILE"
    "wstrWritedFileName ctx = name" "hFileHandle ctx = 0" using assms(1) by (auto simp: downloads_def file_request_def)
  then show ?thesis
    by (simp add: handle_finish_def on_context_hit [OF c(1-3)] open_file_def get_file_handle_def WriteFile_def CloseHandle_def
        handle_open_def disk_fine_def store_context_def Cleanup_def Let_def)
qed

text \<open>
  C24: A download that goes through leaves its file with exactly the pieces the library handed over, in their order,
  the last one with the finish callback, and the file is closed.
\<close>

theorem download_saved:
  assumes "downloads i s name 0 c"
  shows "m_disk (handle_finish disk_fine i info (fold (handle_process disk_fine i) infos c)) =
    m_disk c @ [(name, concat (map ti_respData infos) @ ti_respData info, False)]"
proof (cases infos)
  case Nil
  then show ?thesis using finish_unopened [OF assms] by simp
next
  case (Cons first rest)
  let ?c = "handle_process disk_fine i first c"
  have "downloads i s name (int (length (m_disk c)) + 1) ?c" "m_disk ?c = m_disk c @ [(name, ti_respData first, True)]"
    using process_first [OF assms] by auto
  note process_chunks [OF this, of rest]
  then show ?thesis using finish_open [of i s name "m_disk c"] Cons by simp
qed

text \<open>What a failed attempt and the next one do to a download whose file is open.\<close>

lemma error_keeps_file:
  assumes "downloads i s name h c"
  shows "downloads i s name h (handle_error i info c) \<and> m_disk (handle_error i info c) = m_disk c"
proof -
  obtain ctx where c: "m_mapTaskid2Seqno c i = Some s" "s \<noteq> -1" "m_mapRequest c s = Some ctx" "eReqType ctx = ONCE_FILE"
    "wstrWritedFileName ctx = name" "hFileHandle ctx = h" using assms by (auto simp: downloads_def file_request_def)
  then show ?thesis
    by (simp add: handle_error_def on_context_hit [OF c(1-3)] store_context_def Cleanup_def downloads_def file_request_def Let_def)
qed

lemma retry_keeps_file:
  assumes "file_request s name h c" and "nReqSeq ctx = s" and "ReReqURL fs now ctx (m, c) = Inr (0, ctx', m', c')"
    and "m_pTransferManager c"
  shows "\<exists>j. m_mapSeqNo2TaskId c' s = Some j \<and> downloads j s name h c' \<and> m_disk c' = m_disk c"
proof -
  obtain pCxt where p: "m_mapRequest c s = Some pCxt" "s \<noteq> -1" "eReqType pCxt = ONCE_FILE" "wstrWritedFileName pCxt = name" "hFileHandle pCxt = h"
    using assms(1) by (auto simp: file_request_def)
  then obtain ret where "c' = link_task s ret (c\<lparr>m_mapRequest := (m_mapRequest c)(s \<mapsto> pCxt\<lparr>nFailedTime := nFailedTime ctx\<rparr>)\<rparr>)"
    using assms(2-4)
    by (auto simp: ReReqURL_def retry_with_def GetContext_def obind_eq_Inr_iff Let_def split: if_splits)
  then show ?thesis using p by (simp add: link_task_def downloads_def file_request_def)
qed

text \<open>A download whose first attempt breaks off after some pieces, and whose second attempt goes through.\<close>

lemma saved_from:
  assumes "downloads j s name (int (length d) + 1) c" and "m_disk c = d @ [(name, x, True)]"
  shows "m_disk (handle_finish disk_fine j info (fold (handle_process disk_fine j) infos c)) =
    d @ [(name, x @ concat (map ti_respData infos) @ ti_respData info, False)]"
  using process_chunks [OF assms, of infos] finish_open [of j s name d] by simp

lemma broken_off:
  assumes "downloads i s name 0 c" and "infos \<noteq> []"
  shows "downloads i s name (int (length (m_disk c)) + 1) (handle_error i err (fold (handle_process disk_fine i) infos c)) \<and>
    m_disk (handle_error i err (fold (handle_process disk_fine i) infos c)) = m_disk c @ [(name, concat (map ti_respData infos), True)]"
proof -
  obtain first rest where infos: "infos = first # rest" using assms(2) by (cases infos) auto
  let ?c = "handle_process disk_fine i first c"
  have "downloads i s name (int (length (m_disk c)) + 1) ?c" "m_disk ?c = m_disk c @ [(name, ti_respData first, True)]"
    using process_first [OF assms(1)] by auto
  from process_chunks [OF this, of rest] show ?thesis using error_keeps_file infos by fastforce
qed

text \<open>A download to the file \<open>a.exe\<close>: request 101 as task 3.\<close>

definition sample_client :: http_client where
  "sample_client =
     \<lparr>m_pTransferManager = True,
      m_mapRequest = [101 \<mapsto> (HTTPCONTEXT_init 7)\<lparr>nReqSeq := 101, strURL := [104], eReqType := ONCE_FILE, wstrWritedFileName := [97]\<rparr>],
      m_mapTaskid2Seqno = [3 \<mapsto> 101], m_mapSeqNo2TaskId = [101 \<mapsto> 3], m_lstResult = [], m_disk = []\<rparr>"

definition piece :: "bytes \<Rightarrow> TaskInfo" where
  "piece bs =
     \<lparr>ti_taskType = TASK_DOWNLOAD, ti_contentLength = 4, ti_doneSize = 2, ti_transferSpeed = 1, ti_remainTime = 2, ti_startTime = 0,
      ti_endTime = 0, ti_errcode = 0, ti_httpCode = 200, ti_hdrLen = 0, ti_respData = bs\<rparr>"

lemma sample_downloads: "downloads 3 101 [97] 0 sample_client"
  by (simp add: downloads_def file_request_def sample_client_def HTTPCONTEXT_init_def)

theorem download_saved_witness:
  "m_disk (handle_finish disk_fine 3 (piece [4]) (fold (handle_process disk_fine 3) [piece [1, 2], piece [3]] sample_client)) =
     [([97], [1, 2, 3, 4], False)]"
  using download_saved [OF sample_downloads, of "piece [4]" "[piece [1, 2], piece [3]]"] by (simp add: piece_def sample_client_def)

end
