(* ===== verification/Web_Requests.thy ===== *)
theory Web_Requests
  imports Http_Client Data_Center "HOL-Library.Signed_Division"
begin

text \<open>
  The request manager of the Web module, \<open>src/src/Web/RequestManager.cpp\<close>, and the parser of the responses, \<open>ResponseParser.cpp\<close>: a
  request gets its number and waits in a queue, is handed to the library, is made again when it fails, and ends in an event for the
  module that asked for it.  The conversions between wide and narrow strings are the parameters \<open>u2a\<close> and \<open>a2u\<close>.
\<close>

section \<open>Codes\<close>

definition INVALID_SEQNO :: u32 where "INVALID_SEQNO = 0"
definition READY_SEQNO :: u32 where "READY_SEQNO = 1"

definition WEB_RET_SUCCESS :: u32 where "WEB_RET_SUCCESS = 0"
definition WEB_RET_UNKNOWN :: u32 where "WEB_RET_UNKNOWN = 3"
definition WEB_RET_NET_ERROR_TIMEOUT :: u32 where "WEB_RET_NET_ERROR_TIMEOUT = 110"
definition WEB_RET_COMMON_NO_URL :: u32 where "WEB_RET_COMMON_NO_URL = 200"
definition WEB_RET_COMMON_METHOD_NOT_SUPPORT :: u32 where "WEB_RET_COMMON_METHOD_NOT_SUPPORT = 201"
definition WEB_RET_COMMON_NO_PERMIT :: u32 where "WEB_RET_COMMON_NO_PERMIT = 202"
definition WEB_RET_COMMON_NO_AUTH :: u32 where "WEB_RET_COMMON_NO_AUTH = 203"
definition WEB_RET_COMMON_SERVER_INTERNAL_ERROR :: u32 where "WEB_RET_COMMON_SERVER_INTERNAL_ERROR = 204"
definition WEB_RET_COMMON_SERVER_NOT_AVAIL :: u32 where "WEB_RET_COMMON_SERVER_NOT_AVAIL = 205"
definition WEB_RET_COMMON_SERVER_NOT_IMPL :: u32 where "WEB_RET_COMMON_SERVER_NOT_IMPL = 206"
definition WEB_RET_COMMON_PROXY_NEED_AUTH :: u32 where "WEB_RET_COMMON_PROXY_NEED_AUTH = 207"
definition WEB_RET_COMMON_ERROR_INTERNAL :: u32 where "WEB_RET_COMMON_ERROR_INTERNAL = 230"
definition WEB_RET_COMMON_WRITE_FILE_ERROR :: u32 where "WEB_RET_COMMON_WRITE_FILE_ERROR = 231"

lemmas web_codes =
  INVALID_SEQNO_def READY_SEQNO_def WEB_RET_SUCCESS_def WEB_RET_UNKNOWN_def WEB_RET_NET_ERROR_TIMEOUT_def WEB_RET_COMMON_NO_URL_def
  WEB_RET_COMMON_METHOD_NOT_SUPPORT_def WEB_RET_COMMON_NO_PERMIT_def WEB_RET_COMMON_NO_AUTH_def
  WEB_RET_COMMON_SERVER_INTERNAL_ERROR_def WEB_RET_COMMON_SERVER_NOT_AVAIL_def WEB_RET_COMMON_SERVER_NOT_IMPL_def
  WEB_RET_COMMON_PROXY_NEED_AUTH_def WEB_RET_COMMON_ERROR_INTERNAL_def WEB_RET_COMMON_WRITE_FILE_ERROR_def
  INVALID_RESP_def REPEATED_REQ_def SUCCESS_RESP_def SUCCESS_def FAILED_def

definition GetRetCodeByStatus :: "u32 \<Rightarrow> u32" where
  "GetRetCodeByStatus nStatusCode =
     (if nStatusCode = 200 then WEB_RET_SUCCESS
      else if nStatusCode = 401 then WEB_RET_COMMON_NO_AUTH
      else if nStatusCode = 403 then WEB_RET_COMMON_NO_PERMIT
      else if nStatusCode = 404 then WEB_RET_COMMON_NO_URL
      else if nStatusCode = 405 then WEB_RET_COMMON_METHOD_NOT_SUPPORT
      else if nStatusCode = 500 then WEB_RET_COMMON_SERVER_INTERNAL_ERROR
      else if nStatusCode = 407 then WEB_RET_COMMON_PROXY_NEED_AUTH
      else if nStatusCode = 501 then WEB_RET_COMMON_SERVER_NOT_IMPL
      else if nStatusCode = 503 then WEB_RET_COMMON_SERVER_NOT_AVAIL
      else WEB_RET_COMMON_ERROR_INTERNAL)"

text \<open>The services of the module and the events that answer them are numbered alike.\<close>

definition SERVICE_VALUE_WEB_BEGIN :: u32 where
  "SERVICE_VALUE_WEB_BEGIN = VALUE_BEGIN SERVICE_VALUE_BASE (module_value MODULE_ID_WEB)"

definition EVENT_VALUE_WEB_BEGIN :: u32 where
  "EVENT_VALUE_WEB_BEGIN = VALUE_BEGIN EVENT_VALUE_BASE (module_value MODULE_ID_WEB)"

definition web_service :: "u32 \<Rightarrow> u32" where "web_service k = SERVICE_VALUE_WEB_BEGIN + k"
definition web_event :: "u32 \<Rightarrow> u32" where "web_event k = EVENT_VALUE_WEB_BEGIN + k"

definition SERVICE_VALUE_WEB_GET_FAVICON :: u32 where "SERVICE_VALUE_WEB_GET_FAVICON = web_service 0"
definition SERVICE_VALUE_WEB_OPEN_URLTRAVELER :: u32 where "SERVICE_VALUE_WEB_OPEN_URLTRAVELER = web_service 1"
definition SERVICE_VALUE_WEB_CLOSE_URLTRAVELER :: u32 where "SERVICE_VALUE_WEB_CLOSE_URLTRAVELER = web_service 2"
definition SERVICE_VALUE_WEB_LOGININ_URLTRAVELER :: u32 where "SERVICE_VALUE_WEB_LOGININ_URLTRAVELER = web_service 3"
definition SERVICE_VALUE_WEB_LOGINOUT_URLTRAVELER :: u32 where "SERVICE_VALUE_WEB_LOGINOUT_URLTRAVELER = web_service 4"
definition SERVICE_VALUE_WEB_REPORT_USERINFO :: u32 where "SERVICE_VALUE_WEB_REPORT_USERINFO = web_service 5"
definition SERVICE_VALUE_WEB_CHECK_UPDATE_CONFIG :: u32 where "SERVICE_VALUE_WEB_CHECK_UPDATE_CONFIG = web_service 8"
definition SERVICE_VALUE_WEB_DOWNLOAD_UPDATE_FILE :: u32 where "SERVICE_VALUE_WEB_DOWNLOAD_UPDATE_FILE = web_service 9"
definition SERVICE_VALUE_WEB_QUERY_DOWNLOAD_FILE_PROESS :: u32 where "SERVICE_VALUE_WEB_QUERY_DOWNLOAD_FILE_PROESS = web_service 11"

lemmas web_values [bus_values] =
  SERVICE_VALUE_WEB_BEGIN_def EVENT_VALUE_WEB_BEGIN_def web_service_def web_event_def SERVICE_VALUE_WEB_GET_FAVICON_def
  SERVICE_VALUE_WEB_OPEN_URLTRAVELER_def SERVICE_VALUE_WEB_CLOSE_URLTRAVELER_def SERVICE_VALUE_WEB_LOGININ_URLTRAVELER_def
  SERVICE_VALUE_WEB_LOGINOUT_URLTRAVELER_def SERVICE_VALUE_WEB_REPORT_USERINFO_def SERVICE_VALUE_WEB_CHECK_UPDATE_CONFIG_def
  SERVICE_VALUE_WEB_DOWNLOAD_UPDATE_FILE_def SERVICE_VALUE_WEB_QUERY_DOWNLOAD_FILE_PROESS_def

section \<open>State\<close>

text \<open>The module with its request manager.  \<open>w_http\<close> is the HTTP client with the library.\<close>

record web =
  w_http :: http
  m_nReqSeq :: u32
  m_vRequestQueue :: "HTTPCONTEXT list"
  m_mapSeqNo2ModuleId :: "u32 \<Rightarrow> u32 option"

definition WebModule :: "bool \<Rightarrow> bool \<Rightarrow> web" where
  "WebModule wsa thread =
     \<lparr>w_http = CHttpClient wsa thread TranferManager, m_nReqSeq = 100, m_vRequestQueue = [], m_mapSeqNo2ModuleId = (\<lambda>_. None)\<rparr>"

text \<open>What the outside gives a call: the clock, the files a parameter may name, the conversions and the program version.\<close>

record web_env =
  ev_now :: u64
  ev_files :: file_system
  u2a :: "wstring \<Rightarrow> bytes"
  a2u :: "bytes \<Rightarrow> wstring"
  ev_version :: int

section \<open>CRequestManager\<close>

definition PushUrl ::
  "web_env \<Rightarrow> u32 \<Rightarrow> u64 \<Rightarrow> wstring \<Rightarrow> POST_PARAMS option \<Rightarrow> RequestType \<Rightarrow> wstring \<Rightarrow> u32 \<Rightarrow> bool \<Rightarrow> web \<Rightarrow> (u32 \<times> web) outcome" where
  "PushUrl env ev p0 url arg ty file timeout rep w =
     obind (case arg of None \<Rightarrow> Inr None | Some ps \<Rightarrow> obind (POST_PARAMS_copy ps) (\<lambda>qs. Inr (Some qs))) (\<lambda>copy.
       let seq = m_nReqSeq w + 1;
           ctx = (HTTPCONTEXT_url (ev_now env) (u2a env url))
             \<lparr>nEventValue := ev, uParam0 := p0, eReqType := ty, wstrWritedFileName := file, pArgument := copy, nTimeout := timeout,
              bAllowRepeated := rep, nReqSeq := seq\<rparr> in
       Inr (seq, w\<lparr>m_nReqSeq := seq, m_vRequestQueue := m_vRequestQueue w @ [ctx]\<rparr>))"

definition PushUrl_context :: "HTTPCONTEXT \<Rightarrow> web \<Rightarrow> u32 \<times> web" where
  "PushUrl_context ctx w =
     (let seq = m_nReqSeq w + 1 in (seq, w\<lparr>m_nReqSeq := seq, m_vRequestQueue := m_vRequestQueue w @ [ctx\<lparr>nReqSeq := seq\<rparr>]\<rparr>))"

definition PopUrl :: "web \<Rightarrow> HTTPCONTEXT option \<times> web" where
  "PopUrl w = (case m_vRequestQueue w of [] \<Rightarrow> (None, w) | ctx # rest \<Rightarrow> (Some ctx, w\<lparr>m_vRequestQueue := rest\<rparr>))"

definition IsExistUrl :: "bytes \<Rightarrow> web \<Rightarrow> bool" where
  "IsExistUrl url w \<longleftrightarrow> list_ex (\<lambda>ctx. strURL ctx = url) (m_vRequestQueue w)"

text \<open>The result of the client is not looked at.\<close>

definition ReqUrl :: "web_env \<Rightarrow> HTTPCONTEXT \<Rightarrow> web \<Rightarrow> web outcome" where
  "ReqUrl env ctx w =
     (if strURL ctx = [] then Inr w
      else if \<not> bAllowRepeated ctx \<and> IsExistUrl (strURL ctx) w then Inr w
      else
        obind (if pArgument ctx = None then ReqURL (ev_files env) (ev_now env) ctx (w_http w)
               else ReqPostUrl (ev_files env) (ev_now env) ctx (w_http w)) (\<lambda>(r, h). Inr (w\<lparr>w_http := h\<rparr>)))"

definition ReReqUrl :: "web_env \<Rightarrow> HTTPCONTEXT \<Rightarrow> http \<Rightarrow> (HTTPCONTEXT \<times> http) outcome" where
  "ReReqUrl env ctx h =
     (if strURL ctx = [] then Inr (ctx, h)
      else
        obind (ClearSeqIdMap (nReqSeq ctx) h) (\<lambda>h1.
        obind (if pArgument ctx = None then ReReqURL (ev_files env) (ev_now env) ctx h1
               else ReReqPostUrl (ev_files env) (ev_now env) ctx h1) (\<lambda>(r, ctx1, h2). Inr (ctx1, h2))))"

section \<open>CResponseParser\<close>

text \<open>The events carry the module that asked for the request, or no module.\<close>

definition asked_by :: "u32 \<Rightarrow> web \<Rightarrow> u16" where
  "asked_by seq w = (case m_mapSeqNo2ModuleId w seq of Some who \<Rightarrow> ucast who | None \<Rightarrow> ucast (module_value MODULE_ID_INVALID))"

definition NEW_RESP :: "u32 \<Rightarrow> u32 \<Rightarrow> dc_extra \<Rightarrow> HTTPCONTEXT \<Rightarrow> web \<Rightarrow> dc_extra Event" where
  "NEW_RESP k p0 x ctx w =
     MakeEvent (ucast (module_value MODULE_ID_WEB)) (web_event k) (asked_by (nReqSeq ctx) w) p0 (nSpeed ctx) (nReqSeq ctx) 0 (Some x)"

definition MAX_UPDATE_XML_LENGTH :: nat where "MAX_UPDATE_XML_LENGTH = 10240"

definition ParseGetFavIcon :: "web_env \<Rightarrow> HTTPCONTEXT \<Rightarrow> web \<Rightarrow> dc_extra request list" where
  "ParseGetFavIcon env ctx w =
     [ReqEvent (NEW_RESP 0 WEB_RET_SUCCESS (FavIconResp (STRNCPY MAX_PATH (a2u env (strURL ctx))) (strContentData ctx)) ctx w)]"

definition ParseOpenUrlTraveler :: "web_env \<Rightarrow> HTTPCONTEXT \<Rightarrow> web \<Rightarrow> dc_extra request list" where
  "ParseOpenUrlTraveler env ctx w = []"

definition ParseCloseUrlTraveler :: "web_env \<Rightarrow> HTTPCONTEXT \<Rightarrow> web \<Rightarrow> dc_extra request list" where
  "ParseCloseUrlTraveler env ctx w = []"

definition ParseCheckUpdateConfig :: "web_env \<Rightarrow> HTTPCONTEXT \<Rightarrow> web \<Rightarrow> dc_extra request list" where
  "ParseCheckUpdateConfig env ctx w =
     [ReqEvent (NEW_RESP 8 WEB_RET_SUCCESS (CheckUpdateConfigResp (STRNCPY MAX_UPDATE_XML_LENGTH (a2u env (strContentData ctx)))) ctx w)]"

definition ParseDownloadUpdateFile :: "web_env \<Rightarrow> HTTPCONTEXT \<Rightarrow> web \<Rightarrow> dc_extra request list" where
  "ParseDownloadUpdateFile env ctx w =
     (let p0 = (if uResult ctx = SUCCESS then WEB_RET_SUCCESS
                else if uResult ctx = FAILED \<and> nErrorCode ctx = word_of_int ERR_TASK_WRITE_FILE_ERROR then WEB_RET_COMMON_WRITE_FILE_ERROR
                else WEB_RET_UNKNOWN) in
      [ReqEvent (NEW_RESP 9 p0 (DownloadUpdateFileResp (ucast (uParam0 ctx))) ctx w)])"

definition parser_map :: "(u32 \<times> (web_env \<Rightarrow> HTTPCONTEXT \<Rightarrow> web \<Rightarrow> dc_extra request list) option) list" where
  "parser_map =
     handler_table [(SERVICE_VALUE_WEB_GET_FAVICON, ParseGetFavIcon), (SERVICE_VALUE_WEB_OPEN_URLTRAVELER, ParseOpenUrlTraveler),
       (SERVICE_VALUE_WEB_CLOSE_URLTRAVELER, ParseCloseUrlTraveler), (SERVICE_VALUE_WEB_CHECK_UPDATE_CONFIG, ParseCheckUpdateConfig),
       (SERVICE_VALUE_WEB_DOWNLOAD_UPDATE_FILE, ParseDownloadUpdateFile)]"

definition ParseResponse :: "web_env \<Rightarrow> HTTPCONTEXT \<Rightarrow> web \<Rightarrow> dc_extra request list" where
  "ParseResponse env ctx w = (case find_handler parser_map (nEventValue ctx) of None \<Rightarrow> [] | Some f \<Rightarrow> f env ctx w)"

section \<open>Responses\<close>

text \<open>The context that comes back, the events pushed on the way, and the module.\<close>

definition ProcessResp :: "web_env \<Rightarrow> web \<Rightarrow> (HTTPCONTEXT \<times> dc_extra request list \<times> web) outcome" where
  "ProcessResp env w =
     (let (ctx, c) = RetriveResp (ev_now env) (snd (w_http w)); h = (fst (w_http w), c); w1 = w\<lparr>w_http := h\<rparr> in
      if uOpPolicy ctx = INVALID_RESP then Inr (ctx, [], w1)
      else if strURL ctx = [] then Inr (ctx\<lparr>uOpPolicy := INVALID_RESP\<rparr>, [], w1)
      else if uResult ctx = FAILED then
        if nErrorCode ctx \<noteq> word_of_int ERR_TASK_WRITE_FILE_ERROR then
          let ctx1 = ctx\<lparr>nFailedTime := nFailedTime ctx + 1\<rparr> in
          if nFailedTime ctx1 < 3 then
            obind (ReReqUrl env ctx1 h) (\<lambda>(ctx2, h1). Inr (ctx2\<lparr>uOpPolicy := REPEATED_REQ\<rparr>, [], w1\<lparr>w_http := h1\<rparr>))
          else Inr (ctx1\<lparr>uOpPolicy := WEB_RET_NET_ERROR_TIMEOUT\<rparr>, [], w1)
        else Inr (ctx\<lparr>uOpPolicy := WEB_RET_COMMON_WRITE_FILE_ERROR\<rparr>, [], w1)
      else if nHttpCode ctx \<noteq> 200 \<and> nErrorCode ctx \<noteq> 0 then Inr (ctx\<lparr>uOpPolicy := GetRetCodeByStatus (nHttpCode ctx)\<rparr>, [], w1)
      else Inr (ctx\<lparr>uOpPolicy := SUCCESS_RESP\<rparr>, ParseResponse env ctx w1, w1))"

text \<open>\<open>QueryDownloadProcess\<close> as its only caller uses it, with all pointers set: percent, total and finished length, speed, remaining time.
  The product of the percentage is an \<open>int\<close> and wraps.\<close>

definition percent_of :: "i32 \<Rightarrow> i32 \<Rightarrow> u32" where
  "percent_of finished len =
     (if len = 0 then 0 else word_of_int (sint (finished * 100) sdiv sint len))"

definition QueryDownloadProcess :: "u32 \<Rightarrow> web \<Rightarrow> (u32 \<times> u32 \<times> u32 \<times> u32 \<times> u32) option" where
  "QueryDownloadProcess nSeqNo w =
     (case GetContext nSeqNo (snd (w_http w)) of
        None \<Rightarrow> None
      | Some ctx \<Rightarrow>
          Some (percent_of (nFinishedLength ctx) (nContentLength ctx), nContentLength ctx, nFinishedLength ctx, nSpeed ctx, nRemainedTime ctx))"

definition web_Clear :: "web \<Rightarrow> web" where
  "web_Clear w = w\<lparr>w_http := (fst (w_http w), CleanAll (snd (w_http w)))\<rparr>"

definition web_CancelTask :: "u32 \<Rightarrow> web \<Rightarrow> web outcome" where
  "web_CancelTask nSeqNo w = obind (client_CancelTask nSeqNo (w_http w)) (\<lambda>h. Inr (w\<lparr>w_http := h\<rparr>))"

end
