(* ===== verification/Web_Module.thy ===== *)
theory Web_Module
  imports Web_Requests
begin

text \<open>
  The Web module, \<open>src/src/Web/WebModule.cpp\<close>: the services by which other modules ask for something from the network, and the handler of
  the cycle message, which first takes the responses that have come in and then sends the next requests.
\<close>

section \<open>Services\<close>

text \<open>The structures of \<open>src/include/WebDefine.h\<close>.  The arrays hold C strings.\<close>

record Web_Service =
  serviceId :: u32
  sv_srcMId :: u32

record Web_GetFavIconqService = Web_Service +
  szFavoriteUrl :: wstring

record Web_ReportUserInfoService = Web_Service +
  szMachinedId :: wstring
  szOSVersion :: wstring

record Web_DownloadUpdateFileService = Web_Service +
  sv_nId :: i32
  szUpdateFileUrl :: wstring
  szSavePath :: wstring

record Web_QueryDownFileProcessService = Web_Service +
  sv_nSeqNo :: u32
  sv_uPercent :: u32
  sv_uTotalLength :: u32
  sv_uFinishedLength :: u32
  sv_uSpeed :: u32
  sv_uRemainedTime :: u32

text \<open>A request for the module \<open>who\<close>; the result of a service is a signed number.\<close>

definition request_for :: "web_env \<Rightarrow> u32 \<Rightarrow> u32 \<Rightarrow> wstring \<Rightarrow> RequestType \<Rightarrow> wstring \<Rightarrow> web \<Rightarrow> (int \<times> web) outcome" where
  "request_for env service who url ty file w =
     obind (PushUrl env service 0 url None ty file 30 True w) (\<lambda>(nSeqNo, w1).
       Inr (sint nSeqNo, if nSeqNo \<noteq> INVALID_SEQNO then w1\<lparr>m_mapSeqNo2ModuleId := (m_mapSeqNo2ModuleId w1)(nSeqNo \<mapsto> who)\<rparr> else w1))"

definition OnService_GetFavoriteIcon :: "web_env \<Rightarrow> Web_GetFavIconqService option \<Rightarrow> web \<Rightarrow> (int \<times> web) outcome" where
  "OnService_GetFavoriteIcon env p w =
     (case p of
        None \<Rightarrow> Inr (-1, w)
      | Some sv \<Rightarrow>
          if sv_srcMId sv = module_value MODULE_ID_INVALID then Inr (-1, w)
          else request_for env (serviceId sv) (sv_srcMId sv) (szFavoriteUrl sv) ONCE_BUFFER [] w)"

definition OnService_OpenUrlTraveler :: "web_env \<Rightarrow> Web_Service option \<Rightarrow> web \<Rightarrow> (int \<times> web) outcome" where
  "OnService_OpenUrlTraveler env p w =
     (case p of
        None \<Rightarrow> Inr (-1, w)
      | Some sv \<Rightarrow>
          if serviceId sv \<noteq> SERVICE_VALUE_WEB_OPEN_URLTRAVELER then Inr (-1, w)
          else request_for env (serviceId sv) (sv_srcMId sv) (wide ''http://1.urltraveler.sinaapp.com/login.php'') ONCE_BUFFER [] w)"

definition OnService_CloseUrlTraveler :: "web_env \<Rightarrow> Web_Service option \<Rightarrow> web \<Rightarrow> (int \<times> web) outcome" where
  "OnService_CloseUrlTraveler env p w =
     (case p of
        None \<Rightarrow> Inr (-1, w)
      | Some sv \<Rightarrow>
          if serviceId sv \<noteq> SERVICE_VALUE_WEB_CLOSE_URLTRAVELER then Inr (-1, w)
          else request_for env (serviceId sv) (sv_srcMId sv) (wide ''http://1.urltraveler.sinaapp.com/logout.php'') ONCE_BUFFER [] w)"

definition OnService_LoginInUrlTraveler :: "web \<Rightarrow> (int \<times> web) outcome" where
  "OnService_LoginInUrlTraveler w = Inr (-1, w)"

definition OnService_LoginOutUrlTraveler :: "web \<Rightarrow> (int \<times> web) outcome" where
  "OnService_LoginOutUrlTraveler w = Inr (-1, w)"

text \<open>The parameters are put together, but the request is made without them.\<close>

definition OnService_ReportUserInfo :: "web_env \<Rightarrow> Web_ReportUserInfoService option \<Rightarrow> web \<Rightarrow> (int \<times> web) outcome" where
  "OnService_ReportUserInfo env p w =
     (case p of
        None \<Rightarrow> Inr (-1, w)
      | Some sv \<Rightarrow>
          if serviceId sv \<noteq> SERVICE_VALUE_WEB_REPORT_USERINFO then Inr (-1, w)
          else
            let machine = u2a env (szMachinedId sv); os = u2a env (szOSVersion sv) in
            obind (add_param (bytes_of_string ''machineId'') machine (word_of_nat (length machine + 1)) PARAM_TEXT []) (\<lambda>ps.
            obind (add_param (bytes_of_string ''osVersion'') os (word_of_nat (length os + 1)) PARAM_TEXT ps) (\<lambda>httpArgument.
              request_for env (serviceId sv) (sv_srcMId sv) (wide ''http://1.urltraveler.sinaapp.com/userinfo.php'') ONCE_BUFFER [] w)))"

definition OnService_CheckUpdateConfig :: "web_env \<Rightarrow> Web_Service option \<Rightarrow> web \<Rightarrow> (int \<times> web) outcome" where
  "OnService_CheckUpdateConfig env p w =
     (case p of
        None \<Rightarrow> Inr (-1, w)
      | Some sv \<Rightarrow>
          if serviceId sv \<noteq> SERVICE_VALUE_WEB_CHECK_UPDATE_CONFIG then Inr (-1, w)
          else request_for env (serviceId sv) (sv_srcMId sv)
            (wide ''http://urltraveler.sinaapp.com/getversion.php?type=copy&clientVersion='' @ a2u env (ConvertFromInt (ev_version env)))
            ONCE_BUFFER [] w)"

definition OnService_DownloadUpdateFile :: "web_env \<Rightarrow> Web_DownloadUpdateFileService option \<Rightarrow> web \<Rightarrow> (int \<times> web) outcome" where
  "OnService_DownloadUpdateFile env p w =
     (case p of
        None \<Rightarrow> Inr (-1, w)
      | Some sv \<Rightarrow>
          if serviceId sv \<noteq> SERVICE_VALUE_WEB_DOWNLOAD_UPDATE_FILE then Inr (-1, w)
          else request_for env (serviceId sv) (sv_srcMId sv) (a2u env (u2a env (szUpdateFileUrl sv))) ONCE_FILE (szSavePath sv) w)"

text \<open>The figures go back through the structure of the caller.\<close>

definition OnService_QueryDownloadUpdateFileProcess ::
  "Web_QueryDownFileProcessService option \<Rightarrow> web \<Rightarrow> int \<times> Web_QueryDownFileProcessService option" where
  "OnService_QueryDownloadUpdateFileProcess p w =
     (case p of
        None \<Rightarrow> (-1, p)
      | Some sv \<Rightarrow>
          if serviceId sv \<noteq> SERVICE_VALUE_WEB_QUERY_DOWNLOAD_FILE_PROESS then (-1, p)
          else (case QueryDownloadProcess (sv_nSeqNo sv) w of
                  None \<Rightarrow> (sint INVALID_SEQNO, p)
                | Some (percent, whole, finished, speed, remain) \<Rightarrow>
                    (sint READY_SEQNO,
                     Some (sv\<lparr>sv_uPercent := percent, sv_uTotalLength := whole, sv_uFinishedLength := finished, sv_uSpeed := speed,
                              sv_uRemainedTime := remain\<rparr>))))"

text \<open>The parameter of \<open>CallDirect\<close> is a bare pointer; a handler that gets a structure it does not expect reads through a bad
  pointer.  The structure comes back, since a query writes to it.\<close>

datatype web_param =
    ParamService "Web_Service option"
  | ParamFavIcon "Web_GetFavIconqService option"
  | ParamUserInfo "Web_ReportUserInfoService option"
  | ParamUpdateFile "Web_DownloadUpdateFileService option"
  | ParamQuery "Web_QueryDownFileProcessService option"

type_synonym web_call = "(int \<times> web_param \<times> web) outcome"

definition with_param :: "web_param \<Rightarrow> (int \<times> web) outcome \<Rightarrow> web_call" where
  "with_param p r = obind r (\<lambda>(n, w). Inr (n, p, w))"

definition web_serviceMap :: "web_env \<Rightarrow> (u32 \<times> (web_param \<Rightarrow> web \<Rightarrow> web_call) option) list" where
  "web_serviceMap env =
     handler_table
      [(SERVICE_VALUE_WEB_GET_FAVICON,
          \<lambda>p w. case p of ParamFavIcon q \<Rightarrow> with_param p (OnService_GetFavoriteIcon env q w) | _ \<Rightarrow> Inl BadPointer),
       (SERVICE_VALUE_WEB_OPEN_URLTRAVELER,
          \<lambda>p w. case p of ParamService q \<Rightarrow> with_param p (OnService_OpenUrlTraveler env q w) | _ \<Rightarrow> Inl BadPointer),
       (SERVICE_VALUE_WEB_CLOSE_URLTRAVELER,
          \<lambda>p w. case p of ParamService q \<Rightarrow> with_param p (OnService_CloseUrlTraveler env q w) | _ \<Rightarrow> Inl BadPointer),
       (SERVICE_VALUE_WEB_LOGININ_URLTRAVELER, \<lambda>p w. with_param p (OnService_LoginInUrlTraveler w)),
       (SERVICE_VALUE_WEB_LOGINOUT_URLTRAVELER, \<lambda>p w. with_param p (OnService_LoginOutUrlTraveler w)),
       (SERVICE_VALUE_WEB_REPORT_USERINFO,
          \<lambda>p w. case p of ParamUserInfo q \<Rightarrow> with_param p (OnService_ReportUserInfo env q w) | _ \<Rightarrow> Inl BadPointer),
       (SERVICE_VALUE_WEB_CHECK_UPDATE_CONFIG,
          \<lambda>p w. case p of ParamService q \<Rightarrow> with_param p (OnService_CheckUpdateConfig env q w) | _ \<Rightarrow> Inl BadPointer),
       (SERVICE_VALUE_WEB_DOWNLOAD_UPDATE_FILE,
          \<lambda>p w. case p of ParamUpdateFile q \<Rightarrow> with_param p (OnService_DownloadUpdateFile env q w) | _ \<Rightarrow> Inl BadPointer),
       (SERVICE_VALUE_WEB_QUERY_DOWNLOAD_FILE_PROESS,
          \<lambda>p w. case p of
                  ParamQuery q \<Rightarrow> let (n, q1) = OnService_QueryDownloadUpdateFileProcess q w in Inr (n, ParamQuery q1, w)
                | _ \<Rightarrow> Inl BadPointer)]"

definition web_CallDirect :: "web_env \<Rightarrow> u32 \<Rightarrow> web_param \<Rightarrow> web \<Rightarrow> web_call" where
  "web_CallDirect env v p w =
     (if v = -1 \<or> v = 0 then Inr (-1, p, w)
      else case find_handler (web_serviceMap env) v of None \<Rightarrow> Inr (-1, p, w) | Some f \<Rightarrow> f p w)"

section \<open>The cycle\<close>

definition failure_event :: "HTTPCONTEXT \<Rightarrow> web \<Rightarrow> dc_extra Event" where
  "failure_event ctx w =
     MakeEvent (ucast (module_value MODULE_ID_WEB)) (nEventValue ctx - SERVICE_VALUE_WEB_BEGIN + EVENT_VALUE_WEB_BEGIN)
       (asked_by (nReqSeq ctx) w) (uOpPolicy ctx) 0 (nReqSeq ctx) 0 None"

definition delete_request :: "u32 \<Rightarrow> web \<Rightarrow> web outcome" where
  "delete_request seq w = obind (DeleteSeqNo seq (w_http w)) (\<lambda>h. Inr (w\<lparr>w_http := h\<rparr>))"

text \<open>What is done with a response that is neither missing nor repeated.\<close>

definition conclude :: "HTTPCONTEXT \<Rightarrow> web \<Rightarrow> (dc_extra request list \<times> web) outcome" where
  "conclude ctx w =
     (if uOpPolicy ctx = SUCCESS_RESP then
        if eReqType ctx = FRAG_BUFFER \<and> uParam2 ctx \<noteq> 1 then Inr ([], w)
        else obind (delete_request (nReqSeq ctx) w) (\<lambda>w1. Inr ([], w1))
      else obind (delete_request (nReqSeq ctx) w) (\<lambda>w1. Inr ([ReqEvent (failure_event ctx w)], w1)))"

text \<open>The loop of \<open>ProcessGetResponse\<close>; \<open>n\<close> is \<open>uNum\<close>.  The response is taken before the count is looked at.\<close>

function responses :: "web_env \<Rightarrow> nat \<Rightarrow> web \<Rightarrow> (dc_extra request list \<times> web) outcome" where
  "responses env n w =
     obind (ProcessResp env w) (\<lambda>(ctx, rs, w1).
       if n > 10 then Inr (rs, w1)
       else if uOpPolicy ctx = INVALID_SEQNO then Inr (rs, w1)
       else if uOpPolicy ctx = REPEATED_REQ then obind (responses env (n + 1) w1) (\<lambda>(qs, w2). Inr (rs @ qs, w2))
       else
         obind (conclude ctx w1) (\<lambda>(ps, w2).
         obind (responses env (n + 1) w2) (\<lambda>(qs, w3). Inr (rs @ ps @ qs, w3))))"
  by pat_completeness auto

termination by (relation "measure (\<lambda>(env, n, w). 12 - n)") auto

declare responses.simps [simp del]

definition ProcessGetResponse :: "web_env \<Rightarrow> web \<Rightarrow> (dc_extra request list \<times> web) outcome" where
  "ProcessGetResponse env w = responses env 0 w"

definition send_next :: "web_env \<Rightarrow> web \<Rightarrow> web outcome" where
  "send_next env w = (case PopUrl w of (None, w1) \<Rightarrow> Inr w1 | (Some ctx, w1) \<Rightarrow> ReqUrl env ctx w1)"

definition ProcessSendUrl :: "web_env \<Rightarrow> web \<Rightarrow> web outcome" where
  "ProcessSendUrl env w = obind (send_next env w) (\<lambda>w1. obind (send_next env w1) (send_next env))"

definition OnMessage_CycleTrigged :: "web_env \<Rightarrow> web \<Rightarrow> (dc_extra request list \<times> web) outcome" where
  "OnMessage_CycleTrigged env w =
     obind (ProcessGetResponse env w) (\<lambda>(rs, w1). obind (ProcessSendUrl env w1) (\<lambda>w2. Inr (rs, w2)))"

text \<open>The module on the bus: it has a message map only; after a fault it does nothing any more.\<close>

fun on_web :: "web_env \<Rightarrow> dc_extra Message \<Rightarrow> web outcome \<times> 'o \<Rightarrow> (web outcome \<times> 'o) \<times> dc_extra request list" where
  "on_web env msg (Inl f, x) = ((Inl f, x), [])"
| "on_web env msg (Inr w, x) = (case OnMessage_CycleTrigged env w of Inl f \<Rightarrow> ((Inl f, x), []) | Inr (rs, w1) \<Rightarrow> ((Inr w1, x), rs))"

definition web_maps :: "web_env \<Rightarrow> (dc_extra, web outcome \<times> 'o) module_maps" where
  "web_maps env = \<lparr>m_eventMap = [], m_messageMap = handler_table [(MESSAGE_VALUE_CORE_CYCLE_TRIGGER, on_web env)]\<rparr>"

end
