(* ===== verification/Web_Safety.thy ===== *)
theory Web_Safety
  imports Web_Module
begin

text \<open>
  What holds of the Web module in every state it can get into, with the worker of the library running between its calls: no call fails,
  the maps between requests and tasks stay consistent, and no request is made more than three times.
\<close>

section \<open>The invariant\<close>

definition good_context :: "HTTPCONTEXT \<Rightarrow> bool" where
  "good_context ctx \<longleftrightarrow> pArgument ctx = None \<and> nFailedTime ctx < 3"

text \<open>The requests under way are among \<open>D\<close>.\<close>

definition client_inv :: "u32 set \<Rightarrow> http_client \<Rightarrow> bool" where
  "client_inv D c \<longleftrightarrow> client_ok c \<and> dom (m_mapRequest c) \<subseteq> D \<and> (\<forall>ctx \<in> ran (m_mapRequest c). good_context ctx) \<and>
     (\<forall>ctx \<in> set (m_lstResult c). good_context ctx)"

definition sent_by :: "web \<Rightarrow> u32 set" where
  "sent_by w = {s. s \<le> m_nReqSeq w \<and> s \<notin> nReqSeq ` set (m_vRequestQueue w)}"

definition web_ok :: "web \<Rightarrow> bool" where
  "web_ok w \<longleftrightarrow> transfer_wf (fst (w_http w)) \<and> client_inv (sent_by w) (snd (w_http w)) \<and>
     distinct (map nReqSeq (m_vRequestQueue w)) \<and>
     (\<forall>ctx \<in> set (m_vRequestQueue w). nReqSeq ctx \<le> m_nReqSeq w \<and> good_context ctx)"

lemma web_ok_http: "web_ok w \<Longrightarrow> http_ok (w_http w)"
  by (simp add: web_ok_def http_ok_def client_inv_def)

lemma good_fields [simp]:
  "good_context (record_answer b info ctx) = good_context ctx" "good_context (write_failed ctx) = good_context ctx"
  "good_context (fst (open_file da ctx d)) = good_context ctx"
  by (simp_all add: good_context_def record_answer_def record_sizes_def write_failed_def open_file_def Let_def case_prod_unfold)

lemma ran_upd_subset: "x \<in> ran (f(k := v)) \<Longrightarrow> v = Some x \<or> x \<in> ran f"
  by (auto simp: ran_def split: if_splits)

lemma client_inv_store:
  assumes "client_inv D c" and "m_mapRequest c s \<noteq> None" and "nReqSeq ctx = s" and "good_context ctx"
  shows "client_inv D (store_context s ctx c)" "client_inv D (Cleanup ctx (store_context s ctx c))" "client_inv D (store_context s ctx (c\<lparr>m_disk := d\<rparr>))"
    "client_inv D (Cleanup ctx (store_context s ctx (c\<lparr>m_disk := d\<rparr>)))" "client_inv D (Cleanup ctx (Cleanup ctx (store_context s ctx (c\<lparr>m_disk := d\<rparr>))))"
proof -
  have ok: "client_ok c" using assms(1) by (simp add: client_inv_def)
  then have "client_ok (store_context s ctx c)" "client_ok (store_context s ctx (c\<lparr>m_disk := d\<rparr>))" using assms(3) by (simp_all add: store_context_ok)
  then show "client_inv D (store_context s ctx c)" "client_inv D (Cleanup ctx (store_context s ctx c))" "client_inv D (store_context s ctx (c\<lparr>m_disk := d\<rparr>))"
    "client_inv D (Cleanup ctx (store_context s ctx (c\<lparr>m_disk := d\<rparr>)))" "client_inv D (Cleanup ctx (Cleanup ctx (store_context s ctx (c\<lparr>m_disk := d\<rparr>))))"
    using assms unfolding client_inv_def by (auto simp: store_context_def Cleanup_def dest!: ran_upd_subset)
qed

lemma handlers_inv:
  assumes "client_inv D c"
  shows "client_inv D (handle_headcomplete i info c)" "client_inv D (handle_process da i info c)"
    "client_inv D (handle_finish da i info c)" "client_inv D (handle_error i info c)"
proof -
  have key: "nReqSeq ctx = GetSeqNo i c \<and> m_mapRequest c (GetSeqNo i c) \<noteq> None \<and> good_context ctx"
    if "GetContext (GetSeqNo i c) c = Some ctx" for ctx
    using that assms context_key [of c "GetSeqNo i c" ctx] by (auto simp: client_inv_def GetContext_def ran_def)
  have plain: "good_context (ctx\<lparr>nContentLength := n\<rparr>) = good_context ctx" "good_context (ctx\<lparr>hFileHandle := h\<rparr>) = good_context ctx"
    "good_context (ctx\<lparr>strContentData := bs, uParam0 := p\<rparr>) = good_context ctx" "good_context (ctx\<lparr>strContentData := bs, uParam2 := p\<rparr>) = good_context ctx"
    "good_context (ctx\<lparr>uResult := r, nHttpCode := k, nErrorCode := k', nContentLength := n, strContentData := bs\<rparr>) = good_context ctx"
    for ctx n h bs p r k k' by (simp_all add: good_context_def)
  note here = client_inv_store [OF assms]
  show "client_inv D (handle_headcomplete i info c)"
    using assms key by (auto simp: handle_headcomplete_def on_context_def plain split: option.split intro!: here)
  show "client_inv D (handle_error i info c)"
    using assms key by (auto simp: handle_error_def on_context_def Let_def plain split: option.split intro!: here)
  show "client_inv D (handle_process da i info c)"
    using assms key
    by (auto simp: handle_process_def on_context_def Let_def case_prod_unfold plain split: option.split RequestType.split intro!: here)
  show "client_inv D (handle_finish da i info c)"
    using assms key
    by (auto simp: handle_finish_def on_context_def Let_def case_prod_unfold plain split: option.split intro!: here)
qed

interpretation requests: transfer_client "http_callbacks da" "client_inv D"
  by unfold_locales (simp_all add: http_callbacks_def handle_init_def handlers_inv)

section \<open>The operations\<close>

lemma addTask_download: "\<exists>ret m'. addTask fs now url TASK_DOWNLOAD None opts m = Inr (ret, m')"
  by (auto simp: addTask_def taskParamCheck_def Let_def case_prod_unfold)

lemma addTask_slot:
  assumes "transfer_wf m" and "addTask fs now url ty params opts m = Inr (ret, m')" and "0 \<le> ret"
  shows "nat ret < MAX_TASKQUE_SIZE"
  by (cases rule: addTask_cases [OF assms(1,2)]) (use assms(3) in \<open>auto simp: ERR_TASK_FULL_def\<close>)

lemma client_inv_mono: "client_inv D c \<Longrightarrow> D \<subseteq> E \<Longrightarrow> client_inv E c"
  by (auto simp: client_inv_def)

lemma client_inv_put:
  assumes "client_inv D c" and "good_context ctx"
  shows "client_inv (insert (nReqSeq ctx) D) (put_context ctx c)"
  using assms put_context_ok [of c ctx] unfolding client_inv_def
  by (auto simp: put_context_def dest!: ran_upd_subset)

lemma client_inv_link:
  assumes "client_inv D c" and "client_ok (link_task s ret c)"
  shows "client_inv D (link_task s ret c)"
  using assms by (simp add: client_inv_def link_task_def)

lemma ReqURL_inv:
  assumes "transfer_wf m" and "client_inv D c" and "m_mapRequest c (nReqSeq ctx) = None" and "good_context ctx"
  shows "\<exists>r m' c'. ReqURL fs now ctx (m, c) = Inr (r, m', c') \<and> transfer_wf m' \<and> client_inv (insert (nReqSeq ctx) D) c'"
proof (cases "m_pTransferManager c")
  case True
  obtain ret m' where add: "addTask fs now (strURL ctx) TASK_DOWNLOAD None (request_options ctx) m = Inr (ret, m')"
    using addTask_download by blast
  have wf: "transfer_wf m'" using addTask_wf [OF assms(1) add] .
  have inv: "client_inv (insert (nReqSeq ctx) D) (put_context (ctx\<lparr>nTaskId := t\<rparr>) c)" for t
    using client_inv_put [OF assms(2), of "ctx\<lparr>nTaskId := t\<rparr>"] assms(4) by (simp add: good_context_def)
  show ?thesis
  proof (cases "ret < 0")
    case True
    then show ?thesis using add wf \<open>m_pTransferManager c\<close> client_inv_put [OF assms(2,4)] by (simp add: ReqURL_def)
  next
    case False
    have none: "m_mapSeqNo2TaskId c (nReqSeq ctx) = None"
    proof (rule ccontr)
      assume "m_mapSeqNo2TaskId c (nReqSeq ctx) \<noteq> None"
      then show False using assms(2,3) unfolding client_inv_def client_ok_def by blast
    qed
    have "client_ok (link_task (nReqSeq ctx) ret (put_context (ctx\<lparr>nTaskId := word_of_int ret\<rparr>) c))"
      by (rule link_ok)
        (use inv none False True addTask_slot [OF assms(1) add] in \<open>auto simp: client_inv_def put_context_def\<close>)
    then show ?thesis using add wf True False client_inv_link [OF inv] by (simp add: ReqURL_def)
  qed
qed (use assms client_inv_mono [of D c "insert (nReqSeq ctx) D"] in \<open>auto simp: ReqURL_def\<close>)

lemma ReReqURL_inv:
  assumes "transfer_wf m" and "client_inv D c" and "m_mapSeqNo2TaskId c (nReqSeq ctx) = None" and "good_context ctx"
  shows "\<exists>r ctx' m' c'. ReReqURL fs now ctx (m, c) = Inr (r, ctx', m', c') \<and> transfer_wf m' \<and> client_inv D c'"
proof (cases "m_pTransferManager c")
  case True
  show ?thesis
  proof (cases "GetContext (nReqSeq ctx) c")
    case None
    then show ?thesis using True assms by (simp add: ReReqURL_def retry_with_def)
  next
    case (Some pCxt)
    let ?p = "pCxt\<lparr>nFailedTime := nFailedTime ctx\<rparr>"
    let ?c = "c\<lparr>m_mapRequest := (m_mapRequest c)(nReqSeq ctx \<mapsto> ?p)\<rparr>"
    obtain ret m' where add: "addTask fs now (strURL ctx) TASK_DOWNLOAD None (request_options ctx) m = Inr (ret, m')"
      using addTask_download by blast
    have p: "m_mapRequest c (nReqSeq ctx) = Some pCxt" "nReqSeq pCxt = nReqSeq ctx" "good_context ?p"
      using Some assms(2,4) context_key [of c "nReqSeq ctx" pCxt] by (auto simp: GetContext_def client_inv_def good_context_def ran_def)
    then have inv: "client_inv D ?c"
      using client_inv_store(1) [OF assms(2), of "nReqSeq ctx" ?p] by (simp add: store_context_def)
    show ?thesis
    proof (cases "ret < 0")
      case True
      then show ?thesis using add addTask_wf [OF assms(1) add] inv Some \<open>m_pTransferManager c\<close>
        by (simp add: ReReqURL_def retry_with_def Let_def)
    next
      case False
      have "client_ok (link_task (nReqSeq ctx) ret ?c)"
        by (rule link_ok) (use inv assms(3) False True addTask_slot [OF assms(1) add] in \<open>auto simp: client_inv_def\<close>)
      then show ?thesis using add addTask_wf [OF assms(1) add] Some True False client_inv_link [OF inv]
        by (simp add: ReReqURL_def retry_with_def Let_def)
    qed
  qed
qed (use assms in \<open>simp add: ReReqURL_def retry_with_def\<close>)

lemma ClearSeqIdMap_inv:
  assumes "transfer_wf m" and "client_inv D c"
  shows "\<exists>m' c'. ClearSeqIdMap s (m, c) = Inr (m', c') \<and> transfer_wf m' \<and> client_inv D c' \<and> m_mapSeqNo2TaskId c' s = None"
proof -
  have "http_ok (m, c)" using assms by (simp add: http_ok_def client_inv_def)
  then obtain m' c' where "ClearSeqIdMap s (m, c) = Inr (m', c')" "http_ok (m', c')" "m_mapSeqNo2TaskId c' s = None"
    "m_mapRequest c' = m_mapRequest c" "m_lstResult c' = m_lstResult c"
    by (rule ClearSeqIdMap_ok [where s = s]) simp
  then show ?thesis using assms(2) by (simp add: http_ok_def client_inv_def)
qed

lemma DeleteSeqNo_inv:
  assumes "transfer_wf m" and "client_inv D c"
  shows "\<exists>m' c'. DeleteSeqNo s (m, c) = Inr (m', c') \<and> transfer_wf m' \<and> client_inv D c'"
proof -
  have "http_ok (m, c)" using assms by (simp add: http_ok_def client_inv_def)
  then obtain h where "DeleteSeqNo s (m, c) = Inr h" "http_ok h" "m_mapRequest (snd h) = (m_mapRequest c)(s := None)"
    "m_lstResult (snd h) = m_lstResult c"
    by (rule DeleteSeqNo_ok [where s = s]) simp
  then show ?thesis using assms(2) by (cases h) (auto simp: http_ok_def client_inv_def dest!: ran_upd_subset)
qed

lemma ReReqUrl_inv:
  assumes "transfer_wf m" and "client_inv D c" and "good_context ctx"
  shows "\<exists>ctx' m' c'. ReReqUrl env ctx (m, c) = Inr (ctx', m', c') \<and> transfer_wf m' \<and> client_inv D c'"
proof (cases "strURL ctx = []")
  case False
  obtain m1 c1 where c1: "ClearSeqIdMap (nReqSeq ctx) (m, c) = Inr (m1, c1)" "transfer_wf m1" "client_inv D c1"
    "m_mapSeqNo2TaskId c1 (nReqSeq ctx) = None"
    using ClearSeqIdMap_inv [OF assms(1,2)] by blast
  have "pArgument ctx = None" using assms(3) by (simp add: good_context_def)
  then show ?thesis
    using ReReqURL_inv [OF c1(2-4) assms(3), of "ev_files env" "ev_now env"] c1(1) False by (auto simp: ReReqUrl_def)
qed (use assms in \<open>simp add: ReReqUrl_def\<close>)

text \<open>The operations of the cycle leave the queue of the module and its numbering alone, but for the requests taken from the queue.\<close>

definition same_queue :: "web \<Rightarrow> web \<Rightarrow> bool" where
  "same_queue w w' \<longleftrightarrow> m_nReqSeq w' = m_nReqSeq w \<and> m_vRequestQueue w' = m_vRequestQueue w \<and> m_mapSeqNo2ModuleId w' = m_mapSeqNo2ModuleId w"

lemma same_queue_simps [simp]:
  "same_queue w w" "same_queue w (w\<lparr>w_http := h\<rparr>)" "same_queue w w' \<Longrightarrow> same_queue w (w'\<lparr>w_http := h\<rparr>)"
  by (simp_all add: same_queue_def)

lemma same_queue_trans: "same_queue w w' \<Longrightarrow> same_queue w' w'' \<Longrightarrow> same_queue w w''"
  by (simp add: same_queue_def)

lemma web_ok_with:
  assumes "web_ok w" and "same_queue w w'" and "transfer_wf (fst (w_http w'))" and "client_inv (sent_by w) (snd (w_http w'))"
  shows "web_ok w'"
  using assms by (simp add: web_ok_def same_queue_def sent_by_def)

lemma RetriveResp_inv:
  assumes "client_inv D c" and "RetriveResp now c = (ctx, c')"
  shows "client_inv D c'" "good_context ctx"
  using assms
  by (auto simp: RetriveResp_def client_inv_def good_context_def HTTPCONTEXT_init_def client_ok_def split: list.splits)

lemma ProcessResp_inv:
  assumes "web_ok w"
  shows "\<exists>ctx rs w'. ProcessResp env w = Inr (ctx, rs, w') \<and> web_ok w' \<and> same_queue w w'"
proof -
  obtain m c where h: "w_http w = (m, c)" by (cases "w_http w")
  obtain ctx c' where r: "RetriveResp (ev_now env) c = (ctx, c')" by (cases "RetriveResp (ev_now env) c")
  have wf: "transfer_wf m" and inv: "client_inv (sent_by w) c" using assms h by (simp_all add: web_ok_def)
  note taken = RetriveResp_inv [OF inv r]
  have step: "web_ok (w\<lparr>w_http := (m', d)\<rparr>)" if "transfer_wf m'" "client_inv (sent_by w) d" for m' d
    using web_ok_with [OF assms] that by simp
  show ?thesis
  proof (cases "nFailedTime ctx + 1 < 3")
    case False
    then show ?thesis using step [OF wf taken(1)] h r by (simp add: ProcessResp_def Let_def)
  next
    case True
    then have "good_context (ctx\<lparr>nFailedTime := nFailedTime ctx + 1\<rparr>)" using taken(2) by (simp add: good_context_def)
    then obtain ctx' m' d where "ReReqUrl env (ctx\<lparr>nFailedTime := nFailedTime ctx + 1\<rparr>) (m, c') = Inr (ctx', m', d)"
      "transfer_wf m'" "client_inv (sent_by w) d"
      using ReReqUrl_inv [OF wf taken(1)] by blast
    then show ?thesis using step [OF wf taken(1)] step [of m' d] h r by (simp add: ProcessResp_def Let_def)
  qed
qed

lemma delete_request_inv:
  assumes "web_ok w"
  shows "\<exists>w'. delete_request s w = Inr w' \<and> web_ok w' \<and> same_queue w w'"
proof -
  obtain m c where h: "w_http w = (m, c)" by (cases "w_http w")
  then obtain m' c' where d: "DeleteSeqNo s (m, c) = Inr (m', c')" "transfer_wf m'" "client_inv (sent_by w) c'"
    using assms DeleteSeqNo_inv [of m "sent_by w" c s] by (auto simp: web_ok_def)
  then have "web_ok (w\<lparr>w_http := (m', c')\<rparr>)" by (intro web_ok_with [OF assms]) simp_all
  then show ?thesis using h d(1) by (simp add: delete_request_def)
qed

lemma conclude_inv:
  assumes "web_ok w"
  shows "\<exists>rs w'. conclude ctx w = Inr (rs, w') \<and> web_ok w' \<and> same_queue w w'"
  using delete_request_inv [OF assms, of "nReqSeq ctx"] assms by (auto simp: conclude_def)

lemma responses_inv:
  assumes "web_ok w"
  shows "\<exists>rs w'. responses env n w = Inr (rs, w') \<and> web_ok w' \<and> same_queue w w'"
  using assms
proof (induction "12 - n" arbitrary: n w rule: less_induct)
  case less
  obtain ctx rs w1 where p: "ProcessResp env w = Inr (ctx, rs, w1)" "web_ok w1" "same_queue w w1"
    using ProcessResp_inv [OF less.prems] by blast
  obtain ps w2 where c: "conclude ctx w1 = Inr (ps, w2)" "web_ok w2" "same_queue w1 w2"
    using conclude_inv [OF p(2)] by blast
  show ?case
  proof (cases "n > 10")
    case True
    then show ?thesis using p by (subst responses.simps) simp
  next
    case False
    then have "12 - (n + 1) < 12 - n" by simp
    note again = less.hyps [OF this]
    show ?thesis
      using False p c again [OF p(2)] again [OF c(2)]
      by (subst responses.simps) (auto intro: same_queue_trans [OF same_queue_trans] same_queue_trans)
  qed
qed

lemma send_next_inv:
  assumes "web_ok w"
  shows "\<exists>w'. send_next env w = Inr w' \<and> web_ok w' \<and> m_vRequestQueue w' = tl (m_vRequestQueue w)"
proof (cases "m_vRequestQueue w")
  case Nil
  then show ?thesis using assms by (simp add: send_next_def PopUrl_def)
next
  case (Cons ctx rest)
  obtain m c where h: "w_http w = (m, c)" by (cases "w_http w")
  let ?w = "w\<lparr>m_vRequestQueue := rest\<rparr>"
  have sent: "sent_by ?w = insert (nReqSeq ctx) (sent_by w)"
    using assms Cons by (auto simp: web_ok_def sent_by_def)
  have good: "good_context ctx" "nReqSeq ctx \<notin> sent_by w" and wf: "transfer_wf m" and inv: "client_inv (sent_by w) c"
    using assms Cons h by (auto simp: web_ok_def sent_by_def)
  have fresh: "m_mapRequest c (nReqSeq ctx) = None" using good(2) inv by (auto simp: client_inv_def)
  have ok: "web_ok (?w\<lparr>w_http := (m', c')\<rparr>)" if "transfer_wf m'" "client_inv (insert (nReqSeq ctx) (sent_by w)) c'" for m' c'
    using assms that sent Cons by (auto simp: web_ok_def sent_by_def)
  have "?w\<lparr>w_http := (m, c)\<rparr> = ?w" using h by (cases w) simp
  then have stay: "web_ok ?w" using ok [OF wf client_inv_mono [OF inv subset_insertI]] by simp
  obtain r m' c' where req: "ReqURL (ev_files env) (ev_now env) ctx (m, c) = Inr (r, m', c')" "transfer_wf m'"
    "client_inv (insert (nReqSeq ctx) (sent_by w)) c'"
    using ReqURL_inv [OF wf inv fresh good(1)] by blast
  then show ?thesis
    using stay ok [OF req(2,3)] good(1) h Cons by (simp add: send_next_def PopUrl_def ReqUrl_def good_context_def)
qed

text \<open>The context of a new request.\<close>

definition new_context :: "web_env \<Rightarrow> u32 \<Rightarrow> wstring \<Rightarrow> RequestType \<Rightarrow> wstring \<Rightarrow> u32 \<Rightarrow> HTTPCONTEXT" where
  "new_context env v url ty file seq =
     (HTTPCONTEXT_url (ev_now env) (u2a env url))
       \<lparr>nEventValue := v, eReqType := ty, wstrWritedFileName := file, nTimeout := 30, bAllowRepeated := True, nReqSeq := seq\<rparr>"

lemma new_context_good: "good_context (new_context env v url ty file seq)" "nReqSeq (new_context env v url ty file seq) = seq"
  by (simp_all add: new_context_def good_context_def HTTPCONTEXT_url_def HTTPCONTEXT_init_def)

lemma request_for_eq:
  assumes "m_nReqSeq w \<noteq> -1"
  shows "request_for env v who url ty file w =
    (let seq = m_nReqSeq w + 1 in
     Inr (sint seq, w\<lparr>m_nReqSeq := seq, m_vRequestQueue := m_vRequestQueue w @ [new_context env v url ty file seq],
       m_mapSeqNo2ModuleId := (m_mapSeqNo2ModuleId w)(seq \<mapsto> who)\<rparr>))"
proof -
  have "m_nReqSeq w + 1 \<noteq> INVALID_SEQNO" using assms by (simp add: INVALID_SEQNO_def eq_neg_iff_add_eq_0)
  then show ?thesis by (simp add: request_for_def PushUrl_def Let_def new_context_def HTTPCONTEXT_url_def HTTPCONTEXT_init_def)
qed

lemma request_for_inv:
  assumes "web_ok w" and "m_nReqSeq w \<noteq> -1" and "request_for env v who url ty file w = Inr (n, w')"
  shows "web_ok w'"
proof -
  let ?s = "m_nReqSeq w + 1"
  have up: "m_nReqSeq w < ?s" using assms(2) by (simp add: inc_less_eq_self_iff_eq flip: not_le)
  then have above: "s \<le> m_nReqSeq w \<Longrightarrow> s \<le> ?s \<and> s \<noteq> ?s" for s by auto
  let ?ctx = "new_context env v url ty file ?s"
  have w': "w' = w\<lparr>m_nReqSeq := ?s, m_vRequestQueue := m_vRequestQueue w @ [?ctx],
      m_mapSeqNo2ModuleId := (m_mapSeqNo2ModuleId w)(?s \<mapsto> who)\<rparr>"
    using assms(3) unfolding request_for_eq [OF assms(2)] Let_def by auto
  have sent: "sent_by w \<subseteq> sent_by w'" using above by (auto simp: w' sent_by_def new_context_good)
  have "?s \<notin> nReqSeq ` set (m_vRequestQueue w)" using assms(1) up by (force simp: web_ok_def)
  then show ?thesis using assms(1) above client_inv_mono [OF _ sent] by (auto simp: web_ok_def w' new_context_good)
qed

lemma services_inv:
  assumes "web_ok w" and "m_nReqSeq w \<noteq> -1"
  shows "OnService_GetFavoriteIcon env a w = Inr (n, w') \<Longrightarrow> web_ok w'" "OnService_OpenUrlTraveler env b w = Inr (n, w') \<Longrightarrow> web_ok w'"
    "OnService_CloseUrlTraveler env b w = Inr (n, w') \<Longrightarrow> web_ok w'" "OnService_ReportUserInfo env u w = Inr (n, w') \<Longrightarrow> web_ok w'"
    "OnService_CheckUpdateConfig env b w = Inr (n, w') \<Longrightarrow> web_ok w'" "OnService_DownloadUpdateFile env d w = Inr (n, w') \<Longrightarrow> web_ok w'"
    "OnService_LoginInUrlTraveler w = Inr (n, w') \<Longrightarrow> web_ok w'" "OnService_LoginOutUrlTraveler w = Inr (n, w') \<Longrightarrow> web_ok w'"
  using assms(1) request_for_inv [OF assms]
  by (auto simp: OnService_GetFavoriteIcon_def OnService_OpenUrlTraveler_def OnService_CloseUrlTraveler_def OnService_ReportUserInfo_def
      OnService_CheckUpdateConfig_def OnService_DownloadUpdateFile_def OnService_LoginInUrlTraveler_def OnService_LoginOutUrlTraveler_def
      Let_def obind_eq_Inr_iff split: option.splits if_splits)

lemma service_found: "find_handler (handler_table es) v = Some f \<Longrightarrow> (v, f) \<in> set es"
  by (induction es) (auto simp: handler_table_def split: if_splits)

lemma with_param_Inr: "with_param p r = Inr (n, p', w') \<longleftrightarrow> p' = p \<and> r = Inr (n, w')"
  by (auto simp: with_param_def obind_eq_Inr_iff)

lemma web_CallDirect_inv:
  assumes "web_ok w" and "m_nReqSeq w \<noteq> -1" and "web_CallDirect env v p w = Inr (n, p', w')"
  shows "web_ok w'"
proof (cases "find_handler (web_serviceMap env) v")
  case None
  then show ?thesis using assms by (auto simp: web_CallDirect_def split: if_splits)
next
  case (Some f)
  have "f p w = Inr (n, p', w') \<or> w' = w" using assms(3) Some by (auto simp: web_CallDirect_def split: if_splits)
  moreover have "web_ok w'" if "f p w = Inr (n, p', w')"
    using service_found [OF Some [unfolded web_serviceMap_def]] that
    unfolding list.set insert_iff empty_iff prod.inject
    by (elim disjE conjE FalseE; hypsubst)
      (use services_inv [OF assms(1,2)] assms(1) in \<open>auto simp: with_param_Inr split: web_param.splits prod.splits\<close>)
  ultimately show ?thesis using assms(1) by auto
qed

lemma scanIO_wf:
  assumes "transfer_wf m" and "scanIO cb ans n rd wr (m, c) = Inr (r, m', c')"
  shows "transfer_wf m'"
proof -
  have "transfer_wf (fst st)" if "ofold (scan_socket cb ans rd wr) (s_t_map m) (m, c, []) = Inr st" for st
    by (rule ofold_invariant [OF that, of "\<lambda>st. transfer_wf (fst st)"]) (use assms(1) visits_wf [OF scan_socket_visits] in auto)
  moreover have "transfer_wf (m1\<lparr>s_t_map := x\<rparr>) = transfer_wf m1" for m1 x by (simp add: transfer_wf_def)
  ultimately show ?thesis using assms by (fastforce simp: scanIO_def obind_eq_Inr_iff split: if_splits)
qed

lemma WebModule_ok: "web_ok (WebModule wsa thread)"
proof -
  have "http_ok (CHttpClient wsa thread TranferManager)" by (rule new_client_ok) (rule start_wf)
  then have "transfer_wf (fst (CHttpClient wsa thread TranferManager))" "client_ok (snd (CHttpClient wsa thread TranferManager))"
    by (simp_all add: http_ok_def)
  moreover have "m_mapRequest (snd (CHttpClient wsa thread TranferManager)) = (\<lambda>_. None)"
    "m_lstResult (snd (CHttpClient wsa thread TranferManager)) = []"
    by (simp_all add: CHttpClient_def Let_def case_prod_unfold)
  ultimately show ?thesis by (simp add: web_ok_def WebModule_def client_inv_def)
qed

section \<open>Reachable states\<close>

text \<open>The module serves calls and cycles; in between the worker scans its tasks and its sockets, with whatever the network and the disk
  answer.  The number of the last request has not come to the end of its range.\<close>

inductive web_reach :: "web \<Rightarrow> bool" where
  web_new: "web_reach (WebModule wsa thread)"
| web_call: "web_reach w \<Longrightarrow> m_nReqSeq w \<noteq> -1 \<Longrightarrow> web_CallDirect env v p w = Inr (n, p', w') \<Longrightarrow> web_reach w'"
| web_cycle: "web_reach w \<Longrightarrow> OnMessage_CycleTrigged env w = Inr (rs, w') \<Longrightarrow> web_reach w'"
| web_scan: "web_reach w \<Longrightarrow> web_reach (w\<lparr>w_http := scanTaskQue (http_callbacks da) ans (w_http w)\<rparr>)"
| web_io: "web_reach w \<Longrightarrow> scanIO (http_callbacks da) ans k rd wr (w_http w) = Inr (r, h) \<Longrightarrow> web_reach (w\<lparr>w_http := h\<rparr>)"

lemma cycle_inv:
  assumes "web_ok w"
  shows "\<exists>rs w'. OnMessage_CycleTrigged env w = Inr (rs, w') \<and> web_ok w' \<and> m_vRequestQueue w' = drop 3 (m_vRequestQueue w)"
proof -
  obtain rs w0 where r: "responses env 0 w = Inr (rs, w0)" "web_ok w0" "same_queue w w0"
    using responses_inv [OF assms] by blast
  obtain w1 where s1: "send_next env w0 = Inr w1" "web_ok w1" "m_vRequestQueue w1 = tl (m_vRequestQueue w0)"
    using send_next_inv [OF r(2)] by blast
  obtain w2 where s2: "send_next env w1 = Inr w2" "web_ok w2" "m_vRequestQueue w2 = tl (m_vRequestQueue w1)"
    using send_next_inv [OF s1(2)] by blast
  obtain w3 where s3: "send_next env w2 = Inr w3" "web_ok w3" "m_vRequestQueue w3 = tl (m_vRequestQueue w2)"
    using send_next_inv [OF s2(2)] by blast
  have "m_vRequestQueue w3 = drop 3 (m_vRequestQueue w)"
    using s1(3) s2(3) s3(3) r(3) by (simp add: same_queue_def numeral_3_eq_3 drop_Suc)
  then show ?thesis
    using r(1) s1(1) s2(1) s3(1,2) by (simp add: OnMessage_CycleTrigged_def ProcessGetResponse_def ProcessSendUrl_def)
qed

lemma web_reach_ok: "web_reach w \<Longrightarrow> web_ok w"
proof (induction rule: web_reach.induct)
  case (web_new wsa thread)
  show ?case by (rule WebModule_ok)
next
  case (web_call w env v p n p' w')
  then show ?case by (metis web_CallDirect_inv)
next
  case (web_cycle w env rs w')
  then show ?case using cycle_inv [OF web_cycle.IH, of env] by simp
next
  case (web_scan w da ans)
  obtain m c where h: "w_http w = (m, c)" by (cases "w_http w")
  have "transfer_wf m" "client_inv (sent_by w) c" using web_scan.IH h by (simp_all add: web_ok_def)
  then show ?case
    using h scanTaskQue_wf [of m "http_callbacks da" ans c] requests.scan_inv [of "sent_by w" c da ans m]
    by (intro web_ok_with [OF web_scan.IH]) simp_all
next
  case (web_io w da ans k rd wr r h)
  obtain m c where w: "w_http w = (m, c)" by (cases "w_http w")
  obtain m' c' where h: "h = (m', c')" by (cases h)
  have "transfer_wf m" "client_inv (sent_by w) c" using web_io.IH w by (simp_all add: web_ok_def)
  then have "transfer_wf m'" "client_inv (sent_by w) c'"
    using web_io.hyps(2) w h scanIO_wf [of m "http_callbacks da" ans k rd wr c r m' c']
      requests.scanIO_inv [of "sent_by w" c da ans k rd wr m r m' c'] by simp_all
  then show ?case using h by (intro web_ok_with [OF web_io.IH]) simp_all
qed


definition sample_env :: web_env where
  "sample_env = \<lparr>ev_now = 7, ev_files = example_files, u2a = map ucast, a2u = map ucast, ev_version = 1\<rparr>"

definition open_service :: web_param where
  "open_service = ParamService (Some \<lparr>serviceId = SERVICE_VALUE_WEB_OPEN_URLTRAVELER, sv_srcMId = 5\<rparr>)"

lemma open_call:
  assumes "m_nReqSeq w \<noteq> -1"
  shows "\<exists>w'. web_CallDirect sample_env SERVICE_VALUE_WEB_OPEN_URLTRAVELER open_service w = Inr (sint (m_nReqSeq w + 1), open_service, w') \<and>
    m_nReqSeq w' = m_nReqSeq w + 1 \<and> w_http w' = w_http w \<and>
    (\<exists>ctx. nReqSeq ctx = m_nReqSeq w + 1 \<and> strURL ctx = bytes_of_string ''http://1.urltraveler.sinaapp.com/login.php'' \<and>
       m_vRequestQueue w' = m_vRequestQueue w @ [ctx])"
  using assms
  by (simp add: web_CallDirect_def web_serviceMap_def handler_table_def bus_values VALUE_BEGIN_def open_service_def with_param_def
      OnService_OpenUrlTraveler_def request_for_eq Let_def new_context_def HTTPCONTEXT_url_def sample_env_def wide_def bytes_of_string_def)

text \<open>A module that has been asked \<open>n\<close> times.\<close>

lemma asked_reach:
  assumes "n \<le> 1000"
  shows "\<exists>w. web_reach w \<and> length (m_vRequestQueue w) = n \<and> m_nReqSeq w = 100 + word_of_nat n \<and>
    (\<forall>ctx \<in> set (m_vRequestQueue w). strURL ctx = bytes_of_string ''http://1.urltraveler.sinaapp.com/login.php'')"
  using assms
proof (induction n)
  case 0
  show ?case by (rule exI [of _ "WebModule True True"], rule conjI, rule web_new) (simp add: WebModule_def)
next
  case (Suc n)
  then obtain w where w: "web_reach w" "length (m_vRequestQueue w) = n" "m_nReqSeq w = 100 + word_of_nat n"
    "\<forall>ctx \<in> set (m_vRequestQueue w). strURL ctx = bytes_of_string ''http://1.urltraveler.sinaapp.com/login.php''" by auto
  have "unat (100 + word_of_nat n :: u32) = 100 + n" using Suc.prems by (simp add: unat_word_ariths unat_of_nat)
  moreover have "unat (-1 :: u32) = 4294967295" by (simp add: unsigned_minus_1_eq_mask mask_eq_exp_minus_1)
  ultimately have "unat (m_nReqSeq w) \<noteq> unat (-1 :: u32)" unfolding w(3) using Suc.prems by linarith
  then have ne: "m_nReqSeq w \<noteq> -1" by auto
  obtain w' ctx where w': "web_CallDirect sample_env SERVICE_VALUE_WEB_OPEN_URLTRAVELER open_service w = Inr (sint (m_nReqSeq w + 1), open_service, w')"
    "m_nReqSeq w' = m_nReqSeq w + 1" "m_vRequestQueue w' = m_vRequestQueue w @ [ctx]"
    "strURL ctx = bytes_of_string ''http://1.urltraveler.sinaapp.com/login.php''"
    using open_call [OF ne] by blast
  have "web_reach w'" by (rule web_call [OF w(1) ne w'(1)])
  then show ?case using w w' by (intro exI [of _ w']) auto
qed


text \<open>
  C12: In every state the module can get into, the numbers of the requests in the queue are all different; a
  request handed to the client is kept under its own number, is not in the queue any more and has failed at most twice, so no request
  is made more than three times; and the task linked to a request is a slot of the library, linked to a request that is kept.
\<close>

theorem requests_accounted:
  assumes "web_reach w"
  shows "distinct (map nReqSeq (m_vRequestQueue w)) \<and>
    (\<forall>s ctx. m_mapRequest (snd (w_http w)) s = Some ctx \<longrightarrow>
       nReqSeq ctx = s \<and> s \<le> m_nReqSeq w \<and> s \<notin> nReqSeq ` set (m_vRequestQueue w) \<and> nFailedTime ctx \<le> 2) \<and>
    (\<forall>i s. m_mapTaskid2Seqno (snd (w_http w)) i = Some s \<longrightarrow>
       m_mapSeqNo2TaskId (snd (w_http w)) s = Some i \<and> i < MAX_TASKQUE_SIZE \<and> m_mapRequest (snd (w_http w)) s \<noteq> None)"
proof -
  have ok: "web_ok w" by (rule web_reach_ok [OF assms])
  have few: "k < 3 \<Longrightarrow> k \<le> 2" for k :: u8 by unat_arith
  have "nReqSeq ctx = s \<and> s \<in> sent_by w \<and> nFailedTime ctx \<le> 2" if "m_mapRequest (snd (w_http w)) s = Some ctx" for s ctx
  proof -
    have "good_context ctx" using ok that by (auto simp: web_ok_def client_inv_def ran_def)
    moreover have "s \<in> sent_by w" using ok that by (auto simp: web_ok_def client_inv_def)
    moreover have "nReqSeq ctx = s" using ok that by (simp add: web_ok_def client_inv_def client_ok_def)
    ultimately show ?thesis using few by (simp add: good_context_def)
  qed
  moreover have "m_mapSeqNo2TaskId (snd (w_http w)) s = Some i \<and> i < MAX_TASKQUE_SIZE \<and> m_mapRequest (snd (w_http w)) s \<noteq> None"
    if "m_mapTaskid2Seqno (snd (w_http w)) i = Some s" for i s
    using ok that unfolding web_ok_def client_inv_def client_ok_def by blast
  moreover have "distinct (map nReqSeq (m_vRequestQueue w))" using ok by (simp add: web_ok_def)
  ultimately show ?thesis by (simp add: sent_by_def)
qed

theorem requests_accounted_witness:
  "\<exists>w :: web. length (m_vRequestQueue w) = 3 \<and> distinct (map nReqSeq (m_vRequestQueue w))"
proof -
  obtain w where w: "web_reach w" "length (m_vRequestQueue w) = 3" using asked_reach [of 3] by auto
  then show ?thesis using requests_accounted [OF w(1)] by blast
qed

end
