(* ===== verification/Web_Retry.thy ===== *)
theory Web_Retry
  imports Web_Safety
begin

text \<open>
  What becomes of a request: it is made again when it fails, it ends in an event for the module that asked, and its progress can be
  queried.  The last part is about a download that is made again.
\<close>

section \<open>Responses that come back\<close>

definition came_back :: "HTTPCONTEXT \<Rightarrow> HTTPCONTEXT list \<Rightarrow> web \<Rightarrow> bool" where
  "came_back ctx rest w \<longleftrightarrow> m_lstResult (snd (w_http w)) = ctx # rest \<and> uOpPolicy ctx \<noteq> INVALID_RESP \<and> strURL ctx \<noteq> []"

definition net_failure :: "HTTPCONTEXT \<Rightarrow> bool" where
  "net_failure ctx \<longleftrightarrow> uResult ctx = FAILED \<and> nErrorCode ctx \<noteq> word_of_int ERR_TASK_WRITE_FILE_ERROR"

definition third_failure :: "HTTPCONTEXT \<Rightarrow> bool" where
  "third_failure ctx \<longleftrightarrow> net_failure ctx \<and> nFailedTime ctx = 2 \<and> uOpPolicy ctx \<noteq> INVALID_RESP \<and> strURL ctx \<noteq> []"

definition timeout_event :: "HTTPCONTEXT \<Rightarrow> web \<Rightarrow> dc_extra Event" where
  "timeout_event ctx w =
     MakeEvent (ucast (module_value MODULE_ID_WEB)) (nEventValue ctx - SERVICE_VALUE_WEB_BEGIN + EVENT_VALUE_WEB_BEGIN)
       (asked_by (nReqSeq ctx) w) WEB_RET_NET_ERROR_TIMEOUT 0 (nReqSeq ctx) 0 None"

definition without_first :: "web \<Rightarrow> web" where
  "without_first w = w\<lparr>w_http := (fst (w_http w), (snd (w_http w))\<lparr>m_lstResult := tl (m_lstResult (snd (w_http w)))\<rparr>)\<rparr>"

lemma without_first_ok: "web_ok w \<Longrightarrow> web_ok (without_first w) \<and> same_queue w (without_first w)"
proof -
  assume ok: "web_ok w"
  have "client_inv D (c\<lparr>m_lstResult := tl (m_lstResult c)\<rparr>)" if "client_inv D c" for D c
    using that by (cases "m_lstResult c") (auto simp: client_inv_def)
  then show ?thesis using ok web_ok_with [OF ok, of "without_first w"] by (simp add: without_first_def web_ok_def)
qed

lemma ProcessResp_none:
  assumes "m_lstResult (snd (w_http w)) = []"
  shows "ProcessResp env w = Inr ((HTTPCONTEXT_init (ev_now env))\<lparr>uOpPolicy := INVALID_RESP\<rparr>, [], w)"
  using assms by (cases w) (simp add: ProcessResp_def RetriveResp_def)

lemma ProcessResp_third:
  assumes "m_lstResult (snd (w_http w)) = ctx # rest" and "third_failure ctx"
  shows "ProcessResp env w = Inr (ctx\<lparr>nFailedTime := 3, uOpPolicy := WEB_RET_NET_ERROR_TIMEOUT\<rparr>, [], without_first w)"
  using assms by (simp add: ProcessResp_def RetriveResp_def third_failure_def net_failure_def without_first_def)

lemma delete_request_takes:
  assumes "web_ok w"
  obtains w' where "delete_request s w = Inr w'" "web_ok w'" "same_queue w w'"
    "m_mapRequest (snd (w_http w')) = (m_mapRequest (snd (w_http w)))(s := None)" "m_lstResult (snd (w_http w')) = m_lstResult (snd (w_http w))"
proof -
  obtain h where h: "DeleteSeqNo s (w_http w) = Inr h" "m_mapRequest (snd h) = (m_mapRequest (snd (w_http w)))(s := None)"
    "m_lstResult (snd h) = m_lstResult (snd (w_http w))"
    using DeleteSeqNo_ok [OF web_ok_http [OF assms], of s] by blast
  have "delete_request s w = Inr (w\<lparr>w_http := h\<rparr>)" using h(1) by (simp add: delete_request_def)
  then show thesis using that h delete_request_inv [OF assms, of s] by simp
qed

lemma responses_third:
  assumes "web_ok w" and "\<forall>ctx \<in> set (m_lstResult (snd (w_http w))). third_failure ctx" and "n \<le> 11"
  shows "\<exists>w'. responses env n w =
      Inr (map (\<lambda>ctx. ReqEvent (timeout_event ctx w)) (take (11 - n) (m_lstResult (snd (w_http w)))), w') \<and>
    m_lstResult (snd (w_http w')) = drop (12 - n) (m_lstResult (snd (w_http w))) \<and>
    m_mapRequest (snd (w_http w')) =
      (\<lambda>s. if s \<in> nReqSeq ` set (take (11 - n) (m_lstResult (snd (w_http w)))) then None else m_mapRequest (snd (w_http w)) s)"
  using assms
proof (induction "11 - n" arbitrary: n w)
  case 0
  then have n: "n = 11" by simp
  show ?case
  proof (cases "m_lstResult (snd (w_http w))")
    case Nil
    then show ?thesis using ProcessResp_none [OF Nil] by (subst responses.simps) (simp add: n)
  next
    case (Cons ctx rest)
    then have "third_failure ctx" using "0.prems" by simp
    then show ?thesis using ProcessResp_third [OF Cons] Cons by (subst responses.simps) (simp add: n without_first_def)
  qed
next
  case (Suc k)
  then have n: "11 - n = Suc k" "12 - n = Suc (Suc k)" "\<not> 10 < n" "k = 11 - (n + 1)" "12 - (n + 1) = Suc k" by simp_all
  show ?case
  proof (cases "m_lstResult (snd (w_http w))")
    case Nil
    then show ?thesis using ProcessResp_none [OF Nil] by (subst responses.simps) (simp add: n(3) INVALID_RESP_def INVALID_SEQNO_def)
  next
    case (Cons ctx rest)
    then have t: "third_failure ctx" using Suc.prems by simp
    let ?ctx = "ctx\<lparr>nFailedTime := 3, uOpPolicy := WEB_RET_NET_ERROR_TIMEOUT\<rparr>"
    have ok: "web_ok (without_first w)" "same_queue w (without_first w)" using without_first_ok [OF Suc.prems(1)] by simp_all
    obtain w1 where w1: "delete_request (nReqSeq ctx) (without_first w) = Inr w1" "web_ok w1" "same_queue (without_first w) w1"
      "m_mapRequest (snd (w_http w1)) = (m_mapRequest (snd (w_http (without_first w))))(nReqSeq ctx := None)"
      "m_lstResult (snd (w_http w1)) = m_lstResult (snd (w_http (without_first w)))"
      by (rule delete_request_takes [OF ok(1)])
    have lst: "m_lstResult (snd (w_http w1)) = rest" using w1(5) Cons by (simp add: without_first_def)
    have maps: "m_mapRequest (snd (w_http w1)) = (m_mapRequest (snd (w_http w)))(nReqSeq ctx := None)"
      using w1(4) by (simp add: without_first_def)
    have same: "same_queue w w1" by (rule same_queue_trans [OF ok(2) w1(3)])
    have ev: "timeout_event c w1 = timeout_event c w" "failure_event ?ctx (without_first w) = timeout_event ctx w" for c
      using same by (simp_all add: timeout_event_def failure_event_def asked_by_def same_queue_def without_first_def)
    have c: "conclude ?ctx (without_first w) = Inr ([ReqEvent (timeout_event ctx w)], w1)"
      using w1(1) ev(2) by (simp add: conclude_def web_codes)
    obtain w2 where w2: "responses env (n + 1) w1 = Inr (map (\<lambda>ctx. ReqEvent (timeout_event ctx w1)) (take (11 - (n + 1)) rest), w2)"
      "m_lstResult (snd (w_http w2)) = drop (12 - (n + 1)) rest"
      "m_mapRequest (snd (w_http w2)) =
        (\<lambda>s. if s \<in> nReqSeq ` set (take (11 - (n + 1)) rest) then None else m_mapRequest (snd (w_http w1)) s)"
      using Suc.hyps(1) [OF n(4) w1(2)] Suc.prems(2) n(3) Cons lst by auto
    have "responses env n w = Inr (ReqEvent (timeout_event ctx w) # map (\<lambda>ctx. ReqEvent (timeout_event ctx w)) (take k rest), w2)"
      using ProcessResp_third [OF Cons t] c w2(1) n(3,4) by (subst responses.simps) (simp add: web_codes ev(1))
    then show ?thesis using w2(2,3) n maps Cons by (auto simp: fun_eq_iff)
  qed
qed

text \<open>
  C15: When every response that waits is a third failure, a cycle reports the first eleven of them, in their order,
  each as one event with the code for a timeout to the module that asked, and forgets these requests.  A twelfth one is taken from
  the list with no event, and its request stays in the map; the rest waits for the next cycle.
\<close>

theorem timeouts_of_a_cycle:
  assumes "web_ok w" and "\<forall>ctx \<in> set (m_lstResult (snd (w_http w))). third_failure ctx"
  shows "\<exists>w'. ProcessGetResponse env w =
      Inr (map (\<lambda>ctx. ReqEvent (timeout_event ctx w)) (take 11 (m_lstResult (snd (w_http w)))), w') \<and>
    m_lstResult (snd (w_http w')) = drop 12 (m_lstResult (snd (w_http w))) \<and>
    m_mapRequest (snd (w_http w')) =
      (\<lambda>s. if s \<in> nReqSeq ` set (take 11 (m_lstResult (snd (w_http w)))) then None else m_mapRequest (snd (w_http w)) s)"
  using responses_third [OF assms, of 0 env] by (simp add: ProcessGetResponse_def)

definition failed_request :: "u32 \<Rightarrow> HTTPCONTEXT" where
  "failed_request s =
     (new_context sample_env SERVICE_VALUE_WEB_GET_FAVICON [104] ONCE_BUFFER [] s)
       \<lparr>uResult := FAILED, nErrorCode := word_of_int ERR_TASK_CONNECT_FAIL, nFailedTime := 2\<rparr>"

text \<open>The module with the requests \<open>map_of rs\<close> and the results \<open>lst\<close>.\<close>

definition sample_web :: "(u32 \<times> HTTPCONTEXT) list \<Rightarrow> HTTPCONTEXT list \<Rightarrow> web" where
  "sample_web rs lst =
     (let w = WebModule True True in
      w\<lparr>m_nReqSeq := 112, m_mapSeqNo2ModuleId := (\<lambda>_. Some 5),
        w_http := (fst (w_http w), (snd (w_http w))\<lparr>m_mapRequest := map_of rs, m_lstResult := lst\<rparr>)\<rparr>)"

lemma sample_web_simps [simp]:
  "m_mapRequest (snd (w_http (sample_web rs lst))) = map_of rs" "m_lstResult (snd (w_http (sample_web rs lst))) = lst"
  "fst (w_http (sample_web rs lst)) = started_transfer" "m_pTransferManager (snd (w_http (sample_web rs lst)))"
  by (simp_all add: sample_web_def Let_def WebModule_def CHttpClient_def case_prod_unfold started_transfer_def start_def TranferManager_def)

lemma sample_web_ok:
  assumes "list_all (\<lambda>(s, ctx). s \<le> 112 \<and> nReqSeq ctx = s \<and> good_context ctx) rs" and "list_all good_context lst"
  shows "web_ok (sample_web rs lst)"
proof -
  have in_rs: "s \<le> 112 \<and> nReqSeq ctx = s \<and> good_context ctx" if "map_of rs s = Some ctx" for s ctx
    using assms(1) map_of_SomeD [OF that] by (auto simp: list_all_iff)
  have "client_ok (snd (w_http (sample_web rs lst)))"
    using in_rs by (simp add: client_ok_def) (simp add: sample_web_def Let_def WebModule_def CHttpClient_def case_prod_unfold)
  moreover have "sent_by (sample_web rs lst) = {s. s \<le> 112}" "m_vRequestQueue (sample_web rs lst) = []"
    by (simp_all add: sent_by_def sample_web_def Let_def WebModule_def)
  ultimately show ?thesis
    using in_rs assms(2) started_wf by (auto simp: web_ok_def client_inv_def ran_def dom_def list_all_iff)
qed

lemma failed_request_simps:
  "third_failure (failed_request s)" "nReqSeq (failed_request s) = s" "good_context (failed_request s)"
  "strURL (failed_request s) = [104]" "uOpPolicy (failed_request s) = SUCCESS_RESP" "net_failure (failed_request s)"
  by (simp_all add: third_failure_def net_failure_def failed_request_def new_context_def HTTPCONTEXT_url_def HTTPCONTEXT_init_def web_codes
      good_context_def sample_env_def ERR_TASK_CONNECT_FAIL_def ERR_TASK_WRITE_FILE_ERROR_def)

definition twelve_failures :: web where
  "twelve_failures =
     sample_web [(112, failed_request 112)] (map failed_request [101, 102, 103, 104, 105, 106, 107, 108, 109, 110, 111, 112])"

lemma twelve_failures_ok: "web_ok twelve_failures"
  unfolding twelve_failures_def by (rule sample_web_ok) (simp_all add: failed_request_simps)

theorem timeouts_of_a_cycle_witness:
  "\<exists>rs w'. ProcessGetResponse sample_env twelve_failures = Inr (rs, w') \<and> length rs = 11 \<and>
     rs ! 0 = ReqEvent (timeout_event (failed_request 101) twelve_failures) \<and>
     m_lstResult (snd (w_http w')) = [] \<and> m_mapRequest (snd (w_http w')) 112 = Some (failed_request 112)"
proof -
  have lst: "m_lstResult (snd (w_http twelve_failures)) = map failed_request [101, 102, 103, 104, 105, 106, 107, 108, 109, 110, 111, 112]"
    and m: "m_mapRequest (snd (w_http twelve_failures)) = [112 \<mapsto> failed_request 112]"
    by (simp_all add: twelve_failures_def)
  have all: "\<forall>ctx \<in> set (m_lstResult (snd (w_http twelve_failures))). third_failure ctx" unfolding lst by (simp add: failed_request_simps)
  show ?thesis
    using timeouts_of_a_cycle [OF twelve_failures_ok all, of sample_env] unfolding lst m by (auto simp: failed_request_simps)
qed

section \<open>Requests made again\<close>

lemma cancelTask_slots:
  assumes "cancelTask i m = Inr (r, m1)"
  shows "mgrStarted m1 = mgrStarted m \<and> (j < length (taskQue m) \<longrightarrow> (taskQue m1 ! j = None) = (taskQue m ! j = None))"
  using assms by (auto simp: cancelTask_def nth_update_at split: if_splits option.splits)

lemma ClearSeqIdMap_slots:
  assumes "ClearSeqIdMap s (m, c) = Inr (m1, c1)"
  shows "mgrStarted m1 = mgrStarted m \<and> (j < length (taskQue m) \<longrightarrow> (taskQue m1 ! j = None) = (taskQue m ! j = None))"
  using assms by (auto simp: ClearSeqIdMap_def obind_eq_Inr_iff dest: cancelTask_slots split: option.splits if_splits)

lemma addTask_taken:
  assumes "transfer_wf m" and "url \<noteq> []" and "mgrStarted m" and "j < MAX_TASKQUE_SIZE" and "taskQue m ! j = None"
  obtains i m' t where "addTask fs now url TASK_DOWNLOAD None (request_options ctx) m = Inr (int i, m')" "transfer_wf m'" "i < MAX_TASKQUE_SIZE"
    "taskQue m' ! i = Some t" "taskState t = TSK_IDLE" "tk_url t = url" "\<not> tk_del t"
proof -
  obtain ret m' where add: "addTask fs now url TASK_DOWNLOAD None (request_options ctx) m = Inr (ret, m')" using addTask_download by blast
  show thesis
  proof (cases rule: addTask_cases [OF assms(1) add])
    case 1
    then show thesis using add assms(2,3)
      by (auto simp: addTask_def taskParamCheck_def request_options_def OPTIONS_init_def case_prod_unfold Let_def ERR_TASK_FULL_def split: if_splits)
  next
    case 2
    then show thesis using assms(4,5) by auto
  next
    case (3 i n copy)
    have "length (taskQue m) = MAX_TASKQUE_SIZE" using assms(1) by (simp add: transfer_wf_def)
    then show thesis using that [of i m'] add addTask_wf [OF assms(1) add] 3 by (simp add: new_task_def TTask_init_def)
  qed
qed

lemma ReReqUrl_linked:
  assumes "http_ok (m, c)" and "strURL ctx \<noteq> []" and "pArgument ctx = None" and "m_mapRequest c (nReqSeq ctx) = Some pCxt"
    and "m_pTransferManager c" and "mgrStarted m" and "j < MAX_TASKQUE_SIZE" and "taskQue m ! j = None"
  shows "\<exists>ctx' m' c' i t. ReReqUrl env ctx (m, c) = Inr (ctx', m', c') \<and>
    m_mapRequest c' = (m_mapRequest c)(nReqSeq ctx \<mapsto> pCxt\<lparr>nFailedTime := nFailedTime ctx\<rparr>) \<and> m_lstResult c' = m_lstResult c \<and>
    m_mapSeqNo2TaskId c' (nReqSeq ctx) = Some i \<and> m_mapTaskid2Seqno c' i = Some (nReqSeq ctx) \<and>
    taskQue m' ! i = Some t \<and> taskState t = TSK_IDLE \<and> tk_url t = strURL ctx \<and> \<not> tk_del t"
proof -
  let ?s = "nReqSeq ctx"
  obtain m1 c1 where c1: "ClearSeqIdMap ?s (m, c) = Inr (m1, c1)" "http_ok (m1, c1)" "m_mapRequest c1 = m_mapRequest c"
    "m_lstResult c1 = m_lstResult c" "m_pTransferManager c1 = m_pTransferManager c"
    by (rule ClearSeqIdMap_ok [OF assms(1), of ?s]) simp
  have slots: "mgrStarted m1" "taskQue m1 ! j = None" "transfer_wf m1"
    using ClearSeqIdMap_slots [OF c1(1), of j] c1(2) assms(1,6-8) by (simp_all add: http_ok_def transfer_wf_def)
  obtain i m2 t where add: "addTask (ev_files env) (ev_now env) (strURL ctx) TASK_DOWNLOAD None (request_options ctx) m1 = Inr (int i, m2)"
    "taskQue m2 ! i = Some t" "taskState t = TSK_IDLE" "tk_url t = strURL ctx" "\<not> tk_del t"
    by (rule addTask_taken [OF slots(3) assms(2) slots(1) assms(7) slots(2)])
  let ?c2 = "link_task ?s (int i) (c1\<lparr>m_mapRequest := (m_mapRequest c1)(?s \<mapsto> pCxt\<lparr>nFailedTime := nFailedTime ctx\<rparr>)\<rparr>)"
  have "ReReqUrl env ctx (m, c) = Inr (ctx\<lparr>nTaskId := word_of_int (int i)\<rparr>, m2, ?c2)"
    using assms c1 add(1) by (simp add: ReReqUrl_def ReReqURL_def retry_with_def GetContext_def Let_def)
  then show ?thesis using add c1 by (simp add: link_task_def)
qed

lemma ProcessResp_again:
  assumes "came_back ctx rest w" and "net_failure ctx" and "nFailedTime ctx + 1 < 3"
  shows "ProcessResp env w =
    obind (ReReqUrl env (ctx\<lparr>nFailedTime := nFailedTime ctx + 1\<rparr>) (w_http (without_first w)))
      (\<lambda>(ctx2, h). Inr (ctx2\<lparr>uOpPolicy := REPEATED_REQ\<rparr>, [], w\<lparr>w_http := h\<rparr>))"
  using assms by (simp add: ProcessResp_def RetriveResp_def came_back_def net_failure_def without_first_def)

lemma fails_again: "(k :: u8) < 2 \<Longrightarrow> k + 1 < 3"
  by unat_arith

lemma obind_Inr_right: "obind m Inr = m"
  by (cases m) auto


definition first_failure :: HTTPCONTEXT where
  "first_failure = (failed_request 101)\<lparr>nFailedTime := 0\<rparr>"


section \<open>Answers\<close>


definition icon_answer :: HTTPCONTEXT where
  "icon_answer = (failed_request 101)\<lparr>uResult := SUCCESS, nErrorCode := 0, nHttpCode := 206, strContentData := [1, 2]\<rparr>"


text \<open>
  Note: The progress of a request under way is the share of its length that has come in, in percent, with the
  lengths, the speed and the remaining time of its context, as long as a hundred times the length received is below two to the 31st:
  up to 21 megabytes.  Beyond, the product wraps.
\<close>

theorem download_progress:
  assumes "m_mapRequest (snd (w_http w)) s = Some ctx" and "0 \<le> sint (nFinishedLength ctx)" and "0 < sint (nContentLength ctx)"
    and "sint (nFinishedLength ctx) * 100 < 2 ^ 31"
  shows "\<exists>percent. QueryDownloadProcess s w =
      Some (percent, nContentLength ctx, nFinishedLength ctx, nSpeed ctx, nRemainedTime ctx) \<and>
    uint percent = sint (nFinishedLength ctx) * 100 div sint (nContentLength ctx)"
proof -
  let ?f = "nFinishedLength ctx" let ?l = "nContentLength ctx"
  have "sint (?f * 100) = sint ?f * 100"
  proof -
    have "sint (?f * 100) = signed_take_bit 31 (sint ?f * 100)" by (simp add: sint_word_ariths)
    also have "\<dots> = sint ?f * 100" using assms(2,4) by (intro signed_take_bit_int_eq_self) simp_all
    finally show ?thesis .
  qed
  moreover have "?l \<noteq> 0" using assms(3) by auto
  moreover have "sint ?f * 100 sdiv sint ?l = sint ?f * 100 div sint ?l" using assms(2,3)
    by (cases "sint ?f = 0") (simp_all add: signed_divide_int_def sgn_mult)
  moreover have "0 \<le> sint ?f * 100 div sint ?l" "sint ?f * 100 div sint ?l < 2 ^ 32"
  proof -
    show "0 \<le> sint ?f * 100 div sint ?l" using assms(2,3) by (simp add: pos_imp_zdiv_nonneg_iff)
    have "sint ?f * 100 div sint ?l \<le> sint ?f * 100 div 1" using assms(2,3) by (intro zdiv_mono2) simp_all
    then show "sint ?f * 100 div sint ?l < 2 ^ 32" using assms(4) by simp
  qed
  ultimately show ?thesis
    using assms(1) by (simp add: QueryDownloadProcess_def GetContext_def percent_of_def uint_word_of_int mod_pos_pos_trivial)
qed

theorem download_progress_witness:
  "QueryDownloadProcess 101 (sample_web [(101, icon_answer\<lparr>nFinishedLength := 15000000, nContentLength := 20000000\<rparr>)] []) =
     Some (75, 20000000, 15000000, nSpeed icon_answer, nRemainedTime icon_answer) \<and> percent_of 30000000 40000000 = -32"
proof -
  have "percent_of 30000000 40000000 = -32" by (simp add: percent_of_def signed_divide_int_def)
  moreover have "uint p = 75 \<Longrightarrow> p = 75" for p :: u32 by (rule word_uint_eqI) simp
  ultimately show ?thesis
    using download_progress [of "sample_web [(101, icon_answer\<lparr>nFinishedLength := 15000000, nContentLength := 20000000\<rparr>)] []" 101
        "icon_answer\<lparr>nFinishedLength := 15000000, nContentLength := 20000000\<rparr>"] by auto
qed

section \<open>A download made again\<close>

lemma handlers_fold_ok: "client_ok c \<Longrightarrow> client_ok (fold (handle_process da i) infos c)"
  by (induction infos arbitrary: c) (simp_all add: handlers_ok)

lemma ClearSeqIdMap_file:
  assumes "ClearSeqIdMap s (m, c) = Inr (m1, c1)" and "file_request s name h c"
  shows "file_request s name h c1 \<and> m_disk c1 = m_disk c"
  using assms by (auto simp: ClearSeqIdMap_def file_request_def obind_eq_Inr_iff split: option.splits if_splits)

lemma ReReqURL_link:
  assumes "ReReqURL fs now ctx (m, c) = Inr (r, ctx', m', c')" and "m_mapSeqNo2TaskId c (nReqSeq ctx) = None"
    and "m_mapSeqNo2TaskId c' (nReqSeq ctx) = Some j"
  shows "r = 0 \<and> m_pTransferManager c"
  using assms by (auto simp: ReReqURL_def retry_with_def obind_eq_Inr_iff Let_def split: if_splits option.splits)

text \<open>
  C25: A download whose first attempt breaks off after some pieces and whose second attempt goes through ends
  in a file that holds the pieces of the first attempt in front of everything the second one received, although the second attempt
  asks for the whole file again: the file of the first attempt is neither closed nor cut.
\<close>

theorem retried_download_appends:
  assumes "http_ok (m, c)" and "downloads i s name 0 c" and "infos \<noteq> []" and "nReqSeq ctx = s" and "strURL ctx \<noteq> []" and "pArgument ctx = None"
    and "ReReqUrl env ctx (m, handle_error i err (fold (handle_process disk_fine i) infos c)) = Inr (ctx', m', c')"
    and "m_mapSeqNo2TaskId c' s = Some j"
  shows "m_disk (handle_finish disk_fine j info (fold (handle_process disk_fine j) infos' c')) =
    m_disk c @ [(name, concat (map ti_respData infos) @ concat (map ti_respData infos') @ ti_respData info, False)]"
proof -
  let ?c = "handle_error i err (fold (handle_process disk_fine i) infos c)"
  have c: "downloads i s name (int (length (m_disk c)) + 1) ?c" "m_disk ?c = m_disk c @ [(name, concat (map ti_respData infos), True)]"
    using broken_off [OF assms(2,3), of err] by auto
  have "client_ok ?c" using assms(1) by (simp add: http_ok_def handlers_ok handlers_fold_ok)
  then have "http_ok (m, ?c)" using assms(1) by (simp add: http_ok_def)
  then obtain m1 c1 where c1: "ClearSeqIdMap s (m, ?c) = Inr (m1, c1)" "m_mapSeqNo2TaskId c1 s = None"
    by (rule ClearSeqIdMap_ok [of _ s]) blast
  have f: "file_request s name (int (length (m_disk c)) + 1) c1" "m_disk c1 = m_disk ?c"
    using ClearSeqIdMap_file [OF c1(1)] c(1) by (auto simp: downloads_def)
  obtain r where r: "ReReqURL (ev_files env) (ev_now env) ctx (m1, c1) = Inr (r, ctx', m', c')"
    using assms(4-7) c1(1) by (auto simp: ReReqUrl_def obind_eq_Inr_iff)
  have "r = 0 \<and> m_pTransferManager c1" using ReReqURL_link [OF r] c1(2) assms(4,8) by simp
  then have "downloads j s name (int (length (m_disk c)) + 1) c'" "m_disk c' = m_disk c1"
    using retry_keeps_file [OF f(1) assms(4), of "ev_files env" "ev_now env" m1 ctx' m' c'] r assms(8) by auto
  then show ?thesis using saved_from [of j s name "m_disk c" c'] f(2) c(2) by simp
qed

theorem retried_download_appends_witness:
  "\<exists>ctx' m' c' j. ReReqUrl sample_env (failed_request 101)
      (started_transfer, handle_error 3 (piece []) (fold (handle_process disk_fine 3) [piece [1, 2]] sample_client)) = Inr (ctx', m', c') \<and>
    m_disk (handle_finish disk_fine j (piece [3]) (fold (handle_process disk_fine j) [piece [1, 2]] c')) = [([97], [1, 2, 1, 2, 3], False)]"
proof -
  let ?c = "handle_error 3 (piece []) (fold (handle_process disk_fine 3) [piece [1, 2]] sample_client)"
  have "client_ok sample_client"
    by (simp add: client_ok_def sample_client_def HTTPCONTEXT_init_def MAX_TASKQUE_SIZE_def)
  then have ok: "http_ok (started_transfer, sample_client)" "http_ok (started_transfer, ?c)"
    using started_wf by (simp_all add: http_ok_def handlers_ok)
  have f: "nReqSeq (failed_request 101) = 101" "strURL (failed_request 101) \<noteq> []" "pArgument (failed_request 101) = None"
    using failed_request_simps [of 101] by (simp_all add: good_context_def)
  obtain pCxt where c: "m_mapRequest ?c 101 = Some pCxt" "downloads 3 101 [97] 1 ?c"
    using broken_off [OF sample_downloads, of "[piece [1, 2]]" "piece []"]
    by (auto simp: downloads_def file_request_def sample_client_def)
  have mgr: "m_pTransferManager ?c"
    using \<open>http_ok (started_transfer, ?c)\<close> c(2) by (auto simp: http_ok_def client_ok_def downloads_def)
  have m: "mgrStarted started_transfer" "taskQue started_transfer ! 0 = None"
    by (simp_all add: started_transfer_def start_def TranferManager_def MAX_TASKQUE_SIZE_def Let_def)
  obtain ctx' m' c' j where r: "ReReqUrl sample_env (failed_request 101) (started_transfer, ?c) = Inr (ctx', m', c')"
    "m_mapSeqNo2TaskId c' 101 = Some j"
    using ReReqUrl_linked [OF ok(2) f(2,3), of pCxt 0 sample_env] c(1) mgr m f(1) by (auto simp: MAX_TASKQUE_SIZE_def)
  show ?thesis
    using retried_download_appends [OF ok(1) sample_downloads _ f r, of "piece [3]" "[piece [1, 2]]"] r(1)
    by (intro exI [of _ ctx'] exI [of _ m'] exI [of _ c'] exI [of _ j]) (simp add: piece_def sample_client_def)
qed

end
