(* ===== verification/Http_Url.thy ===== *)
theory Http_Url
  imports Misc_Helper Base64_Coding
begin

text \<open>
  Addresses, \<open>src/src/Utility/HttpClient/src/Url.cpp\<close>: the escapes of characters that may not stand in an address, and the parser that
  splits an address into its parts.  C strings are lists of bytes without the final zero.
\<close>

section \<open>Escapes\<close>

text \<open>Bit 0: reserved; bit 1: unsafe.\<close>

definition urlchr_table :: "nat list" where
  "urlchr_table =
     replicate 32 2 @
     [2, 0, 2, 3, 1, 2, 1, 0,
      0, 0, 0, 1, 1, 0, 0, 1,
      0, 0, 0, 0, 0, 0, 0, 0,
      0, 0, 3, 1, 2, 1, 2, 1,
      3, 0, 0, 0, 0, 0, 0, 0,
      0, 0, 0, 0, 0, 0, 0, 0,
      0, 0, 0, 0, 0, 0, 0, 0,
      0, 0, 0, 3, 2, 3, 2, 0,
      2, 0, 0, 0, 0, 0, 0, 0,
      0, 0, 0, 0, 0, 0, 0, 0,
      0, 0, 0, 0, 0, 0, 0, 0,
      0, 0, 0, 2, 2, 2, 3, 2] @
     replicate 128 2"

definition URL_RESERVED_CHAR :: "u8 \<Rightarrow> bool" where
  "URL_RESERVED_CHAR c \<longleftrightarrow> odd (urlchr_table ! unat c)"

definition URL_UNSAFE_CHAR :: "u8 \<Rightarrow> bool" where
  "URL_UNSAFE_CHAR c \<longleftrightarrow> 2 \<le> urlchr_table ! unat c"

definition must_escape :: "u8 \<Rightarrow> bool" where
  "must_escape c \<longleftrightarrow> URL_UNSAFE_CHAR c \<and> \<not> URL_RESERVED_CHAR c"

definition XDIGIT_TO_XCHAR :: "u8 \<Rightarrow> u8" where
  "XDIGIT_TO_XCHAR x = (if x < 10 then x + 48 else x - 10 + 65)"

definition toupper :: "u8 \<Rightarrow> u8" where
  "toupper x = (if 97 \<le> x \<and> x \<le> 122 then x - 32 else x)"

definition XCHAR_TO_XDIGIT :: "u8 \<Rightarrow> u8" where
  "XCHAR_TO_XDIGIT x = (if 48 \<le> x \<and> x \<le> 57 then x - 48 else toupper x - 65 + 10)"

definition isxdigit :: "u8 \<Rightarrow> bool" where
  "isxdigit x \<longleftrightarrow> (48 \<le> x \<and> x \<le> 57) \<or> (65 \<le> x \<and> x \<le> 70) \<or> (97 \<le> x \<and> x \<le> 102)"

definition escape :: "u8 \<Rightarrow> bytes" where
  "escape c = [37, XDIGIT_TO_XCHAR (drop_bit 4 c), XDIGIT_TO_XCHAR (and c 15)]"

text \<open>Each routine goes over the text twice: first to count the bytes it needs, then to write them.\<close>

fun pre_encode_len :: "bytes \<Rightarrow> nat" where
  "pre_encode_len [] = 0"
| "pre_encode_len (c # s) =
     (if c = 37 then
        (case s of
           a # b # t \<Rightarrow> if isxdigit a \<and> isxdigit b then 3 + pre_encode_len t else 3 + pre_encode_len s
         | _ \<Rightarrow> 3 + pre_encode_len s)
      else if must_escape c then 3 + pre_encode_len s
      else 1 + pre_encode_len s)"

fun pre_encode :: "bytes \<Rightarrow> bytes" where
  "pre_encode [] = []"
| "pre_encode (c # s) =
     (if c = 37 then
        (case s of
           a # b # t \<Rightarrow> if isxdigit a \<and> isxdigit b then [37, a, b] @ pre_encode t else [37, 50, 53] @ pre_encode s
         | _ \<Rightarrow> [37, 50, 53] @ pre_encode s)
      else if must_escape c then escape c @ pre_encode s
      else c # pre_encode s)"

fun url_encode_len :: "bytes \<Rightarrow> nat" where
  "url_encode_len [] = 0"
| "url_encode_len (c # s) = (if must_escape c then 3 else 1) + url_encode_len s"

fun url_encode :: "bytes \<Rightarrow> bytes" where
  "url_encode [] = []"
| "url_encode (c # s) = (if must_escape c then escape c else [c]) @ url_encode s"

fun url_decode_len :: "bytes \<Rightarrow> nat option" where
  "url_decode_len [] = Some 0"
| "url_decode_len (c # s) =
     (if c = 37 then
        (case s of
           a # b # t \<Rightarrow> if isxdigit a \<and> isxdigit b then map_option Suc (url_decode_len t) else None
         | _ \<Rightarrow> None)
      else map_option Suc (url_decode_len s))"

fun url_decode_write :: "bytes \<Rightarrow> bytes" where
  "url_decode_write [] = []"
| "url_decode_write (c # s) =
     (if c = 37 then
        (case s of
           a # b # t \<Rightarrow> (push_bit 4 (XCHAR_TO_XDIGIT a) + XCHAR_TO_XDIGIT b) # url_decode_write t
         | _ \<Rightarrow> [])
      else c # url_decode_write s)"

definition url_decode :: "bytes \<Rightarrow> bytes option" where
  "url_decode s = (case url_decode_len s of None \<Rightarrow> None | Some n \<Rightarrow> Some (url_decode_write s))"

section \<open>The parser\<close>

datatype Protocol = HTTP | HTTPS | FTP | MMS | MMSH | MMST | RTSP | NONE

text \<open>A NULL pointer is \<open>None\<close>.\<close>

record URL =
  u_url :: "bytes option"
  u_path :: "bytes option"
  u_protocol :: Protocol
  u_user :: "bytes option"
  u_password :: "bytes option"
  u_host :: "bytes option"
  u_port :: int
  u_dir :: "bytes option"
  u_file :: "bytes option"

text \<open>The constructor does not set the port: \<open>garbage\<close>.\<close>

definition URL_init :: "int \<Rightarrow> URL" where
  "URL_init garbage =
     \<lparr>u_url = None, u_path = None, u_protocol = NONE, u_user = None, u_password = None, u_host = None, u_port = garbage,
      u_dir = None, u_file = None\<rparr>"

definition free_all :: "URL \<Rightarrow> URL" where
  "free_all u =
     u\<lparr>u_url := None, u_user := None, u_password := None, u_host := None, u_dir := None, u_file := None, u_path := None,
       u_protocol := NONE\<rparr>"

definition protocol_table :: "(bytes \<times> Protocol \<times> int \<times> bool) list" where
  "protocol_table = [(bytes_of_string ''http://'', HTTP, 80, True)]"

definition E_PROTO_NOT_SUPPORT :: int where "E_PROTO_NOT_SUPPORT = -5"
definition E_BAD_URL :: int where "E_BAD_URL = -6"

definition before :: "u8 \<Rightarrow> bytes \<Rightarrow> bytes" where
  "before c s = takeWhile (\<lambda>x. x \<noteq> c) s"

definition after :: "u8 \<Rightarrow> bytes \<Rightarrow> bytes" where
  "after c s = drop 1 (dropWhile (\<lambda>x. x \<noteq> c) s)"

fun parse_scheme_from :: "(bytes \<times> Protocol \<times> int \<times> bool) list \<Rightarrow> bytes \<Rightarrow> URL \<Rightarrow> int \<times> bytes \<times> URL" where
  "parse_scheme_from [] s u = (-1, s, u)"
| "parse_scheme_from ((p, proto, defaultPort, supported) # ps) s u =
     (if take (length p) s = p
      then (if supported then 0 else E_PROTO_NOT_SUPPORT, drop (length p) s, u\<lparr>u_protocol := proto, u_port := defaultPort\<rparr>)
      else parse_scheme_from ps s u)"

definition parse_scheme :: "bytes \<Rightarrow> URL \<Rightarrow> int \<times> bytes \<times> URL" where
  "parse_scheme s u = parse_scheme_from protocol_table s u"

definition parse_user :: "bytes \<Rightarrow> URL \<Rightarrow> bytes \<times> URL" where
  "parse_user s u =
     (if 64 \<in> set (before 47 s)
      then let info = before 64 s in
        (after 64 s,
         if 58 \<in> set info then u\<lparr>u_user := url_decode (before 58 info), u_password := url_decode (after 58 info)\<rparr>
         else u\<lparr>u_user := url_decode info\<rparr>)
      else (s, u))"

text \<open>Every colon before the slash sets the port; \<open>atoi\<close> reads on from there.\<close>

fun parse_port :: "bytes \<Rightarrow> int \<Rightarrow> int" where
  "parse_port [] p = p"
| "parse_port (c # s) p = (if c = 47 then p else if c = 58 then parse_port s (atol s) else parse_port s p)"

definition parse_location :: "bytes \<Rightarrow> URL \<Rightarrow> int \<times> bytes \<times> URL" where
  "parse_location s u =
     (let (begin, u1) = parse_user s u in
      if begin \<noteq> [] \<and> hd begin = 91 then
        let name = takeWhile (\<lambda>c. c \<noteq> 47 \<and> c \<noteq> 93) (tl begin); rest = drop (length name) (tl begin) in
        if rest = [] \<or> hd rest \<noteq> 93 then (E_BAD_URL, s, u1)
        else (0, after 47 (tl rest), u1\<lparr>u_port := parse_port (tl rest) (u_port u1), u_host := Some name\<rparr>)
      else (0, after 47 begin, u1\<lparr>u_port := parse_port begin (u_port u1), u_host := Some (before 58 (before 47 begin))\<rparr>))"

definition parse_path :: "bytes \<Rightarrow> URL \<Rightarrow> URL" where
  "parse_path s u =
     (if 47 \<in> set s
      then let name = rev (before 47 (rev s)); u1 = u\<lparr>u_dir := url_decode (take (length s - length name - 1) s)\<rparr> in
        if name = [] then u1 else u1\<lparr>u_file := url_decode name\<rparr>
      else if s \<noteq> [] then u\<lparr>u_file := url_decode s\<rparr>
      else u)"

text \<open>The work buffer has 1024 bytes; \<open>_snprintf\<close> leaves a text of that length without a final zero.\<close>

definition url_parse :: "bytes \<Rightarrow> URL \<Rightarrow> (int \<times> URL) outcome" where
  "url_parse url_orig u =
     (let s = pre_encode url_orig; u0 = u\<lparr>u_url := Some s\<rparr> in
      if 1024 \<le> length s then Inl OutOfRange
      else
        let (ret, s1, u1) = parse_scheme s u0 in
        if ret \<noteq> 0 then Inr (ret, u1)
        else
          let (ret, s2, u2) = parse_location s1 u1 in
          if ret \<noteq> 0 then Inr (ret, u2)
          else if u_protocol u2 = FTP then Inr (0, parse_path s2 u2)
          else
            let s3 = before 35 s2 in
            Inr (0, parse_path (before 59 (before 63 s3)) (u2\<lparr>u_path := Some (47 # s3)\<rparr>)))"

definition set_url :: "bytes \<Rightarrow> URL \<Rightarrow> (int \<times> URL) outcome" where
  "set_url url_orig u = url_parse url_orig (free_all u)"

text \<open>A redirection relative to this address.  \<open>printf\<close> shows a NULL host as \<open>(null)\<close>.\<close>

definition opt_text :: "bytes option \<Rightarrow> bytes" where
  "opt_text x = (case x of None \<Rightarrow> [] | Some s \<Rightarrow> s)"

definition here :: "bytes \<Rightarrow> URL \<Rightarrow> bytes" where
  "here pro_str u =
     pro_str @ opt_text (u_user u) @ (if u_password u = None then [] else [58]) @ opt_text (u_password u) @
     (if u_user u = None then [] else [64]) @
     (case u_host u of None \<Rightarrow> bytes_of_string ''(null)'' | Some h \<Rightarrow> h) @ [58] @ ConvertFromInt (u_port u)"

definition reset_url :: "bytes \<Rightarrow> URL \<Rightarrow> (int \<times> URL) outcome" where
  "reset_url url_orig u =
     (if list_ex (\<lambda>i. take 3 (drop i url_orig) = bytes_of_string ''://'') [0..<length url_orig] then url_parse url_orig (free_all u)
      else
        case find (\<lambda>(p, proto, defaultPort, supported). proto = u_protocol u) protocol_table of
          None \<Rightarrow> Inr (-1, u)
        | Some (p, proto, defaultPort, supported) \<Rightarrow>
            let new = here p u @
              (if url_orig \<noteq> [] \<and> hd url_orig = 47 then url_orig
               else (if u_dir u = None then [] else [47]) @ opt_text (u_dir u) @ [47] @ url_orig) in
            if 1024 \<le> length new then Inl OutOfRange else url_parse new (free_all u))"

section \<open>Round trips of the escapes\<close>

lemma hex_digits:
  assumes "x < 16"
  shows "isxdigit (XDIGIT_TO_XCHAR x)" "XCHAR_TO_XDIGIT (XDIGIT_TO_XCHAR x) = x"
proof -
  have "\<forall>n \<in> set [0..<16]. isxdigit (XDIGIT_TO_XCHAR (word_of_nat n)) \<and>
      XCHAR_TO_XDIGIT (XDIGIT_TO_XCHAR (word_of_nat n)) = (word_of_nat n :: u8)"
    by code_simp
  moreover have "unat x \<in> set [0..<16]" using assms by (simp add: word_less_nat_alt)
  ultimately show "isxdigit (XDIGIT_TO_XCHAR x)" "XCHAR_TO_XDIGIT (XDIGIT_TO_XCHAR x) = x" by fastforce+
qed

lemma nibble_small: "drop_bit 4 (c :: u8) < 16" "and (c :: u8) 15 < 16"
proof -
  have "unat (drop_bit 4 c) = drop_bit 4 (unat c)" by (rule unat_drop_bit_eq)
  also have "\<dots> = unat c div 16" by (simp add: drop_bit_eq_div)
  also have "\<dots> < 16" using unat_byte_less [of c] by (simp add: less_mult_imp_div_less)
  finally show "drop_bit 4 c < 16" by (simp add: word_less_nat_alt)
  have "and c 15 = take_bit 4 c" by (simp add: take_bit_eq_mask mask_eq_exp_minus_1)
  then have "unat (and c 15) = take_bit 4 (unat c)" using unsigned_take_bit_eq [of 4 c] by simp
  then show "and c 15 < 16" by (simp add: word_less_nat_alt take_bit_eq_mod)
qed

lemma rejoin_nibbles: "push_bit 4 (drop_bit 4 c) + and c 15 = (c :: u8)"
proof -
  have "and c 15 = take_bit 4 c" by (simp add: take_bit_eq_mask mask_eq_exp_minus_1)
  then show ?thesis using bits_ident [of 4 c] by simp
qed

lemma percent_escaped: "must_escape 37"
  by (simp add: must_escape_def URL_UNSAFE_CHAR_def URL_RESERVED_CHAR_def urlchr_table_def nth_append)

declare pre_encode.simps(2) [simp del] pre_encode_len.simps(2) [simp del] url_decode_len.simps(2) [simp del] url_decode_write.simps(2) [simp del]

text \<open>The four ways an address goes on.\<close>

lemma pre_encode_steps:
  "isxdigit a \<Longrightarrow> isxdigit b \<Longrightarrow> pre_encode (37 # a # b # t) = [37, a, b] @ pre_encode t"
  "\<not> (2 \<le> length s \<and> isxdigit (s ! 0) \<and> isxdigit (s ! 1)) \<Longrightarrow> pre_encode (37 # s) = [37, 50, 53] @ pre_encode s"
  "c \<noteq> 37 \<Longrightarrow> must_escape c \<Longrightarrow> pre_encode (c # s) = escape c @ pre_encode s"
  "\<not> must_escape c \<Longrightarrow> pre_encode (c # s) = c # pre_encode s"
  "isxdigit a \<Longrightarrow> isxdigit b \<Longrightarrow> pre_encode_len (37 # a # b # t) = 3 + pre_encode_len t"
  "\<not> (2 \<le> length s \<and> isxdigit (s ! 0) \<and> isxdigit (s ! 1)) \<Longrightarrow> pre_encode_len (37 # s) = 3 + pre_encode_len s"
  "c \<noteq> 37 \<Longrightarrow> must_escape c \<Longrightarrow> pre_encode_len (c # s) = 3 + pre_encode_len s"
  "\<not> must_escape c \<Longrightarrow> pre_encode_len (c # s) = 1 + pre_encode_len s"
  using percent_escaped
  by (subst pre_encode.simps(2) pre_encode_len.simps(2); auto split: list.splits)+

lemma url_decode_steps:
  "isxdigit a \<Longrightarrow> isxdigit b \<Longrightarrow> url_decode_len (37 # a # b # t) = map_option Suc (url_decode_len t)"
  "c \<noteq> 37 \<Longrightarrow> url_decode_len (c # s) = map_option Suc (url_decode_len s)"
  "url_decode_write (37 # a # b # t) = (push_bit 4 (XCHAR_TO_XDIGIT a) + XCHAR_TO_XDIGIT b) # url_decode_write t"
  "c \<noteq> 37 \<Longrightarrow> url_decode_write (c # s) = c # url_decode_write s"
  by (subst url_decode_len.simps(2) url_decode_write.simps(2); simp)+

lemma address_induct [case_names Nil Hex Percent Escape Plain]:
  assumes "P []" and "\<And>a b t. isxdigit a \<Longrightarrow> isxdigit b \<Longrightarrow> P t \<Longrightarrow> P (37 # a # b # t)"
    and "\<And>s. \<not> (2 \<le> length s \<and> isxdigit (s ! 0) \<and> isxdigit (s ! 1)) \<Longrightarrow> P s \<Longrightarrow> P (37 # s)"
    and "\<And>c s. c \<noteq> 37 \<Longrightarrow> must_escape c \<Longrightarrow> P s \<Longrightarrow> P (c # s)" and "\<And>c s. \<not> must_escape c \<Longrightarrow> P s \<Longrightarrow> P (c # s)"
  shows "P s"
proof (induction s rule: length_induct)
  case (1 s)
  show ?case
  proof (cases s)
    case (Cons c t)
    have shorter: "P r" if "length r < length s" for r using 1 that by blast
    show ?thesis
    proof (cases "c = 37 \<and> 2 \<le> length t \<and> isxdigit (t ! 0) \<and> isxdigit (t ! 1)")
      case True
      then obtain a b r where "t = a # b # r" by (cases t; cases "tl t") auto
      then show ?thesis using True Cons assms(2) [of a b r] shorter [of r] by simp
    next
      case False
      then show ?thesis using Cons assms(3) [of t] assms(4) [of c t] assms(5) [of c t] shorter [of t] by (cases "c = 37"; cases "must_escape c") auto
    qed
  qed (simp add: assms(1))
qed

lemma hex_25: "isxdigit 50" "isxdigit 53"
  by (simp_all add: isxdigit_def)

lemma escape_read:
  "url_decode_len (escape c @ s) = map_option Suc (url_decode_len s)" "url_decode_write (escape c @ s) = c # url_decode_write s"
  "pre_encode (escape c @ s) = escape c @ pre_encode s" "length (escape c) = 3"
  by (simp_all add: escape_def hex_digits nibble_small rejoin_nibbles pre_encode_steps url_decode_steps)

lemma decode_encode: "url_decode_len (url_encode s) = Some (length s) \<and> url_decode_write (url_encode s) = s"
proof (induction s)
  case (Cons c s)
  then show ?case using percent_escaped by (cases "c = 37") (auto simp: escape_read url_decode_steps)
qed simp

lemma length_pre_encode: "length (pre_encode s) = pre_encode_len s"
  by (induction s rule: address_induct) (simp_all add: pre_encode_steps escape_read)

lemma pre_encode_twice: "pre_encode (pre_encode s) = pre_encode s"
  by (induction s rule: address_induct) (simp_all add: pre_encode_steps escape_read hex_25)

lemma pre_encode_readable: "url_decode_len (pre_encode s) \<noteq> None"
proof (induction s rule: address_induct)
  case (Plain c s)
  then show ?case using percent_escaped by (cases "c = 37") (simp_all add: pre_encode_steps url_decode_steps)
qed (simp_all add: pre_encode_steps url_decode_steps escape_read hex_25)

text \<open>
  C37: Decoding what \<open>encode\<close> wrote gives back the text, and both encoders write exactly the number of bytes they have
  counted.  Completing the escapes of an address can be done twice with the same result, and the result can always be decoded.
\<close>

theorem url_coding:
  "url_decode (url_encode s) = Some s \<and> length (url_encode s) = url_encode_len s \<and> length (pre_encode s) = pre_encode_len s \<and>
   pre_encode (pre_encode s) = pre_encode s \<and> url_decode (pre_encode s) \<noteq> None"
proof -
  have "length (url_encode s) = url_encode_len s" by (induction s) (simp_all add: escape_read)
  moreover have "url_decode (url_encode s) = Some s" using decode_encode [of s] by (simp add: url_decode_def)
  moreover have "url_decode (pre_encode s) \<noteq> None" using pre_encode_readable [of s] by (auto simp: url_decode_def)
  ultimately show ?thesis using length_pre_encode pre_encode_twice by blast
qed

section \<open>The parts of an address\<close>

text \<open>Characters that are neither reserved nor unsafe, and texts that need no escapes.\<close>

definition plain :: "u8 \<Rightarrow> bool" where
  "plain c \<longleftrightarrow> urlchr_table ! unat c = 0"

definition escape_free :: "bytes \<Rightarrow> bool" where
  "escape_free s \<longleftrightarrow> (\<forall>c \<in> set s. \<not> must_escape c)"

lemma plain_not_special:
  assumes "plain c"
  shows "c \<notin> {47, 58, 64, 63, 35, 59, 91}" "\<not> must_escape c" "c \<noteq> 37"
proof -
  have "\<not> plain k" if "k \<in> {47, 58, 64, 63, 35, 59, 91, 37}" for k
    using that by (auto simp: plain_def urlchr_table_def nth_append)
  then show "c \<notin> {47, 58, 64, 63, 35, 59, 91}" "c \<noteq> 37" using assms by auto
  show "\<not> must_escape c" using assms by (simp add: plain_def must_escape_def URL_UNSAFE_CHAR_def)
qed

lemma special_escape_free: "c \<in> {47, 58, 64, 63, 35, 59, 91} \<Longrightarrow> \<not> must_escape c"
  by (auto simp: must_escape_def URL_UNSAFE_CHAR_def URL_RESERVED_CHAR_def urlchr_table_def nth_append)

lemma digit_plain: "d < 10 \<Longrightarrow> plain (digit_char d)"
proof -
  have "\<forall>d \<in> set [0..<10]. plain (digit_char d)" by code_simp
  then show "d < 10 \<Longrightarrow> plain (digit_char d)" by auto
qed

lemma pre_encode_free: "escape_free s \<Longrightarrow> pre_encode s = s"
  by (induction s) (simp_all add: escape_free_def pre_encode_steps)

lemma url_decode_free: "37 \<notin> set s \<Longrightarrow> url_decode s = Some s"
proof -
  assume "37 \<notin> set s"
  then have "url_decode_len s \<noteq> None \<and> url_decode_write s = s" by (induction s) (auto simp: url_decode_steps)
  then show ?thesis by (auto simp: url_decode_def)
qed

lemma before_after: "c \<notin> set a \<Longrightarrow> before c (a @ c # b) = a \<and> before c a = a \<and> after c (a @ c # b) = b"
  by (induction a) (auto simp: before_def after_def)

lemma before_append: "c \<notin> set a \<Longrightarrow> before c (a @ c # b) = a" "c \<notin> set a \<Longrightarrow> before c a = a" "c \<notin> set a \<Longrightarrow> after c (a @ c # b) = b"
  using before_after [of c a b] by simp_all

definition credentials :: "(bytes \<times> bytes option) option \<Rightarrow> bytes" where
  "credentials cred =
     (case cred of None \<Rightarrow> [] | Some (user, pw) \<Rightarrow> user @ (case pw of None \<Rightarrow> [] | Some w \<Rightarrow> 58 # w) @ [64])"

definition port_text :: "nat option \<Rightarrow> bytes" where
  "port_text port = (case port of None \<Rightarrow> [] | Some p \<Rightarrow> 58 # map digit_char (digits p))"

definition dir_text :: "bytes option \<Rightarrow> bytes" where
  "dir_text dir = (case dir of None \<Rightarrow> [] | Some d \<Rightarrow> d @ [47])"

definition url_text :: "(bytes \<times> bytes option) option \<Rightarrow> bytes \<Rightarrow> nat option \<Rightarrow> bytes option \<Rightarrow> bytes \<Rightarrow> bytes \<Rightarrow> bytes \<Rightarrow> bytes" where
  "url_text cred host port dir file query frag =
     bytes_of_string ''http://'' @ credentials cred @ host @ port_text port @ [47] @ dir_text dir @ file @ query @ frag"

definition cred_ok :: "(bytes \<times> bytes option) option \<Rightarrow> bool" where
  "cred_ok cred = (case cred of None \<Rightarrow> True | Some (user, pw) \<Rightarrow> list_all plain user \<and> (case pw of None \<Rightarrow> True | Some w \<Rightarrow> list_all plain w))"

lemma port_text_plain: "c \<in> set (port_text port) \<Longrightarrow> c = 58 \<or> plain c"
  using digits_small digit_plain by (auto simp: port_text_def split: option.splits)

lemma parse_user_text:
  assumes "cred_ok cred" and "list_all plain host"
  shows "parse_user (credentials cred @ host @ port_text port @ 47 # rest) u =
    (host @ port_text port @ 47 # rest,
     case cred of None \<Rightarrow> u | Some (user, None) \<Rightarrow> u\<lparr>u_user := Some user\<rparr> | Some (user, Some w) \<Rightarrow> u\<lparr>u_user := Some user, u_password := Some w\<rparr>)"
proof -
  have no: "c \<notin> set x" if "list_all plain x" "c \<in> {47, 58, 64, 37}" for c x
    using that plain_not_special by (fastforce simp: list_all_iff)
  have p: "47 \<notin> set (port_text port)" "64 \<notin> set (port_text port)" using port_text_plain [of _ port] plain_not_special by fastforce+
  have host: "47 \<notin> set (host @ port_text port)" "64 \<notin> set (host @ port_text port)" using no [OF assms(2)] p by auto
  show ?thesis
  proof (cases cred)
    case None
    have "before 47 (host @ port_text port @ 47 # rest) = host @ port_text port" using before_append(1) [OF host(1)] by simp
    then show ?thesis using None host by (simp add: parse_user_def credentials_def)
  next
    case (Some up)
    obtain user pw where up: "up = (user, pw)" by (cases up)
    have user: "list_all plain user" using assms(1) Some up by (simp add: cred_ok_def)
    have here: "64 \<in> set (before 47 (x @ 64 # host @ port_text port @ 47 # rest))" if "47 \<notin> set x" for x
      using before_append(1) [of 47 "x @ 64 # host @ port_text port" rest] that host by simp
    show ?thesis
    proof (cases pw)
      case None
      then show ?thesis using here [of user] no [OF user] Some up before_append [of 64 user]
        by (simp add: parse_user_def credentials_def url_decode_free Let_def)
    next
      case (Some w)
      then have w: "list_all plain w" using assms(1) \<open>cred = Some up\<close> up by (simp add: cred_ok_def)
      have "47 \<notin> set (user @ 58 # w)" "64 \<notin> set (user @ 58 # w)" "58 \<notin> set user" "37 \<notin> set user" "37 \<notin> set w"
        using no [OF user] no [OF w] by auto
      then show ?thesis using here [of "user @ 58 # w"] before_append [of 64 "user @ 58 # w"] before_append(1,3) [of 58 user w] \<open>cred = Some up\<close> up Some
        by (simp add: parse_user_def credentials_def url_decode_free Let_def)
    qed
  qed
qed

lemma parse_port_skip: "47 \<notin> set a \<Longrightarrow> 58 \<notin> set a \<Longrightarrow> parse_port (a @ s) p = parse_port s p"
  by (induction a) auto

lemma takeWhile_stop: "\<not> P x \<Longrightarrow> takeWhile P (a @ x # r) = takeWhile P a"
  by (induction a) auto

lemma atol_unsigned:
  assumes "\<not> (c = 32 \<or> 9 \<le> c \<and> c \<le> 13)" and "c \<noteq> 45" and "c \<noteq> 43"
  shows "atol (c # t) = max (- (2 ^ 31)) (min (2 ^ 31 - 1) (atol_value (c # t)))"
proof -
  have "dropWhile (\<lambda>c. c = 32 \<or> 9 \<le> c \<and> c \<le> 13) (c # t) = c # t" using assms(1) by (simp only: dropWhile.simps if_False)
  then show ?thesis using assms(2,3) by (simp add: atol_def Let_def)
qed

lemma atol_digits_stop:
  assumes "\<not> is_digit y" and "n < 2 ^ 31"
  shows "atol (map digit_char (digits n) @ y # rest) = int n"
proof -
  have tail: "takeWhile is_digit (map digit_char (digits n) @ y # rest) = takeWhile is_digit (map digit_char (digits n))"
    using assms(1) by (rule takeWhile_stop)
  obtain x xs where x: "digits n = x # xs" using digits_nonempty [of n] by (cases "digits n") auto
  have "x < 10" using digits_small [of x n] x by simp
  then have "\<not> (digit_char x = 32 \<or> 9 \<le> digit_char x \<and> digit_char x \<le> 13)" "digit_char x \<noteq> 45" "digit_char x \<noteq> 43"
    using digit_char_props(3,4) [of x] by blast+
  then have "atol (digit_char x # r) = max (- (2 ^ 31)) (min (2 ^ 31 - 1) (atol_value (digit_char x # r)))" for r by (rule atol_unsigned)
  moreover have "atol_value (map digit_char (digits n) @ y # rest) = atol_value (map digit_char (digits n))"
    unfolding atol_value_def tail by (rule refl)
  ultimately have "atol (map digit_char (digits n) @ y # rest) = atol (map digit_char (digits n))"
    unfolding x list.map append.simps by (simp only:)
  then show ?thesis using atol_digits [OF assms(2)] by simp
qed

lemma parse_port_text:
  assumes "\<And>n. port = Some n \<Longrightarrow> n < 2 ^ 31"
  shows "parse_port (port_text port @ 47 # rest) p = (case port of None \<Rightarrow> p | Some n \<Rightarrow> int n)"
proof (cases port)
  case (Some n)
  have d: "plain c" if "c \<in> set (map digit_char (digits n))" for c using that digits_small digit_plain by auto
  have "atol (map digit_char (digits n) @ 47 # rest) = int n"
    using assms Some by (intro atol_digits_stop) (simp_all add: is_digit_def)
  moreover have "47 \<notin> set (map digit_char (digits n))" "58 \<notin> set (map digit_char (digits n))"
    using d plain_not_special by blast+
  ultimately show ?thesis
    using Some parse_port_skip [of "map digit_char (digits n)" "47 # rest"] by (simp add: port_text_def)
qed (simp add: port_text_def)

lemma parse_location_text:
  assumes "cred_ok cred" and "list_all plain host" and "\<And>n. port = Some n \<Longrightarrow> n < 2 ^ 31"
  shows "parse_location (credentials cred @ host @ port_text port @ 47 # rest) u =
    (0, rest, (case cred of None \<Rightarrow> u | Some (user, None) \<Rightarrow> u\<lparr>u_user := Some user\<rparr>
       | Some (user, Some w) \<Rightarrow> u\<lparr>u_user := Some user, u_password := Some w\<rparr>)
      \<lparr>u_port := (case port of None \<Rightarrow> u_port u | Some n \<Rightarrow> int n), u_host := Some host\<rparr>)"
proof -
  let ?b = "host @ port_text port @ 47 # rest"
  have no: "47 \<notin> set host" "58 \<notin> set host" using assms(2) plain_not_special by (fastforce simp: list_all_iff)+
  have p: "47 \<notin> set (port_text port)" using port_text_plain [of _ port] plain_not_special by fastforce
  have cut: "before 47 ?b = host @ port_text port" "after 47 ?b = rest"
    using before_append(1,3) [of 47 "host @ port_text port" rest] no p by simp_all
  have name: "before 58 (host @ port_text port) = host"
    using no before_append(1) [of 58 host] before_append(2) [of 58 host] by (cases port) (simp_all add: port_text_def)
  have first: "hd ?b \<noteq> 91"
    using assms(2) plain_not_special by (cases host; cases port) (fastforce simp: port_text_def)+
  have "parse_port ?b q = (case port of None \<Rightarrow> q | Some n \<Rightarrow> int n)" for q
    using parse_port_skip [OF no] parse_port_text [OF assms(3), of port] by simp
  then show ?thesis
    using parse_user_text [OF assms(1,2)] cut name first by (simp add: parse_location_def Let_def split: option.split)
qed

lemma parse_path_text:
  assumes "list_all plain file" and "file \<noteq> []" and "\<And>d. dir = Some d \<Longrightarrow> 37 \<notin> set d"
  shows "parse_path (dir_text dir @ file) u = (case dir of None \<Rightarrow> u | Some d \<Rightarrow> u\<lparr>u_dir := Some d\<rparr>)\<lparr>u_file := Some file\<rparr>"
proof -
  have no: "47 \<notin> set file" "37 \<notin> set file" using assms(1) plain_not_special by (fastforce simp: list_all_iff)+
  have "before 47 (rev file @ 47 # rev d) = rev file" for d using no by (simp add: before_append)
  then show ?thesis using no assms(2,3)
    by (cases dir) (simp_all add: parse_path_def dir_text_def url_decode_free Let_def)
qed

text \<open>
  C36: An address that is written from its parts is taken apart into the same parts: user and password, host, port (80 when
  none is given), directory and file; the path sent to the server is everything from the first slash to the fragment.
\<close>

theorem url_parts:
  assumes "cred_ok cred" and "list_all plain host" and "\<And>n. port = Some n \<Longrightarrow> n < 2 ^ 31"
    and "\<And>d. dir = Some d \<Longrightarrow> list_all (\<lambda>c. plain c \<or> c = 47) d" and "list_all plain file" and "file \<noteq> []"
    and "escape_free query" and "35 \<notin> set query" and "query \<noteq> [] \<Longrightarrow> hd query = 63" and "escape_free frag" and "frag \<noteq> [] \<Longrightarrow> hd frag = 35"
    and "length (url_text cred host port dir file query frag) < 1024"
  shows "set_url (url_text cred host port dir file query frag) u =
    Inr (0, \<lparr>u_url = Some (url_text cred host port dir file query frag), u_path = Some (47 # dir_text dir @ file @ query), u_protocol = HTTP,
      u_user = map_option fst cred, u_password = Option.bind cred snd, u_host = Some host,
      u_port = (case port of None \<Rightarrow> 80 | Some n \<Rightarrow> int n), u_dir = dir, u_file = Some file\<rparr>)"
proof -
  let ?t = "url_text cred host port dir file query frag"
  let ?rest = "dir_text dir @ file @ query @ frag"
  have plain_free: "list_all plain x \<Longrightarrow> escape_free x" for x using plain_not_special(2) by (auto simp: escape_free_def list_all_iff)
  have dir: "c \<in> set (dir_text dir) \<Longrightarrow> plain c \<or> c = 47" for c using assms(4) by (auto simp: dir_text_def list_all_iff split: option.splits)
  have "escape_free (credentials cred)"
    using assms(1) plain_not_special(2) special_escape_free
    by (auto simp: credentials_def cred_ok_def escape_free_def list_all_iff split: option.splits)
  moreover have "escape_free (port_text port)" "escape_free (dir_text dir)"
    using port_text_plain [of _ port] dir plain_not_special(2) special_escape_free by (fastforce simp: escape_free_def)+
  moreover have "escape_free (bytes_of_string ''http://'')" "escape_free [47]"
    by (simp_all add: escape_free_def bytes_of_string_def must_escape_def URL_UNSAFE_CHAR_def URL_RESERVED_CHAR_def urlchr_table_def nth_append)
  ultimately have "escape_free ?t"
    using plain_free [OF assms(2)] plain_free [OF assms(5)] assms(7,10) by (auto simp: url_text_def escape_free_def)
  then have t: "pre_encode ?t = ?t" by (rule pre_encode_free)
  have scheme: "parse_scheme ?t v = (0, credentials cred @ host @ port_text port @ 47 # ?rest, v\<lparr>u_protocol := HTTP, u_port := 80\<rparr>)" for v
    by (simp add: parse_scheme_def protocol_table_def url_text_def)
  have no: "c \<notin> set (dir_text dir @ file)" if "c \<in> {63, 35, 59, 37}" for c
    using that dir assms(5) plain_not_special by (fastforce simp: list_all_iff)
  have frag: "before 35 ?rest = dir_text dir @ file @ query"
    using no [of 35] assms(8,11) before_append(1) [of 35 "dir_text dir @ file @ query"] before_append(2) [of 35 "dir_text dir @ file @ query"] by (cases frag) auto
  have query: "before 63 (dir_text dir @ file @ query) = dir_text dir @ file"
    using no [of 63] assms(9) before_append(1) [of 63 "dir_text dir @ file"] before_append(2) [of 63 "dir_text dir @ file"] by (cases query) auto
  have params: "before 59 (dir_text dir @ file) = dir_text dir @ file" using no [of 59] before_append(2) by simp
  have path: "parse_path (dir_text dir @ file) v = (case dir of None \<Rightarrow> v | Some d \<Rightarrow> v\<lparr>u_dir := Some d\<rparr>)\<lparr>u_file := Some file\<rparr>" for v
    using no [of 37] by (intro parse_path_text assms(5,6)) (auto simp: dir_text_def)
  show ?thesis
    using assms(12) parse_location_text [OF assms(1-3), of port ?rest]
    by (simp add: set_url_def url_parse_def t scheme frag query params path free_all_def Let_def split: option.split)
qed

definition sample_url :: bytes where
  "sample_url = bytes_of_string ''http://me:pw@h.com:8080/a/b/c.ico?x=1#f''"

theorem url_parts_witness:
  "set_url sample_url (URL_init 0) =
    Inr (0, \<lparr>u_url = Some sample_url, u_path = Some (bytes_of_string ''/a/b/c.ico?x=1''), u_protocol = HTTP,
      u_user = Some (bytes_of_string ''me''), u_password = Some (bytes_of_string ''pw''), u_host = Some (bytes_of_string ''h.com''),
      u_port = 8080, u_dir = Some (bytes_of_string ''a/b''), u_file = Some (bytes_of_string ''c.ico'')\<rparr>)"
proof -
  let ?b = bytes_of_string
  let ?cred = "Some (?b ''me'', Some (?b ''pw''))" let ?dir = "Some (?b ''a/b'')"
  have t: "url_text ?cred (?b ''h.com'') (Some 8080) ?dir (?b ''c.ico'') (?b ''?x=1'') (?b ''#f'') = sample_url"
    by (simp add: url_text_def credentials_def port_text_def dir_text_def sample_url_def bytes_of_string_def digits.simps)
  have "plain 99 \<and> plain 111 \<and> plain 109 \<and> plain 104 \<and> plain 46 \<and> plain 105 \<and> plain 101 \<and> plain 112 \<and> plain 119 \<and> plain 97 \<and> plain 98"
    by (simp add: plain_def urlchr_table_def nth_append)
  then have parts: "cred_ok ?cred" "list_all plain (?b ''h.com'')" "list_all (\<lambda>c. plain c \<or> c = 47) (?b ''a/b'')" "list_all plain (?b ''c.ico'')"
    by (simp_all add: cred_ok_def bytes_of_string_def)
  have tails: "escape_free (?b ''?x=1'')" "escape_free (?b ''#f'')"
    by (simp_all add: escape_free_def bytes_of_string_def must_escape_def URL_UNSAFE_CHAR_def URL_RESERVED_CHAR_def urlchr_table_def nth_append)
  have "?b ''c.ico'' \<noteq> [] \<and> 35 \<notin> set (?b ''?x=1'') \<and> hd (?b ''?x=1'') = 63 \<and> hd (?b ''#f'') = 35 \<and> length sample_url < 1024"
    by (simp add: bytes_of_string_def sample_url_def)
  then have "set_url sample_url (URL_init 0) =
    Inr (0, \<lparr>u_url = Some sample_url, u_path = Some (47 # dir_text ?dir @ ?b ''c.ico'' @ ?b ''?x=1''), u_protocol = HTTP,
      u_user = map_option fst ?cred, u_password = Option.bind ?cred snd, u_host = Some (?b ''h.com''),
      u_port = (case Some (8080 :: nat) of None \<Rightarrow> 80 | Some n \<Rightarrow> int n), u_dir = ?dir, u_file = Some (?b ''c.ico'')\<rparr>)"
    using url_parts [of ?cred "?b ''h.com''" "Some 8080" ?dir "?b ''c.ico''" "?b ''?x=1''" "?b ''#f''" "URL_init 0"] parts tails unfolding t by simp
  moreover have "47 # dir_text ?dir @ ?b ''c.ico'' @ ?b ''?x=1'' = ?b ''/a/b/c.ico?x=1''" by (simp add: dir_text_def bytes_of_string_def)
  ultimately show ?thesis by simp
qed

end
