(* ===== verification/Http_Request.thy ===== *)
theory Http_Request
  imports Http_Url Http_Post
begin

text \<open>
  The request a task sends: the header list \<open>THttpMsg\<close>, the header fields \<open>TTask::setHttpHeader\<close> puts into it through the
  \<open>Build...Hdr\<close> operations, and the text \<open>THttpCli::BuildHttpRequest\<close> writes into the buffer that
  \<open>TTask::generateSendDataBuffer\<close> allocates (\<open>HttpCli.cpp\<close> and \<open>task.cpp\<close> under \<open>src/src/Utility/HttpClient/src\<close>).  The NTLM
  exchange with a proxy is a parameter: the text it contributes.
\<close>

section \<open>Header lists\<close>

type_synonym THttpHdrList = "(bytes \<times> bytes) list"

definition tolower :: "u8 \<Rightarrow> u8" where
  "tolower x = (if 65 \<le> x \<and> x \<le> 90 then x + 32 else x)"

text \<open>\<open>0 == strcasecmp(k, l)\<close>.\<close>

definition same_key :: "bytes \<Rightarrow> bytes \<Rightarrow> bool" where
  "same_key k l \<longleftrightarrow> map tolower k = map tolower l"

fun GetHdr :: "bytes \<Rightarrow> THttpHdrList \<Rightarrow> bytes" where
  "GetHdr strKey [] = []"
| "GetHdr strKey (h # hs) = (if same_key strKey (fst h) then snd h else GetHdr strKey hs)"

fun SetHdr :: "bytes \<Rightarrow> bytes \<Rightarrow> THttpHdrList \<Rightarrow> THttpHdrList" where
  "SetHdr strKey strVal [] = [(strKey, strVal)]"
| "SetHdr strKey strVal (h # hs) =
     (if same_key strKey (fst h) then (fst h, strVal) # hs else h # SetHdr strKey strVal hs)"

definition SetHdrDuplicate :: "bytes \<Rightarrow> bytes \<Rightarrow> THttpHdrList \<Rightarrow> THttpHdrList" where
  "SetHdrDuplicate strKey strVal hs = hs @ [(strKey, strVal)]"

definition hdr_len :: "bytes \<times> bytes \<Rightarrow> nat" where
  "hdr_len h = length (fst h) + 2 + length (snd h) + 2"

definition GetAllHdrLen :: "THttpHdrList \<Rightarrow> nat" where
  "GetAllHdrLen hs = sum_list (map hdr_len hs)"

text \<open>\<open>HttpHdrs\<close>, the header fields of the caller: \<open>SetHdr\<close> always appends, the other two look for the \<open>index\<close>-th
  field (counted from 1) and for the first one.\<close>

fun hdrs_GetHdr_from :: "bytes \<Rightarrow> int \<Rightarrow> int \<Rightarrow> THttpHdrList \<Rightarrow> bytes" where
  "hdrs_GetHdr_from strKey index i [] = []"
| "hdrs_GetHdr_from strKey index i (h # hs) =
     (if same_key strKey (fst h) then (if i = index then snd h else hdrs_GetHdr_from strKey index (i + 1) hs)
      else hdrs_GetHdr_from strKey index i hs)"

definition hdrs_GetHdr :: "bytes \<Rightarrow> int \<Rightarrow> THttpHdrList \<Rightarrow> bytes" where
  "hdrs_GetHdr strKey index hs = hdrs_GetHdr_from strKey index 1 hs"

fun DeleteHdr :: "bytes \<Rightarrow> THttpHdrList \<Rightarrow> THttpHdrList" where
  "DeleteHdr strKey [] = []"
| "DeleteHdr strKey (h # hs) = (if same_key strKey (fst h) then hs else h # DeleteHdr strKey hs)"

section \<open>The header fields of a request\<close>

datatype HTTPDOWN_ProxyType = HTTPDOWN_PROXY_HTTP | HTTPDOWN_PROXY_SOCK4 | HTTPDOWN_PROXY_SOCK5 | HTTPDOWN_PROXY_BUTT

record Proxy_t =
  px_type :: HTTPDOWN_ProxyType
  px_user :: bytes
  px_pwd :: bytes
  px_domain :: bytes

definition BuildUserAgentHdr :: "THttpHdrList \<Rightarrow> THttpHdrList" where
  "BuildUserAgentHdr = SetHdr (bytes_of_string ''User-Agent'') (bytes_of_string ''Mozilla/4.0(compatible;MSIE 5.00;Windows 98)'')"

text \<open>\<open>_snprintf\<close> leaves a text of 1024 bytes and more without its zero, and the reading goes on behind the local buffer; NULL is
  printed as \<open>(null)\<close>.\<close>

definition BuildHostHdr :: "bytes option \<Rightarrow> int \<Rightarrow> THttpHdrList \<Rightarrow> THttpHdrList outcome" where
  "BuildHostHdr host port hs =
     (let name = (case host of None \<Rightarrow> bytes_of_string ''(null)'' | Some h \<Rightarrow> h);
          sHost = (if port \<noteq> 80 then name @ 58 # ConvertFromInt port else name) in
      if length sHost \<ge> 1024 then Inl OutOfRange else Inr (SetHdr (bytes_of_string ''Host'') sHost hs))"

definition BuildCustomHdr :: "bytes \<Rightarrow> bytes \<Rightarrow> THttpHdrList \<Rightarrow> THttpHdrList" where
  "BuildCustomHdr = SetHdrDuplicate"

definition BuildAcceptHdr :: "THttpHdrList \<Rightarrow> THttpHdrList" where
  "BuildAcceptHdr = SetHdr (bytes_of_string ''Accept'') (bytes_of_string ''*/*'')"

text \<open>The name of the field carries the separator that the writer adds once more.\<close>

definition BuildCookieHdr :: "bytes \<Rightarrow> bytes \<Rightarrow> THttpHdrList \<Rightarrow> THttpHdrList outcome" where
  "BuildCookieHdr strkey strval hs =
     (let buf = strkey @ 61 # strval in
      if length buf \<ge> 512 then Inl OutOfRange else Inr (SetHdrDuplicate (bytes_of_string ''Cookie: '') buf hs))"

definition BuildRefererHdr :: "bytes \<Rightarrow> THttpHdrList \<Rightarrow> THttpHdrList" where
  "BuildRefererHdr = SetHdr (bytes_of_string ''Referer'')"

definition BuildContentRangeHdr :: "THttpHdrList \<Rightarrow> THttpHdrList" where
  "BuildContentRangeHdr = SetHdr (bytes_of_string ''Content-Range'') (bytes_of_string ''bytes=0-'')"

definition BuildContentType_of :: "bytes \<Rightarrow> THttpHdrList \<Rightarrow> THttpHdrList" where
  "BuildContentType_of = SetHdr (bytes_of_string ''Content-Type'')"

definition BuildPragmaHdr :: "THttpHdrList \<Rightarrow> THttpHdrList" where
  "BuildPragmaHdr = SetHdr (bytes_of_string ''Pragma'') (bytes_of_string ''no-cache'')"

text \<open>\<open>off_t\<close> is a 32-bit \<open>long\<close>.\<close>

definition BuildRangeHdr :: "32 word \<Rightarrow> 32 word \<Rightarrow> THttpHdrList \<Rightarrow> THttpHdrList" where
  "BuildRangeHdr StartPos EndPos =
     SetHdr (bytes_of_string ''Range'')
       (bytes_of_string ''bytes='' @ ConvertFromInt (sint StartPos) @ 45 # (if EndPos \<noteq> -1 then ConvertFromInt (sint EndPos) else []))"

definition DEFAULT_USER :: bytes where "DEFAULT_USER = bytes_of_string ''anonymous''"
definition DEFAULT_PASSWD :: bytes where "DEFAULT_PASSWD = bytes_of_string ''galaxyfxstar@gmail.com''"

definition BuildBasicAuthHdr :: "bytes option \<Rightarrow> bytes option \<Rightarrow> THttpHdrList \<Rightarrow> THttpHdrList outcome" where
  "BuildBasicAuthHdr UserName Password hs =
     (case Encode ((case UserName of None \<Rightarrow> DEFAULT_USER | Some x \<Rightarrow> x) @ 58 # (case Password of None \<Rightarrow> DEFAULT_PASSWD | Some x \<Rightarrow> x)) of
        None \<Rightarrow> Inl OutOfRange
      | Some strResult \<Rightarrow> Inr (SetHdr (bytes_of_string ''Authorization'') strResult hs))"

definition BuildProxyAuthHdr :: "bytes \<Rightarrow> bytes \<Rightarrow> THttpHdrList \<Rightarrow> THttpHdrList outcome" where
  "BuildProxyAuthHdr UserName Password hs =
     (case Encode (UserName @ 58 # Password) of
        None \<Rightarrow> Inl OutOfRange
      | Some strResult \<Rightarrow> Inr (SetHdr (bytes_of_string ''Proxy-Authorization'') strResult hs))"

definition BuildConnectionHdr :: "THttpHdrList \<Rightarrow> THttpHdrList" where
  "BuildConnectionHdr = SetHdr (bytes_of_string ''Connection'') (bytes_of_string ''Close'')"

definition BuildContentType :: "bytes \<Rightarrow> THttpHdrList \<Rightarrow> THttpHdrList" where
  "BuildContentType postBoundary =
     SetHdr (bytes_of_string ''Content-Type'') (bytes_of_string ''multipart/form-data; boundary='' @ drop 2 postBoundary)"

text \<open>\<open>%lu\<close> prints the lower half of a \<open>ULONG64\<close>.\<close>

definition BuildContentLengthHdr :: "u64 \<Rightarrow> THttpHdrList \<Rightarrow> THttpHdrList" where
  "BuildContentLengthHdr contentLength =
     SetHdr (bytes_of_string ''Content-Length'') (map digit_char (digits (unat (ucast contentLength :: u32))))"

definition BuildNtlmAuthHdr :: "bytes \<Rightarrow> THttpHdrList \<Rightarrow> THttpHdrList" where
  "BuildNtlmAuthHdr szcode = SetHdr (bytes_of_string ''Proxy-Authorization'') szcode"

definition kind_headers ::
  "TASK_TYPE \<Rightarrow> bytes \<Rightarrow> URL \<Rightarrow> u64 \<Rightarrow> u64 \<Rightarrow> u64 \<Rightarrow> THttpHdrList \<Rightarrow> THttpHdrList outcome" where
  "kind_headers ty postBoundary url postSize startSize endSize h =
     (let host = BuildHostHdr (u_host url) (u_port url) in
      if ty = TASK_UPLOAD \<or> ty = TASK_QUERY then
        obind (host (BuildUserAgentHdr (BuildContentType postBoundary h))) (\<lambda>h1. Inr (BuildContentLengthHdr postSize h1))
      else if ty = TASK_BINARY then obind (host (BuildUserAgentHdr h)) (\<lambda>h1. Inr (BuildContentLengthHdr postSize h1))
      else if ty = TASK_DOWNLOAD then
        obind (host (BuildUserAgentHdr h)) (\<lambda>h1.
          Inr (if startSize \<noteq> 0 \<or> endSize \<noteq> 0
               then if endSize = 0 then BuildRangeHdr (ucast startSize) (-1) h1 else BuildRangeHdr (ucast startSize) (ucast endSize) h1
               else h1))
      else if ty = TASK_HEAD then host (BuildUserAgentHdr h)
      else Inr h)"

text \<open>\<open>ntlm\<close> is the text \<open>getNtlmNegotiateStr\<close> gives.\<close>

definition proxy_headers :: "bytes \<Rightarrow> Proxy_t option \<Rightarrow> URL \<Rightarrow> THttpHdrList \<Rightarrow> THttpHdrList outcome" where
  "proxy_headers ntlm proxy url h =
     (case proxy of
        None \<Rightarrow> Inr (BuildConnectionHdr h)
      | Some p \<Rightarrow>
          if px_type p \<noteq> HTTPDOWN_PROXY_HTTP then Inr (BuildConnectionHdr h)
          else if px_domain p \<noteq> [] then
            Inr (BuildConnectionHdr (BuildCustomHdr (bytes_of_string ''Proxy-Connection'') (bytes_of_string ''Close'') (BuildNtlmAuthHdr ntlm h)))
          else obind (BuildBasicAuthHdr (u_user url) (u_password url) h) (\<lambda>h1.
               obind (if px_user p \<noteq> [] then BuildProxyAuthHdr (px_user p) (px_pwd p) h1 else Inr h1) (\<lambda>h2.
               Inr (BuildConnectionHdr h2))))"

definition setHttpHeader ::
  "bytes \<Rightarrow> Proxy_t option \<Rightarrow> TASK_TYPE \<Rightarrow> bytes \<Rightarrow> THttpHdrList \<Rightarrow> URL \<Rightarrow> u64 \<Rightarrow> u64 \<Rightarrow> u64 \<Rightarrow> THttpHdrList outcome" where
  "setHttpHeader ntlm proxy ty postBoundary httpHdrs url postSize startSize endSize =
     obind (kind_headers ty postBoundary url postSize startSize endSize
              (BuildAcceptHdr (fold (\<lambda>(k, v). BuildCustomHdr k v) httpHdrs [])))
       (proxy_headers ntlm proxy url)"

section \<open>The text of a request\<close>

datatype THttpVerb = VERB_HEAD | VERB_GET | VERB_POST | VERB_CONNECT | VERB_NONE

definition LINE_BUFFER :: nat where "LINE_BUFFER = 1024"

definition HTTP_VERSION_END :: bytes where "HTTP_VERSION_END = bytes_of_string '' HTTP/1.0'' @ CRLF"

definition method_name :: "THttpVerb \<Rightarrow> bytes" where
  "method_name verb =
     (case verb of
        VERB_GET \<Rightarrow> bytes_of_string ''GET '' | VERB_POST \<Rightarrow> bytes_of_string ''POST '' | VERB_HEAD \<Rightarrow> bytes_of_string ''HEAD ''
      | VERB_CONNECT \<Rightarrow> bytes_of_string ''CONNECT '' | VERB_NONE \<Rightarrow> [])"

text \<open>The length of a template without its \<open>%s\<close>.\<close>

definition HTTP_METHOD_FIXLEN :: "THttpVerb \<Rightarrow> nat" where
  "HTTP_METHOD_FIXLEN verb = length (method_name verb) + length HTTP_VERSION_END"

text \<open>\<open>_snprintf\<close> with the bound \<open>LINE_BUFFER\<close>: a shorter text is written with a zero behind it, which the next write
  overwrites.  Of a longer one only the first 1024 bytes are written while the position moves behind the whole text, so that bytes which were
  never written are sent: a fault.\<close>

definition print_line :: "bytes \<Rightarrow> buffer \<Rightarrow> buffer outcome" where
  "print_line t b =
     (if length t > LINE_BUFFER then Inl OutOfRange
      else obind (buf_write (if length t < LINE_BUFFER then t @ [0] else t) b) (\<lambda>_. buf_write t b))"

definition header_line :: "bytes \<times> bytes \<Rightarrow> bytes" where
  "header_line h = fst h @ bytes_of_string '': '' @ snd h @ CRLF"

text \<open>The address in the request line: the whole address for a proxy, the path otherwise; \<open>strlen\<close> reads through NULL.\<close>

definition request_target :: "bool \<Rightarrow> URL \<Rightarrow> bytes outcome" where
  "request_target UseProxy u = (case if UseProxy then u_url u else u_path u of None \<Rightarrow> Inl NullDeref | Some s \<Rightarrow> Inr s)"

definition connect_site :: "URL \<Rightarrow> bytes outcome" where
  "connect_site u =
     obind (request_target True u) (\<lambda>s.
       let sites = s @ 58 # map digit_char (digits (unat (word_of_int (u_port u) :: u32))) in
       if length sites \<ge> LINE_BUFFER - 2 then Inl OutOfRange else Inr sites)"

definition print_method :: "THttpVerb \<Rightarrow> bool \<Rightarrow> URL \<Rightarrow> buffer \<Rightarrow> buffer outcome" where
  "print_method verb UseProxy u b =
     (if verb = VERB_NONE then Inr b
      else obind (if verb = VERB_CONNECT \<and> UseProxy then connect_site u else request_target UseProxy u) (\<lambda>s.
             print_line (method_name verb @ s @ HTTP_VERSION_END) b))"

text \<open>The body of a binary task is its first parameter as it is.\<close>

definition binary_body :: "POST_PARAMS \<Rightarrow> buffer \<Rightarrow> (RET_CODE \<times> buffer) outcome" where
  "binary_body ps b =
     (case ps of
        [] \<Rightarrow> Inl OutOfRange
      | p # _ \<Rightarrow>
          if length (paramBuffer p) < unat (paramBufferLen p) then Inl OutOfRange
          else obind (buf_write (take (unat (paramBufferLen p)) (paramBuffer p)) b) (\<lambda>b1. Inr (RET_OK, b1)))"

definition BuildHttpRequest ::
  "file_system \<Rightarrow> THttpVerb \<Rightarrow> bool \<Rightarrow> URL \<Rightarrow> THttpHdrList \<Rightarrow> bytes \<Rightarrow> POST_PARAMS option \<Rightarrow> TASK_TYPE \<Rightarrow> buffer \<Rightarrow>
     (RET_CODE \<times> buffer) outcome" where
  "BuildHttpRequest fs verb UseProxy u htRequest postBoundary postParams ty b =
     (if htRequest = [] then Inr (RET_OK, b)
      else
        obind (print_method verb UseProxy u b) (\<lambda>b1.
        obind (ofold (\<lambda>h. print_line (header_line h)) htRequest b1) (\<lambda>b2.
        obind (print_line CRLF b2) (\<lambda>b3.
        if verb = VERB_POST then
          (case postParams of
             None \<Rightarrow> Inl NullDeref
           | Some ps \<Rightarrow> if ty = TASK_BINARY then binary_body ps b3 else build_post fs postBoundary ps b3)
        else Inr (RET_OK, b3)))))"

text \<open>\<open>malloc_ok\<close> is the answer of \<open>malloc\<close>, which is asked for the size cut to 32 bits; a request of 4 gigabytes and more
  would not fit.  The result is the text sent, \<open>requestSize\<close> bytes.\<close>

definition generateSendDataBuffer ::
  "file_system \<Rightarrow> bool \<Rightarrow> bool \<Rightarrow> URL \<Rightarrow> THttpHdrList \<Rightarrow> bytes \<Rightarrow> POST_PARAMS option \<Rightarrow> TASK_TYPE \<Rightarrow> u64 \<Rightarrow>
     (RET_CODE \<times> bytes) outcome" where
  "generateSendDataBuffer fs malloc_ok UseProxy u htRequest postBoundary postParams ty postSize =
     obind (request_target UseProxy u) (\<lambda>s.
       let verb = (if ty = TASK_DOWNLOAD then VERB_GET else if ty = TASK_HEAD then VERB_HEAD else VERB_POST);
           methodlen = (if ty = TASK_BUTT then 0 else HTTP_METHOD_FIXLEN verb + length s);
           size = methodlen + GetAllHdrLen htRequest + 2 + unat postSize + 1 in
       if \<not> malloc_ok then Inr (RET_NO_MEMORY, [])
       else if size \<ge> 2 ^ 32 then Inl OutOfRange
       else
         obind (BuildHttpRequest fs verb UseProxy u htRequest postBoundary (if verb = VERB_POST then postParams else None) ty ([], size))
           (\<lambda>(ret, b).
             if ret \<noteq> RET_OK then Inr (ret, fst b)
             else if snd b \<noteq> size then Inr (RET_FILE_CHANGED, fst b)
             else Inr (RET_OK, fst b)))"

section \<open>Stores of named values\<close>

text \<open>What the clients of a header list rely on: the last value set under a name is the one found, whatever else is set.\<close>

locale named_values =
  fixes same :: "'k \<Rightarrow> 'k \<Rightarrow> bool" and get :: "'k \<Rightarrow> 's \<Rightarrow> 'v" and put :: "'k \<Rightarrow> 'v \<Rightarrow> 's \<Rightarrow> 's"
  assumes get_put: "same k l \<Longrightarrow> get l (put k v s) = v"
    and get_put_other: "\<not> same k l \<Longrightarrow> get l (put k v s) = get l s"
begin

lemma get_put_if: "get l (put k v s) = (if same k l then v else get l s)"
  by (simp add: get_put get_put_other)

lemma get_puts:
  "get l (fold (\<lambda>(k, v). put k v) kvs s) =
     (case find (\<lambda>(k, v). same k l) (rev kvs) of None \<Rightarrow> get l s | Some (k, v) \<Rightarrow> v)"
proof (induction kvs rule: rev_induct)
  case (snoc x kvs)
  then show ?case by (cases x) (simp add: get_put_if)
qed simp

end

lemma same_key_equiv: "same_key k k" "same_key k l \<Longrightarrow> same_key l k" "same_key k l \<Longrightarrow> same_key l m \<Longrightarrow> same_key k m"
  by (simp_all add: same_key_def)

interpretation hdr: named_values same_key GetHdr SetHdr
proof unfold_locales
  show "GetHdr l (SetHdr k v hs) = v" if "same_key k l" for k l v and hs :: THttpHdrList
    using that by (induction hs) (auto intro: same_key_equiv)
  show "GetHdr l (SetHdr k v hs) = GetHdr l hs" if "\<not> same_key k l" for k l v and hs :: THttpHdrList
    using that by (induction hs) (auto intro: same_key_equiv)
qed

lemma GetHdr_snoc: "\<not> same_key l k \<Longrightarrow> GetHdr l (hs @ [(k, v)]) = GetHdr l hs"
  by (induction hs) auto

lemma SetHdr_nonempty [simp]: "SetHdr k v hs \<noteq> []"
  by (cases hs) auto

lemma SetHdr_fresh: "(\<And>h. h \<in> set hs \<Longrightarrow> \<not> same_key k (fst h)) \<Longrightarrow> SetHdr k v hs = hs @ [(k, v)]"
  by (induction hs) auto

section \<open>The buffer takes the whole request\<close>

lemma header_line_length: "length (header_line h) = hdr_len h"
  by (simp add: header_line_def hdr_len_def CRLF_def bytes_of_string_def)

lemma print_line_ok:
  "length t \<le> LINE_BUFFER \<Longrightarrow> length w + length t < cap \<Longrightarrow> print_line t (w, cap) = Inr (w @ t, cap)"
  by (simp add: print_line_def buf_write_def)

lemma print_headers_ok:
  assumes "\<forall>h \<in> set hs. hdr_len h \<le> LINE_BUFFER" and "length w + GetAllHdrLen hs < cap"
  shows "ofold (\<lambda>h. print_line (header_line h)) hs (w, cap) = Inr (w @ concat (map header_line hs), cap)"
  using assms
proof (induction hs arbitrary: w)
  case (Cons h hs)
  then show ?case using Cons.IH [of "w @ header_line h"]
    by (simp add: print_line_ok header_line_length GetAllHdrLen_def)
qed simp

lemma concat_header_length: "length (concat (map header_line hs)) = GetAllHdrLen hs"
  by (induction hs) (simp_all add: GetAllHdrLen_def header_line_length)

lemma BuildHttpRequest_head:
  assumes "hs \<noteq> []" and "request_target up u = Inr t" and "verb \<in> {VERB_GET, VERB_POST, VERB_HEAD}"
    and "HTTP_METHOD_FIXLEN verb + length t \<le> LINE_BUFFER" and "\<forall>h \<in> set hs. hdr_len h \<le> LINE_BUFFER"
    and "HTTP_METHOD_FIXLEN verb + length t + GetAllHdrLen hs + 2 < cap"
  shows "BuildHttpRequest fs verb up u hs boundary params ty ([], cap) =
    (let b = (method_name verb @ t @ HTTP_VERSION_END @ concat (map header_line hs) @ CRLF, cap) in
     if verb = VERB_POST then
       (case params of None \<Rightarrow> Inl NullDeref | Some ps \<Rightarrow> if ty = TASK_BINARY then binary_body ps b else build_post fs boundary ps b)
     else Inr (RET_OK, b))"
proof -
  let ?line = "method_name verb @ t @ HTTP_VERSION_END"
  have line: "length ?line = HTTP_METHOD_FIXLEN verb + length t" by (simp add: HTTP_METHOD_FIXLEN_def)
  have "print_method verb up u ([], cap) = Inr (?line, cap)"
    using assms(2-4,6) line print_line_ok [of ?line "[]" cap] by (auto simp: print_method_def)
  moreover have "ofold (\<lambda>h. print_line (header_line h)) hs (?line, cap) = Inr (?line @ concat (map header_line hs), cap)"
    using assms(5,6) line by (intro print_headers_ok) simp_all
  moreover have "print_line CRLF (?line @ concat (map header_line hs), cap) = Inr (?line @ concat (map header_line hs) @ CRLF, cap)"
    using assms(6) line print_line_ok [of CRLF "?line @ concat (map header_line hs)" cap] concat_header_length [of hs]
    by (simp add: CRLF_def LINE_BUFFER_def)
  ultimately show ?thesis using assms(1) by (simp add: BuildHttpRequest_def Let_def)
qed

lemma get_request:
  assumes "hs \<noteq> []" and "request_target up u = Inr t" and "ty = TASK_DOWNLOAD \<or> ty = TASK_HEAD" and "length t < 1000"
    and "\<forall>h \<in> set hs. hdr_len h \<le> LINE_BUFFER" and "length t + GetAllHdrLen hs < 2 ^ 31"
  shows "generateSendDataBuffer fs True up u hs boundary params ty 0 =
    Inr (RET_OK, method_name (if ty = TASK_DOWNLOAD then VERB_GET else VERB_HEAD) @ t @ HTTP_VERSION_END @
      concat (map header_line hs) @ CRLF)"
  using assms BuildHttpRequest_head [OF assms(1,2), of "if ty = TASK_DOWNLOAD then VERB_GET else VERB_HEAD"]
  by (auto simp: generateSendDataBuffer_def Let_def HTTP_METHOD_FIXLEN_def method_name_def HTTP_VERSION_END_def CRLF_def bytes_of_string_def LINE_BUFFER_def)

section \<open>The header fields\<close>

lemmas build_defs = BuildUserAgentHdr_def BuildHostHdr_def BuildCustomHdr_def SetHdrDuplicate_def BuildAcceptHdr_def BuildRangeHdr_def
  BuildBasicAuthHdr_def BuildProxyAuthHdr_def BuildConnectionHdr_def BuildContentType_def BuildContentLengthHdr_def BuildNtlmAuthHdr_def

lemma other_keys:
  "\<not> same_key (bytes_of_string ''Connection'') (bytes_of_string ''Content-Length'')"
  "\<not> same_key (bytes_of_string ''Authorization'') (bytes_of_string ''Content-Length'')"
  "\<not> same_key (bytes_of_string ''Proxy-Authorization'') (bytes_of_string ''Content-Length'')"
  "\<not> same_key (bytes_of_string ''Content-Length'') (bytes_of_string ''Proxy-Connection'')"
  by (simp_all add: same_key_def bytes_of_string_def tolower_def)

lemma proxy_headers_other:
  assumes "proxy_headers ntlm proxy url h = Inr hs"
  shows "GetHdr (bytes_of_string ''Content-Length'') hs = GetHdr (bytes_of_string ''Content-Length'') h"
  using assms
  by (auto simp: proxy_headers_def build_defs hdr.get_put_other other_keys GetHdr_snoc obind_eq_Inr_iff
      split: option.splits if_splits)

lemma proxy_headers_nonempty: "proxy_headers ntlm proxy url h = Inr hs \<Longrightarrow> hs \<noteq> []"
  by (auto simp: proxy_headers_def build_defs obind_eq_Inr_iff split: option.splits if_splits)

lemma setHttpHeader_length:
  assumes "setHttpHeader ntlm proxy ty boundary custom u n s e = Inr hs" and "ty = TASK_QUERY \<or> ty = TASK_UPLOAD"
  shows "GetHdr (bytes_of_string ''Content-Length'') hs = map digit_char (digits (unat (ucast n :: u32)))"
proof -
  obtain h where h: "kind_headers ty boundary u n s e (BuildAcceptHdr (fold (\<lambda>(k, v). BuildCustomHdr k v) custom [])) = Inr h"
    and hs: "proxy_headers ntlm proxy u h = Inr hs"
    using assms(1) by (auto simp: setHttpHeader_def obind_eq_Inr_iff)
  obtain h1 where "h = BuildContentLengthHdr n h1"
    using h assms(2) by (auto simp: kind_headers_def Let_def obind_eq_Inr_iff)
  then show ?thesis
    using proxy_headers_other [OF hs] by (simp add: BuildContentLengthHdr_def hdr.get_put same_key_equiv(1))
qed

text \<open>
  C17: The whole request of a query or an upload.  When the check of the parameters accepts them with the size
  \<open>n\<close>, the header is built for it, the files can still be read and no line is longer than 1024 bytes, the buffer that is allocated takes the
  request without a write beyond its end: the request line, the header fields, an empty line and the multipart body; and the header field
  \<open>Content-Length\<close> is the length of the body in decimal.
\<close>

theorem post_request_exact:
  assumes "taskParamCheck fs url ty (Some ps) True s e = Inr (0, n)" and "ty = TASK_QUERY \<or> ty = TASK_UPLOAD"
    and "\<forall>p \<in> set ps. param_wf p \<and> writable fs p" and "length (post_body fs (getPostBoundary now) ps) < 2 ^ 31"
    and "setHttpHeader ntlm proxy ty (getPostBoundary now) custom u n s e = Inr hs"
    and "request_target (proxy \<noteq> None) u = Inr t" and "length t < 1000"
    and "\<forall>h \<in> set hs. hdr_len h \<le> LINE_BUFFER" and "GetAllHdrLen hs < 2 ^ 30"
  shows "generateSendDataBuffer fs True (proxy \<noteq> None) u hs (getPostBoundary now) (Some ps) ty n =
      Inr (RET_OK, bytes_of_string ''POST '' @ t @ bytes_of_string '' HTTP/1.0'' @ CRLF @ concat (map header_line hs) @ CRLF @
        post_body fs (getPostBoundary now) ps) \<and>
    GetHdr (bytes_of_string ''Content-Length'') hs = map digit_char (digits (length (post_body fs (getPostBoundary now) ps)))"
proof -
  let ?body = "post_body fs (getPostBoundary now) ps"
  obtain m where m: "check_params fs ps 0 = Inr (0, m)" "n = m + word_of_nat (HTTP_POSTPARAM_BROUNDARY_FIXLEN + 4)"
    using assms(1,2) by (auto simp: taskParamCheck_def obind_eq_Inr_iff Let_def split: if_splits)
  then have w: "n = word_of_nat (length ?body)" and files: "\<forall>p \<in> set ps. file_ok fs p"
    using check_params_ok [OF m(1), of now] assms(3) by (auto simp: post_body_def CRLF_def bytes_of_string_def)
  then have n: "unat n = length ?body" "unat (ucast n :: u32) = length ?body"
    using assms(4) by (simp_all add: unat_of_nat unsigned_ucast_eq take_bit_nat_eq_self)
  have hs: "hs \<noteq> []" using assms(5) by (auto simp: setHttpHeader_def obind_eq_Inr_iff dest: proxy_headers_nonempty)
  let ?cap = "HTTP_METHOD_FIXLEN VERB_POST + length t + GetAllHdrLen hs + 2 + length ?body + 1"
  have verb: "HTTP_METHOD_FIXLEN VERB_POST = 16"
    by (simp add: HTTP_METHOD_FIXLEN_def method_name_def HTTP_VERSION_END_def CRLF_def bytes_of_string_def)
  let ?head = "method_name VERB_POST @ t @ HTTP_VERSION_END @ concat (map header_line hs) @ CRLF"
  have len: "length ?head = HTTP_METHOD_FIXLEN VERB_POST + length t + GetAllHdrLen hs + 2"
    by (simp add: HTTP_METHOD_FIXLEN_def concat_header_length CRLF_def)
  have "build_post fs (getPostBoundary now) ps (?head, ?cap) = Inr (RET_OK, (?head @ ?body, ?cap))"
    using build_post_ok [of ps fs ?head now ?cap] assms(3) files unfolding len by simp
  then have "BuildHttpRequest fs VERB_POST (proxy \<noteq> None) u hs (getPostBoundary now) (Some ps) ty ([], ?cap) =
      Inr (RET_OK, (?head @ ?body, ?cap))"
    using BuildHttpRequest_head [OF hs assms(6), of VERB_POST ?cap] assms(2,7,8) verb by (auto simp: LINE_BUFFER_def Let_def)
  moreover have "?cap < 2 ^ 32" using assms(4,7,9) unfolding verb by simp
  ultimately show ?thesis
    using assms(2,6) setHttpHeader_length [OF assms(5,2)] n
    by (auto simp: generateSendDataBuffer_def Let_def method_name_def HTTP_VERSION_END_def)
qed

text \<open>The upload of the example files, to a server without a proxy.\<close>

definition example_target :: URL where
  "example_target = (URL_init 80)\<lparr>u_path := Some (bytes_of_string ''/up''), u_host := Some (bytes_of_string ''h.com'')\<rparr>"

definition example_headers :: THttpHdrList where
  "example_headers =
     [(bytes_of_string ''Accept'', bytes_of_string ''*/*''),
      (bytes_of_string ''Content-Type'', bytes_of_string ''multipart/form-data; boundary='' @ drop 2 (getPostBoundary 0)),
      (bytes_of_string ''User-Agent'', bytes_of_string ''Mozilla/4.0(compatible;MSIE 5.00;Windows 98)''),
      (bytes_of_string ''Host'', bytes_of_string ''h.com''), (bytes_of_string ''Content-Length'', bytes_of_string ''261''),
      (bytes_of_string ''Connection'', bytes_of_string ''Close'')]"

lemma example_setHttpHeader:
  "setHttpHeader [] None TASK_UPLOAD (getPostBoundary 0) [] example_target 261 0 0 = Inr example_headers"
  by (simp add: setHttpHeader_def kind_headers_def proxy_headers_def build_defs same_key_def tolower_def bytes_of_string_def
      example_target_def URL_init_def example_headers_def digits.simps Let_def)

lemma example_headers_short: "\<forall>h \<in> set example_headers. hdr_len h \<le> LINE_BUFFER" "GetAllHdrLen example_headers < 2 ^ 30"
  by (simp_all add: example_headers_def hdr_len_def GetAllHdrLen_def bytes_of_string_def LINE_BUFFER_def HTTP_POSTPARAM_BROUNDARY_FIXLEN_def)

theorem post_request_exact_witness:
  "generateSendDataBuffer example_files True False example_target example_headers (getPostBoundary 0) (Some example_params) TASK_UPLOAD 261 =
      Inr (RET_OK, bytes_of_string ''POST '' @ bytes_of_string ''/up'' @ bytes_of_string '' HTTP/1.0'' @ CRLF @
        concat (map header_line example_headers) @ CRLF @ post_body example_files (getPostBoundary 0) example_params) \<and>
    GetHdr (bytes_of_string ''Content-Length'') example_headers =
      map digit_char (digits (length (post_body example_files (getPostBoundary 0) example_params)))"
proof -
  have wf: "\<forall>p \<in> set example_params. param_wf p \<and> writable example_files p"
    by (simp add: example_params_def example_files_def param_wf_def writable_def bytes_of_string_def MAX_PARAM_NAME_LEN_def)
  have body: "length (post_body example_files (getPostBoundary 0) example_params) < 2 ^ 31"
    by (simp add: post_body_def param_length example_params_def example_files_def example_mime bytes_of_string_def
        HTTP_POSTPARAM_BROUNDARY_FIXLEN_def POSTPARAM_TEMPLATE_TEXT_LEN_def POSTPARAM_TEMPLATE_FILE_LEN_def CRLF_def)
  have "request_target (None \<noteq> (None :: Proxy_t option)) example_target = Inr (bytes_of_string ''/up'')"
    "length (bytes_of_string ''/up'') < 1000"
    by (simp_all add: request_target_def example_target_def bytes_of_string_def)
  then show ?thesis
    using post_request_exact [OF example_check _ wf body example_setHttpHeader _ _ example_headers_short] by simp
qed

end
