(* ===== verification/Http_Response.thy ===== *)
theory Http_Response
  imports Http_Request
begin

text \<open>
  The reader of a response, \<open>THttpCli\<close> in \<open>src/src/Utility/HttpClient/src/HttpCli.cpp\<close>: lines are taken byte by byte from the
  socket, the status line and the header fields are parsed, and the outcome decides how the task goes on.  The socket is non-blocking; what it
  has at hand is a list of answers of \<open>recv\<close>, and behind the end of the list \<open>recv\<close> fails with \<open>WSAEWOULDBLOCK\<close>.
\<close>

section \<open>The socket\<close>

datatype recv_answer = Got u8 | Shut | Fails int

text \<open>Winsock and C library codes: \<open>EWOULDBLOCK\<close> is redefined as \<open>WSAEWOULDBLOCK\<close> in \<open>Socket.h\<close>, \<open>EAGAIN\<close> is the
  one of \<open>errno.h\<close>.\<close>

definition EWOULDBLOCK :: int where "EWOULDBLOCK = 10035"
definition SOCKET_EINTR :: int where "SOCKET_EINTR = 10004"
definition EAGAIN :: int where "EAGAIN = 11"

datatype char_result = Read u8 | Closed | Failed int

definition BufReadChar :: "recv_answer list \<Rightarrow> char_result \<times> recv_answer list" where
  "BufReadChar es =
     (case es of
        [] \<Rightarrow> (Failed EWOULDBLOCK, [])
      | Got c # es' \<Rightarrow> (Read c, es')
      | Shut # es' \<Rightarrow> (Closed, es')
      | Fails e # es' \<Rightarrow> (Failed e, es'))"

section \<open>Lines\<close>

text \<open>The members of \<open>THttpCli\<close> the reader uses.  \<open>uncompleteLine\<close> is the first \<open>recvedlen\<close> bytes of
  \<open>uncompleteLineBuf\<close>.\<close>

record http_cli =
  StatusLine :: bytes
  StatusCode :: int
  htResponse :: THttpHdrList
  uncompleteLine :: bytes

datatype loop_end = Done | Ended char_result

fun read_chars :: "nat \<Rightarrow> recv_answer list \<Rightarrow> bytes \<times> loop_end \<times> recv_answer list" where
  "read_chars 0 es = ([], Done, es)"
| "read_chars (Suc n) es =
     (case BufReadChar es of
        (Read c, es') \<Rightarrow>
          if c = 10 then ([c], Done, es')
          else (case read_chars n es' of (line, r, es'') \<Rightarrow> (c # line, r, es''))
      | (r, es') \<Rightarrow> ([], Ended r, es'))"

text \<open>The bytes put aside are copied into a buffer of \<open>LINE_BUFFER\<close> bytes without a check.\<close>

definition ReadLine :: "recv_answer list \<Rightarrow> http_cli \<Rightarrow> (RET_CODE \<times> bytes \<times> http_cli \<times> recv_answer list) outcome" where
  "ReadLine es c =
     (let (line, r, es') = read_chars (LINE_BUFFER - 1) es;
          all = uncompleteLine c @ line;
          c0 = c\<lparr>uncompleteLine := []\<rparr> in
      case r of
        Ended (Failed e) \<Rightarrow>
          if e \<noteq> EAGAIN \<and> e \<noteq> SOCKET_EINTR then Inr (RET_SOCKET_ERROR, line, c0, es')
          else if length all > LINE_BUFFER then Inl OutOfRange
          else if length all \<ge> LINE_BUFFER then Inr (RET_SOCKET_FINISH, take (LINE_BUFFER - 1) all, c0, es')
          else Inr (RET_SOCKET_CONTINUE, line, c\<lparr>uncompleteLine := all\<rparr>, es')
      | Ended _ \<Rightarrow> Inr (RET_SOCKET_CLOSE, line, c0, es')
      | Done \<Rightarrow>
          if uncompleteLine c = [] then Inr (RET_SOCKET_FINISH, line, c0, es')
          else if length all > LINE_BUFFER then Inl OutOfRange
          else if length all \<ge> LINE_BUFFER then Inr (RET_SOCKET_FINISH, take (LINE_BUFFER - 1) all, c0, es')
          else Inr (RET_SOCKET_FINISH, all, c0, es'))"

lemma read_chars_shorter:
  "read_chars n es = (line, r, es') \<Longrightarrow> length es' \<le> length es \<and> (0 < n \<longrightarrow> es \<noteq> [] \<longrightarrow> length es' < length es) \<and>
     (es = [] \<longrightarrow> 0 < n \<longrightarrow> r = Ended (Failed EWOULDBLOCK))"
proof (induction n es arbitrary: line r es' rule: read_chars.induct)
  case (2 n es)
  then show ?case
    by (cases es) (fastforce simp: BufReadChar_def split: recv_answer.splits if_splits prod.splits)+
qed simp

lemma ReadLine_shorter:
  assumes "ReadLine es c = Inr (RET_SOCKET_FINISH, line, c', es')"
  shows "length es' < length es"
proof -
  obtain l r e where r: "read_chars (LINE_BUFFER - 1) es = (l, r, e)" by (metis prod_cases3)
  then have "es \<noteq> [] \<or> r = Ended (Failed EWOULDBLOCK)"
    using read_chars_shorter [OF r] by (auto simp: LINE_BUFFER_def)
  moreover have "e = es'" "r \<noteq> Ended (Failed EWOULDBLOCK)"
    using assms r by (auto simp: ReadLine_def Let_def EWOULDBLOCK_def EAGAIN_def SOCKET_EINTR_def
        split: loop_end.splits char_result.splits if_splits)
  ultimately show ?thesis using read_chars_shorter [OF r] by (simp add: LINE_BUFFER_def)
qed

section \<open>The head\<close>

text \<open>One line behind the status line.\<close>

datatype header_text = EmptyLine | Field bytes bytes | NoField

definition parse_header :: "bytes \<Rightarrow> header_text" where
  "parse_header buf =
     (let s = dropWhile (\<lambda>c. c = 32) buf in
      if s \<noteq> [] \<and> (hd s = 13 \<or> hd s = 10) then EmptyLine
      else
        let stop = (\<lambda>c. c \<noteq> 58 \<and> c \<noteq> 13 \<and> c \<noteq> 10); t = dropWhile stop s in
        if t \<noteq> [] \<and> hd t = 58
        then Field (takeWhile stop s) (takeWhile (\<lambda>c. c \<noteq> 13 \<and> c \<noteq> 10) (dropWhile (\<lambda>c. c = 32) (tl t)))
        else NoField)"

text \<open>The result is \<open>None\<close> where the code returns -1.\<close>

function parse_headers :: "recv_answer list \<Rightarrow> http_cli \<Rightarrow> (RET_CODE option \<times> http_cli \<times> recv_answer list) outcome" where
  "parse_headers es c =
     (case ReadLine es c of
        Inl e \<Rightarrow> Inl e
      | Inr (ret, buf, c1, es1) \<Rightarrow>
          if ret \<noteq> RET_SOCKET_FINISH then Inr (Some ret, c1, es1)
          else
            (case parse_header (c_text buf) of
               EmptyLine \<Rightarrow> Inr (Some RET_OK, c1, es1)
             | NoField \<Rightarrow> Inr (Some RET_PARSE_RESQ_FAIL, c1, es1)
             | Field strKey strVal \<Rightarrow> parse_headers es1 (c1\<lparr>htResponse := SetHdr strKey strVal (htResponse c1)\<rparr>)))"
  by auto
termination
  by (relation "measure (\<lambda>(es, c). length es)") (auto dest: ReadLine_shorter)

declare parse_headers.simps [simp del]

text \<open>The text behind the first word of the status line.\<close>

definition status_text :: "bytes \<Rightarrow> bytes option" where
  "status_text buf =
     (let t = dropWhile (\<lambda>c. c \<noteq> 32 \<and> c \<noteq> 13 \<and> c \<noteq> 10) (dropWhile (\<lambda>c. c = 32) buf) in
      if t = [] \<or> hd t \<noteq> 32 then None else Some (dropWhile (\<lambda>c. c = 32) t))"

definition ParseHttpHdrs :: "recv_answer list \<Rightarrow> http_cli \<Rightarrow> (RET_CODE option \<times> http_cli \<times> recv_answer list) outcome" where
  "ParseHttpHdrs es c =
     obind (ReadLine es (c\<lparr>htResponse := []\<rparr>)) (\<lambda>(ret, buf, c1, es1).
       if ret \<noteq> RET_SOCKET_FINISH then Inr (Some ret, c1, es1)
       else
         let c2 = c1\<lparr>StatusLine := c_text buf\<rparr> in
         case status_text (c_text buf) of
           None \<Rightarrow> Inr (None, c2, es1)
         | Some t \<Rightarrow> parse_headers es1 (c2\<lparr>StatusCode := atol t\<rparr>))"

definition H_20X :: "int \<Rightarrow> bool" where "H_20X x \<longleftrightarrow> 200 \<le> x \<and> x < 300"
definition H_REDIRECTED :: "int \<Rightarrow> bool" where "H_REDIRECTED x \<longleftrightarrow> x = 301 \<or> x = 302"

definition status_result :: "int \<Rightarrow> RET_CODE" where
  "status_result code =
     (if H_20X code then RET_OK else if H_REDIRECTED code then RET_NEWDIRECTION else if code = 300 then RET_OK
      else if code = 407 then RET_PROXY_AUTH_UNSUPPORTED else RET_HTTP_ERR)"

definition ProcessHttpResponse :: "recv_answer list \<Rightarrow> http_cli \<Rightarrow> (RET_CODE option \<times> http_cli \<times> recv_answer list) outcome" where
  "ProcessHttpResponse es c =
     obind (ParseHttpHdrs es c) (\<lambda>(retval, c1, es1).
       if retval \<noteq> Some RET_OK then Inr (retval, c1, es1) else Inr (Some (status_result (StatusCode c1)), c1, es1))"

text \<open>\<open>off_t\<close> has 32 bits and wraps.\<close>

fun read_number :: "32 word \<Rightarrow> bytes \<Rightarrow> 32 word" where
  "read_number len [] = len"
| "read_number len (c # s) = (if is_digit c then read_number (10 * len + (ucast c - 48)) s else len)"

definition GetContentLen :: "http_cli \<Rightarrow> 32 word" where
  "GetContentLen c = read_number 0 (GetHdr (bytes_of_string ''Content-Length'') (htResponse c))"

definition SkipLws :: "bytes \<Rightarrow> bytes" where
  "SkipLws s = dropWhile (\<lambda>c. c = 32 \<or> c = 9 \<or> c = 13 \<or> c = 10) s"

definition GetContentRange :: "http_cli \<Rightarrow> 32 word" where
  "GetContentRange c =
     (let s = GetHdr (bytes_of_string ''Content-Range'') (htResponse c) in
      if same_key (take 5 s) (bytes_of_string ''Bytes'') then
        let t = SkipLws (drop 5 s) in if t = [] then -1 else read_number 0 t
      else read_number 0 s)"

definition GetLocation :: "http_cli \<Rightarrow> bytes" where
  "GetLocation c = GetHdr (bytes_of_string ''Location'') (htResponse c)"

section \<open>The body\<close>

datatype data_answer = Data bytes | DataShut | DataFails int

definition DirectRecvData :: "u64 \<Rightarrow> data_answer \<Rightarrow> RET_CODE \<times> bytes" where
  "DirectRecvData needsize a =
     (case a of
        Data bs \<Rightarrow> (if needsize > 0 \<and> length bs \<ge> unat needsize then RET_SOCKET_FINISH else RET_SOCKET_CONTINUE, bs)
      | DataShut \<Rightarrow> (RET_SOCKET_FINISH, [])
      | DataFails e \<Rightarrow> (if e \<noteq> EWOULDBLOCK \<and> e \<noteq> SOCKET_EINTR then RET_SOCKET_ERROR else RET_SOCKET_CONTINUE, []))"

text \<open>\<open>ret\<close> is what \<open>TSocket::Send\<close> returns, \<open>written\<close> the bytes it has sent.\<close>

definition SendData :: "u64 \<Rightarrow> int \<Rightarrow> int \<Rightarrow> u64 \<Rightarrow> RET_CODE" where
  "SendData asked ret err written =
     (if ret < 0 then if err = EWOULDBLOCK then RET_SOCKET_CONTINUE else RET_SOCKET_ERROR
      else if ret = 0 then RET_SOCKET_CLOSE
      else if written = asked then RET_SOCKET_FINISH
      else RET_SOCKET_CONTINUE)"

text \<open>What the task sees of the head: the answers of the calls of \<open>processHttpRespHead\<close>.  -1 is none of the cases of its switch,
  as \<open>RET_FAIL\<close>.\<close>

definition head_answers :: "RET_CODE option \<times> http_cli \<Rightarrow> hcp_answers \<Rightarrow> hcp_answers" where
  "head_answers r a =
     a\<lparr>an_head := (case fst r of None \<Rightarrow> RET_FAIL | Some x \<Rightarrow> x), an_status := word_of_int (StatusCode (snd r)),
       an_contentLen := scast (GetContentLen (snd r)), an_location := Some (GetLocation (snd r)),
       an_hdrLen := word_of_nat (GetAllHdrLen (htResponse (snd r)))\<rparr>"

section \<open>Reading what a server writes\<close>

lemma read_chars_line:
  "10 \<notin> set line \<Longrightarrow> length line < n \<Longrightarrow> read_chars n (map Got (line @ 10 # rest)) = (line @ [10], Done, map Got rest)"
proof (induction line arbitrary: n)
  case Nil
  then show ?case by (cases n) (simp_all add: BufReadChar_def)
next
  case (Cons c line)
  then show ?case by (cases n) (auto simp: BufReadChar_def)
qed

lemma read_chars_part:
  "10 \<notin> set line \<Longrightarrow> length line < n \<Longrightarrow> read_chars n (map Got line) = (line, Ended (Failed EWOULDBLOCK), [])"
proof (induction line arbitrary: n)
  case Nil
  then show ?case by (cases n) (simp_all add: BufReadChar_def)
next
  case (Cons c line)
  then show ?case by (cases n) (auto simp: BufReadChar_def)
qed

text \<open>A line, and the beginning of a line.\<close>

lemma ReadLine_line:
  assumes "10 \<notin> set line" and "length line < LINE_BUFFER - 1" and "uncompleteLine c = []"
  shows "ReadLine (map Got (line @ 10 # rest)) c = Inr (RET_SOCKET_FINISH, line @ [10], c, map Got rest)"
proof -
  have "c\<lparr>uncompleteLine := []\<rparr> = c" using assms(3) by (cases c) simp
  then show ?thesis using read_chars_line [OF assms(1,2), of rest] assms(3) by (simp add: ReadLine_def)
qed

lemma ReadLine_part:
  assumes "10 \<notin> set line" and "length line < LINE_BUFFER - 1"
  shows "ReadLine (map Got line) c = Inr (RET_SOCKET_ERROR, line, c\<lparr>uncompleteLine := []\<rparr>, [])"
  using read_chars_part [OF assms] by (simp add: ReadLine_def EWOULDBLOCK_def EAGAIN_def SOCKET_EINTR_def)

text \<open>A header field that can be sent in a line.\<close>

definition hdr_ok :: "bytes \<times> bytes \<Rightarrow> bool" where
  "hdr_ok h \<longleftrightarrow>
     {0, 10, 13, 58} \<inter> set (fst h) = {} \<and> {0, 10, 13} \<inter> set (snd h) = {} \<and>
     takeWhile (\<lambda>c. c = 32) (fst h) = [] \<and> takeWhile (\<lambda>c. c = 32) (snd h) = [] \<and> hdr_len h < LINE_BUFFER"

lemma header_line_eq: "header_line (k, v) = (k @ 58 # 32 # v @ [13]) @ [10]"
  by (simp add: header_line_def CRLF_def bytes_of_string_def)

lemma span_stop:
  assumes "\<forall>x \<in> set xs. P x" and "\<not> P y"
  shows "takeWhile P (xs @ y # ys) = xs" "dropWhile P (xs @ y # ys) = y # ys"
  using assms by (induction xs) auto

lemma blanks_none:
  assumes "takeWhile (\<lambda>c. c = 32) xs = []" and "y \<noteq> (32 :: u8)"
  shows "dropWhile (\<lambda>c. c = 32) (xs @ y # ys) = xs @ y # ys"
  using assms by (cases xs) (auto split: if_splits)

lemma parse_header_line:
  assumes "hdr_ok (k, v)"
  shows "parse_header (c_text (header_line (k, v))) = Field k v"
proof -
  have k: "\<forall>c \<in> set k. c \<noteq> 58 \<and> c \<noteq> 13 \<and> c \<noteq> 10" and v: "\<forall>c \<in> set v. c \<noteq> 13 \<and> c \<noteq> 10"
    and zero: "0 \<notin> set (header_line (k, v))"
    using assms by (auto simp: hdr_ok_def header_line_eq)
  have first: "dropWhile (\<lambda>c. c = 32) (k @ 58 # 32 # v @ [13, 10]) = k @ 58 # 32 # v @ [13, 10]"
    "dropWhile (\<lambda>c. c = 32) (v @ [13, 10]) = v @ [13, 10]"
    using assms by (auto simp: hdr_ok_def intro: blanks_none)
  have field: "takeWhile (\<lambda>c. c \<noteq> 58 \<and> c \<noteq> 13 \<and> c \<noteq> 10) (k @ 58 # 32 # v @ [13, 10]) = k"
    "dropWhile (\<lambda>c. c \<noteq> 58 \<and> c \<noteq> 13 \<and> c \<noteq> 10) (k @ 58 # 32 # v @ [13, 10]) = 58 # 32 # v @ [13, 10]"
    "takeWhile (\<lambda>c. c \<noteq> 13 \<and> c \<noteq> 10) (v @ [13, 10]) = v"
    using span_stop [OF k, of 58] span_stop [OF v, of 13] by simp_all
  have "hd (k @ 58 # 32 # v @ [13, 10]) \<noteq> 13" "hd (k @ 58 # 32 # v @ [13, 10]) \<noteq> 10" using k by (cases k; simp)+
  then show ?thesis
    using first field c_text_id [OF zero] by (simp add: parse_header_def header_line_eq)
qed

lemma parse_header_end: "parse_header (c_text [13, 10]) = EmptyLine"
  by (simp add: parse_header_def c_text_def)

lemma header_line_split:
  assumes "hdr_ok (k, v)"
  shows "10 \<notin> set (k @ 58 # 32 # v @ [13])" "length (k @ 58 # 32 # v @ [13]) < LINE_BUFFER - 1"
  using assms by (auto simp: hdr_ok_def hdr_len_def LINE_BUFFER_def)

lemma parse_headers_step:
  assumes "ReadLine es c = Inr (RET_SOCKET_FINISH, buf, c1, es1)"
  shows "parse_headers es c =
    (case parse_header (c_text buf) of
       EmptyLine \<Rightarrow> Inr (Some RET_OK, c1, es1)
     | NoField \<Rightarrow> Inr (Some RET_PARSE_RESQ_FAIL, c1, es1)
     | Field k v \<Rightarrow> parse_headers es1 (c1\<lparr>htResponse := SetHdr k v (htResponse c1)\<rparr>))"
  by (subst parse_headers.simps) (simp add: assms)

lemma parse_headers_line:
  assumes "hdr_ok (k, v)" and "uncompleteLine c = []"
  shows "parse_headers (map Got (header_line (k, v) @ rest)) c =
    parse_headers (map Got rest) (c\<lparr>htResponse := SetHdr k v (htResponse c)\<rparr>)"
proof -
  have "ReadLine (map Got (header_line (k, v) @ rest)) c = Inr (RET_SOCKET_FINISH, header_line (k, v), c, map Got rest)"
    using ReadLine_line [OF header_line_split [OF assms(1)] assms(2), of rest] by (simp add: header_line_eq)
  then show ?thesis using parse_headers_step parse_header_line [OF assms(1)] by simp
qed

lemma parse_headers_end:
  assumes "uncompleteLine c = []"
  shows "parse_headers (map Got (CRLF @ rest)) c = Inr (Some RET_OK, c, map Got rest)"
  using ReadLine_line [of "[13]" c rest] assms parse_header_end parse_headers_step by (simp add: CRLF_def LINE_BUFFER_def)

lemma parse_headers_all:
  assumes "\<forall>h \<in> set hs. hdr_ok h" and "uncompleteLine c = []"
  shows "parse_headers (map Got (concat (map header_line hs) @ CRLF @ rest)) c =
    Inr (Some RET_OK, c\<lparr>htResponse := fold (\<lambda>(k, v). SetHdr k v) hs (htResponse c)\<rparr>, map Got rest)"
  using assms
proof (induction hs arbitrary: c)
  case Nil
  then show ?case using parse_headers_end by simp
next
  case (Cons h hs)
  then show ?case
    using parse_headers_line [of "fst h" "snd h" c "concat (map header_line hs) @ CRLF @ rest"]
      Cons.IH [of "c\<lparr>htResponse := SetHdr (fst h) (snd h) (htResponse c)\<rparr>"]
    by (simp add: case_prod_beta)
qed

section \<open>The head of a response\<close>

definition status_line :: "bytes \<Rightarrow> nat \<Rightarrow> bytes \<Rightarrow> bytes" where
  "status_line version code reason = version @ 32 # map digit_char (digits code) @ 32 # reason @ CRLF"

definition status_ok :: "bytes \<Rightarrow> nat \<Rightarrow> bytes \<Rightarrow> bool" where
  "status_ok version code reason \<longleftrightarrow>
     version \<noteq> [] \<and> {0, 10, 13, 32} \<inter> set version = {} \<and> {0, 10, 13} \<inter> set reason = {} \<and> code < 2 ^ 31 \<and>
     length (status_line version code reason) < LINE_BUFFER"

definition response_head :: "bytes \<Rightarrow> nat \<Rightarrow> bytes \<Rightarrow> THttpHdrList \<Rightarrow> bytes" where
  "response_head version code reason hs = status_line version code reason @ concat (map header_line hs) @ CRLF"

lemma digit_chars_plain: "c \<in> set (map digit_char (digits n)) \<Longrightarrow> c \<noteq> 0 \<and> c \<noteq> 10 \<and> c \<noteq> 13 \<and> c \<noteq> 32"
proof -
  have "\<forall>d \<in> set [0..<10]. (digit_char d :: u8) \<noteq> 0 \<and> (digit_char d :: u8) \<noteq> 10 \<and> (digit_char d :: u8) \<noteq> 13 \<and> (digit_char d :: u8) \<noteq> 32"
    by code_simp
  moreover assume "c \<in> set (map digit_char (digits n))"
  ultimately show ?thesis using digits_small [of _ n] by fastforce
qed

lemma status_line_split:
  assumes "status_ok version code reason"
  defines "l \<equiv> version @ 32 # map digit_char (digits code) @ 32 # reason @ [13]"
  shows "status_line version code reason = l @ [10]" "10 \<notin> set l" "length l < LINE_BUFFER - 1" "0 \<notin> set (l @ [10])"
proof -
  show eq: "status_line version code reason = l @ [10]" by (simp add: l_def status_line_def CRLF_def)
  have d: "10 \<notin> set (map digit_char (digits code))" "0 \<notin> set (map digit_char (digits code))" using digit_chars_plain [of _ code] by blast+
  have r: "10 \<notin> set version" "10 \<notin> set reason" "0 \<notin> set version" "0 \<notin> set reason" using assms(1) by (auto simp: status_ok_def)
  show "10 \<notin> set l" "0 \<notin> set (l @ [10])" unfolding l_def set_append set_simps Un_iff insert_iff using d r by simp_all
  show "length l < LINE_BUFFER - 1" using assms(1) by (simp add: status_ok_def eq LINE_BUFFER_def)
qed

lemma status_text_line:
  assumes "status_ok version code reason"
  shows "status_text (status_line version code reason) = Some (map digit_char (digits code) @ 32 # reason @ CRLF)"
proof -
  have v: "\<forall>c \<in> set version. c \<noteq> 32 \<and> c \<noteq> 13 \<and> c \<noteq> 10" "version \<noteq> []" using assms by (auto simp: status_ok_def)
  have "takeWhile (\<lambda>c. c = 32) version = []" using v by (cases version) auto
  then have blanks: "dropWhile (\<lambda>c. c = 32) (version @ 32 # t) = version @ 32 # t" for t
    using v by (cases version) auto
  have digits: "dropWhile (\<lambda>c. c = 32) (map digit_char (digits code) @ t) = map digit_char (digits code) @ t" for t
    using digit_chars_plain [of _ code] digits_nonempty [of code] by (cases "digits code") auto
  show ?thesis
    using blanks digits span_stop(2) [OF v(1), of 32] by (simp add: status_text_def status_line_def Let_def)
qed

lemma ParseHttpHdrs_status:
  assumes "status_ok version code reason" and "uncompleteLine c = []"
  shows "ParseHttpHdrs (map Got (status_line version code reason @ rest)) c =
    parse_headers (map Got rest) (c\<lparr>htResponse := [], StatusLine := status_line version code reason, StatusCode := int code\<rparr>)"
proof -
  note l = status_line_split [OF assms(1)]
  have "ReadLine (map Got (status_line version code reason @ rest)) (c\<lparr>htResponse := []\<rparr>) =
      Inr (RET_SOCKET_FINISH, status_line version code reason, c\<lparr>htResponse := []\<rparr>, map Got rest)"
    using ReadLine_line [OF l(2,3), of "c\<lparr>htResponse := []\<rparr>" rest] assms(2) by (simp add: l(1))
  moreover have "c_text (status_line version code reason) = status_line version code reason"
    unfolding l(1) by (rule c_text_id [OF l(4)])
  moreover have "atol (map digit_char (digits code) @ 32 # reason @ CRLF) = int code"
    using assms(1) by (intro atol_digits_stop) (simp_all add: is_digit_def status_ok_def)
  ultimately show ?thesis using status_text_line [OF assms(1)] by (simp add: ParseHttpHdrs_def Let_def)
qed

lemma fold_SetHdr_distinct:
  "distinct (map (\<lambda>h. map tolower (fst h)) (acc @ hs)) \<Longrightarrow> fold (\<lambda>(k, v). SetHdr k v) hs acc = acc @ hs"
proof (induction hs arbitrary: acc)
  case (Cons h hs)
  then have "SetHdr (fst h) (snd h) acc = acc @ [h]"
    by (subst SetHdr_fresh) (auto simp: same_key_def)
  then show ?case using Cons.IH [of "acc @ [h]"] Cons.prems by (simp add: case_prod_beta)
qed simp

lemma process_head:
  assumes "status_ok version code reason" and "\<forall>h \<in> set hs. hdr_ok h" and "distinct (map (\<lambda>h. map tolower (fst h)) hs)"
    and "uncompleteLine c = []"
  shows "ProcessHttpResponse (map Got (response_head version code reason hs @ body)) c =
    Inr (Some (status_result (int code)),
      c\<lparr>StatusLine := status_line version code reason, StatusCode := int code, htResponse := hs\<rparr>, map Got body)"
  using ParseHttpHdrs_status [OF assms(1,4), of "concat (map header_line hs) @ CRLF @ body"]
    parse_headers_all [OF assms(2), of "c\<lparr>htResponse := [], StatusLine := status_line version code reason, StatusCode := int code\<rparr>" body]
    fold_SetHdr_distinct [of "[]" hs] assms(3,4)
  by (simp add: ProcessHttpResponse_def response_head_def)

text \<open>
  C19: The head of a response that is at hand as a whole is read back as it was written: the status code, the
  header fields in their order, and not one byte of the body.  The fields are written by the same lines that \<open>BuildHttpRequest\<close> writes.
\<close>

theorem head_parsed:
  assumes "status_ok version code reason" and "\<forall>h \<in> set hs. hdr_ok h" and "distinct (map (\<lambda>h. map tolower (fst h)) hs)"
    and "uncompleteLine c = []"
  shows "ProcessHttpResponse (map Got (response_head version code reason hs @ body)) c =
    Inr (Some (status_result (int code)),
      c\<lparr>StatusLine := status_line version code reason, StatusCode := int code, htResponse := hs\<rparr>, map Got body)"
  using assms by (rule process_head)

definition sample_hdrs :: THttpHdrList where
  "sample_hdrs = [(bytes_of_string ''Server'', bytes_of_string ''nginx''), (bytes_of_string ''Content-Length'', bytes_of_string ''318'')]"

definition sample_cli :: http_cli where
  "sample_cli = \<lparr>StatusLine = [], StatusCode = 0, htResponse = [([65], [66])], uncompleteLine = []\<rparr>"

lemma sample_head_ok:
  "status_ok (bytes_of_string ''HTTP/1.1'') 200 (bytes_of_string ''OK'')" "\<forall>h \<in> set sample_hdrs. hdr_ok h"
  "distinct (map (\<lambda>h. map tolower (fst h)) sample_hdrs)"
  by (simp_all add: status_ok_def status_line_def sample_hdrs_def hdr_ok_def hdr_len_def bytes_of_string_def LINE_BUFFER_def CRLF_def
      digits.simps tolower_def)

theorem head_parsed_witness:
  "ProcessHttpResponse (map Got (response_head (bytes_of_string ''HTTP/1.1'') 200 (bytes_of_string ''OK'') sample_hdrs @ [71, 73, 70])) sample_cli =
    Inr (Some RET_OK, sample_cli\<lparr>StatusLine := status_line (bytes_of_string ''HTTP/1.1'') 200 (bytes_of_string ''OK''), StatusCode := 200,
      htResponse := sample_hdrs\<rparr>, map Got [71, 73, 70])"
  using head_parsed [OF sample_head_ok, of sample_cli "[71, 73, 70]"]
  by (simp add: sample_cli_def status_result_def H_20X_def)

section \<open>The length of the body\<close>

lemma read_number_digits:
  "\<forall>d \<in> set ds. d < 10 \<Longrightarrow> read_number (word_of_nat a) (map digit_char ds) = word_of_nat (foldl (\<lambda>v d. 10 * v + d) a ds)"
proof (induction ds arbitrary: a)
  case (Cons d ds)
  then have d: "d \<in> set [0..<10]" by simp
  moreover have "\<forall>d \<in> set [0..<10]. ucast (digit_char d :: u8) - 48 = (word_of_nat d :: 32 word)" by code_simp
  ultimately have "ucast (digit_char d :: u8) - 48 = (word_of_nat d :: 32 word)" by blast
  then show ?case
    using Cons.IH [of "10 * a + d"] Cons.prems digit_char_props(1) [of d] by (simp add: ac_simps)
qed simp

lemma GetContentLen_digits:
  "GetHdr (bytes_of_string ''Content-Length'') (htResponse c) = map digit_char (digits n) \<Longrightarrow> GetContentLen c = word_of_nat n"
  using read_number_digits [of "digits n" 0] digits_small digits_value [of n] by (simp add: GetContentLen_def)

lemma scast_small: "n < 2 ^ 31 \<Longrightarrow> scast (word_of_nat n :: 32 word) = (word_of_nat n :: u64)"
  by (simp add: scast_eq signed_of_nat signed_take_bit_int_eq_self)

text \<open>
  C20: A task takes the response whose head has been read.  With a status from 200 to 299 and a content length below
  \<open>2 ^ 31\<close>, the task other than \<open>TASK_HEAD\<close> goes on with the body, and the length announced is the one it shows; a length of 0
  counts as unknown.
\<close>

theorem head_accepted:
  assumes "status_ok version code reason" and "\<forall>h \<in> set hs. hdr_ok h" and "distinct (map (\<lambda>h. map tolower (fst h)) hs)"
    and "uncompleteLine c = []" and "H_20X (int code)" and "task_type t \<noteq> TASK_HEAD"
    and "GetHdr (bytes_of_string ''Content-Length'') hs = map digit_char (digits n)" and "n < 2 ^ 31"
  shows "\<exists>c'. ProcessHttpResponse (map Got (response_head version code reason hs @ body)) c = Inr (Some RET_OK, c', map Got body) \<and>
    processHttpRespHead (head_answers (Some RET_OK, c') a) t =
      (RET_OK, (touch (head_answers (Some RET_OK, c') a) t)\<lparr>respHeadCompleted := True,
         taskInfo := (taskInfo t)\<lparr>ti_contentLength := (if n = 0 then -1 else word_of_nat n)\<rparr>\<rparr>)"
proof -
  let ?c = "c\<lparr>StatusLine := status_line version code reason, StatusCode := int code, htResponse := hs\<rparr>"
  have read: "ProcessHttpResponse (map Got (response_head version code reason hs @ body)) c = Inr (Some RET_OK, ?c, map Got body)"
    using process_head [OF assms(1-4), of body] assms(5) by (simp add: status_result_def)
  have len: "scast (GetContentLen ?c) = (word_of_nat n :: u64)"
    using GetContentLen_digits [of ?c n] assms(7,8) scast_small by simp
  have "(word_of_nat n = (0 :: u64)) = (n = 0)" using assms(8) by (auto simp: word_of_nat_eq_0_iff dest: nat_dvd_not_less)
  then show ?thesis using read len assms(6)
    by (intro exI [of _ ?c]) (simp add: processHttpRespHead_def head_answers_def touch_def Let_def)
qed

definition sample_task :: "unit TTask" where
  "sample_task = TTask_init [104] TASK_DOWNLOAD False"

definition no_answers :: hcp_answers where
  "no_answers =
     \<lparr>an_now = 5, an_status = 0, an_hdrLen = 0, an_fd = 3, an_connect = RET_OK, an_check = RET_OK, an_proxyAuth = RET_OK, an_recvAuth = RET_OK,
      an_build = (RET_OK, 0), an_send = (RET_OK, 0), an_head = RET_OK, an_contentLen = 0, an_location = None, an_ntlmProxy = False,
      an_ntlm = RET_OK, an_recv = (RET_OK, [])\<rparr>"

theorem head_accepted_witness:
  "\<exists>c'. ProcessHttpResponse
      (map Got (response_head (bytes_of_string ''HTTP/1.1'') 200 (bytes_of_string ''OK'') sample_hdrs @ [71])) sample_cli =
        Inr (Some RET_OK, c', map Got [71]) \<and>
    processHttpRespHead (head_answers (Some RET_OK, c') no_answers) sample_task =
      (RET_OK, (touch (head_answers (Some RET_OK, c') no_answers) sample_task)\<lparr>respHeadCompleted := True,
         taskInfo := (taskInfo sample_task)\<lparr>ti_contentLength := 318\<rparr>\<rparr>)"
proof -
  have "GetHdr (bytes_of_string ''Content-Length'') sample_hdrs = map digit_char (digits 318)"
    by (simp add: sample_hdrs_def same_key_def tolower_def bytes_of_string_def digits.simps)
  then show ?thesis
    using head_accepted [OF sample_head_ok, of sample_cli sample_task 318 "[71]" no_answers]
    by (simp add: sample_cli_def sample_task_def TTask_init_def H_20X_def)
qed

section \<open>A head that comes in pieces\<close>

lemma part_of_line:
  assumes "p @ q = l @ 10 # rest" and "\<not> length (l @ [10]) \<le> length p"
  shows "set p \<subseteq> set l" "length p \<le> length l"
proof -
  obtain r where "l = p @ r" using assms by (auto simp: append_eq_append_conv2 append_eq_Cons_conv Cons_eq_append_conv)
  then show "set p \<subseteq> set l" "length p \<le> length l" by auto
qed

lemma whole_line:
  assumes "p @ q = (l @ [10]) @ rest" and "length (l @ [10]) \<le> length p"
  obtains p' where "p = (l @ [10]) @ p'" "p' @ q = rest"
  using assms that by (auto simp: append_eq_append_conv2 append_eq_Cons_conv)

lemma parse_headers_part:
  assumes "\<forall>h \<in> set hs. hdr_ok h" and "uncompleteLine c = []" and "p @ q = concat (map header_line hs) @ CRLF" and "q \<noteq> []"
  shows "\<exists>c'. parse_headers (map Got p) c = Inr (Some RET_SOCKET_ERROR, c', [])"
  using assms
proof (induction hs arbitrary: c p)
  case Nil
  then have "p = [] \<or> p = [13]" by (auto simp: CRLF_def append_eq_Cons_conv)
  then have "10 \<notin> set p" "length p < LINE_BUFFER - 1" by (auto simp: LINE_BUFFER_def)
  then show ?case using ReadLine_part [of p c] by (simp add: parse_headers.simps [of "map Got p"])
next
  case (Cons h hs)
  obtain k v where h: "h = (k, v)" by (cases h)
  let ?l = "k @ 58 # 32 # v @ [13]"
  have ok: "hdr_ok (k, v)" using Cons.prems(1) h by simp
  note l = header_line_split [OF ok]
  have cut: "p @ q = (?l @ [10]) @ concat (map header_line hs) @ CRLF" using Cons.prems(3) h by (simp add: header_line_eq)
  show ?case
  proof (cases "length (?l @ [10]) \<le> length p")
    case True
    with cut obtain p' where p': "p = (?l @ [10]) @ p'" "p' @ q = concat (map header_line hs) @ CRLF" by (rule whole_line)
    then show ?thesis
      using parse_headers_line [OF ok Cons.prems(2), of p'] Cons.prems
        Cons.IH [of "c\<lparr>htResponse := SetHdr k v (htResponse c)\<rparr>" p'] by (simp add: header_line_eq)
  next
    case False
    have "10 \<notin> set p" "length p < LINE_BUFFER - 1"
      using part_of_line [of p q ?l "concat (map header_line hs) @ CRLF"] cut False l by auto
    then show ?thesis using ReadLine_part [of p c] by (simp add: parse_headers.simps [of "map Got p"])
  qed
qed



end
