(* ===== verification/Socks_Proxy.thy ===== *)
theory Socks_Proxy
  imports Http_Response
begin

text \<open>
  The way through a SOCKS proxy: the packets of \<open>TSockProxy\<close> (\<open>SockProxy.cpp\<close>) and the exchange with a SOCKS 5 proxy that
  \<open>THttpCli\<close> leads (\<open>proxyAuth\<close>, \<open>sendSocksVersion\<close>, \<open>recvAuthResp\<close>, \<open>sendProxyRequest\<close> in \<open>HttpCli.cpp\<close>, both under
  \<open>src/src/Utility/HttpClient/src\<close>).  What \<open>TSocket::Send\<close> returns for a packet and what the name server answers are parameters; the
  bytes that come in are a list of pieces, of which a call of \<open>TSocket::Recv\<close> gets at most the first.
\<close>

section \<open>Packets\<close>

text \<open>The request is a union: the constructor is the member that has been set.  A C string stands for its bytes; its zero may be
  read too.\<close>

datatype SOCKS_REQUEST =
    Sock4 u8 u8 "16 word" u32 bytes u8
  | Sock4a u8 u8 "16 word" u32 bytes u8 bytes u8
  | Sock5 u8 u8 u8 u8 bytes "16 word"
  | Sock5auth u8 u8 bytes
  | Sock5pass u8 u8 bytes u8 bytes

definition EINVAL :: int where "EINVAL = 22"
definition ENOBUFS :: int where "ENOBUFS = 10055"
definition ENOSPC :: int where "ENOSPC = 28"
definition ENODATA :: int where "ENODATA = 61"
definition EPROTO :: int where "EPROTO = 10041"
definition EPERM :: int where "EPERM = 1"

definition SOCKS_ADDR_IPV4ADDR :: u8 where "SOCKS_ADDR_IPV4ADDR = 1"
definition SOCKS_ADDR_HOSTNAME :: u8 where "SOCKS_ADDR_HOSTNAME = 3"
definition SOCKS_ADDR_IPV6ADDR :: u8 where "SOCKS_ADDR_IPV6ADDR = 4"
definition SOCKS_ADDR_UNKNOWN :: u32 where "SOCKS_ADDR_UNKNOWN = 0x10000000"

definition read_text :: "nat \<Rightarrow> bytes \<Rightarrow> bytes outcome" where
  "read_text n s = (if n \<le> length s + 1 then Inr (take n (s @ [0])) else Inl OutOfRange)"

text \<open>\<open>htons\<close> swaps the bytes, and the lower one is sent first.\<close>

definition port_bytes :: "16 word \<Rightarrow> bytes" where
  "port_bytes w = [ucast (drop_bit 8 w), ucast w]"

definition addr_bytes :: "u32 \<Rightarrow> bytes" where
  "addr_bytes w = [ucast w, ucast (drop_bit 8 w), ucast (drop_bit 16 w), ucast (drop_bit 24 w)]"

definition address_length :: "u8 \<Rightarrow> bytes \<Rightarrow> nat" where
  "address_length ty addr =
     (if ty = SOCKS_ADDR_IPV4ADDR then 4 else if ty = SOCKS_ADDR_IPV6ADDR then 16
      else if ty = SOCKS_ADDR_HOSTNAME then 1 + unat (hd (addr @ [0]))
      else length (c_text addr))"

definition pack_bytes :: "SOCKS_REQUEST \<Rightarrow> bytes outcome" where
  "pack_bytes p =
     (case p of
        Sock4 vers cmds port addr user z \<Rightarrow> Inr ([vers, cmds] @ port_bytes port @ addr_bytes addr @ c_text user @ [z])
      | Sock4a vers cmds port addr suser z1 shost z2 \<Rightarrow>
          Inr ([vers, cmds] @ port_bytes port @ addr_bytes addr @ c_text suser @ [z1] @ c_text shost @ [z2])
      | Sock5 vers cmds rsv ty addr port \<Rightarrow>
          obind (read_text (address_length ty addr) addr) (\<lambda>a. Inr ([vers, cmds, rsv, ty] @ a @ port_bytes port))
      | Sock5auth vers lauth sauth \<Rightarrow> obind (read_text (unat lauth) sauth) (\<lambda>a. Inr ([vers, lauth] @ a))
      | Sock5pass vers luser suser lpass spass \<Rightarrow>
          obind (read_text (unat luser) suser) (\<lambda>a. obind (read_text (unat lpass) spass) (\<lambda>b.
            Inr ([vers, luser] @ a @ [lpass] @ b))))"

definition PackGet :: "nat \<Rightarrow> SOCKS_REQUEST \<Rightarrow> (int \<times> bytes) outcome" where
  "PackGet nSize p =
     obind (pack_bytes p) (\<lambda>bs.
       Inr (if length bs > nSize then (- ENOBUFS, []) else if length bs \<ge> nSize then (- ENOSPC, bs) else (int (length bs), bs)))"

definition PackSize :: "SOCKS_REQUEST \<Rightarrow> nat" where
  "PackSize p =
     (case p of
        Sock4 vers cmds port addr user z \<Rightarrow> 9 + length (c_text user)
      | Sock4a vers cmds port addr suser z1 shost z2 \<Rightarrow> 10 + length (c_text suser) + length (c_text shost)
      | Sock5 vers cmds rsv ty addr port \<Rightarrow>
          6 + (if ty = SOCKS_ADDR_IPV4ADDR then 4 else if ty = SOCKS_ADDR_IPV6ADDR then 16
               else if ty = SOCKS_ADDR_HOSTNAME then unat (hd (addr @ [0])) + 2
               else length (c_text addr) + 2)
      | Sock5auth vers lauth sauth \<Rightarrow> 4 + unat lauth
      | Sock5pass vers luser suser lpass spass \<Rightarrow> 4 + unat luser + unat lpass) + 4"

text \<open>The packet that goes out, and the result.\<close>

definition SendPacket :: "(bytes \<Rightarrow> int) \<Rightarrow> SOCKS_REQUEST \<Rightarrow> (int \<times> bytes list) outcome" where
  "SendPacket send p =
     obind (PackGet (PackSize p) p) (\<lambda>(ret, bs).
       if ret \<le> 0 then Inr (if ret \<ge> 0 then - ENODATA else ret, [])
       else
         let sent = send bs in
         Inr (if sent \<noteq> ret then if sent \<ge> 0 then - ENOSPC else sent else sent, [bs]))"

definition Send4Req :: "(bytes \<Rightarrow> int) \<Rightarrow> u8 \<Rightarrow> 16 word \<Rightarrow> u32 \<Rightarrow> bytes \<Rightarrow> (int \<times> bytes list) outcome" where
  "Send4Req send cmds port destin user = SendPacket send (Sock4 4 cmds port destin user 0)"

definition Send4aReq :: "(bytes \<Rightarrow> int) \<Rightarrow> u8 \<Rightarrow> 16 word \<Rightarrow> bytes \<Rightarrow> bytes \<Rightarrow> (int \<times> bytes list) outcome" where
  "Send4aReq send cmds port host user = SendPacket send (Sock4a 4 cmds port SOCKS_ADDR_UNKNOWN user 0 host 0)"

definition Send5Req :: "(bytes \<Rightarrow> int) \<Rightarrow> u8 \<Rightarrow> u8 \<Rightarrow> 16 word \<Rightarrow> bytes \<Rightarrow> (int \<times> bytes list) outcome" where
  "Send5Req send cmds ty port destin = SendPacket send (Sock5 5 cmds 0 ty destin port)"

definition Send5AuthReq :: "(bytes \<Rightarrow> int) \<Rightarrow> u8 \<Rightarrow> bytes \<Rightarrow> (int \<times> bytes list) outcome" where
  "Send5AuthReq send lauth sauth = SendPacket send (Sock5auth 5 lauth sauth)"

definition Send5PassReq :: "(bytes \<Rightarrow> int) \<Rightarrow> bytes \<Rightarrow> bytes \<Rightarrow> (int \<times> bytes list) outcome" where
  "Send5PassReq send user pass =
     SendPacket send (Sock5pass 1 (word_of_nat (length (c_text user))) user (word_of_nat (length (c_text pass))) pass)"

section \<open>Replies\<close>

datatype pack_type = SOCKS_PACK_PENDING | SOCKS_PACK_4REP | SOCKS_PACK_4AREP | SOCKS_PACK_5REP | SOCKS_PACK_5AUTHREP | SOCKS_PACK_5PASSREP

text \<open>The address pointer of a SOCKS 5 reply: memory that was never set, NULL, or an allocated text.\<close>

datatype reply_addr = Unset | Null | Text bytes

text \<open>The members of the union that lie over one another are one field: \<open>rp_status\<close> is the second byte of every reply,
  \<open>auths\<close> of the answer to the methods offered.  A SOCKS 4 reply puts its address where the pointer is.\<close>

record SOCKS_REPLY =
  rp_type :: pack_type
  rp_vers :: u8
  rp_status :: u8
  rp_rsv :: u8
  rp_atyp :: u8
  rp_addr :: reply_addr
  rp_port :: "16 word"
  rp_addr4 :: u32

definition TSockProxy_init :: "SOCKS_REPLY \<Rightarrow> SOCKS_REPLY" where
  "TSockProxy_init memory = memory\<lparr>rp_type := SOCKS_PACK_PENDING\<rparr>"

text \<open>\<open>memset\<close> is given the size of a pointer, which clears \<open>type\<close> and nothing else.\<close>

definition RecvDestroy :: "SOCKS_REPLY \<Rightarrow> SOCKS_REPLY outcome" where
  "RecvDestroy r =
     (if rp_type r = SOCKS_PACK_5REP then
        (case rp_addr r of
           Unset \<Rightarrow> Inl BadPointer
         | _ \<Rightarrow> Inr (r\<lparr>rp_addr := Null, rp_type := SOCKS_PACK_PENDING\<rparr>))
      else Inr (r\<lparr>rp_type := SOCKS_PACK_PENDING\<rparr>))"

text \<open>\<open>TSocket::Recv\<close>: the bytes of the first piece, as many as asked for; an empty piece is the end of the connection, and
  when nothing is there the time runs out.  Then \<open>NSR_PROCESS_SOCKSLEN\<close>.\<close>

type_synonym pieces = "bytes list"

fun Recv :: "nat \<Rightarrow> pieces \<Rightarrow> (bytes option) \<times> pieces" where
  "Recv n [] = (None, [])"
| "Recv n (b # bs) = (Some (take n b), if length b \<le> n then bs else drop n b # bs)"

definition recv_exact :: "nat \<Rightarrow> pieces \<Rightarrow> (int + bytes) \<times> pieces" where
  "recv_exact n ps =
     (case Recv n ps of
        (None, ps') \<Rightarrow> (Inl (-1), ps')
      | (Some b, ps') \<Rightarrow> (if length b < n then Inl (- EPROTO) else Inr b, ps'))"

definition word16 :: "bytes \<Rightarrow> 16 word" where
  "word16 b = ucast (b ! 0) + 256 * ucast (b ! 1)"

text \<open>The value of the two bytes, high one first, goes through \<open>ntohs\<close> once more.\<close>

definition reply_port :: "bytes \<Rightarrow> 16 word" where
  "reply_port b = word16 b"

definition reply_addr4 :: "bytes \<Rightarrow> u32" where
  "reply_addr4 b = ucast (b ! 0) + 2 ^ 8 * ucast (b ! 1) + 2 ^ 16 * ucast (b ! 2) + 2 ^ 24 * ucast (b ! 3)"

definition recv4 :: "SOCKS_REPLY \<Rightarrow> pieces \<Rightarrow> int \<times> SOCKS_REPLY \<times> pieces" where
  "recv4 r ps =
     (case recv_exact 2 ps of
        (Inl e, ps1) \<Rightarrow> (e, r, ps1)
      | (Inr a, ps1) \<Rightarrow>
          let r1 = r\<lparr>rp_vers := a ! 0, rp_status := a ! 1\<rparr> in
          (case recv_exact 2 ps1 of
             (Inl e, ps2) \<Rightarrow> (e, r1, ps2)
           | (Inr b, ps2) \<Rightarrow>
               let r2 = r1\<lparr>rp_port := reply_port b\<rparr> in
               (case recv_exact 4 ps2 of
                  (Inl e, ps3) \<Rightarrow> (e, r2, ps3)
                | (Inr c, ps3) \<Rightarrow> (EPERM, r2\<lparr>rp_addr4 := reply_addr4 c, rp_addr := Unset\<rparr>, ps3))))"

text \<open>The address of a SOCKS 5 reply; \<open>malloc\<close> gives what it is asked for.\<close>

definition recv5_addr :: "SOCKS_REPLY \<Rightarrow> pieces \<Rightarrow> (int + reply_addr) \<times> pieces" where
  "recv5_addr r ps =
     (let text = (\<lambda>n qs. case recv_exact n qs of (Inl e, qs') \<Rightarrow> (Inl e, qs') | (Inr b, qs') \<Rightarrow> (Inr (Text b), qs')) in
      if rp_atyp r = SOCKS_ADDR_IPV4ADDR then text 4 ps
      else if rp_atyp r = SOCKS_ADDR_IPV6ADDR then text 16 ps
      else if rp_atyp r = SOCKS_ADDR_HOSTNAME then
        (case recv_exact 1 ps of (Inl e, ps') \<Rightarrow> (Inl e, ps') | (Inr b, ps') \<Rightarrow> text (unat (b ! 0)) ps')
      else (Inr Null, ps))"

definition recv5 :: "SOCKS_REPLY \<Rightarrow> pieces \<Rightarrow> int \<times> SOCKS_REPLY \<times> pieces" where
  "recv5 r ps =
     (case recv_exact 4 ps of
        (Inl e, ps1) \<Rightarrow> (e, r, ps1)
      | (Inr h, ps1) \<Rightarrow>
          let r1 = r\<lparr>rp_vers := h ! 0, rp_status := h ! 1, rp_rsv := h ! 2, rp_atyp := h ! 3\<rparr> in
          if rp_status r1 \<noteq> 0 then (EPERM, r1\<lparr>rp_addr := Null, rp_port := 0\<rparr>, ps1)
          else
            (case recv5_addr r1 ps1 of
               (Inl e, ps2) \<Rightarrow> (e, r1, ps2)
             | (Inr a, ps2) \<Rightarrow>
                 let r2 = r1\<lparr>rp_addr := a\<rparr> in
                 (case recv_exact 2 ps2 of
                    (Inl e, ps3) \<Rightarrow> (e, r2, ps3)
                  | (Inr b, ps3) \<Rightarrow> (EPERM, r2\<lparr>rp_port := reply_port b\<rparr>, ps3))))"

definition recv_two :: "SOCKS_REPLY \<Rightarrow> pieces \<Rightarrow> int \<times> SOCKS_REPLY \<times> pieces" where
  "recv_two r ps =
     (case recv_exact 2 ps of
        (Inl e, ps1) \<Rightarrow> (e, r, ps1)
      | (Inr a, ps1) \<Rightarrow> (EPERM, r\<lparr>rp_vers := a ! 0, rp_status := a ! 1\<rparr>, ps1))"

definition RecvPacket :: "pack_type \<Rightarrow> SOCKS_REPLY \<Rightarrow> pieces \<Rightarrow> (int \<times> SOCKS_REPLY \<times> pieces) outcome" where
  "RecvPacket nPackType r ps =
     obind (if rp_type r \<noteq> SOCKS_PACK_PENDING then RecvDestroy r else Inr r) (\<lambda>r0.
       let r1 = (if nPackType \<noteq> SOCKS_PACK_PENDING then r0\<lparr>rp_type := nPackType\<rparr> else r0) in
       Inr (case rp_type r1 of
              SOCKS_PACK_4REP \<Rightarrow> recv4 r1 ps
            | SOCKS_PACK_4AREP \<Rightarrow> recv4 r1 ps
            | SOCKS_PACK_5REP \<Rightarrow> recv5 r1 ps
            | SOCKS_PACK_5AUTHREP \<Rightarrow> recv_two r1 ps
            | SOCKS_PACK_5PASSREP \<Rightarrow> recv_two r1 ps
            | SOCKS_PACK_PENDING \<Rightarrow> (- EINVAL, r1, ps)))"

text \<open>\<open>RecvOK\<close> for the packet that was received.\<close>

definition RecvOK :: "SOCKS_REPLY \<Rightarrow> int" where
  "RecvOK r =
     (case rp_type r of
        SOCKS_PACK_4REP \<Rightarrow> if rp_status r = 90 then 1 else 0
      | SOCKS_PACK_4AREP \<Rightarrow> if rp_status r = 90 then 1 else 0
      | SOCKS_PACK_5REP \<Rightarrow> if rp_status r = 0 then 1 else 0
      | SOCKS_PACK_5AUTHREP \<Rightarrow> if rp_status r \<le> 3 then 1 else 0
      | SOCKS_PACK_5PASSREP \<Rightarrow> if rp_status r = 0 then 1 else 0
      | SOCKS_PACK_PENDING \<Rightarrow> - EINVAL)"

section \<open>The exchange\<close>

datatype SOCKS_PROXY_STATUS = SOCKS_PROXY_INIT | SOCKS_PROXY_VER_SENT | SOCKS_PROXY_PASS_SENT | SOCKS_PROXY_REQ_SENT | SOCKS_PROXY_OK

text \<open>The connection comes first.  \<open>con\<close> are the result of \<open>connect\<close> and the error behind it, \<open>handle\<close> is the socket and \<open>created\<close> whether
  one could be made, \<open>known\<close> whether the name could be looked up; a name that could not is NULL, which \<open>inet_addr\<close> reads.  The value
  \<open>HOSTERR\<close> of another enumeration is the number of \<open>RET_PARSE_RESQ_FAIL\<close>.\<close>

definition connect_result :: "int \<times> int \<Rightarrow> RET_CODE" where
  "connect_result con =
     (if fst con = -1 then if snd con = EWOULDBLOCK then RET_SOCKET_CONTINUE else RET_SOCKET_ERROR
      else if fst con = 0 then RET_OK
      else RET_SOCKET_ERROR)"

definition Connect :: "int \<Rightarrow> bool \<Rightarrow> bool \<Rightarrow> int \<times> int \<Rightarrow> RET_CODE" where
  "Connect handle created known con =
     (if handle < 0 \<and> \<not> created then RET_SOCKET_CREATE_FAIL
      else if \<not> known then RET_SOCKET_HOST_ERROR
      else connect_result con)"

definition ConnectProxyHost :: "HTTPDOWN_ProxyType \<Rightarrow> int \<Rightarrow> bool \<Rightarrow> bool \<Rightarrow> int \<times> int \<Rightarrow> RET_CODE outcome" where
  "ConnectProxyHost ty handle created known con =
     (if handle < 0 \<and> \<not> created then Inr RET_SOCKET_CREATE_FAIL
      else
        case ty of
          HTTPDOWN_PROXY_HTTP \<Rightarrow> Inr (if \<not> known then RET_PARSE_RESQ_FAIL else connect_result con)
        | HTTPDOWN_PROXY_SOCK5 \<Rightarrow> if \<not> known then Inl NullDeref else Inr (connect_result con)
        | _ \<Rightarrow> Inr RET_OK)"

definition checkConnect :: "int \<Rightarrow> RET_CODE" where
  "checkConnect err = (if err = 0 then RET_OK else RET_SOCKET_ERROR)"

text \<open>\<open>m_socks\<close> is NULL or an object, of which the reply matters; \<open>sk_in\<close> are the bytes to come, \<open>sk_out\<close> the packets sent.\<close>

record socks_cli =
  socks_proxy_status :: SOCKS_PROXY_STATUS
  m_socks :: "SOCKS_REPLY option"
  sk_in :: pieces
  sk_out :: "bytes list"

text \<open>The answers of the world: sending, \<open>Host2Str\<close> of the proxy, \<open>Host2Ip\<close> of the server (all ones when it is not known),
  the contents of a new object and the outcome of \<open>processNtlmAuth\<close>.\<close>

record socks_env =
  ev_send :: "bytes \<Rightarrow> int"
  ev_proxy_known :: bool
  ev_addr :: u32
  ev_memory :: SOCKS_REPLY
  ev_ntlm :: RET_CODE

definition delete_socks :: "socks_cli \<Rightarrow> socks_cli outcome" where
  "delete_socks c =
     (case m_socks c of
        None \<Rightarrow> Inr c
      | Some r \<Rightarrow>
          obind (if rp_type r \<noteq> SOCKS_PACK_PENDING then RecvDestroy r else Inr r) (\<lambda>_. Inr (c\<lparr>m_socks := None\<rparr>)))"

definition socks_Disconnect :: "socks_cli \<Rightarrow> socks_cli outcome" where
  "socks_Disconnect c =
     obind (delete_socks c) (\<lambda>c1. Inr (if m_socks c = None then c1 else c1\<lparr>socks_proxy_status := SOCKS_PROXY_INIT\<rparr>))"

definition sendSocksVersion :: "socks_env \<Rightarrow> Proxy_t \<Rightarrow> socks_cli \<Rightarrow> (RET_CODE \<times> socks_cli) outcome" where
  "sendSocksVersion ev p c =
     (if px_type p \<noteq> HTTPDOWN_PROXY_SOCK5 then Inr (RET_PROXYTYPE_INVALID, c)
      else
        obind (delete_socks c) (\<lambda>c0.
          let c1 = c0\<lparr>m_socks := Some (TSockProxy_init (ev_memory ev))\<rparr>;
              sDatas = (if px_pwd p \<noteq> [] \<and> px_user p \<noteq> [] then [0, 2] else [0]) in
          if \<not> ev_proxy_known ev then Inr (RET_SOCKET_HOST_ERROR, c1)
          else
            obind (Send5AuthReq (ev_send ev) (word_of_nat (length sDatas)) sDatas) (\<lambda>(ret, out).
              let c2 = c1\<lparr>sk_out := sk_out c1 @ out\<rparr> in
              Inr (if ret \<le> 0 then (RET_SOCKET_ERROR, c2) else (RET_OK, c2\<lparr>socks_proxy_status := SOCKS_PROXY_VER_SENT\<rparr>)))))"

definition proxyAuth :: "socks_env \<Rightarrow> Proxy_t \<Rightarrow> socks_cli \<Rightarrow> (RET_CODE \<times> socks_cli) outcome" where
  "proxyAuth ev p c =
     (case px_type p of
        HTTPDOWN_PROXY_HTTP \<Rightarrow>
          Inr (if \<not> ev_proxy_known ev then RET_SOCKET_HOST_ERROR else if px_domain p \<noteq> [] then ev_ntlm ev else RET_OK, c)
      | HTTPDOWN_PROXY_SOCK5 \<Rightarrow>
          if socks_proxy_status c \<noteq> SOCKS_PROXY_INIT then Inr (RET_PROXY_DOING_AUTH, c)
          else if \<not> ev_proxy_known ev then Inr (RET_SOCKET_HOST_ERROR, c)
          else obind (sendSocksVersion ev p c) (\<lambda>(ret, c1).
                 Inr (if ret \<noteq> RET_OK then RET_PROXY_AUTH_UNSUPPORTED else RET_PROXY_BEGIN_AUTH, c1))
      | _ \<Rightarrow> Inr (RET_PROXYTYPE_INVALID, c))"

text \<open>\<open>sDatas\<close>: four bytes of the address, or the length (in one byte) and the name.\<close>

definition target_address :: "u32 \<Rightarrow> bytes \<Rightarrow> u8 \<times> bytes" where
  "target_address dwAddr host =
     (if dwAddr \<noteq> -1 then (SOCKS_ADDR_IPV4ADDR, addr_bytes dwAddr) else (SOCKS_ADDR_HOSTNAME, word_of_nat (length host) # host))"

definition sendProxyRequest :: "socks_env \<Rightarrow> URL \<Rightarrow> socks_cli \<Rightarrow> (RET_CODE \<times> socks_cli) outcome" where
  "sendProxyRequest ev u c =
     (case u_host u of
        None \<Rightarrow> Inl NullDeref
      | Some host \<Rightarrow>
          let (bPack, sDatas) = target_address (ev_addr ev) host in
          obind (Send5Req (ev_send ev) 1 bPack (word_of_int (u_port u)) sDatas) (\<lambda>(ret, out).
            let c1 = c\<lparr>sk_out := sk_out c @ out\<rparr> in
            Inr (if ret \<le> 0 then (RET_SOCKET_ERROR, c1) else (RET_PROXY_DOING_AUTH, c1\<lparr>socks_proxy_status := SOCKS_PROXY_REQ_SENT\<rparr>))))"

text \<open>\<open>RecvPacket\<close> and \<open>RecvOK\<close>, then what the state asks for.\<close>

definition receive :: "pack_type \<Rightarrow> socks_cli \<Rightarrow> (SOCKS_REPLY \<Rightarrow> socks_cli \<Rightarrow> (RET_CODE \<times> socks_cli) outcome) \<Rightarrow> (RET_CODE \<times> socks_cli) outcome" where
  "receive ty c cont =
     (case m_socks c of
        None \<Rightarrow> Inl NullDeref
      | Some r \<Rightarrow>
          obind (RecvPacket ty r (sk_in c)) (\<lambda>(ret, r1, ps).
            let c1 = c\<lparr>m_socks := Some r1, sk_in := ps\<rparr> in
            if ret \<le> 0 then Inr (RET_SOCKET_ERROR, c1)
            else if RecvOK r1 \<le> 0 then Inr (RET_PROXY_RESQ_CHECK_FAIL, c1)
            else cont r1 c1))"

definition recvAuthResp :: "socks_env \<Rightarrow> Proxy_t \<Rightarrow> URL \<Rightarrow> socks_cli \<Rightarrow> (RET_CODE \<times> socks_cli) outcome" where
  "recvAuthResp ev p u c =
     (if px_type p \<noteq> HTTPDOWN_PROXY_SOCK5 then Inr (RET_SOCKET_ERROR, c)
      else
        case socks_proxy_status c of
          SOCKS_PROXY_VER_SENT \<Rightarrow>
            receive SOCKS_PACK_5AUTHREP c (\<lambda>r c1.
              if rp_status r = 0 then sendProxyRequest ev u c1
              else if rp_status r = 2 then
                (if px_pwd p \<noteq> [] \<and> px_user p \<noteq> [] then
                   obind (Send5PassReq (ev_send ev) (px_user p) (px_pwd p)) (\<lambda>(ret, out).
                     let c2 = c1\<lparr>sk_out := sk_out c1 @ out\<rparr> in
                     Inr (if ret \<le> 0 then (RET_SOCKET_ERROR, c2)
                          else (RET_PROXY_DOING_AUTH, c2\<lparr>socks_proxy_status := SOCKS_PROXY_PASS_SENT\<rparr>)))
                 else Inr (RET_PROXY_AUTH_UNSUPPORTED, c1))
              else Inr (RET_PROXY_AUTH_UNSUPPORTED, c1))
        | SOCKS_PROXY_PASS_SENT \<Rightarrow> receive SOCKS_PACK_5PASSREP c (\<lambda>r c1. sendProxyRequest ev u c1)
        | SOCKS_PROXY_REQ_SENT \<Rightarrow>
            receive SOCKS_PACK_5REP c (\<lambda>r c1. Inr (RET_OK, c1\<lparr>socks_proxy_status := SOCKS_PROXY_OK\<rparr>))
        | _ \<Rightarrow> Inr (RET_SOCKET_ERROR, c))"

text \<open>The visits of the worker while the proxy answers: \<open>TTask::onAuthResp\<close> waits as long as the result is \<open>RET_PROXY_DOING_AUTH\<close>.\<close>

fun auth_visits :: "nat \<Rightarrow> socks_env \<Rightarrow> Proxy_t \<Rightarrow> URL \<Rightarrow> socks_cli \<Rightarrow> (RET_CODE list \<times> socks_cli) outcome" where
  "auth_visits 0 ev p u c = Inr ([], c)"
| "auth_visits (Suc n) ev p u c =
     obind (recvAuthResp ev p u c) (\<lambda>(ret, c1).
       if ret = RET_PROXY_DOING_AUTH
       then obind (auth_visits n ev p u c1) (\<lambda>(rets, c2). Inr (ret # rets, c2))
       else Inr ([ret], c1))"

definition socks_exchange :: "socks_env \<Rightarrow> Proxy_t \<Rightarrow> URL \<Rightarrow> socks_cli \<Rightarrow> (RET_CODE list \<times> socks_cli) outcome" where
  "socks_exchange ev p u c =
     obind (proxyAuth ev p c) (\<lambda>(ret, c1).
       if ret = RET_PROXY_BEGIN_AUTH
       then obind (auth_visits 3 ev p u c1) (\<lambda>(rets, c2). Inr (ret # rets, c2))
       else Inr ([ret], c1))"

section \<open>Packets fit\<close>

lemma read_text_length: "read_text n s = Inr a \<Longrightarrow> length a = n"
  by (auto simp: read_text_def split: if_splits)

lemma PackSize_enough: "pack_bytes p = Inr bs \<Longrightarrow> length bs < PackSize p"
  by (cases p) (auto simp: pack_bytes_def PackSize_def port_bytes_def addr_bytes_def address_length_def obind_eq_Inr_iff
      dest!: read_text_length)

lemma SendPacket_whole:
  assumes "pack_bytes p = Inr bs" and "bs \<noteq> []" and "send bs = int (length bs)"
  shows "SendPacket send p = Inr (int (length bs), [bs])"
  using assms PackSize_enough [OF assms(1)] by (simp add: SendPacket_def PackGet_def Let_def)

section \<open>The exchange with a proxy that answers\<close>

definition all_sent :: "socks_env \<Rightarrow> bool" where
  "all_sent ev \<longleftrightarrow> (\<forall>bs. ev_send ev bs = int (length bs))"

definition login_packet :: "Proxy_t \<Rightarrow> bytes" where
  "login_packet p = [1, word_of_nat (length (px_user p))] @ px_user p @ [word_of_nat (length (px_pwd p))] @ px_pwd p"

definition connect_packet :: "u32 \<Rightarrow> bytes \<Rightarrow> int \<Rightarrow> bytes" where
  "connect_packet addr host port =
     [5, 1, 0] @ (if addr \<noteq> -1 then 1 # addr_bytes addr else 3 # word_of_nat (length host) # host) @ port_bytes (word_of_int port)"

definition text_ok :: "bytes \<Rightarrow> bool" where
  "text_ok s \<longleftrightarrow> s \<noteq> [] \<and> 0 \<notin> set s \<and> length s < 256"

lemma read_text_all: "length s < 256 \<Longrightarrow> read_text (unat (word_of_nat (length s) :: u8)) s = Inr s"
  by (simp add: read_text_def unat_of_nat take_bit_nat_eq_self)

lemma Send5PassReq_whole:
  assumes "all_sent ev" and "text_ok (px_user p)" and "text_ok (px_pwd p)"
  shows "Send5PassReq (ev_send ev) (px_user p) (px_pwd p) = Inr (int (length (login_packet p)), [login_packet p])"
  using assms unfolding Send5PassReq_def
  by (intro SendPacket_whole) (simp_all add: pack_bytes_def read_text_all c_text_id text_ok_def login_packet_def all_sent_def)

lemma Send5Req_whole:
  assumes "all_sent ev" and "text_ok host" and "target_address addr host = (ty, s)"
  shows "Send5Req (ev_send ev) 1 ty (word_of_int port) s = Inr (int (length (connect_packet addr host port)), [connect_packet addr host port])"
  unfolding Send5Req_def
proof (rule SendPacket_whole)
  have "unat (word_of_nat (length host) :: u8) = length host" if "length host < 256"
    using that by (simp add: unat_of_nat take_bit_nat_eq_self)
  then show "pack_bytes (Sock5 5 1 0 ty s (word_of_int port)) = Inr (connect_packet addr host port)"
    using assms(2,3) by (auto simp: pack_bytes_def target_address_def connect_packet_def address_length_def read_text_def addr_bytes_def
        SOCKS_ADDR_IPV4ADDR_def SOCKS_ADDR_HOSTNAME_def SOCKS_ADDR_IPV6ADDR_def text_ok_def split: if_splits)
qed (use assms(1) in \<open>simp_all add: connect_packet_def all_sent_def\<close>)

lemma sendProxyRequest_whole:
  assumes "all_sent ev" and "text_ok host" and "u_host u = Some host"
  shows "sendProxyRequest ev u c =
    Inr (RET_PROXY_DOING_AUTH, c\<lparr>sk_out := sk_out c @ [connect_packet (ev_addr ev) host (u_port u)], socks_proxy_status := SOCKS_PROXY_REQ_SENT\<rparr>)"
  using assms Send5Req_whole [OF assms(1,2), of "ev_addr ev"] by (cases "target_address (ev_addr ev) host")
    (simp add: sendProxyRequest_def Let_def connect_packet_def)

lemma proxyAuth_begin:
  assumes "all_sent ev" and "px_type p = HTTPDOWN_PROXY_SOCK5" and "text_ok (px_user p)" and "text_ok (px_pwd p)"
    and "ev_proxy_known ev" and "socks_proxy_status c = SOCKS_PROXY_INIT" and "m_socks c = None"
  shows "proxyAuth ev p c = Inr (RET_PROXY_BEGIN_AUTH,
    c\<lparr>m_socks := Some (TSockProxy_init (ev_memory ev)), sk_out := sk_out c @ [[5, 2, 0, 2]], socks_proxy_status := SOCKS_PROXY_VER_SENT\<rparr>)"
proof -
  have "Send5AuthReq (ev_send ev) 2 [0, 2] = Inr (int (length [5, 2, 0, 2 :: u8]), [[5, 2, 0, 2]])"
    unfolding Send5AuthReq_def using assms(1)
    by (intro SendPacket_whole) (simp_all add: pack_bytes_def read_text_def all_sent_def)
  then show ?thesis using assms(2-7)
    by (simp add: proxyAuth_def sendSocksVersion_def delete_socks_def text_ok_def Let_def)
qed

lemma RecvPacket_two:
  assumes "rp_type r \<noteq> SOCKS_PACK_5REP" and "ty = SOCKS_PACK_5AUTHREP \<or> ty = SOCKS_PACK_5PASSREP"
  shows "RecvPacket ty r ([a, b] # ps) = Inr (EPERM, r\<lparr>rp_type := ty, rp_vers := a, rp_status := b\<rparr>, ps)"
  using assms by (auto simp: RecvPacket_def RecvDestroy_def recv_two_def recv_exact_def Let_def)

lemma RecvPacket_connected:
  assumes "rp_type r \<noteq> SOCKS_PACK_5REP" and "length addr = 4" and "length prt = 2"
  shows "RecvPacket SOCKS_PACK_5REP r (([5, 0, 0, 1] @ addr @ prt) # ps) =
    Inr (EPERM, r\<lparr>rp_type := SOCKS_PACK_5REP, rp_vers := 5, rp_status := 0, rp_rsv := 0, rp_atyp := 1, rp_addr := Text addr,
      rp_port := reply_port prt\<rparr>, ps)"
proof -
  have "recv_exact 4 (([5, 0, 0, 1] @ addr @ prt) # ps) = (Inr [5, 0, 0, 1], (addr @ prt) # ps)"
    "recv_exact 4 ((addr @ prt) # ps) = (Inr addr, prt # ps)" "recv_exact 2 (prt # ps) = (Inr prt, ps)"
    using assms(2,3) by (auto simp: recv_exact_def)
  then have "recv5 r' (([5, 0, 0, 1] @ addr @ prt) # ps) =
    (EPERM, r'\<lparr>rp_vers := 5, rp_status := 0, rp_rsv := 0, rp_atyp := 1, rp_addr := Text addr, rp_port := reply_port prt\<rparr>, ps)" for r'
    by (simp add: recv5_def recv5_addr_def SOCKS_ADDR_IPV4ADDR_def Let_def)
  then show ?thesis using assms(1) by (simp add: RecvPacket_def RecvDestroy_def Let_def)
qed

lemma recvAuthResp_none:
  assumes "all_sent ev" and "px_type p = HTTPDOWN_PROXY_SOCK5" and "text_ok host" and "u_host u = Some host"
    and "socks_proxy_status c = SOCKS_PROXY_VER_SENT" and "m_socks c = Some r" and "rp_type r \<noteq> SOCKS_PACK_5REP"
    and "sk_in c = [5, 0] # ps"
  shows "recvAuthResp ev p u c = Inr (RET_PROXY_DOING_AUTH,
    c\<lparr>m_socks := Some (r\<lparr>rp_type := SOCKS_PACK_5AUTHREP, rp_vers := 5, rp_status := 0\<rparr>), sk_in := ps,
      sk_out := sk_out c @ [connect_packet (ev_addr ev) host (u_port u)], socks_proxy_status := SOCKS_PROXY_REQ_SENT\<rparr>)"
  using assms(2,5-8) sendProxyRequest_whole [OF assms(1,3,4)] RecvPacket_two [OF assms(7), of SOCKS_PACK_5AUTHREP 5 0 ps]
  by (simp add: recvAuthResp_def receive_def RecvOK_def EPERM_def Let_def)

lemma recvAuthResp_passwd:
  assumes "all_sent ev" and "px_type p = HTTPDOWN_PROXY_SOCK5" and "text_ok (px_user p)" and "text_ok (px_pwd p)"
    and "socks_proxy_status c = SOCKS_PROXY_VER_SENT" and "m_socks c = Some r" and "rp_type r \<noteq> SOCKS_PACK_5REP"
    and "sk_in c = [5, 2] # ps"
  shows "recvAuthResp ev p u c = Inr (RET_PROXY_DOING_AUTH,
    c\<lparr>m_socks := Some (r\<lparr>rp_type := SOCKS_PACK_5AUTHREP, rp_vers := 5, rp_status := 2\<rparr>), sk_in := ps,
      sk_out := sk_out c @ [login_packet p], socks_proxy_status := SOCKS_PROXY_PASS_SENT\<rparr>)"
  using assms(2-8) Send5PassReq_whole [OF assms(1,3,4)] RecvPacket_two [OF assms(7), of SOCKS_PACK_5AUTHREP 5 2 ps]
  by (simp add: recvAuthResp_def receive_def RecvOK_def EPERM_def text_ok_def login_packet_def Let_def)

lemma recvAuthResp_login:
  assumes "all_sent ev" and "px_type p = HTTPDOWN_PROXY_SOCK5" and "text_ok host" and "u_host u = Some host"
    and "socks_proxy_status c = SOCKS_PROXY_PASS_SENT" and "m_socks c = Some r" and "rp_type r \<noteq> SOCKS_PACK_5REP"
    and "sk_in c = [1, 0] # ps"
  shows "recvAuthResp ev p u c = Inr (RET_PROXY_DOING_AUTH,
    c\<lparr>m_socks := Some (r\<lparr>rp_type := SOCKS_PACK_5PASSREP, rp_vers := 1, rp_status := 0\<rparr>), sk_in := ps,
      sk_out := sk_out c @ [connect_packet (ev_addr ev) host (u_port u)], socks_proxy_status := SOCKS_PROXY_REQ_SENT\<rparr>)"
  using assms(2,5-8) sendProxyRequest_whole [OF assms(1,3,4)] RecvPacket_two [OF assms(7), of SOCKS_PACK_5PASSREP 1 0 ps]
  by (simp add: recvAuthResp_def receive_def RecvOK_def EPERM_def Let_def)

lemma recvAuthResp_connected:
  assumes "px_type p = HTTPDOWN_PROXY_SOCK5" and "socks_proxy_status c = SOCKS_PROXY_REQ_SENT" and "m_socks c = Some r"
    and "rp_type r \<noteq> SOCKS_PACK_5REP" and "sk_in c = ([5, 0, 0, 1] @ addr @ prt) # ps" and "length addr = 4" and "length prt = 2"
  shows "recvAuthResp ev p u c = Inr (RET_OK,
    c\<lparr>m_socks := Some (r\<lparr>rp_type := SOCKS_PACK_5REP, rp_vers := 5, rp_status := 0, rp_rsv := 0, rp_atyp := 1, rp_addr := Text addr,
      rp_port := reply_port prt\<rparr>), sk_in := ps, socks_proxy_status := SOCKS_PROXY_OK\<rparr>)"
  using assms(1-5) RecvPacket_connected [OF assms(4,6,7), of ps]
  by (simp add: recvAuthResp_def receive_def RecvOK_def EPERM_def Let_def)

lemma visits_Suc: "recvAuthResp ev p u c = Inr (RET_PROXY_DOING_AUTH, c1) \<Longrightarrow>
    auth_visits (Suc n) ev p u c = obind (auth_visits n ev p u c1) (\<lambda>(rets, c2). Inr (RET_PROXY_DOING_AUTH # rets, c2))"
  by simp

text \<open>
  C22: The exchange with a SOCKS 5 proxy.  With a user and a password of at most 255 bytes, a server whose name
  has at most 255 bytes, a proxy that chooses either method and answers each packet in one piece, the exchange comes to its end: the
  packets sent are the offer of both methods, the user and the password when they are asked for, and the request to connect to the address of
  the server or to its name when the address is not known; then the connection is ready, and closing it frees the reply.
\<close>

theorem socks5_connected:
  assumes "all_sent ev" and "px_type p = HTTPDOWN_PROXY_SOCK5" and "text_ok (px_user p)" and "text_ok (px_pwd p)"
    and "ev_proxy_known ev" and "socks_proxy_status c = SOCKS_PROXY_INIT" and "m_socks c = None"
    and "text_ok host" and "u_host u = Some host" and "length addr = 4" and "length prt = 2"
    and "sk_in c = [5, if login then 2 else 0] # (if login then [[1, 0]] else []) @ [[5, 0, 0, 1] @ addr @ prt]"
  shows "\<exists>c'. socks_exchange ev p u c =
      Inr ([RET_PROXY_BEGIN_AUTH, RET_PROXY_DOING_AUTH] @ (if login then [RET_PROXY_DOING_AUTH] else []) @ [RET_OK], c') \<and>
    socks_proxy_status c' = SOCKS_PROXY_OK \<and> sk_in c' = [] \<and>
    sk_out c' = sk_out c @ [[5, 2, 0, 2]] @ (if login then [login_packet p] else []) @ [connect_packet (ev_addr ev) host (u_port u)] \<and>
    (\<exists>c''. socks_Disconnect c' = Inr c'' \<and> m_socks c'' = None)"
proof -
  let ?r = "TSockProxy_init (ev_memory ev)"
  have r: "rp_type ?r \<noteq> SOCKS_PACK_5REP" by (simp add: TSockProxy_init_def)
  note steps = proxyAuth_begin [OF assms(1-7)] visits_Suc [OF recvAuthResp_login [OF assms(1,2,8,9)]]
    visits_Suc [OF recvAuthResp_none [OF assms(1,2,8,9)]] visits_Suc [OF recvAuthResp_passwd [OF assms(1-4)]]
    recvAuthResp_connected [OF assms(2) _ _ _ _ assms(10,11)]
  show ?thesis
  proof (cases login)
    case True
    then show ?thesis using assms(12) r
      by (simp add: socks_exchange_def steps eval_nat_numeral del: auth_visits.simps(2))
        (simp add: steps socks_Disconnect_def delete_socks_def RecvDestroy_def)
  next
    case False
    then show ?thesis using assms(12) r
      by (simp add: socks_exchange_def steps eval_nat_numeral del: auth_visits.simps(2))
        (simp add: steps socks_Disconnect_def delete_socks_def RecvDestroy_def)
  qed
qed

definition sample_proxy :: Proxy_t where
  "sample_proxy = \<lparr>px_type = HTTPDOWN_PROXY_SOCK5, px_user = bytes_of_string ''joe'', px_pwd = bytes_of_string ''pw'', px_domain = []\<rparr>"

text \<open>A new object: no byte of it has been set.\<close>

definition sample_env :: socks_env where
  "sample_env =
     \<lparr>ev_send = (\<lambda>bs. int (length bs)), ev_proxy_known = True, ev_addr = -1,
      ev_memory = \<lparr>rp_type = SOCKS_PACK_5REP, rp_vers = 205, rp_status = 205, rp_rsv = 205, rp_atyp = 205, rp_addr = Unset, rp_port = 0, rp_addr4 = 0\<rparr>,
      ev_ntlm = RET_OK\<rparr>"

definition sample_socks :: "pieces \<Rightarrow> socks_cli" where
  "sample_socks ps = \<lparr>socks_proxy_status = SOCKS_PROXY_INIT, m_socks = None, sk_in = ps, sk_out = []\<rparr>"

lemma sample_exchange_ok:
  "all_sent sample_env" "px_type sample_proxy = HTTPDOWN_PROXY_SOCK5" "text_ok (px_user sample_proxy)" "text_ok (px_pwd sample_proxy)"
  "ev_proxy_known sample_env" "socks_proxy_status (sample_socks ps) = SOCKS_PROXY_INIT" "m_socks (sample_socks ps) = None"
  "text_ok (bytes_of_string ''h.com'')" "u_host example_target = Some (bytes_of_string ''h.com'')"
  by (simp_all add: all_sent_def text_ok_def sample_env_def sample_proxy_def sample_socks_def example_target_def bytes_of_string_def)

theorem socks5_connected_witness:
  "\<exists>c'. socks_exchange sample_env sample_proxy example_target (sample_socks [[5, 2], [1, 0], [5, 0, 0, 1, 10, 0, 0, 7, 31, 144]]) =
      Inr ([RET_PROXY_BEGIN_AUTH, RET_PROXY_DOING_AUTH, RET_PROXY_DOING_AUTH, RET_OK], c') \<and>
    socks_proxy_status c' = SOCKS_PROXY_OK \<and> sk_in c' = [] \<and>
    sk_out c' = [[5, 2, 0, 2], [1, 3, 106, 111, 101, 2, 112, 119], [5, 1, 0, 3, 5, 104, 46, 99, 111, 109, 0, 80]] \<and>
    (\<exists>c''. socks_Disconnect c' = Inr c'' \<and> m_socks c'' = None)"
proof -
  have "login_packet sample_proxy = [1, 3, 106, 111, 101, 2, 112, 119]"
    by (simp add: login_packet_def sample_proxy_def bytes_of_string_def)
  moreover have "connect_packet (ev_addr sample_env) (bytes_of_string ''h.com'') (u_port example_target) = [5, 1, 0, 3, 5, 104, 46, 99, 111, 109, 0, 80]"
    by (simp add: connect_packet_def sample_env_def example_target_def URL_init_def port_bytes_def bytes_of_string_def)
  ultimately show ?thesis
    using socks5_connected [OF sample_exchange_ok, where addr = "[10, 0, 0, 7]" and prt = "[31, 144]" and login = True]
    by (simp add: sample_socks_def)
qed

section \<open>A proxy that stops answering\<close>



end
