(* ===== verification/Spec2Isabelle.thy ===== *)
theory Spec2Isabelle
  imports Sogou_Decoder Sogou_Sbox Bus_Threads Program_Lifecycle Data_Center_Bus Data_Center_Safety PlugIn_Module CRC_Hash
    Tx_Config Web_Retry Socks_Proxy
begin

text \<open>
  Verification of UrlTraveler, a Windows client that collects the favourites of several browsers, joins them and writes them
  back.  The program is a small executable, the module manager (\<open>src/src/ModuleManager\<close>), that loads module DLLs named in
  \<open>Module.xml\<close> and passes events, messages and service calls between them.  The modules modelled here are the data centre, which
  owns the vector of favourites, the plug-in module, which loads one plug-in DLL per browser and runs the export and import
  threads, and the Web module, which asks for icons, the update configuration and update files over an HTTP library of its own.  The Sogou plug-in has its own file encryption.  The modules share a library of helpers
  (\<open>src/src/Utility\<close>).

  \<^bold>\<open>Conventions.\<close>  A struct is a record with the names of the source, an enumeration a datatype.  Bytes, wide characters and
  unsigned numbers are words of their width; signed numbers are \<open>int\<close>, with \<open>wrap32\<close> where a sum can leave the range.  What
  would be undefined behaviour is a value: \<open>Inl OutOfRange\<close>, \<open>Inl NullDeref\<close>, \<open>Inl BadPointer\<close>; a loop that does not end is
  \<open>Inl NoReturn\<close> or \<open>None\<close>.  Objects that are shared by pointers (favourites, modules) live in an explicit heap, address 0 is NULL.
  Windows, \<open>std::sort\<close>, the XML parser, the window procedures and the functions behind an interface pointer are parameters;
  what the code relies on is stated in locales (\<open>std_sort\<close>, \<open>stable_sort\<close>, \<open>bus_clients\<close>, \<open>std_map\<close>, \<open>simulation\<close>, \<open>transfer_client\<close>, \<open>named_values\<close>), each of
  which is interpreted on the definitions of the model.

  \<^bold>\<open>Theories.\<close>
  \<^item> \<open>Prelude\<close>: integer types, faults, loops that stop at a fault, byte and word lemmas.
  \<^item> \<open>Sogou_Tables\<close>, \<open>Sogou_Asm\<close>, \<open>Sogou_Decoder\<close>, \<open>Sogou_Sbox\<close>, \<open>AES_Reference\<close>: \<open>src/src/PlugIn/SogouPlugIn/Decoder.cpp\<close>.  The
    inline assembler of \<open>gen_encode_page\<close> is executed on a record of registers and stack slots.  It is AES-128 with a fixed key
    schedule, pages are encrypted with it in output feedback mode, and \<open>decode\<close> inverts \<open>encode\<close>.
  \<^item> \<open>Bus_Values\<close>, \<open>Module_Bus\<close>, \<open>Module_Impl\<close>: the numbering of events, messages and services
    (\<open>src/include/UrlTravelerHeader.h\<close>), the handler tables (\<open>src/include/Module.h\<close>), and the queues, the dispatch loop and the
    message pump of \<open>ModuleManagerImpl.cpp\<close>.  The lemmas show that a cycle handles what waits in order, that it ends when
    handlers push only values of lower rank, that an exit event stops the program and that extra information is freed once.
  \<^item> \<open>Bus_Threads\<close>: the accesses of several threads to the two vectors and the lock as a step relation; every interleaving refines
    one first-in first-out queue.
  \<^item> \<open>Module_Loader\<close>, \<open>Program_Lifecycle\<close>: \<open>ModuleList.h\<close>, the module factories, \<open>LoadModules\<close>, \<open>Init\<close>, \<open>Destroy\<close> and
    \<open>_tWinMain\<close> (\<open>ModuleManager.cpp\<close>).  They compose with the bus to a theorem about the whole run: each module is loaded, unloaded and
    deleted once.
  \<^item> \<open>Image_Helper\<close>, \<open>Data_Center\<close>, \<open>Favorite_Tree\<close>, \<open>Favorite_Edit\<close>, \<open>Data_Center_Safety\<close>, \<open>Data_Center_Bus\<close>:
    \<open>src/src/DataCenter/DataCenterModule.cpp\<close>, every handler and service.  Deleting a folder deletes exactly what lies below it, adding
    keeps the vector sorted, renumbering keeps the tree; in no reachable state is a NULL or dangling pointer followed; through the bus an event is handled in one turn and answered once.
  \<^item> \<open>PlugIn_Merge\<close>, \<open>PlugIn_Module\<close>: \<open>src/src/PlugIn/PlugInModule.cpp\<close>.  An entry stands for the path of hashes that leads to it; merging
    with a stable sort loses no path, the end of an export returns a sorted and renumbered vector with the same paths.
  \<^item> \<open>XString\<close>, \<open>String_Helper\<close>, \<open>Misc_Helper\<close>, \<open>CRC_Hash\<close>, \<open>Base64_Coding\<close>, \<open>Tx_Config\<close>: the helpers of \<open>src/src/Utility\<close>: the string class,
    splitting, replacing and hexadecimal text, domains of URLs and version numbers, the CRC-32 of titles and URLs, Base64, the configuration file.
  \<^item> \<open>Mime_Types\<close>, \<open>Http_Post\<close>, \<open>Transfer_Task\<close>, \<open>Transfer_Queue\<close>: the HTTP library \<open>src/src/Utility/HttpClient\<close>.  A task is a state machine
    (\<open>task.cpp\<close>) in one of 1024 slots (\<open>httpmanager.cpp\<close>); the worker scans the slots and the sockets (\<open>transferworker.cpp\<close>) and calls back.
    What the sockets and the connection \<open>THttpCli\<close> do is the record \<open>hcp_answers\<close>, an argument of every step.  The body of a POST request
    has the announced length, a task gets a free slot, its end is reported once, and it connects at most three times.
  \<^item> \<open>Http_Url\<close>, \<open>Http_Request\<close>, \<open>Http_Response\<close>: the texts of the library (\<open>Url.cpp\<close>, \<open>HttpCli.cpp\<close>, parts of \<open>task.cpp\<close>).  Escapes
    are decoded to what they stand for and an address is taken apart into the parts it was written from; the buffer of a request takes the
    whole request, whose \<open>Content-Length\<close> is that of the body; the head of a response is read back as it was written and accepted
    by the task, and a head that is not there as a whole fails it.  A header list is the locale \<open>named_values\<close>.
  \<^item> \<open>Socks_Proxy\<close>: the packets of a SOCKS proxy (\<open>SockProxy.cpp\<close>) and the exchange the connection leads with one (\<open>HttpCli.cpp\<close>).  Every packet
    fits its buffer, a proxy that answers is passed, and one that stops answering makes the library free a pointer that was never set.
  \<^item> \<open>Http_Client\<close>, \<open>Web_Requests\<close>, \<open>Web_Module\<close>: \<open>src/src/Web\<close>.  The client keeps the requests and their tasks and its callbacks fill the list
    of results (\<open>HttpClient.cpp\<close>, \<open>HttpHandler.cpp\<close>); the request manager numbers, sends and repeats requests and the parser turns answers into
    events (\<open>RequestManager.cpp\<close>, \<open>ResponseParser.cpp\<close>); the module has the services and the cycle (\<open>WebModule.cpp\<close>).
  \<^item> \<open>Web_Safety\<close>, \<open>Web_Retry\<close>: the module with the library running between its calls.  The callbacks interpret the locale \<open>transfer_client\<close> of
    \<open>Transfer_Queue\<close>, which carries an invariant of a client through both scans; with it, no cycle of a reachable state fails, requests stay
    consistent and are made at most three times, failures and answers reach the module that asked.  A download that is repeated, the twelfth
    response of a cycle and the progress of a large file show where the code goes wrong.
  \<^item> \<open>Std_Map\<close>: \<open>std::map\<close> as a sorted list of pairs.

  \<^bold>\<open>Fuel and bounds.\<close>  The dispatch loop, the recursions over folders (\<open>DeleteFavoriteFold\<close>, \<open>GetSubFolderId\<close>, \<open>Merge\<close>) and the
  replace loops need not end and take fuel.  Where the code does return this is proved: for the dispatch loop some fuel suffices because the
  multiset of ranks of the waiting units decreases, and more fuel gives the same result; for the folders a depth larger than the
  number of entries, or than the height of the forest, suffices.  Where it does not return, no fuel suffices.  The capacity of the
  buffer (10240) and the limits of the pushes (10000) are those of the source.  The search for a slot takes 1024 turns at most, the
  loop over the responses of a cycle twelve.

  \<^bold>\<open>Hypotheses worth knowing.\<close>  Handlers are ranked (\<open>ranked_maps\<close>) where a cycle is shown to end; the handlers of the data centre are.
  \<open>Merge\<close> needs a stable sort: \<open>std::sort\<close> does not promise one, and with another order of equal hashes favourites are lost.
  The worker of the HTTP library and the main thread take turns: a call of the client, a scan of the slots and a scan of the sockets are each one
  step (\<open>web_reach\<close>), as the locks of the code intend.  The number of requests has not come to the end of 32 bits.  A socket is what \<open>recv\<close> answers; the error codes are those of Winsock and of the C library of Windows.  A scan of the sockets
  that meets a socket whose slot is empty is a fault of the library and not followed further.

  \<^bold>\<open>Not modelled.\<close>  The windows (main frame, login, options, tray icon, screen capture), the update module and its executable, the
  database module and the directory monitor consist of calls into Windows, SQLite and DuiLib with little state of their own.  Of the HTTP library,
  sockets, name look-up and the NTLM exchange are answers; in the scans of the worker so are the texts and the exchange with a SOCKS
  proxy, which have their own theories.
  The other browser plug-ins read and write the files of their browsers over SQLite, JSON and the shell; they appear as the interface
  \<open>IPlugIn\<close>.  Code page conversions are parameters.  Third-party code is left out.
\<close>

end
